(* ===== verification/Prelude.thy ===== *)
theory Prelude
  imports Main "HOL-Library.Char_ord" "HOL-Library.List_Lexorder" "HOL-Library.Multiset"
begin

text \<open>
  Shared vocabulary of the development: the types the components have in common, decimal
  printing as Python prints integers, case folding, and the generic lemmas on lists that the
  component theories use. Python strings are modelled by \<open>string\<close>, so a character is a code
  point below 256 (Latin-1). Instants are integers, counted in microseconds since the epoch.
\<close>

type_synonym instant = int

named_theorems code_defs \<open>definitions of the model that the component proofs unfold\<close>

definition seconds :: "int \<Rightarrow> instant" where
  "seconds n = n * 1000000"

abbreviation is_Inl :: "'a + 'b \<Rightarrow> bool" where
  "is_Inl r \<equiv> (\<exists>e. r = Inl e)"

section \<open>Decimal printing\<close>

definition digit_char :: "nat \<Rightarrow> char" where
  "digit_char n = char_of (48 + n)"

fun nat_str :: "nat \<Rightarrow> string" where
  "nat_str n = (if n < 10 then [digit_char n] else nat_str (n div 10) @ [digit_char (n mod 10)])"

declare nat_str.simps [simp del]

definition int_str :: "int \<Rightarrow> string" where
  "int_str i = (if i < 0 then CHR ''-'' # nat_str (nat (- i)) else nat_str (nat i))"

definition zpad :: "nat \<Rightarrow> string \<Rightarrow> string" where
  "zpad w s = replicate (w - length s) (CHR ''0'') @ s"

definition is_digit :: "char \<Rightarrow> bool" where
  "is_digit c = (48 \<le> (of_char c :: nat) \<and> (of_char c :: nat) \<le> 57)"

definition digit_val :: "char \<Rightarrow> nat" where
  "digit_val c = (of_char c :: nat) - 48"

definition str_nat :: "string \<Rightarrow> nat" where
  "str_nat s = foldl (\<lambda>n c. 10 * n + digit_val c) 0 s"

lemma of_digit_char [simp]: "n < 10 \<Longrightarrow> (of_char (digit_char n) :: nat) = 48 + n"
  by (simp add: digit_char_def)

lemma is_digit_digit_char [simp]: "n < 10 \<Longrightarrow> is_digit (digit_char n)"
  by (simp add: is_digit_def)

lemma digit_val_digit_char [simp]: "n < 10 \<Longrightarrow> digit_val (digit_char n) = n"
  by (simp add: digit_val_def)

lemma is_digit_iff: "is_digit c \<longleftrightarrow> (\<exists>n<10. c = digit_char n)"
proof
  assume d: "is_digit c"
  then have "c = digit_char (digit_val c)"
    by (simp add: is_digit_def digit_char_def digit_val_def)
  moreover have "digit_val c < 10" using d unfolding is_digit_def digit_val_def by linarith
  ultimately show "\<exists>n<10. c = digit_char n" by blast
qed auto

lemma nat_str_digits: "c \<in> set (nat_str n) \<Longrightarrow> is_digit c"
  by (induction n rule: nat_str.induct) (subst (asm) (2) nat_str.simps, auto split: if_splits)

lemma nat_str_nonempty [simp]: "nat_str n \<noteq> []"
  by (subst nat_str.simps) simp

lemma str_nat_append_digit: "str_nat (s @ [c]) = 10 * str_nat s + digit_val c"
  by (simp add: str_nat_def)

text \<open>Parsing a printed number gives the number back.\<close>

lemma str_nat_nat_str [simp]: "str_nat (nat_str n) = n"
proof (induction n rule: nat_str.induct)
  case (1 n)
  show ?case
  proof (cases "n < 10")
    case True
    then show ?thesis by (subst nat_str.simps) (simp add: str_nat_def)
  next
    case False
    with 1 show ?thesis by (subst nat_str.simps) (simp add: str_nat_append_digit)
  qed
qed

lemma nat_str_inject [simp]: "nat_str m = nat_str n \<longleftrightarrow> m = n"
  by (metis str_nat_nat_str)

lemma not_digit_minus [simp]: "\<not> is_digit (CHR ''-'')"
  by (simp add: is_digit_def)

lemma hd_nat_str [simp]: "is_digit (hd (nat_str n))"
  by (rule nat_str_digits) (rule hd_in_set, simp)

lemma nat_str_not_minus [simp]: "nat_str n \<noteq> CHR ''-'' # s" "CHR ''-'' # s \<noteq> nat_str n"
  by (metis hd_nat_str list.sel(1) not_digit_minus)+

lemma int_str_inject [simp]: "int_str i = int_str j \<longleftrightarrow> i = j"
  by (auto simp: int_str_def)

lemma int_str_nonempty [simp]: "int_str i \<noteq> []"
  by (simp add: int_str_def)

lemma length_zpad: "length (zpad w s) = max w (length s)"
  by (simp add: zpad_def)

lemma zpad_digits: "(\<forall>c\<in>set s. is_digit c) \<Longrightarrow> (\<forall>c\<in>set (zpad w s). is_digit c)"
  by (auto simp: zpad_def is_digit_def)

lemma str_nat_replicate0: "foldl (\<lambda>n c. 10 * n + digit_val c) 0 (replicate k (CHR ''0'')) = 0"
  by (induction k) (simp_all add: digit_val_def)

lemma str_nat_zpad [simp]: "str_nat (zpad w s) = str_nat s"
  by (simp add: zpad_def str_nat_def str_nat_replicate0)

lemma length_nat_str_le: "n < 10 ^ w \<Longrightarrow> 0 < w \<Longrightarrow> length (nat_str n) \<le> w"
proof (induction n arbitrary: w rule: nat_str.induct)
  case (1 n)
  show ?case
  proof (cases "n < 10")
    case True
    with 1 show ?thesis by (subst nat_str.simps) simp
  next
    case False
    obtain v where w: "w = Suc v" using "1.prems" by (cases w) auto
    then have "0 < v" using False "1.prems" by (cases v) auto
    note w = w this
    then have "n div 10 < 10 ^ v" using "1.prems" by (simp add: less_mult_imp_div_less mult.commute)
    with 1(1) [OF False] w have "length (nat_str (n div 10)) \<le> v" by simp
    with False w show ?thesis by (subst nat_str.simps) simp
  qed
qed

section \<open>Case folding and joining\<close>

text \<open>\<open>str.lower\<close> on Latin-1: the ASCII capitals and the accented capitals, but not the
  multiplication sign (215).\<close>

definition lower_char :: "char \<Rightarrow> char" where
  "lower_char c =
     (let n = (of_char c :: nat)
      in if (65 \<le> n \<and> n \<le> 90) \<or> (192 \<le> n \<and> n \<le> 222 \<and> n \<noteq> 215) then char_of (n + 32) else c)"

definition lower :: "string \<Rightarrow> string" where
  "lower s = map lower_char s"

lemma length_lower [simp]: "length (lower s) = length s"
  by (simp add: lower_def)

lemma lower_append [simp]: "lower (s @ t) = lower s @ lower t"
  by (simp add: lower_def)

lemma lower_char_idem [simp]: "lower_char (lower_char c) = lower_char c"
proof -
  have "(of_char c :: nat) < 256" by simp
  then show ?thesis by (auto simp: lower_char_def Let_def of_char_of take_bit_eq_mod)
qed

lemma lower_idem [simp]: "lower (lower s) = lower s"
  by (simp add: lower_def)

fun join :: "string \<Rightarrow> string list \<Rightarrow> string" where
  "join sep [] = []"
| "join sep [x] = x"
| "join sep (x # y # zs) = x @ sep @ join sep (y # zs)"

section \<open>Lists\<close>

lemma take_length_filter_le: "length (filter P xs) \<le> length xs"
  by (rule length_filter_le)

lemma find_Some_in_set: "find P xs = Some x \<Longrightarrow> x \<in> set xs \<and> P x"
  by (induction xs) (auto split: if_splits)

lemma find_None_iff_all: "find P xs = None \<longleftrightarrow> (\<forall>x\<in>set xs. \<not> P x)"
  by (induction xs) auto

lemma find_only:
  assumes "x \<in> set xs" "Q x" "\<And>y. y \<in> set xs \<Longrightarrow> Q y \<Longrightarrow> y = x"
  shows "find Q xs = Some x"
proof (cases "find Q xs")
  case None
  with assms(1,2) show ?thesis by (simp add: find_None_iff_all)
next
  case (Some y)
  with assms(3) find_Some_in_set [OF Some] show ?thesis by simp
qed

lemma find_append: "find P (xs @ ys) = (case find P xs of None \<Rightarrow> find P ys | Some x \<Rightarrow> Some x)"
  by (induction xs) auto

text \<open>A map whose function keeps the predicate commutes with the search.\<close>

lemma find_map_comm:
  "(\<And>x. P (f x) = P x) \<Longrightarrow> find P (map f xs) = map_option f (find P xs)"
  by (induction xs) auto

lemma filter_map_comm: "(\<And>x. P (f x) = P x) \<Longrightarrow> filter P (map f xs) = map f (filter P xs)"
  by (induction xs) auto

section \<open>Collections as lists of documents\<close>

text \<open>\<open>update_one\<close> or \<open>find_one_and_update\<close>, \<open>update_many\<close>, \<open>delete_many\<close> and \<open>delete_one\<close> of the database driver.\<close>

fun update_first :: "('a \<Rightarrow> bool) \<Rightarrow> ('a \<Rightarrow> 'a) \<Rightarrow> 'a list \<Rightarrow> 'a list" where
  "update_first P f [] = []"
| "update_first P f (x # xs) = (if P x then f x # xs else x # update_first P f xs)"

definition update_many :: "('a \<Rightarrow> bool) \<Rightarrow> ('a \<Rightarrow> 'a) \<Rightarrow> 'a list \<Rightarrow> 'a list" where
  "update_many P f xs = map (\<lambda>x. if P x then f x else x) xs"

definition delete_many :: "('a \<Rightarrow> bool) \<Rightarrow> 'a list \<Rightarrow> 'a list" where
  "delete_many P xs = filter (\<lambda>x. \<not> P x) xs"

fun delete_first :: "('a \<Rightarrow> bool) \<Rightarrow> 'a list \<Rightarrow> 'a list" where
  "delete_first P [] = []"
| "delete_first P (x # xs) = (if P x then xs else x # delete_first P xs)"

lemma update_first_none: "\<forall>x\<in>set xs. \<not> P x \<Longrightarrow> update_first P f xs = xs"
  by (induction xs) auto

lemma in_update_first: "y \<in> set (update_first P f xs) \<Longrightarrow> y \<in> set xs \<or> (\<exists>x\<in>set xs. P x \<and> y = f x)"
  by (induction xs) (auto split: if_splits)

lemma in_update_found:
  "find P xs = Some k \<Longrightarrow> y \<in> set (update_first P f xs) \<Longrightarrow> y \<in> set xs \<or> y = f k"
  by (induction xs) (auto split: if_splits)

lemma update_found_keeps:
  "find P xs = Some k \<Longrightarrow> y \<in> set xs \<Longrightarrow> y = k \<or> y \<in> set (update_first P f xs)"
  by (induction xs) (auto split: if_splits)

lemma found_in_update: "find P xs = Some k \<Longrightarrow> f k \<in> set (update_first P f xs)"
  by (induction xs) (auto split: if_splits)

lemma in_update_many: "y \<in> set (update_many P f xs) \<longleftrightarrow> (\<exists>x\<in>set xs. y = (if P x then f x else x))"
  by (auto simp: update_many_def)

lemma in_delete_many [simp]: "y \<in> set (delete_many P xs) \<longleftrightarrow> y \<in> set xs \<and> \<not> P y"
  by (auto simp: delete_many_def)

lemma map_update_first: "(\<And>x. g (f x) = g x) \<Longrightarrow> map g (update_first P f xs) = map g xs"
  by (induction xs) auto

lemma find_update_first:
  assumes "\<And>x. P x \<Longrightarrow> P (f x)"
  shows "find P (update_first P f xs) = map_option f (find P xs)"
proof (induction xs)
  case (Cons x xs)
  then show ?case using assms [of x] by (cases "P x") simp_all
qed simp

lemma find_update_first_other:
  assumes "\<And>x. P x \<Longrightarrow> \<not> Q x \<and> \<not> Q (f x)"
  shows "find Q (update_first P f xs) = find Q xs"
proof (induction xs)
  case (Cons x xs)
  then show ?case using assms [of x] by (cases "P x"; cases "Q x") simp_all
qed simp

text \<open>Under a key that only one document has, the first match is the only one.\<close>

lemma update_first_unique:
  assumes "distinct (map k xs)" "\<And>y. P y \<Longrightarrow> k y = a"
  shows "update_first P f xs = update_many P f xs"
  using assms(1)
proof (induction xs)
  case (Cons x xs)
  show ?case
  proof (cases "P x")
    case True
    with Cons.prems assms(2) have "update_many P f xs = xs"
      by (intro map_idI [of xs "\<lambda>x. if P x then f x else x", folded update_many_def]) (force simp: image_iff)
    with True show ?thesis by (simp add: update_many_def)
  next
    case False
    with Cons show ?thesis by (simp add: update_many_def)
  qed
qed (simp add: update_many_def)

section \<open>Facts that last\<close>

text \<open>
  What several components promise: once a fact about the state holds, every step keeps it, so it holds in
  every later state.
\<close>

locale lasting =
  fixes step :: "'st \<Rightarrow> 'st \<Rightarrow> bool"
    and fact :: "'st \<Rightarrow> bool"
  assumes keep: "step st st' \<Longrightarrow> fact st \<Longrightarrow> fact st'"
begin

lemma keeps: "step\<^sup>*\<^sup>* st st' \<Longrightarrow> fact st \<Longrightarrow> fact st'"
  by (induction rule: rtranclp_induct) (auto intro: keep)

end

end
