(* ===== verification/Pyjson.thy ===== *)
theory Pyjson
  imports Prelude
begin

text \<open>
  Python values as the source stores and serialises them, and the part of the standard library's
  \<open>json\<close> and \<open>datetime\<close> the audit chain uses: \<open>json.dumps(v, sort_keys=True, ensure_ascii=True,
  default=str)\<close>, \<open>datetime.isoformat\<close> and \<open>str(datetime)\<close>. A float is carried by its \<open>repr\<close>, any
  object the encoder does not know by its \<open>str\<close>. The main result is that \<open>dumps\<close> identifies
  exactly the values with the same canonical form.
\<close>

section \<open>Datetimes\<close>

record datetime =
  dt_year :: nat
  dt_month :: nat
  dt_day :: nat
  dt_hour :: nat
  dt_minute :: nat
  dt_second :: nat
  dt_micro :: nat
  dt_offset :: "int option" \<comment> \<open>minutes east of UTC; \<open>None\<close> is a naive datetime\<close>

definition two :: "nat \<Rightarrow> string" where
  "two n = zpad 2 (nat_str n)"

definition offset_str :: "int option \<Rightarrow> string" where
  "offset_str z =
     (case z of None \<Rightarrow> []
      | Some m \<Rightarrow> (if m < 0 then ''-'' else ''+'') @
          two (nat \<bar>m\<bar> div 60) @ '':'' @ two (nat \<bar>m\<bar> mod 60))"

definition date_str :: "datetime \<Rightarrow> string" where
  "date_str d = zpad 4 (nat_str (dt_year d)) @ ''-'' @ two (dt_month d) @ ''-'' @ two (dt_day d)"

definition time_str :: "datetime \<Rightarrow> string" where
  "time_str d = two (dt_hour d) @ '':'' @ two (dt_minute d) @ '':'' @ two (dt_second d)"

definition isoformat_sep :: "string \<Rightarrow> datetime \<Rightarrow> string" where
  "isoformat_sep sep d =
     date_str d @ sep @ time_str d @
     (if dt_micro d = 0 then [] else ''.'' @ zpad 6 (nat_str (dt_micro d))) @
     offset_str (dt_offset d)"

definition isoformat :: "datetime \<Rightarrow> string" where
  "isoformat d = isoformat_sep ''T'' d"

definition datetime_str :: "datetime \<Rightarrow> string" where
  "datetime_str d = isoformat_sep '' '' d"

section \<open>Values and their JSON text\<close>

datatype pyval =
    PNone
  | PBool bool
  | PInt int
  | PFloat string \<comment> \<open>the float's \<open>repr\<close>\<close>
  | PStr string
  | PDatetime datetime
  | POther string \<comment> \<open>an object json does not know, with its \<open>str\<close>\<close>
  | PList "pyval list"
  | PDict "(string \<times> pyval) list"

definition hex_low :: "nat \<Rightarrow> char" where
  "hex_low n = (if n < 10 then char_of (48 + n) else char_of (87 + n))"

definition hex_low_val :: "char \<Rightarrow> nat" where
  "hex_low_val c = (let n = (of_char c :: nat) in if n < 58 then n - 48 else n - 87)"

definition esc :: "char \<Rightarrow> string" where
  "esc c =
     (let n = (of_char c :: nat) in
      if n = 34 then [CHR 0x5C, CHR 0x22]
      else if n = 92 then [CHR 0x5C, CHR 0x5C]
      else if n = 10 then [CHR 0x5C, CHR ''n'']
      else if n = 13 then [CHR 0x5C, CHR ''r'']
      else if n = 9 then [CHR 0x5C, CHR ''t'']
      else if n = 12 then [CHR 0x5C, CHR ''f'']
      else if n = 8 then [CHR 0x5C, CHR ''b'']
      else if 32 \<le> n \<and> n \<le> 126 then [c]
      else [CHR 0x5C, CHR ''u'', CHR ''0'', CHR ''0'', hex_low (n div 16), hex_low (n mod 16)])"

definition quote :: "string \<Rightarrow> string" where
  "quote s = CHR 0x22 # concat (map esc s) @ [CHR 0x22]"

definition render_item :: "string \<times> string \<Rightarrow> string" where
  "render_item kv = quote (fst kv) @ '': '' @ snd kv"

primrec render :: "pyval \<Rightarrow> string" where
  "render PNone = ''null''"
| "render (PBool b) = (if b then ''true'' else ''false'')"
| "render (PInt i) = int_str i"
| "render (PFloat r) = r"
| "render (PStr s) = quote s"
| "render (PDatetime d) = quote (datetime_str d)"
| "render (POther s) = quote s"
| "render (PList vs) = ''['' @ join '', '' (map render vs) @ '']''"
| "render (PDict kvs) = ''{'' @ join '', '' (map render_item (map (map_prod id render) kvs)) @ ''}''"

text \<open>\<open>sort_keys=True\<close> and \<open>default=str\<close>, applied at every level.\<close>

primrec canon :: "pyval \<Rightarrow> pyval" where
  "canon PNone = PNone"
| "canon (PBool b) = PBool b"
| "canon (PInt i) = PInt i"
| "canon (PFloat r) = PFloat r"
| "canon (PStr s) = PStr s"
| "canon (PDatetime d) = PStr (datetime_str d)"
| "canon (POther s) = PStr s"
| "canon (PList vs) = PList (map canon vs)"
| "canon (PDict kvs) = PDict (sort_key fst (map (map_prod id canon) kvs))"

definition dumps :: "pyval \<Rightarrow> string" where
  "dumps v = render (canon v)"

section \<open>Printing is injective on canonical forms\<close>

lemma hex_low_val [simp]: "n < 16 \<Longrightarrow> hex_low_val (hex_low n) = n"
  by (simp add: hex_low_val_def hex_low_def Let_def)

fun unesc :: "string \<Rightarrow> (char \<times> string) option" where
  "unesc [] = None"
| "unesc (c # r) =
     (if c \<noteq> CHR 0x5C then Some (c, r)
      else case r of
        [] \<Rightarrow> None
      | e # r' \<Rightarrow>
          if e = CHR ''n'' then Some (char_of (10::nat), r')
          else if e = CHR ''r'' then Some (char_of (13::nat), r')
          else if e = CHR ''t'' then Some (char_of (9::nat), r')
          else if e = CHR ''f'' then Some (char_of (12::nat), r')
          else if e = CHR ''b'' then Some (char_of (8::nat), r')
          else if e = CHR ''u'' then
            Some (char_of (16 * hex_low_val (r' ! 2) + hex_low_val (r' ! 3)), drop 4 r')
          else Some (e, r'))"

lemma char_by_code: "(of_char c :: nat) = n \<Longrightarrow> c = char_of n"
  by auto

lemma esc_plain:
  assumes "32 \<le> (of_char c :: nat)" "(of_char c :: nat) \<le> 126"
    "(of_char c :: nat) \<noteq> 34" "(of_char c :: nat) \<noteq> 92"
  shows "esc c = [c]" "c \<noteq> CHR 0x5C"
  using assms by (auto simp: esc_def Let_def)

lemma unesc_short:
  assumes "n \<in> {34, 92, 10, 13, 9, 12, 8 :: nat}"
  shows "unesc (esc (char_of n) @ x) = Some (char_of n, x)"
  using assms by (elim insertE emptyE) (simp_all add: esc_def Let_def char_of_def bit_iff_odd)

lemma unesc_hex:
  assumes "n < (256::nat)"
  shows "unesc ([CHR 0x5C, CHR ''u'', CHR ''0'', CHR ''0'', hex_low (n div 16), hex_low (n mod 16)] @ x)
    = Some (char_of n, x)"
proof -
  have "n div 16 < 16" using assms by linarith
  then show ?thesis by simp
qed

lemma unesc_esc: "unesc (esc c @ x) = Some (c, x)"
proof -
  consider "(of_char c :: nat) \<in> {34, 92, 10, 13, 9, 12, 8}"
    | "32 \<le> (of_char c :: nat)" "(of_char c :: nat) \<le> 126"
      "(of_char c :: nat) \<noteq> 34" "(of_char c :: nat) \<noteq> 92"
    | "(of_char c :: nat) \<notin> {34, 92, 10, 13, 9, 12, 8}"
      "\<not> (32 \<le> (of_char c :: nat) \<and> (of_char c :: nat) \<le> 126)"
    by fastforce
  then show ?thesis
  proof cases
    case 1
    then show ?thesis using unesc_short [of "of_char c" x] by simp
  next
    case 2
    then show ?thesis by (simp add: esc_plain)
  next
    case 3
    then have "esc c = [CHR 0x5C, CHR ''u'', CHR ''0'', CHR ''0'',
        hex_low ((of_char c :: nat) div 16), hex_low ((of_char c :: nat) mod 16)]"
      by (simp only: esc_def Let_def insert_iff empty_iff de_Morgan_disj if_False simp_thms)
    with unesc_hex [of "of_char c" x] show ?thesis by simp
  qed
qed

lemma esc_inject: "esc c @ x = esc d @ y \<Longrightarrow> c = d \<and> x = y"
  by (metis unesc_esc option.inject prod.inject)

lemma esc_not_quote: "esc c @ x \<noteq> CHR 0x22 # y"
proof
  assume e: "esc c @ x = CHR 0x22 # y"
  have "unesc (CHR 0x22 # y) = Some (CHR 0x22, y)" by simp
  with e have "c = CHR 0x22" using unesc_esc [of c x] by simp
  with e show False by (simp add: esc_def)
qed

lemma esc_nonempty [simp]: "esc c \<noteq> []"
  by (auto simp: esc_def Let_def)

lemma quote_body_inject:
  "concat (map esc a) @ CHR 0x22 # s = concat (map esc b) @ CHR 0x22 # t \<Longrightarrow> a = b \<and> s = t"
proof (induction a arbitrary: b)
  case Nil
  then show ?case by (cases b) (auto dest: esc_not_quote [THEN notE, OF sym])
next
  case (Cons c a)
  show ?case
  proof (cases b)
    case Nil
    with Cons.prems show ?thesis by (auto dest: esc_not_quote [THEN notE])
  next
    case b: (Cons d b')
    with Cons.prems have
      "esc c @ (concat (map esc a) @ CHR 0x22 # s) = esc d @ (concat (map esc b') @ CHR 0x22 # t)"
      by simp
    then have "c = d" "concat (map esc a) @ CHR 0x22 # s = concat (map esc b') @ CHR 0x22 # t"
      by (blast dest: esc_inject)+
    with Cons.IH b show ?thesis by blast
  qed
qed

lemma quote_inject: "quote a @ s = quote b @ t \<Longrightarrow> a = b \<and> s = t"
  using quote_body_inject [of a s b t] by (simp add: quote_def)

lemma quote_hd [simp]: "quote a \<noteq> []" "hd (quote a @ s) = CHR 0x22" "hd (quote a) = CHR 0x22"
  by (simp_all add: quote_def)

text \<open>
  Atoms (null, booleans, numbers) are words over \<open>atomch\<close>; what follows a value inside a list, an
  object or at the end never starts with such a character. A float's \<open>repr\<close> is such a word too,
  and neither an integer literal nor one of the three keywords.
\<close>

definition atomch :: "char \<Rightarrow> bool" where
  "atomch c \<longleftrightarrow> is_digit c \<or> c \<in> set ''+-.abcdefghijklmnopqrstuvwxyzINaNfty''"

definition float_repr :: "string \<Rightarrow> bool" where
  "float_repr r \<longleftrightarrow> r \<noteq> [] \<and> list_all atomch r \<and>
     list_ex (\<lambda>c. \<not> is_digit c \<and> c \<noteq> CHR ''-'') r \<and> r \<notin> {''null'', ''true'', ''false''}"

text \<open>Canonical values: what \<open>canon\<close> returns, with well-formed floats.\<close>

primrec plain :: "pyval \<Rightarrow> bool" where
  "plain PNone = True"
| "plain (PBool b) = True"
| "plain (PInt i) = True"
| "plain (PFloat r) = float_repr r"
| "plain (PStr s) = True"
| "plain (PDatetime d) = False"
| "plain (POther s) = False"
| "plain (PList vs) = list_all (\<lambda>b. b) (map plain vs)"
| "plain (PDict kvs) = list_all (\<lambda>kb. snd kb) (map (map_prod id plain) kvs)"

text \<open>Well-formed values: every float in them is a float's \<open>repr\<close>.\<close>

primrec wf_val :: "pyval \<Rightarrow> bool" where
  "wf_val PNone = True"
| "wf_val (PBool b) = True"
| "wf_val (PInt i) = True"
| "wf_val (PFloat r) = float_repr r"
| "wf_val (PStr s) = True"
| "wf_val (PDatetime d) = True"
| "wf_val (POther s) = True"
| "wf_val (PList vs) = list_all (\<lambda>b. b) (map wf_val vs)"
| "wf_val (PDict kvs) = list_all (\<lambda>kb. snd kb) (map (map_prod id wf_val) kvs)"

definition delim :: "string \<Rightarrow> bool" where
  "delim s \<longleftrightarrow> s = [] \<or> \<not> atomch (hd s)"

lemma delim_simps [simp]: "delim []" "delim (CHR '','' # s)" "delim (CHR '']'' # s)" "delim (CHR ''}'' # s)"
  by (simp_all add: delim_def atomch_def is_digit_def)

lemma takeWhile_atom: "list_all atomch a \<Longrightarrow> delim s \<Longrightarrow> takeWhile atomch (a @ s) = a"
  by (induction a) (auto simp: delim_def takeWhile_eq_Nil_iff)

lemma atom_split:
  "list_all atomch a \<Longrightarrow> list_all atomch b \<Longrightarrow> delim s \<Longrightarrow> delim t \<Longrightarrow> a @ s = b @ t \<Longrightarrow> a = b \<and> s = t"
  by (metis takeWhile_atom same_append_eq)

lemma atomch_digit [simp]: "is_digit c \<Longrightarrow> atomch c"
  by (simp add: atomch_def)

lemma int_str_chars: "c \<in> set (int_str i) \<Longrightarrow> is_digit c \<or> c = CHR ''-''"
  by (auto simp: int_str_def dest: nat_str_digits split: if_splits)

lemma int_str_atom [simp]: "list_all atomch (int_str i)"
  unfolding list_all_iff by (auto dest!: int_str_chars) (simp add: atomch_def)

lemma int_str_not_word: "\<not> is_digit c \<Longrightarrow> c \<noteq> CHR ''-'' \<Longrightarrow> int_str i \<noteq> c # s"
  by (metis int_str_chars list.set_intros(1))

lemma int_str_keyword: "int_str i \<noteq> ''null''" "int_str i \<noteq> ''true''" "int_str i \<noteq> ''false''"
  by (simp_all add: int_str_not_word is_digit_def)

fun is_atom :: "pyval \<Rightarrow> bool" where
  "is_atom PNone = True"
| "is_atom (PBool b) = True"
| "is_atom (PInt i) = True"
| "is_atom (PFloat r) = True"
| "is_atom v = False"

lemma render_atom: "is_atom v \<Longrightarrow> plain v \<Longrightarrow> list_all atomch (render v)"
  by (cases v) (auto simp: float_repr_def atomch_def)

lemma render_nonempty: "plain v \<Longrightarrow> render v \<noteq> []"
  by (cases v) (auto simp: float_repr_def)

lemma render_hd_atom: "is_atom v \<Longrightarrow> plain v \<Longrightarrow> atomch (hd (render v @ s))"
  using render_atom [of v] render_nonempty [of v] by (cases "render v") auto

lemma not_atomch [simp]: "\<not> atomch (CHR 0x22)" "\<not> atomch (CHR ''['')" "\<not> atomch (CHR ''{'')"
  by (simp_all add: atomch_def is_digit_def)

lemma int_float_differ: "float_repr r \<Longrightarrow> int_str i \<noteq> r"
  by (auto simp: float_repr_def list_ex_iff dest: int_str_chars)

lemma render_atom_inject:
  assumes "is_atom v" "is_atom w" "plain v" "plain w" "render v = render w"
  shows "v = w"
  using assms
  by (cases v; cases w)
    (auto simp: float_repr_def int_float_differ int_float_differ [symmetric]
      int_str_keyword int_str_keyword [symmetric] split: if_splits)

text \<open>
  A printer of list items whose outputs can be told apart even with text after them gives lists
  that can be told apart.
\<close>

definition split_ok :: "('a \<Rightarrow> string) \<Rightarrow> 'a \<Rightarrow> 'a \<Rightarrow> bool" where
  "split_ok p x y \<longleftrightarrow> (\<forall>s t. delim s \<longrightarrow> delim t \<longrightarrow> p x @ s = p y @ t \<longrightarrow> x = y \<and> s = t)"

lemma split_okD: "split_ok p x y \<Longrightarrow> p x @ s = p y @ t \<Longrightarrow> delim s \<Longrightarrow> delim t \<Longrightarrow> x = y \<and> s = t"
  unfolding split_ok_def by blast

definition tails :: "('a \<Rightarrow> string) \<Rightarrow> 'a list \<Rightarrow> string" where
  "tails p xs = concat (map (\<lambda>x. '', '' @ p x) xs)"

lemma tails_simps [simp]: "tails p [] = []" "tails p (x # xs) = '', '' @ p x @ tails p xs"
  by (simp_all add: tails_def)

lemma join_tails: "join '', '' (map p (x # xs)) = p x @ tails p xs"
  by (induction xs arbitrary: x) (simp_all add: tails_def)

lemma delim_tails [simp]: "delim s \<Longrightarrow> delim (tails p xs @ s)"
  by (cases xs) (simp_all add: tails_def)

lemma tails_inject:
  assumes "\<And>x y. x \<in> set xs \<Longrightarrow> y \<in> set ys \<Longrightarrow> split_ok p x y"
    and "c \<noteq> CHR '',''" "\<And>u. delim (c # u)"
    and "tails p xs @ c # s = tails p ys @ c # t"
  shows "xs = ys \<and> s = t"
  using assms(1,4)
proof (induction xs arbitrary: ys)
  case Nil
  then show ?case using assms(2) by (cases ys) auto
next
  case (Cons x xs)
  show ?case
  proof (cases ys)
    case Nil
    with Cons.prems assms(2) show ?thesis by simp
  next
    case ys: (Cons y ys')
    with Cons.prems have e: "p x @ (tails p xs @ c # s) = p y @ (tails p ys' @ c # t)" by simp
    have "split_ok p x y" using Cons.prems(1) ys by simp
    from split_okD [OF this e] assms(3)
    have "x = y" "tails p xs @ c # s = tails p ys' @ c # t" by simp_all
    with Cons.IH [of ys'] Cons.prems(1) ys show ?thesis by simp
  qed
qed

lemma join_inject:
  assumes ok: "\<And>x y. x \<in> set xs \<Longrightarrow> y \<in> set ys \<Longrightarrow> split_ok p x y"
    and hd: "\<And>x u. x \<in> set xs \<union> set ys \<Longrightarrow> hd (p x @ u) \<noteq> c \<and> p x \<noteq> []"
    and c: "c \<noteq> CHR '',''" "\<And>u. delim (c # u)"
    and eq: "join '', '' (map p xs) @ c # s = join '', '' (map p ys) @ c # t"
  shows "xs = ys \<and> s = t"
proof (cases xs)
  case Nil
  then show ?thesis
  proof (cases ys)
    case (Cons y ys')
    from eq have "c # s = p y @ tails p ys' @ c # t" unfolding Nil Cons join_tails by simp
    with hd [of y "tails p ys' @ c # t"] Cons show ?thesis by (metis UnCI list.sel(1) list.set_intros(1))
  qed (use eq Nil in simp)
next
  case xs: (Cons x xs')
  show ?thesis
  proof (cases ys)
    case Nil
    from eq have "p x @ tails p xs' @ c # s = c # t" unfolding Nil xs join_tails by simp
    with hd [of x "tails p xs' @ c # s"] xs show ?thesis by (metis UnCI list.sel(1) list.set_intros(1))
  next
    case ys: (Cons y ys')
    from eq have e: "p x @ (tails p xs' @ c # s) = p y @ (tails p ys' @ c # t)"
      unfolding xs ys join_tails by simp
    have "split_ok p x y" using ok xs ys by simp
    from split_okD [OF this e] c
    have "x = y" "tails p xs' @ c # s = tails p ys' @ c # t" by simp_all
    moreover have "xs' = ys' \<and> s = t"
      using tails_inject [of xs' ys' p c s t] ok c calculation(2) xs ys by simp
    ultimately show ?thesis using xs ys by simp
  qed
qed

lemma split_ok_item:
  assumes "split_ok render v w"
  shows "split_ok (\<lambda>kv. render_item (map_prod id render kv)) (k, v) (l, w)"
  unfolding split_ok_def
proof (intro allI impI)
  fix s t
  assume "delim s" "delim t"
    and "render_item (map_prod id render (k, v)) @ s = render_item (map_prod id render (l, w)) @ t"
  then have "quote k @ ('': '' @ render v @ s) = quote l @ ('': '' @ render w @ t)"
    by (simp add: render_item_def)
  then have "k = l" "render v @ s = render w @ t" by (auto dest: quote_inject)
  with split_okD [OF assms] \<open>delim s\<close> \<open>delim t\<close> show "(k, v) = (l, w) \<and> s = t" by simp
qed

lemma render_hd:
  "plain v \<Longrightarrow> hd (render v @ s) \<in> {CHR 0x22, CHR ''['', CHR ''{''} \<or> (is_atom v \<and> atomch (hd (render v @ s)))"
  by (cases v) (use render_hd_atom [of v s] in \<open>auto\<close>)

lemma render_hd_closer:
  assumes "plain v"
  shows "hd (render v @ s) \<noteq> CHR '']''" "hd (render v @ s) \<noteq> CHR ''}''"
proof -
  have "\<not> atomch (CHR '']'')" "\<not> atomch (CHR ''}'')" by (simp_all add: atomch_def is_digit_def)
  with render_hd [OF assms, of s]
  show "hd (render v @ s) \<noteq> CHR '']''" "hd (render v @ s) \<noteq> CHR ''}''" by auto
qed

lemma split_ok_atoms:
  assumes "is_atom v" "plain v" "plain w"
  shows "split_ok render v w" "split_ok render w v"
proof -
  have differ: "render v @ s \<noteq> render w @ t" if "\<not> is_atom w" for s t
    using that render_hd_atom [OF assms(1,2), of s] render_hd [OF assms(3), of t] by auto
  have same: "v = w \<and> s = t" if "is_atom w" "delim s" "delim t" "render v @ s = render w @ t" for s t
    using that atom_split render_atom render_atom_inject assms by metis
  show "split_ok render v w" "split_ok render w v"
    unfolding split_ok_def using differ same by metis+
qed

lemma split_ok_heads:
  assumes "\<And>s t. hd (render v @ s) \<noteq> hd (render w @ t)"
  shows "split_ok render v w"
  using assms unfolding split_ok_def by metis

lemma split_ok_list:
  assumes "\<And>x y. x \<in> set vs \<Longrightarrow> y \<in> set ws \<Longrightarrow> split_ok render x y"
    and "\<And>x. x \<in> set vs \<union> set ws \<Longrightarrow> plain x"
  shows "split_ok render (PList vs) (PList ws)"
  unfolding split_ok_def
proof (intro allI impI)
  fix s t
  assume "render (PList vs) @ s = render (PList ws) @ t"
  then have "join '', '' (map render vs) @ CHR '']'' # s = join '', '' (map render ws) @ CHR '']'' # t"
    by simp
  then have "vs = ws \<and> s = t"
    by (rule join_inject [rotated 4])
      (use assms render_hd_closer render_nonempty in auto)
  then show "PList vs = PList ws \<and> s = t" by simp
qed

lemma render_item_hd [simp]: "hd (render_item kv @ u) = CHR 0x22" "render_item kv \<noteq> []"
  by (simp_all add: render_item_def)

lemma split_ok_dict:
  assumes "\<And>k x l y. (k, x) \<in> set vs \<Longrightarrow> (l, y) \<in> set ws \<Longrightarrow> split_ok render x y"
  shows "split_ok render (PDict vs) (PDict ws)"
  unfolding split_ok_def
proof (intro allI impI)
  fix s t
  let ?p = "\<lambda>kv. render_item (map_prod id render kv)"
  assume "render (PDict vs) @ s = render (PDict ws) @ t"
  then have "join '', '' (map ?p vs) @ CHR ''}'' # s = join '', '' (map ?p ws) @ CHR ''}'' # t"
    by (simp add: comp_def)
  then have "vs = ws \<and> s = t"
    by (rule join_inject [rotated 4]) (use assms split_ok_item in fastforce)+
  then show "PDict vs = PDict ws \<and> s = t" by simp
qed

lemma split_ok_render: "plain v \<Longrightarrow> plain w \<Longrightarrow> split_ok render v w"
proof (induction v arbitrary: w)
  case (PStr a)
  show ?case
  proof (cases w)
    case (PStr b)
    then show ?thesis by (auto simp: split_ok_def dest: quote_inject)
  qed (use PStr in \<open>auto intro: split_ok_atoms split_ok_heads\<close>)
next
  case (PList vs)
  show ?case
  proof (cases w)
    case w: (PList ws)
    with PList show ?thesis by (auto intro!: split_ok_list simp: list_all_iff)
  qed (use PList in \<open>auto intro: split_ok_atoms split_ok_heads\<close>)
next
  case (PDict vs)
  show ?case
  proof (cases w)
    case w: (PDict ws)
    have "split_ok render x y" if "(k, x) \<in> set vs" "(l, y) \<in> set ws" for k x l y
      using PDict.IH [of "(k, x)" x y] PDict.prems that w by (force simp: list_all_iff)
    then show ?thesis unfolding w by (rule split_ok_dict)
  qed (use PDict in \<open>auto intro: split_ok_atoms split_ok_heads\<close>)
qed (auto intro: split_ok_atoms)

lemma render_inject: "plain v \<Longrightarrow> plain w \<Longrightarrow> render v = render w \<Longrightarrow> v = w"
  using split_okD [OF split_ok_render, of v w "[]" "[]"] by simp

lemma plain_canon: "wf_val v \<Longrightarrow> plain (canon v)"
proof (induction v)
  case (PDict kvs)
  then show ?case by (fastforce simp: list_all_iff)
qed (auto simp: list_all_iff)

text \<open>
  \<open>json.dumps\<close> is a canonical serialisation: two values get the same text exactly when they agree
  up to key order and to what \<open>default=str\<close> forgets.
\<close>

lemma dumps_eq_iff: "wf_val v \<Longrightarrow> wf_val w \<Longrightarrow> dumps v = dumps w \<longleftrightarrow> canon v = canon w"
  by (auto simp: dumps_def dest: plain_canon intro: render_inject)

lemma dumps_dict_nonempty: "dumps (PDict kvs) \<noteq> []"
  by (simp add: dumps_def)

text \<open>The keys of a dict do not move under \<open>canon\<close>, they are only sorted.\<close>

lemma map_of_sort_key: "distinct (map fst m) \<Longrightarrow> map_of (sort_key fst m) = map_of m"
  by (subst map_of_inject_set) (simp_all add: distinct_map)

lemma map_of_map_prod: "map_of (map (map_prod id f) kvs) k = map_option f (map_of kvs k)"
  by (induction kvs) auto

lemma canon_dict_lookup:
  assumes "distinct (map fst kvs)"
  shows "map_of (sort_key fst (map (map_prod id canon) kvs)) k = map_option canon (map_of kvs k)"
proof -
  have "distinct (map fst (map (map_prod id canon) kvs))" using assms by (simp add: comp_def)
  then show ?thesis by (simp only: map_of_sort_key map_of_map_prod)
qed

text \<open>Dicts with the same canonical form agree, up to \<open>canon\<close>, on every key.\<close>

lemma canon_dict_eqD:
  assumes "canon (PDict kvs) = canon (PDict lvs)" "distinct (map fst kvs)" "distinct (map fst lvs)"
  shows "map_option canon (map_of kvs k) = map_option canon (map_of lvs k)"
  using assms canon_dict_lookup [of kvs k] canon_dict_lookup [of lvs k] by simp

end
