(* ===== verification/Sha256.thy ===== *)
theory Sha256
  imports Prelude "HOL-Library.Word"
begin

text \<open>
  The part of Python's \<open>hashlib\<close> that the source calls: \<open>hashlib.sha256(b).hexdigest()\<close>, written
  out on 32-bit words (FIPS 180-4), for a message given as bytes (the characters of an ASCII
  string, which is what \<open>json.dumps(..., ensure_ascii=True).encode("utf-8")\<close> yields). The audit
  chain needs of it only that it is a function into strings of 64 characters: every theorem on
  tampering names the colliding inputs instead of assuming there are none.
\<close>

unbundle bit_operations_syntax

type_synonym w32 = "32 word"

definition sha_K :: "w32 list" where
  "sha_K = [
     1116352408, 1899447441, 3049323471, 3921009573, 961987163, 1508970993, 2453635748, 2870763221,
     3624381080, 310598401, 607225278, 1426881987, 1925078388, 2162078206, 2614888103, 3248222580,
     3835390401, 4022224774, 264347078, 604807628, 770255983, 1249150122, 1555081692, 1996064986,
     2554220882, 2821834349, 2952996808, 3210313671, 3336571891, 3584528711, 113926993, 338241895,
     666307205, 773529912, 1294757372, 1396182291, 1695183700, 1986661051, 2177026350, 2456956037,
     2730485921, 2820302411, 3259730800, 3345764771, 3516065817, 3600352804, 4094571909, 275423344,
     430227734, 506948616, 659060556, 883997877, 958139571, 1322822218, 1537002063, 1747873779,
     1955562222, 2024104815, 2227730452, 2361852424, 2428436474, 2756734187, 3204031479, 3329325298]"

definition sha_H0 :: "w32 list" where
  "sha_H0 = [1779033703, 3144134277, 1013904242, 2773480762, 1359893119, 2600822924, 528734635, 1541459225]"

definition ror :: "nat \<Rightarrow> w32 \<Rightarrow> w32" where
  "ror n x = drop_bit n x OR push_bit (32 - n) x"

definition small_sigma0 :: "w32 \<Rightarrow> w32" where
  "small_sigma0 x = ror 7 x XOR ror 18 x XOR drop_bit 3 x"

definition small_sigma1 :: "w32 \<Rightarrow> w32" where
  "small_sigma1 x = ror 17 x XOR ror 19 x XOR drop_bit 10 x"

definition big_sigma0 :: "w32 \<Rightarrow> w32" where
  "big_sigma0 x = ror 2 x XOR ror 13 x XOR ror 22 x"

definition big_sigma1 :: "w32 \<Rightarrow> w32" where
  "big_sigma1 x = ror 6 x XOR ror 11 x XOR ror 25 x"

text \<open>The message schedule: the last sixteen words, newest first, give the next one.\<close>

fun schedule :: "nat \<Rightarrow> w32 list \<Rightarrow> w32 list" where
  "schedule 0 ws = ws"
| "schedule (Suc n) ws =
     schedule n ((small_sigma1 (ws ! 1) + ws ! 6 + small_sigma0 (ws ! 14) + ws ! 15) # ws)"

definition sha_round :: "w32 list \<Rightarrow> w32 \<times> w32 \<Rightarrow> w32 list" where
  "sha_round st kw =
     (case st of [a, b, c, d, e, f, g, h] \<Rightarrow>
        let t1 = h + big_sigma1 e + ((e AND f) XOR (NOT e AND g)) + fst kw + snd kw;
            t2 = big_sigma0 a + ((a AND b) XOR (a AND c) XOR (b AND c))
        in [t1 + t2, a, b, c, d + t1, e, f, g]
      | _ \<Rightarrow> st)"

definition sha_block :: "w32 list \<Rightarrow> w32 list \<Rightarrow> w32 list" where
  "sha_block st ws =
     map2 (+) st (foldl sha_round st (zip sha_K (rev (schedule 48 (rev ws)))))"

definition word_of_bytes :: "int list \<Rightarrow> w32" where
  "word_of_bytes bs = of_int (foldl (\<lambda>n b. 256 * n + b) 0 bs)"

fun chunk :: "nat \<Rightarrow> nat \<Rightarrow> 'a list \<Rightarrow> 'a list list" where
  "chunk 0 k xs = []"
| "chunk (Suc n) k xs = take k xs # chunk n k (drop k xs)"

fun be_bytes :: "nat \<Rightarrow> int \<Rightarrow> int list" where
  "be_bytes 0 n = []"
| "be_bytes (Suc k) n = be_bytes k (n div 256) @ [n mod 256]"

text \<open>Padding: a one bit, zeros up to 56 modulo 64, the bit length in eight bytes.\<close>

definition sha_pad :: "int list \<Rightarrow> int list" where
  "sha_pad m =
     m @ 128 # replicate ((119 - length m mod 64) mod 64) 0 @ be_bytes 8 (8 * int (length m))"

definition sha_blocks :: "int list \<Rightarrow> w32 list list" where
  "sha_blocks m =
     (let p = sha_pad m
      in map (\<lambda>b. map word_of_bytes (chunk 16 4 b)) (chunk (length p div 64) 64 p))"

definition hex_digit :: "int \<Rightarrow> char" where
  "hex_digit n = (if n < 10 then char_of (48 + n) else char_of (87 + n))"

fun hex_str :: "nat \<Rightarrow> int \<Rightarrow> string" where
  "hex_str 0 n = []"
| "hex_str (Suc k) n = hex_str k (n div 16) @ [hex_digit (n mod 16)]"

definition sha256_hex :: "string \<Rightarrow> string" where
  "sha256_hex s =
     concat (map (\<lambda>w. hex_str 8 (uint w))
       (foldl sha_block sha_H0 (sha_blocks (map of_char s))))"

lemma length_hex_str [simp]: "length (hex_str k n) = k"
  by (induction k arbitrary: n) simp_all

lemma length_sha_round [simp]: "length (sha_round st kw) = length st"
  by (auto simp: sha_round_def Let_def split: list.splits)

lemma length_foldl_sha_round [simp]: "length (foldl sha_round st kws) = length st"
  by (induction kws arbitrary: st) simp_all

lemma length_sha_block [simp]: "length (sha_block st ws) = length st"
  by (simp add: sha_block_def)

lemma length_foldl_sha_block [simp]: "length (foldl sha_block st bs) = length st"
  by (induction bs arbitrary: st) simp_all

text \<open>A hex digest is always 64 characters long, so never empty.\<close>

lemma length_sha256_hex [simp]: "length (sha256_hex s) = 64"
  by (simp add: sha256_hex_def length_concat comp_def sum_list_triv sha_H0_def)

lemma sha256_hex_nonempty [simp]: "sha256_hex s \<noteq> []"
  using length_sha256_hex [of s] by (metis list.size(3) zero_neq_numeral)

end
