(* ===== verification/Hasher.thy ===== *)
theory Hasher
  imports Pyjson Sha256
begin

text \<open>
  \<open>backend/audit/chain/hasher.py\<close>: the timestamp normalisation, the dict that is hashed and the
  two digests. The module is copied verbatim into the air-gapped verifier
  (\<open>tools/sentora_verify/hasher.py\<close>), so these definitions serve both sides.
\<close>

section \<open>strptime, for the directives the hasher's formats use\<close>

text \<open>
  A directive is a list of alternatives, each a list of character classes, tried in the order of
  the regular expressions of Python's \<open>_strptime\<close>; a format is matched with backtracking over
  these, and the first match must consume the whole string.
\<close>

datatype ftok = FLit char | FYear | FMonth | FDay | FHour | FMin | FSec | FFrac | FZone

type_synonym cls = "char \<Rightarrow> bool"

definition rng :: "nat \<Rightarrow> nat \<Rightarrow> cls" where
  "rng a b c \<longleftrightarrow> is_digit c \<and> a \<le> digit_val c \<and> digit_val c \<le> b"

fun match_cls :: "cls list \<Rightarrow> string \<Rightarrow> (string \<times> string) option" where
  "match_cls [] s = Some ([], s)"
| "match_cls (k # ks) [] = None"
| "match_cls (k # ks) (c # s) =
     (if k c then map_option (\<lambda>(m, r). (c # m, r)) (match_cls ks s) else None)"

definition alts :: "cls list list \<Rightarrow> string \<Rightarrow> (string \<times> string) list" where
  "alts css s = List.map_filter (\<lambda>cs. match_cls cs s) css"

definition month_alts :: "cls list list" where
  "month_alts = [[rng 1 1, rng 0 2], [rng 0 0, rng 1 9], [rng 1 9]]"

definition day_alts :: "cls list list" where
  "day_alts = [[rng 3 3, rng 0 1], [rng 1 2, is_digit], [rng 0 0, rng 1 9], [rng 1 9],
     [\<lambda>c. c = CHR '' '', rng 1 9]]"

definition hour_alts :: "cls list list" where
  "hour_alts = [[rng 2 2, rng 0 3], [rng 0 1, is_digit], [is_digit]]"

definition min_alts :: "cls list list" where
  "min_alts = [[rng 0 5, is_digit], [is_digit]]"

definition sec_alts :: "cls list list" where
  "sec_alts = [[rng 6 6, rng 0 1], [rng 0 5, is_digit], [is_digit]]"

definition frac_alts :: "cls list list" where
  "frac_alts = map (\<lambda>k. replicate k is_digit) [6, 5, 4, 3, 2, 1]"

definition zone_alts :: "cls list list" where
  "zone_alts =
     (let colon = (\<lambda>c. c = CHR '':''); sign = (\<lambda>c. c = CHR ''+'' \<or> c = CHR ''-'');
          mm = [rng 0 5, is_digit];
          frac = map (\<lambda>k. (\<lambda>c. c = CHR ''.'') # replicate k is_digit) [6, 5, 4, 3, 2, 1] @ [[]];
          secs = concat (map (\<lambda>c2. map (\<lambda>f. c2 @ mm @ f) frac) [[colon], []]) @ [[]]
      in concat (map (\<lambda>c1. map (\<lambda>t. [sign, is_digit, is_digit] @ c1 @ mm @ t) secs) [[colon], []])
         @ [[\<lambda>c. c = CHR ''Z'']])"

text \<open>The offset of a matched \<open>%z\<close>, in seconds; \<open>None\<close> where Python raises \<open>ValueError\<close>.\<close>

definition zone_offset :: "string \<Rightarrow> int option" where
  "zone_offset z =
     (if z = ''Z'' then Some 0
      else let colon = z ! 3 = CHR '':'';
               z1 = (if colon then take 3 z @ drop 4 z else z);
               more = colon \<and> length z1 > 5
           in if more \<and> z1 ! 5 \<noteq> CHR '':'' then None
              else let z2 = (if more then take 5 z1 @ drop 6 z1 else z1);
                       ss = take 2 (drop 5 z2);
                       off = str_nat (take 2 (drop 1 z2)) * 3600 + str_nat (take 2 (drop 3 z2)) * 60
                             + str_nat ss
                   in if list_all is_digit ss \<and> off < 86400
                      then Some (if z ! 0 = CHR ''-'' then - int off else int off) else None)"

fun strp :: "ftok list \<Rightarrow> string \<Rightarrow> datetime \<Rightarrow> (datetime \<times> string \<times> string option) list" where
  "strp [] s d = [(d, s, None)]"
| "strp (FLit c # fs) s d =
     (case s of [] \<Rightarrow> [] | x # r \<Rightarrow> if lower_char x = lower_char c then strp fs r d else [])"
| "strp (FYear # fs) s d =
     concat (map (\<lambda>(m, r). strp fs r (d\<lparr>dt_year := str_nat m\<rparr>)) (alts [replicate 4 is_digit] s))"
| "strp (FMonth # fs) s d =
     concat (map (\<lambda>(m, r). strp fs r (d\<lparr>dt_month := str_nat m\<rparr>)) (alts month_alts s))"
| "strp (FDay # fs) s d =
     concat (map (\<lambda>(m, r). strp fs r (d\<lparr>dt_day := str_nat (dropWhile (\<lambda>c. c = CHR '' '') m)\<rparr>))
       (alts day_alts s))"
| "strp (FHour # fs) s d =
     concat (map (\<lambda>(m, r). strp fs r (d\<lparr>dt_hour := str_nat m\<rparr>)) (alts hour_alts s))"
| "strp (FMin # fs) s d =
     concat (map (\<lambda>(m, r). strp fs r (d\<lparr>dt_minute := str_nat m\<rparr>)) (alts min_alts s))"
| "strp (FSec # fs) s d =
     concat (map (\<lambda>(m, r). strp fs r (d\<lparr>dt_second := str_nat m\<rparr>)) (alts sec_alts s))"
| "strp (FFrac # fs) s d =
     concat (map (\<lambda>(m, r). strp fs r
       (d\<lparr>dt_micro := str_nat (m @ replicate (6 - length m) (CHR ''0''))\<rparr>)) (alts frac_alts s))"
| "strp (FZone # fs) s d =
     concat (map (\<lambda>(m, r). map (\<lambda>(d', r', _). (d', r', Some m)) (strp fs r d)) (alts zone_alts s))"

definition days_in_month :: "nat \<Rightarrow> nat \<Rightarrow> nat" where
  "days_in_month y m =
     (if m = 2 then (if y mod 4 = 0 \<and> (y mod 100 \<noteq> 0 \<or> y mod 400 = 0) then 29 else 28)
      else if m \<in> {4, 6, 9, 11} then 30 else 31)"

definition valid_datetime :: "datetime \<Rightarrow> bool" where
  "valid_datetime d \<longleftrightarrow>
     1 \<le> dt_year d \<and> dt_year d \<le> 9999 \<and> 1 \<le> dt_month d \<and> dt_month d \<le> 12 \<and>
     1 \<le> dt_day d \<and> dt_day d \<le> days_in_month (dt_year d) (dt_month d) \<and>
     dt_hour d < 24 \<and> dt_minute d < 60 \<and> dt_second d < 60 \<and> dt_micro d < 1000000"

definition epoch0 :: datetime where
  "epoch0 = \<lparr>dt_year = 1900, dt_month = 1, dt_day = 1, dt_hour = 0, dt_minute = 0, dt_second = 0,
     dt_micro = 0, dt_offset = None\<rparr>"

text \<open>\<open>datetime.strptime(s, fmt)\<close>; \<open>None\<close> is \<open>ValueError\<close>.\<close>

definition strptime :: "string \<Rightarrow> ftok list \<Rightarrow> datetime option" where
  "strptime s fmt =
     (case strp fmt s epoch0 of [] \<Rightarrow> None
      | (d, r, z) # _ \<Rightarrow>
          if r \<noteq> [] \<or> \<not> valid_datetime d then None
          else (case z of None \<Rightarrow> Some d
                | Some m \<Rightarrow> map_option (\<lambda>off. d\<lparr>dt_offset := Some (off div 60)\<rparr>) (zone_offset m)))"

definition fmt_base :: "ftok list" where
  "fmt_base = [FYear, FLit (CHR ''-''), FMonth, FLit (CHR ''-''), FDay, FLit (CHR ''T''),
     FHour, FLit (CHR '':''), FMin, FLit (CHR '':''), FSec]"

definition ts_formats :: "ftok list list" where
  "ts_formats =
     [fmt_base @ [FLit (CHR ''.''), FFrac, FZone],
      fmt_base @ [FZone],
      fmt_base @ [FLit (CHR ''.''), FFrac, FLit (CHR ''Z'')],
      fmt_base @ [FLit (CHR ''.''), FFrac],
      fmt_base @ [FLit (CHR ''Z'')],
      fmt_base]"

section \<open>Timestamp normalisation\<close>

datatype tstamp = TDate datetime | TStr string

definition normalize_datetime :: "datetime \<Rightarrow> string" where
  "normalize_datetime ts =
     (let truncated = ts\<lparr>dt_micro := dt_micro ts div 1000 * 1000\<rparr>
      in date_str truncated @ ''T'' @ time_str truncated @ ''.'' @
         zpad 3 (nat_str (dt_micro truncated div 1000)) @ ''Z'')"

fun try_formats :: "ftok list list \<Rightarrow> string \<Rightarrow> string" where
  "try_formats [] s = s"
| "try_formats (f # fs) s =
     (case strptime s f of Some d \<Rightarrow> normalize_datetime d | None \<Rightarrow> try_formats fs s)"

fun normalize_timestamp :: "tstamp \<Rightarrow> string" where
  "normalize_timestamp (TDate d) = normalize_datetime d"
| "normalize_timestamp (TStr s) = try_formats ts_formats s"

section \<open>An exported timestamp normalises to what the live one did\<close>

lemma digit_char_0: "digit_char 0 = CHR ''0''"
  by (simp add: digit_char_def char_of_def bit_iff_odd)

lemma two_digits: "n < 100 \<Longrightarrow> two n = [digit_char (n div 10), digit_char (n mod 10)]"
  unfolding two_def zpad_def
  by (cases "n < 10")
    (simp_all add: nat_str.simps [of n] nat_str.simps [of "n div 10"] digit_char_0)

lemma rng_digit_char [simp]: "n < 10 \<Longrightarrow> rng a b (digit_char n) \<longleftrightarrow> a \<le> n \<and> n \<le> b"
  by (simp add: rng_def)

lemma lower_digit [simp]: "is_digit c \<Longrightarrow> lower_char c = c"
  by (auto simp: is_digit_def lower_char_def Let_def)

lemma not_digit_lits:
  "\<not> is_digit (CHR ''-'')" "\<not> is_digit (CHR '':'')" "\<not> is_digit (CHR ''.'')"
  "\<not> is_digit (CHR ''z'')" "\<not> is_digit (CHR ''t'')" "\<not> is_digit (CHR '' '')"
  "\<not> is_digit (CHR ''+'')" "\<not> is_digit (CHR ''Z'')"
  by (simp_all add: is_digit_def)

lemma digit_char_neq [simp]:
  "n < 10 \<Longrightarrow> digit_char n \<noteq> CHR ''-''" "n < 10 \<Longrightarrow> digit_char n \<noteq> CHR '':''"
  "n < 10 \<Longrightarrow> digit_char n \<noteq> CHR ''.''" "n < 10 \<Longrightarrow> digit_char n \<noteq> CHR ''z''"
  "n < 10 \<Longrightarrow> digit_char n \<noteq> CHR ''t''" "n < 10 \<Longrightarrow> digit_char n \<noteq> CHR '' ''"
  by (metis is_digit_digit_char not_digit_lits)+

lemma lower_lits [simp]:
  "lower_char (CHR ''-'') = CHR ''-''" "lower_char (CHR '':'') = CHR '':''"
  "lower_char (CHR ''.'') = CHR ''.''" "lower_char (CHR ''+'') = CHR ''+''"
  "lower_char (CHR ''T'') = CHR ''t''" "lower_char (CHR ''Z'') = CHR ''z''"
  by (simp_all add: lower_char_def Let_def char_of_def bit_iff_odd)

lemma str_nat_two: "n < 100 \<Longrightarrow> str_nat [digit_char (n div 10), digit_char (n mod 10)] = n"
  by (simp add: str_nat_def)

lemmas field_alts = alts_def List.map_filter_simps month_alts_def day_alts_def hour_alts_def
  min_alts_def sec_alts_def

lemma strp_month:
  assumes "1 \<le> m" "m \<le> 12"
  shows "strp (FMonth # FLit (CHR ''-'') # fs) (two m @ CHR ''-'' # r) d = strp fs r (d\<lparr>dt_month := m\<rparr>)"
proof -
  have "m div 10 = 1 \<and> m mod 10 \<le> 2 \<or> m div 10 = 0 \<and> 1 \<le> m mod 10" using assms by presburger
  then show ?thesis
    using assms str_nat_two [of m] by (auto simp: two_digits field_alts)
qed

lemma strp_day:
  assumes "1 \<le> m" "m \<le> 31"
  shows "strp (FDay # FLit (CHR ''T'') # fs) (two m @ CHR ''T'' # r) d = strp fs r (d\<lparr>dt_day := m\<rparr>)"
proof -
  have "m div 10 = 3 \<and> m mod 10 \<le> 1 \<or> m div 10 = 2 \<or> m div 10 = 1 \<or> m div 10 = 0 \<and> 1 \<le> m mod 10"
    using assms by presburger
  then show ?thesis
    using assms str_nat_two [of m] by (auto simp: two_digits field_alts)
qed

lemma strp_hour:
  assumes "m < 24"
  shows "strp (FHour # FLit (CHR '':'') # fs) (two m @ CHR '':'' # r) d = strp fs r (d\<lparr>dt_hour := m\<rparr>)"
proof -
  have "m div 10 = 2 \<and> m mod 10 \<le> 3 \<or> m div 10 \<le> 1" using assms by presburger
  then show ?thesis
    using assms str_nat_two [of m] by (auto simp: two_digits field_alts)
qed

lemma strp_min:
  assumes "m < 60"
  shows "strp (FMin # FLit (CHR '':'') # fs) (two m @ CHR '':'' # r) d = strp fs r (d\<lparr>dt_minute := m\<rparr>)"
proof -
  have "m div 10 \<le> 5" using assms by presburger
  then show ?thesis
    using assms str_nat_two [of m] by (auto simp: two_digits field_alts)
qed

lemma strp_year:
  assumes "y \<le> 9999"
  shows "strp (FYear # FLit (CHR ''-'') # fs) (zpad 4 (nat_str y) @ CHR ''-'' # r) d
    = strp fs r (d\<lparr>dt_year := y\<rparr>)"
proof -
  let ?s = "zpad 4 (nat_str y)"
  have "length (nat_str y) \<le> 4" using assms by (intro length_nat_str_le) simp_all
  then have len: "length ?s = 4" by (simp add: length_zpad)
  have dig: "\<forall>c\<in>set ?s. is_digit c" by (rule zpad_digits) (auto dest: nat_str_digits)
  have val: "str_nat ?s = y" by simp
  obtain a b c e where s: "?s = [a, b, c, e]"
    using len by (auto simp: length_Suc_conv numeral_eq_Suc)
  have rep: "replicate 4 is_digit = [is_digit, is_digit, is_digit, is_digit]"
    by (simp add: numeral_eq_Suc)
  show ?thesis using dig val unfolding s by (simp add: alts_def List.map_filter_simps rep)
qed

lemma sec_two:
  assumes "m < 60"
  shows "alts sec_alts (two m @ r) = [(two m, r), ([digit_char (m div 10)], digit_char (m mod 10) # r)]"
proof -
  have "m div 10 \<le> 5" using assms by presburger
  then show ?thesis using assms by (simp add: two_digits field_alts)
qed

lemma strp_prefix:
  assumes "valid_datetime d"
  shows "strp (fmt_base @ fs) (date_str d @ CHR ''T'' # time_str d @ r) epoch0 =
    strp (FSec # fs) (two (dt_second d) @ r)
      (epoch0\<lparr>dt_year := dt_year d, dt_month := dt_month d, dt_day := dt_day d,
         dt_hour := dt_hour d, dt_minute := dt_minute d\<rparr>)"
proof -
  have b: "dt_year d \<le> 9999" "1 \<le> dt_month d" "dt_month d \<le> 12" "1 \<le> dt_day d" "dt_day d \<le> 31"
    "dt_hour d < 24" "dt_minute d < 60"
    using assms by (auto simp: valid_datetime_def days_in_month_def split: if_splits)
  show ?thesis
    using strp_year [OF b(1)] strp_month [OF b(2,3)] strp_day [OF b(4,5)] strp_hour [OF b(6)]
      strp_min [OF b(7)]
    by (simp add: fmt_base_def date_str_def time_str_def del: strp.simps)
qed

text \<open>What follows the seconds decides which of the six formats applies.\<close>

lemma zone_none: "c \<notin> {CHR ''+'', CHR ''-'', CHR ''Z''} \<Longrightarrow> alts zone_alts (c # s) = []"
  by (simp add: alts_def zone_alts_def Let_def List.map_filter_simps)

lemma zone_empty: "alts zone_alts [] = []"
  by (simp add: alts_def zone_alts_def Let_def List.map_filter_simps)

lemma zone_utc: "alts zone_alts ''+00:00'' = [(''+00:00'', [])]"
  by (simp add: alts_def zone_alts_def Let_def List.map_filter_simps rng_def digit_val_def is_digit_def)

lemma zone_offset_utc: "zone_offset ''+00:00'' = Some 0"
  by (simp add: zone_offset_def Let_def str_nat_def digit_val_def)

definition micro6 :: "nat \<Rightarrow> string" where
  "micro6 u = zpad 6 (nat_str u)"

lemma micro6_chars:
  assumes "u < 1000000"
  obtains a b c e f g where "micro6 u = [a, b, c, e, f, g]"
    "is_digit a" "is_digit b" "is_digit c" "is_digit e" "is_digit f" "is_digit g"
    "str_nat [a, b, c, e, f, g] = u"
proof -
  have "length (nat_str u) \<le> 6" using assms by (intro length_nat_str_le) simp_all
  then have "length (micro6 u) = 6" by (simp add: micro6_def length_zpad)
  moreover have "\<forall>c\<in>set (micro6 u). is_digit c"
    unfolding micro6_def by (rule zpad_digits) (auto dest: nat_str_digits)
  moreover have "str_nat (micro6 u) = u" by (simp add: micro6_def)
  ultimately show thesis
    by (auto simp: length_Suc_conv numeral_eq_Suc intro!: that)
qed

lemma frac_six:
  assumes "micro6 u = [a, b, c, e, f, g]" "u < 1000000"
    "r = [] \<or> \<not> is_digit (hd r)"
  shows "alts frac_alts (micro6 u @ r) =
    [(micro6 u, r), ([a, b, c, e, f], g # r), ([a, b, c, e], f # g # r),
     ([a, b, c], e # f # g # r), ([a, b], c # e # f # g # r), ([a], b # c # e # f # g # r)]"
proof -
  have d: "\<forall>c\<in>set (micro6 u). is_digit c"
    unfolding micro6_def by (rule zpad_digits) (auto dest: nat_str_digits)
  then show ?thesis
    unfolding assms(1) by (simp add: alts_def frac_alts_def List.map_filter_simps numeral_eq_Suc)
qed

lemma digit_not_zone: "is_digit c \<Longrightarrow> c \<notin> {CHR ''+'', CHR ''-'', CHR ''Z''}"
  by (auto simp: not_digit_lits)

lemma sec_chars:
  "m < 60 \<Longrightarrow> alts sec_alts (digit_char (m div 10) # digit_char (m mod 10) # r) =
    [([digit_char (m div 10), digit_char (m mod 10)], r), ([digit_char (m div 10)], digit_char (m mod 10) # r)]"
  using sec_two [of m r] by (simp add: two_digits)

lemma zone_digit: "is_digit c \<Longrightarrow> alts zone_alts (c # s) = []"
  using digit_not_zone zone_none by blast

lemma strp_utc_micro:
  assumes "sec < 60" "u < 1000000"
  shows "\<exists>rest. strp [FSec, FLit (CHR ''.''), FFrac, FZone] (two sec @ CHR ''.'' # micro6 u @ ''+00:00'') d =
    (d\<lparr>dt_second := sec, dt_micro := u\<rparr>, [], Some ''+00:00'') # rest"
proof -
  obtain a b c e f g where m: "micro6 u = [a, b, c, e, f, g]"
    and dg: "is_digit a" "is_digit b" "is_digit c" "is_digit e" "is_digit f" "is_digit g"
    and v: "str_nat [a, b, c, e, f, g] = u" using micro6_chars [OF assms(2)] .
  have fr: "alts frac_alts (micro6 u @ ''+00:00'') =
      [(micro6 u, ''+00:00''), ([a, b, c, e, f], g # ''+00:00''), ([a, b, c, e], f # g # ''+00:00''),
       ([a, b, c], e # f # g # ''+00:00''), ([a, b], c # e # f # g # ''+00:00''),
       ([a], b # c # e # f # g # ''+00:00'')]"
    by (rule frac_six [OF m assms(2)]) (simp add: not_digit_lits)
  show ?thesis
    using dg v str_nat_two [of sec] assms(1)
    by (simp add: sec_chars fr [unfolded m, simplified] m zone_utc zone_digit two_digits)
qed

lemma strp_utc_plain:
  assumes "sec < 60"
  shows "strp [FSec, FLit (CHR ''.''), FFrac, FZone] (two sec @ ''+00:00'') d = []"
    and "strp [FSec, FZone] (two sec @ ''+00:00'') d = [(d\<lparr>dt_second := sec\<rparr>, [], Some ''+00:00'')]"
  using assms str_nat_two [of sec]
  by (simp_all add: sec_chars zone_utc zone_digit two_digits)

lemma strp_naive_micro:
  assumes "sec < 60" "u < 1000000"
  shows "strp [FSec, FLit (CHR ''.''), FFrac, FZone] (two sec @ CHR ''.'' # micro6 u) d = []"
    and "strp [FSec, FZone] (two sec @ CHR ''.'' # micro6 u) d = []"
    and "strp [FSec, FLit (CHR ''.''), FFrac, FLit (CHR ''Z'')] (two sec @ CHR ''.'' # micro6 u) d = []"
    and "\<exists>rest. strp [FSec, FLit (CHR ''.''), FFrac] (two sec @ CHR ''.'' # micro6 u) d =
      (d\<lparr>dt_second := sec, dt_micro := u\<rparr>, [], None) # rest"
proof -
  obtain a b c e f g where m: "micro6 u = [a, b, c, e, f, g]"
    and dg: "is_digit a" "is_digit b" "is_digit c" "is_digit e" "is_digit f" "is_digit g"
    and v: "str_nat [a, b, c, e, f, g] = u" using micro6_chars [OF assms(2)] .
  have fr: "alts frac_alts (micro6 u) =
      [(micro6 u, []), ([a, b, c, e, f], [g]), ([a, b, c, e], [f, g]),
       ([a, b, c], [e, f, g]), ([a, b], [c, e, f, g]), ([a], [b, c, e, f, g])]"
    using frac_six [OF m assms(2), of "[]"] by simp
  have nz: "is_digit x \<Longrightarrow> x \<noteq> CHR ''z''" for x by (auto simp: not_digit_lits)
  note facts = dg v nz str_nat_two [of sec] assms(1)
  note simps = m sec_chars fr [unfolded m, simplified] zone_digit zone_empty
    zone_none two_digits nz
  show "strp [FSec, FLit (CHR ''.''), FFrac, FZone] (two sec @ CHR ''.'' # micro6 u) d = []"
    using facts by (simp add: simps)
  show "strp [FSec, FZone] (two sec @ CHR ''.'' # micro6 u) d = []"
    using facts by (simp add: simps)
  show "strp [FSec, FLit (CHR ''.''), FFrac, FLit (CHR ''Z'')] (two sec @ CHR ''.'' # micro6 u) d = []"
    using facts by (simp add: simps)
  show "\<exists>rest. strp [FSec, FLit (CHR ''.''), FFrac] (two sec @ CHR ''.'' # micro6 u) d =
      (d\<lparr>dt_second := sec, dt_micro := u\<rparr>, [], None) # rest"
    using facts by (simp add: simps)
qed

lemma strp_naive_plain:
  assumes "sec < 60"
  shows "strp [FSec, FLit (CHR ''.''), FFrac, FZone] (two sec) d = []"
    and "strp [FSec, FZone] (two sec) d = []"
    and "strp [FSec, FLit (CHR ''.''), FFrac, FLit (CHR ''Z'')] (two sec) d = []"
    and "strp [FSec, FLit (CHR ''.''), FFrac] (two sec) d = []"
    and "strp [FSec, FLit (CHR ''Z'')] (two sec) d = []"
    and "\<exists>rest. strp [FSec] (two sec) d = (d\<lparr>dt_second := sec\<rparr>, [], None) # rest"
  using assms str_nat_two [of sec]
  by (simp_all add: sec_chars zone_empty zone_digit two_digits)

definition same_fields :: "datetime \<Rightarrow> datetime \<Rightarrow> bool" where
  "same_fields d e \<longleftrightarrow> d\<lparr>dt_offset := None\<rparr> = e\<lparr>dt_offset := None\<rparr>"

lemma normalize_same_fields: "same_fields d e \<Longrightarrow> normalize_datetime d = normalize_datetime e"
  by (cases d; cases e)
    (simp add: same_fields_def normalize_datetime_def date_str_def time_str_def Let_def)

lemma strptimeI:
  assumes "strp f s epoch0 = (e, [], z) # rest" "valid_datetime d" "same_fields e d"
    "z = None \<or> z = Some ''+00:00''"
  shows "\<exists>d'. strptime s f = Some d' \<and> same_fields d' d"
proof -
  have "valid_datetime e"
    using assms(2,3) by (cases d; cases e) (simp add: same_fields_def valid_datetime_def)
  then show ?thesis
    using assms(1,3,4) by (auto simp: strptime_def zone_offset_utc same_fields_def)
qed

lemma isoformat_shape:
  "isoformat d = date_str d @ CHR ''T'' # time_str d @
     (if dt_micro d = 0 then [] else CHR ''.'' # micro6 (dt_micro d)) @ offset_str (dt_offset d)"
  by (simp add: isoformat_def isoformat_sep_def micro6_def)

lemma offset_utc: "offset_str (Some 0) = ''+00:00''" "offset_str None = []"
  by (simp_all add: offset_str_def two_digits digit_char_0)

lemma try_hit:
  "strptime s f = Some d' \<Longrightarrow> same_fields d' d \<Longrightarrow> try_formats (f # fs) s = normalize_datetime d"
  by (simp add: normalize_same_fields)

lemma try_miss: "strp f s epoch0 = [] \<Longrightarrow> try_formats (f # fs) s = try_formats fs s"
  by (simp add: strptime_def)

lemma normalize_isoformat:
  assumes v: "valid_datetime d" and z: "dt_offset d = None \<or> dt_offset d = Some 0"
  shows "normalize_timestamp (TStr (isoformat d)) = normalize_datetime d"
proof -
  let ?e = "epoch0\<lparr>dt_year := dt_year d, dt_month := dt_month d, dt_day := dt_day d,
         dt_hour := dt_hour d, dt_minute := dt_minute d\<rparr>"
  have b: "dt_second d < 60" "dt_micro d < 1000000" using v by (auto simp: valid_datetime_def)
  note pre = strp_prefix [OF v]
  have same: "same_fields (?e\<lparr>dt_second := dt_second d, dt_micro := dt_micro d\<rparr>) d"
    by (cases d) (simp add: same_fields_def epoch0_def)
  have same0: "same_fields (?e\<lparr>dt_second := dt_second d\<rparr>) d" if "dt_micro d = 0"
    using that by (cases d) (simp add: same_fields_def epoch0_def)
  consider (utc) "dt_offset d = Some 0" "dt_micro d \<noteq> 0" | (utc0) "dt_offset d = Some 0" "dt_micro d = 0"
    | (naive) "dt_offset d = None" "dt_micro d \<noteq> 0" | (naive0) "dt_offset d = None" "dt_micro d = 0"
    using z by (cases "dt_micro d = 0") auto
  then show ?thesis
  proof cases
    case utc
    then have iso: "isoformat d = date_str d @ CHR ''T'' # time_str d @ CHR ''.'' # micro6 (dt_micro d) @ ''+00:00''"
      by (simp add: isoformat_shape offset_utc)
    show ?thesis
      using strp_utc_micro [OF b, of ?e] pre
        strptimeI [OF _ v same, of "fmt_base @ [FLit (CHR ''.''), FFrac, FZone]" "isoformat d"]
      by (force simp: iso ts_formats_def intro: try_hit simp del: strp.simps try_formats.simps)
  next
    case utc0
    then have iso: "isoformat d = date_str d @ CHR ''T'' # time_str d @ ''+00:00''"
      by (simp add: isoformat_shape offset_utc)
    have "\<exists>d'. strptime (isoformat d) (fmt_base @ [FZone]) = Some d' \<and> same_fields d' d"
      using strp_utc_plain(2) [OF b(1), of ?e] pre
      by (intro strptimeI [OF _ v same0 [OF utc0(2)]]) (auto simp: iso simp del: strp.simps)
    moreover have "strp (fmt_base @ [FLit (CHR ''.''), FFrac, FZone]) (isoformat d) epoch0 = []"
      using strp_utc_plain(1) [OF b(1), of ?e] pre by (simp add: iso del: strp.simps)
    ultimately show ?thesis
      by (auto simp: ts_formats_def try_miss simp del: try_formats.simps intro: try_hit)
  next
    case naive
    then have iso: "isoformat d = date_str d @ CHR ''T'' # time_str d @ CHR ''.'' # micro6 (dt_micro d)"
      by (simp add: isoformat_shape offset_utc)
    note steps = strp_naive_micro [OF b, of ?e]
    have "\<exists>d'. strptime (isoformat d) (fmt_base @ [FLit (CHR ''.''), FFrac]) = Some d' \<and> same_fields d' d"
      using steps(4) pre
      by (elim exE, intro strptimeI [OF _ v same]) (auto simp: iso simp del: strp.simps)
    moreover have "strp (fmt_base @ [FLit (CHR ''.''), FFrac, FZone]) (isoformat d) epoch0 = []"
      "strp (fmt_base @ [FZone]) (isoformat d) epoch0 = []"
      "strp (fmt_base @ [FLit (CHR ''.''), FFrac, FLit (CHR ''Z'')]) (isoformat d) epoch0 = []"
      using steps(1-3) pre by (simp_all add: iso del: strp.simps)
    ultimately show ?thesis
      by (auto simp: ts_formats_def try_miss simp del: try_formats.simps intro: try_hit)
  next
    case naive0
    then have iso: "isoformat d = date_str d @ CHR ''T'' # time_str d @ []"
      by (simp add: isoformat_shape offset_utc)
    note steps = strp_naive_plain [OF b(1), of ?e]
    have "\<exists>d'. strptime (isoformat d) (fmt_base @ []) = Some d' \<and> same_fields d' d"
      using steps(6) pre [of "[]" "[]"]
      by (elim exE, intro strptimeI [OF _ v same0 [OF naive0(2)]]) (auto simp: iso simp del: strp.simps)
    moreover have "strp (fmt_base @ [FLit (CHR ''.''), FFrac, FZone]) (isoformat d) epoch0 = []"
      "strp (fmt_base @ [FZone]) (isoformat d) epoch0 = []"
      "strp (fmt_base @ [FLit (CHR ''.''), FFrac, FLit (CHR ''Z'')]) (isoformat d) epoch0 = []"
      "strp (fmt_base @ [FLit (CHR ''.''), FFrac]) (isoformat d) epoch0 = []"
      "strp (fmt_base @ [FLit (CHR ''Z'')]) (isoformat d) epoch0 = []"
      using steps(1-5) pre [of _ "[]"] by (simp_all only: iso append_Nil2)
    ultimately show ?thesis
      by (auto simp: ts_formats_def try_miss simp del: try_formats.simps intro: try_hit)
  qed
qed

section \<open>Chained entries and their digests\<close>

text \<open>
  \<open>ChainedAuditEntry\<close> (\<open>entities.py\<close>), the document that \<open>append_chained_entry\<close> writes. The
  timestamp is a datetime in the database and a string in an export.
\<close>

record chained_entry =
  e_sequence :: int
  e_epoch :: int
  e_timestamp :: tstamp
  e_domain :: string
  e_action :: string
  e_actor :: string
  e_status :: string
  e_summary :: string
  e_details :: pyval
  e_tenant_id :: "string option"
  e_previous_hash :: "string option"
  e_hash :: string
  e_is_epoch_start :: bool
  e_is_epoch_end :: bool
  e_previous_epoch_hash :: "string option"

definition GENESIS_SENTINEL :: string where
  "GENESIS_SENTINEL = ''GENESIS''"

definition CHAIN_ALGORITHM :: string where
  "CHAIN_ALGORITHM = ''SHA-256''"

definition opt_str :: "string option \<Rightarrow> pyval" where
  "opt_str x = (case x of None \<Rightarrow> PNone | Some s \<Rightarrow> PStr s)"

definition tstamp_val :: "tstamp \<Rightarrow> pyval" where
  "tstamp_val t = (case t of TDate d \<Rightarrow> PDatetime d | TStr s \<Rightarrow> PStr s)"

text \<open>Python's \<open>previous_hash or GENESIS_SENTINEL\<close>: the empty string is falsy too.\<close>

definition prev_or_genesis :: "string option \<Rightarrow> string" where
  "prev_or_genesis p =
     (case p of None \<Rightarrow> GENESIS_SENTINEL | Some h \<Rightarrow> if h = [] then GENESIS_SENTINEL else h)"

definition hashable_items :: "chained_entry \<Rightarrow> string option \<Rightarrow> (string \<times> pyval) list" where
  "hashable_items e p =
     [(''sequence'', PInt (e_sequence e)),
      (''epoch'', PInt (e_epoch e)),
      (''timestamp'', PStr (normalize_timestamp (e_timestamp e))),
      (''domain'', PStr (e_domain e)),
      (''action'', PStr (e_action e)),
      (''actor'', PStr (e_actor e)),
      (''status'', PStr (e_status e)),
      (''summary'', PStr (e_summary e)),
      (''details'', e_details e),
      (''tenant_id'', opt_str (e_tenant_id e)),
      (''previous_hash'', PStr (prev_or_genesis p))]"

definition build_hashable :: "chained_entry \<Rightarrow> string option \<Rightarrow> pyval" where
  "build_hashable e p = PDict (hashable_items e p)"

definition compute_entry_hash :: "chained_entry \<Rightarrow> string option \<Rightarrow> string" where
  "compute_entry_hash e p = sha256_hex (dumps (build_hashable e p))"

text \<open>The whole entry as the dict that an export carries.\<close>

definition entry_doc :: "chained_entry \<Rightarrow> pyval" where
  "entry_doc e = PDict
     [(''sequence'', PInt (e_sequence e)),
      (''epoch'', PInt (e_epoch e)),
      (''timestamp'', tstamp_val (e_timestamp e)),
      (''domain'', PStr (e_domain e)),
      (''action'', PStr (e_action e)),
      (''actor'', PStr (e_actor e)),
      (''status'', PStr (e_status e)),
      (''summary'', PStr (e_summary e)),
      (''details'', e_details e),
      (''tenant_id'', opt_str (e_tenant_id e)),
      (''previous_hash'', opt_str (e_previous_hash e)),
      (''is_epoch_start'', PBool (e_is_epoch_start e)),
      (''is_epoch_end'', PBool (e_is_epoch_end e)),
      (''previous_epoch_hash'', opt_str (e_previous_epoch_hash e)),
      (''hash'', PStr (e_hash e))]"

definition compute_export_hash :: "chained_entry list \<Rightarrow> string" where
  "compute_export_hash es = sha256_hex (concat (map (\<lambda>e. dumps (entry_doc e)) es))"

section \<open>What the entry hash covers\<close>

definition same_content :: "chained_entry \<Rightarrow> chained_entry \<Rightarrow> bool" where
  "same_content a b \<longleftrightarrow>
     e_sequence a = e_sequence b \<and> e_epoch a = e_epoch b \<and>
     normalize_timestamp (e_timestamp a) = normalize_timestamp (e_timestamp b) \<and>
     e_domain a = e_domain b \<and> e_action a = e_action b \<and> e_actor a = e_actor b \<and>
     e_status a = e_status b \<and> e_summary a = e_summary b \<and>
     canon (e_details a) = canon (e_details b) \<and> e_tenant_id a = e_tenant_id b"

lemma distinct_hashable_keys: "distinct (map fst (hashable_items e p))"
  by (simp add: hashable_items_def)

lemma canon_opt_str [simp]: "canon (opt_str x) = opt_str x"
  by (simp add: opt_str_def split: option.splits)

lemma opt_str_inject [simp]: "opt_str x = opt_str y \<longleftrightarrow> x = y"
  by (auto simp: opt_str_def split: option.splits)

lemma wf_opt_str [simp]: "wf_val (opt_str x)"
  by (simp add: opt_str_def split: option.splits)

lemma wf_build_hashable [simp]: "wf_val (build_hashable e p) \<longleftrightarrow> wf_val (e_details e)"
  by (simp add: build_hashable_def hashable_items_def)

lemma canon_hashable_iff:
  "canon (build_hashable a p) = canon (build_hashable b q) \<longleftrightarrow>
     same_content a b \<and> prev_or_genesis p = prev_or_genesis q"
  (is "?l \<longleftrightarrow> ?r")
proof
  assume l: ?l
  have f: "map_option canon (map_of (hashable_items a p) k) = map_option canon (map_of (hashable_items b q) k)" for k
    using canon_dict_eqD [OF l [unfolded build_hashable_def] distinct_hashable_keys distinct_hashable_keys] .
  show ?r
    using f [of "''sequence''"] f [of "''epoch''"] f [of "''timestamp''"] f [of "''domain''"]
      f [of "''action''"] f [of "''actor''"] f [of "''status''"] f [of "''summary''"]
      f [of "''details''"] f [of "''tenant_id''"] f [of "''previous_hash''"]
    by (simp add: hashable_items_def same_content_def)
next
  assume ?r
  then show ?l by (simp add: build_hashable_def hashable_items_def same_content_def)
qed

text \<open>
  Two entries have the same canonical text exactly when they agree on every hashed field and on
  the previous hash: nothing an auditor reads can change without changing the text that is
  hashed.
\<close>

lemma hashable_text_iff:
  assumes "wf_val (e_details a)" "wf_val (e_details b)"
  shows "dumps (build_hashable a p) = dumps (build_hashable b q) \<longleftrightarrow>
    same_content a b \<and> prev_or_genesis p = prev_or_genesis q"
  using assms by (simp add: dumps_eq_iff canon_hashable_iff)

lemma compute_entry_hash_cong:
  "same_content a b \<Longrightarrow> prev_or_genesis p = prev_or_genesis q \<Longrightarrow> compute_entry_hash a p = compute_entry_hash b q"
  using canon_hashable_iff [of a p b q] by (simp add: compute_entry_hash_def dumps_def)

lemma compute_entry_hash_nonempty [simp]: "compute_entry_hash e p \<noteq> []"
  by (simp add: compute_entry_hash_def)

lemma prev_or_genesis_Some [simp]: "h \<noteq> [] \<Longrightarrow> prev_or_genesis (Some h) = h"
  by (simp add: prev_or_genesis_def)

end
