(* ===== verification/Lease.thy ===== *)
theory Lease
  imports Prelude
begin

text \<open>
  \<open>backend/utils/distributed_lock.py\<close> and \<open>backend/utils/leader_election.py\<close>: two advisory claims
  kept as one MongoDB document each, with a time to live. A collection is a map from the
  document's \<open>_id\<close>; every database call is one atomic step on it. \<open>ttl_reap\<close> is MongoDB's TTL
  monitor, configured on \<open>expires_at\<close> in \<open>db_indexes.py\<close>.
\<close>

section \<open>The interface of a lease\<close>

datatype 'o lease_op = Try 'o instant | Refresh 'o instant | Resign 'o | Reap instant

locale lease =
  fixes attempt :: "'o \<Rightarrow> instant \<Rightarrow> 't \<Rightarrow> bool \<times> 't"
    and refresh :: "'o \<Rightarrow> instant \<Rightarrow> 't \<Rightarrow> 't"
    and resign :: "'o \<Rightarrow> 't \<Rightarrow> 't"
    and reap :: "instant \<Rightarrow> 't \<Rightarrow> 't"
    and claim :: "'t \<Rightarrow> ('o \<times> instant) option"
    and ttl :: instant
  assumes attempt_won: "fst (attempt p now t) \<Longrightarrow> claim (snd (attempt p now t)) = Some (p, now + ttl)"
    and attempt_lost: "\<not> fst (attempt p now t) \<Longrightarrow> claim (snd (attempt p now t)) = claim t"
    and attempt_free: "claim t = None \<Longrightarrow> fst (attempt p now t)"
    and attempt_held: "claim t = Some (q, x) \<Longrightarrow> q \<noteq> p \<Longrightarrow> now \<le> x \<Longrightarrow> \<not> fst (attempt p now t)"
    and refresh_other: "claim t = Some (q, x) \<Longrightarrow> q \<noteq> p \<Longrightarrow> claim (refresh p now t) = claim t"
    and resign_other: "claim t = Some (q, x) \<Longrightarrow> q \<noteq> p \<Longrightarrow> claim (resign p t) = claim t"
    and reap_live: "claim t = Some (q, x) \<Longrightarrow> now \<le> x \<Longrightarrow> claim (reap now t) = claim t"
    and refresh_own: "claim t = Some (q, x) \<Longrightarrow> claim (refresh q now t) = Some (q, now + ttl)"
    and resign_own: "claim t = Some (q, x) \<Longrightarrow> claim (resign q t) = None"
    and attempt_expired: "claim t = Some (q, x) \<Longrightarrow> x < now \<Longrightarrow> 0 \<le> ttl \<Longrightarrow> fst (attempt p now t)"
begin

fun exec :: "'o lease_op \<Rightarrow> 't \<Rightarrow> bool \<times> 't" where
  "exec (Try p now) t = attempt p now t"
| "exec (Refresh p now) t = (False, refresh p now t)"
| "exec (Resign p) t = (False, resign p t)"
| "exec (Reap now) t = (False, reap now t)"

text \<open>The results of a run of operations, and the collection after it.\<close>

fun run :: "'o lease_op list \<Rightarrow> 't \<Rightarrow> bool list \<times> 't" where
  "run [] t = ([], t)"
| "run (c # cs) t =
     (let (r, t') = exec c t; (rs, t'') = run cs t' in (r # rs, t''))"

text \<open>An operation of somebody other than \<open>q\<close>, before \<open>x\<close>.\<close>

fun foreign :: "'o \<Rightarrow> instant \<Rightarrow> 'o lease_op \<Rightarrow> bool" where
  "foreign q x (Try p now) = (p \<noteq> q \<and> now \<le> x)"
| "foreign q x (Refresh p now) = (p \<noteq> q)"
| "foreign q x (Resign p) = (p \<noteq> q)"
| "foreign q x (Reap now) = (now \<le> x)"

lemma exec_foreign:
  assumes "claim t = Some (q, x)" "foreign q x c"
  shows "\<not> fst (exec c t) \<and> claim (snd (exec c t)) = Some (q, x)"
proof (cases c)
  case (Try p now)
  with assms have "\<not> fst (attempt p now t)" using attempt_held [of t q x p now] by auto
  with Try assms(1) show ?thesis using attempt_lost by simp
next
  case (Refresh p now)
  with assms show ?thesis using refresh_other by simp
next
  case (Resign p)
  with assms show ?thesis using resign_other by simp
next
  case (Reap now)
  with assms show ?thesis using reap_live by simp
qed

text \<open>
  Exclusion: once \<open>q\<close> has won, whatever the others and the TTL monitor do until the claim
  expires, nobody else wins and the claim stays \<open>q\<close>'s.
\<close>

theorem exclusive:
  assumes "claim t = Some (q, x)" "list_all (foreign q x) cs"
  shows "claim (snd (run cs t)) = Some (q, x) \<and> list_all Not (fst (run cs t))"
  using assms
proof (induction cs arbitrary: t)
  case (Cons c cs)
  then have "\<not> fst (exec c t)" "claim (snd (exec c t)) = Some (q, x)" using exec_foreign by auto
  with Cons.IH [of "snd (exec c t)"] Cons.prems show ?case by (simp add: split_def Let_def)
qed simp

text \<open>A claim once won stays until it is resigned, refreshed or expired; each of the three does what it says.\<close>

lemma won_run:
  assumes "fst (attempt q now t)" "list_all (foreign q (now + ttl)) cs"
  shows "claim (snd (run cs (snd (attempt q now t)))) = Some (q, now + ttl) \<and>
    list_all Not (fst (run cs (snd (attempt q now t))))"
  using exclusive [OF attempt_won [OF assms(1)] assms(2)] .

lemma won_resign:
  assumes "fst (attempt q now t)" "list_all (foreign q (now + ttl)) cs"
  shows "fst (attempt p later (resign q (snd (run cs (snd (attempt q now t))))))"
  by (rule attempt_free) (rule resign_own [OF conjunct1 [OF won_run [OF assms]]])

lemma won_expired:
  assumes "fst (attempt q now t)" "list_all (foreign q (now + ttl)) cs" "0 \<le> ttl" "now + ttl < later"
  shows "fst (attempt p later (snd (run cs (snd (attempt q now t)))))"
  by (rule attempt_expired [OF conjunct1 [OF won_run [OF assms(1,2)]]]) (use assms in auto)

lemma won_refresh:
  assumes "fst (attempt q now t)" "list_all (foreign q (now + ttl)) cs"
    "list_all (foreign q (later + ttl)) ds"
  shows "list_all Not (fst (run ds (refresh q later (snd (run cs (snd (attempt q now t)))))))"
  using exclusive [OF refresh_own [OF conjunct1 [OF won_run [OF assms(1,2)]]] assms(3)] by simp

end

section \<open>DistributedLock\<close>

record lock_doc =
  l_owner_id :: string
  l_acquired_at :: instant
  l_expires_at :: instant

type_synonym lock_table = "string \<Rightarrow> lock_doc option"

record lock_obj =
  lk_name :: string
  lk_ttl_seconds :: int
  lk_owner_id :: string
  lk_acquired :: bool
  lk_lost :: bool

definition new_lock :: "string \<Rightarrow> int \<Rightarrow> string \<Rightarrow> lock_obj" where
  "new_lock name ttl owner =
     \<lparr>lk_name = name, lk_ttl_seconds = ttl, lk_owner_id = owner, lk_acquired = False, lk_lost = False\<rparr>"

definition lock_acquire :: "instant \<Rightarrow> lock_obj \<Rightarrow> lock_table \<Rightarrow> bool \<times> lock_obj \<times> lock_table" where
  "lock_acquire now lk t =
     (let new = \<lparr>l_owner_id = lk_owner_id lk, l_acquired_at = now,
                 l_expires_at = now + seconds (lk_ttl_seconds lk)\<rparr>
      in case t (lk_name lk) of
           None \<Rightarrow> (True, lk\<lparr>lk_acquired := True\<rparr>, t(lk_name lk \<mapsto> new))
         | Some doc \<Rightarrow>
             (if l_expires_at doc < now \<and> new \<noteq> doc
              then (True, lk\<lparr>lk_acquired := True\<rparr>, t(lk_name lk \<mapsto> new))
              else (False, lk, t)))"

definition lock_delete :: "string \<Rightarrow> string \<Rightarrow> lock_table \<Rightarrow> lock_table" where
  "lock_delete name owner t =
     (case t name of
        Some doc \<Rightarrow> if l_owner_id doc = owner then t(name := None) else t
      | None \<Rightarrow> t)"

definition lock_release :: "lock_obj \<Rightarrow> lock_table \<Rightarrow> lock_obj \<times> lock_table" where
  "lock_release lk t =
     (if lk_acquired lk
      then (lk\<lparr>lk_acquired := False\<rparr>, lock_delete (lk_name lk) (lk_owner_id lk) t)
      else (lk, t))"

text \<open>One turn of the heartbeat loop; \<open>False\<close> says that the loop ends.\<close>

definition lock_heartbeat :: "instant \<Rightarrow> lock_obj \<Rightarrow> lock_table \<Rightarrow> bool \<times> lock_obj \<times> lock_table" where
  "lock_heartbeat now lk t =
     (case t (lk_name lk) of
        Some doc \<Rightarrow>
          if l_owner_id doc = lk_owner_id lk
          then (True, lk, t(lk_name lk \<mapsto> doc\<lparr>l_expires_at := now + seconds (lk_ttl_seconds lk)\<rparr>))
          else (False, lk\<lparr>lk_acquired := False, lk_lost := True\<rparr>, t)
      | None \<Rightarrow> (False, lk\<lparr>lk_acquired := False, lk_lost := True\<rparr>, t))"

datatype lock_error = RuntimeError string

definition lock_aenter :: "instant \<Rightarrow> lock_obj \<Rightarrow> lock_table \<Rightarrow> (lock_error + lock_obj) \<times> lock_table" where
  "lock_aenter now lk t =
     (case lock_acquire now lk t of
        (True, lk', t') \<Rightarrow> (Inr lk', t')
      | (False, _, t') \<Rightarrow>
          (Inl (RuntimeError (''Could not acquire distributed lock '' @ [CHR 0x27] @ lk_name lk @ [CHR 0x27])), t'))"

definition ttl_reap :: "string \<Rightarrow> instant \<Rightarrow> lock_table \<Rightarrow> lock_table" where
  "ttl_reap name now t =
     (case t name of Some doc \<Rightarrow> if l_expires_at doc < now then t(name := None) else t | None \<Rightarrow> t)"

definition lock_claim :: "string \<Rightarrow> lock_table \<Rightarrow> (string \<times> instant) option" where
  "lock_claim name t = map_option (\<lambda>d. (l_owner_id d, l_expires_at d)) (t name)"

definition lock_try :: "string \<Rightarrow> int \<Rightarrow> string \<Rightarrow> instant \<Rightarrow> lock_table \<Rightarrow> bool \<times> lock_table" where
  "lock_try name ttl owner now t =
     (let r = lock_acquire now (new_lock name ttl owner) t in (fst r, snd (snd r)))"

definition lock_refresh :: "string \<Rightarrow> int \<Rightarrow> string \<Rightarrow> instant \<Rightarrow> lock_table \<Rightarrow> lock_table" where
  "lock_refresh name ttl owner now t = snd (snd (lock_heartbeat now (new_lock name ttl owner) t))"

lemmas lock_defs = lock_acquire_def lock_delete_def lock_release_def lock_heartbeat_def
  lock_try_def lock_refresh_def lock_claim_def ttl_reap_def new_lock_def Let_def

interpretation dlock: lease "lock_try name ttl" "lock_refresh name ttl" "lock_delete name"
  "ttl_reap name" "lock_claim name" "seconds ttl" for name ttl
  by unfold_locales (auto simp: lock_defs split: option.splits if_splits)

text \<open>C11. Mutual exclusion of the distributed lock: after a successful attempt, whatever attempts, heartbeats and
  releases the others make and whenever the TTL monitor runs before the claim expires, no attempt succeeds
  and the document stays the winner's; its heartbeat extends the exclusion, and its release or the expiry
  lets the next attempt succeed.\<close>

theorem lock_exclusive:
  assumes "fst (lock_try name ttl q now t)" "list_all (dlock.foreign q (now + seconds ttl)) cs"
  shows "lock_claim name (snd (dlock.run name ttl cs (snd (lock_try name ttl q now t)))) = Some (q, now + seconds ttl) \<and>
    list_all Not (fst (dlock.run name ttl cs (snd (lock_try name ttl q now t)))) \<and>
    (list_all (dlock.foreign q (later + seconds ttl)) ds \<longrightarrow>
      list_all Not (fst (dlock.run name ttl ds
        (lock_refresh name ttl q later (snd (dlock.run name ttl cs (snd (lock_try name ttl q now t)))))))) \<and>
    fst (lock_try name ttl p later (lock_delete name q (snd (dlock.run name ttl cs (snd (lock_try name ttl q now t)))))) \<and>
    (0 \<le> ttl \<and> now + seconds ttl < later \<longrightarrow>
      fst (lock_try name ttl p later (snd (dlock.run name ttl cs (snd (lock_try name ttl q now t))))))"
  using dlock.won_run [OF assms] dlock.won_refresh [OF assms] dlock.won_resign [OF assms] dlock.won_expired [OF assms]
  by (simp add: seconds_def)

lemma lock_exclusive_witness:
  "lock_claim ''sync'' (snd (dlock.run ''sync'' 30 [Try ''b'' 5, Reap 30000000]
     (snd (lock_try ''sync'' 30 ''a'' 0 (\<lambda>_. None))))) = Some (''a'', 30000000)"
  using lock_exclusive [of "''sync''" 30 "''a''" 0 "\<lambda>_. None" "[Try ''b'' 5, Reap 30000000]"]
  by (simp add: lock_defs seconds_def)

section \<open>LeaderElection\<close>

record leader_doc =
  le_worker_id :: string
  le_acquired_at :: instant
  le_expires_at :: instant

type_synonym leader_table = "string \<Rightarrow> leader_doc option"

text \<open>The three attempts of \<open>try_become_leader\<close>: insert, refresh an own claim, take an expired one.\<close>

definition try_become_leader ::
  "string \<Rightarrow> int \<Rightarrow> string \<Rightarrow> instant \<Rightarrow> leader_table \<Rightarrow> bool \<times> leader_table" where
  "try_become_leader name ttl worker now t =
     (let expires = now + seconds ttl;
          new = \<lparr>le_worker_id = worker, le_acquired_at = now, le_expires_at = expires\<rparr>
      in case t name of
           None \<Rightarrow> (True, t(name \<mapsto> new))
         | Some doc \<Rightarrow>
             (if le_worker_id doc = worker then (True, t(name \<mapsto> doc\<lparr>le_expires_at := expires\<rparr>))
              else if le_expires_at doc < now \<and> new \<noteq> doc then (True, t(name \<mapsto> new))
              else (False, t)))"

definition leader_heartbeat :: "string \<Rightarrow> int \<Rightarrow> string \<Rightarrow> instant \<Rightarrow> leader_table \<Rightarrow> leader_table" where
  "leader_heartbeat name ttl worker now t =
     (case t name of
        Some doc \<Rightarrow>
          if le_worker_id doc = worker then t(name \<mapsto> doc\<lparr>le_expires_at := now + seconds ttl\<rparr>) else t
      | None \<Rightarrow> t)"

definition leader_resign :: "string \<Rightarrow> string \<Rightarrow> leader_table \<Rightarrow> leader_table" where
  "leader_resign name worker t =
     (case t name of
        Some doc \<Rightarrow> if le_worker_id doc = worker then t(name := None) else t
      | None \<Rightarrow> t)"

definition leader_reap :: "string \<Rightarrow> instant \<Rightarrow> leader_table \<Rightarrow> leader_table" where
  "leader_reap name now t =
     (case t name of Some doc \<Rightarrow> if le_expires_at doc < now then t(name := None) else t | None \<Rightarrow> t)"

definition leader_claim :: "string \<Rightarrow> leader_table \<Rightarrow> (string \<times> instant) option" where
  "leader_claim name t = map_option (\<lambda>d. (le_worker_id d, le_expires_at d)) (t name)"

lemmas leader_defs = try_become_leader_def leader_heartbeat_def leader_resign_def leader_reap_def
  leader_claim_def Let_def

interpretation leader: lease "try_become_leader name ttl" "leader_heartbeat name ttl"
  "leader_resign name" "leader_reap name" "leader_claim name" "seconds ttl" for name ttl
  by unfold_locales (auto simp: leader_defs split: option.splits if_splits)

text \<open>C12. At most one leader: after a worker was elected, no other worker is elected before the claim expires, whatever
  the others and the TTL monitor do; its heartbeat extends the term, its resignation or the expiry frees
  the office.\<close>

theorem leader_exclusive:
  assumes "fst (try_become_leader name ttl q now t)" "list_all (leader.foreign q (now + seconds ttl)) cs"
  shows "leader_claim name (snd (leader.run name ttl cs (snd (try_become_leader name ttl q now t)))) =
      Some (q, now + seconds ttl) \<and>
    list_all Not (fst (leader.run name ttl cs (snd (try_become_leader name ttl q now t)))) \<and>
    (list_all (leader.foreign q (later + seconds ttl)) ds \<longrightarrow>
      list_all Not (fst (leader.run name ttl ds
        (leader_heartbeat name ttl q later (snd (leader.run name ttl cs (snd (try_become_leader name ttl q now t)))))))) \<and>
    fst (try_become_leader name ttl p later
      (leader_resign name q (snd (leader.run name ttl cs (snd (try_become_leader name ttl q now t)))))) \<and>
    (0 \<le> ttl \<and> now + seconds ttl < later \<longrightarrow>
      fst (try_become_leader name ttl p later (snd (leader.run name ttl cs (snd (try_become_leader name ttl q now t))))))"
  using leader.won_run [OF assms] leader.won_refresh [OF assms] leader.won_resign [OF assms] leader.won_expired [OF assms]
  by (simp add: seconds_def)

lemma leader_exclusive_witness:
  "leader_claim ''sched'' (snd (leader.run ''sched'' 60 [Try ''b'' 5, Resign ''b'', Reap 60000000]
     (snd (try_become_leader ''sched'' 60 ''a'' 0 (\<lambda>_. None))))) = Some (''a'', 60000000)"
  using leader_exclusive [of "''sched''" 60 "''a''" 0 "\<lambda>_. None" "[Try ''b'' 5, Resign ''b'', Reap 60000000]"]
  by (simp add: leader_defs seconds_def)

end
