(* ===== verification/ChainStore.thy ===== *)
theory ChainStore
  imports Hasher Lease
begin

text \<open>
  \<open>backend/audit/chain/repository.py\<close> over a model of the two collections it uses: \<open>audit_log\<close>, a
  list of documents in insertion order, some of them chained (with a \<open>sequence\<close>) and some plain,
  and \<open>audit_chain_meta\<close>, one field per document. A document carries its \<open>_id\<close>. The collection
  has the unique sparse index on \<open>sequence\<close> of \<open>db_indexes.py\<close>, so an insert can be refused.
\<close>

section \<open>The state\<close>

record plain_entry =
  p_timestamp :: tstamp
  p_actor :: string
  p_domain :: string
  p_action :: string
  p_status :: string
  p_summary :: string
  p_details :: pyval

datatype log_doc = Plain plain_entry | Chained chained_entry

datatype chain_status = VALID | BROKEN | GAP_DETECTED

datatype broken_reason = HASH_MISMATCH | SEQUENCE_GAP | MISSING_ENTRY

record verification_doc =
  vd_status :: chain_status
  vd_verified_entries :: int
  vd_chain_valid :: bool
  vd_verified_at :: instant
  vd_broken_at_sequence :: "int option"
  vd_broken_reason :: "broken_reason option"
  vd_verification_time_ms :: int

record chain_db =
  audit_log :: "(nat \<times> log_doc) list"
  next_oid :: nat
  seq_counter :: "int option"
  chain_config :: "int option"
  exported_epochs :: "int list"
  last_verification :: "verification_doc option"
  chain_locks :: lock_table

definition empty_db :: chain_db where
  "empty_db = \<lparr>audit_log = [], next_oid = 0, seq_counter = None, chain_config = None,
     exported_epochs = [], last_verification = None, chain_locks = (\<lambda>_. None)\<rparr>"

text \<open>The documents with a \<open>sequence\<close> field, with their \<open>_id\<close>.\<close>

fun chained_part :: "(nat \<times> log_doc) list \<Rightarrow> (nat \<times> chained_entry) list" where
  "chained_part [] = []"
| "chained_part ((oid, Plain p) # ds) = chained_part ds"
| "chained_part ((oid, Chained e) # ds) = (oid, e) # chained_part ds"

definition chained_docs :: "chain_db \<Rightarrow> (nat \<times> chained_entry) list" where
  "chained_docs db = chained_part (audit_log db)"

definition entries_of :: "chain_db \<Rightarrow> chained_entry list" where
  "entries_of db = map snd (chained_docs db)"

section \<open>audit_log\<close>

datatype db_error = DuplicateKeyError | WriteError

text \<open>\<open>insert_one\<close> under the unique sparse index on \<open>sequence\<close>.\<close>

definition insert_chained :: "chained_entry \<Rightarrow> chain_db \<Rightarrow> db_error + chain_db" where
  "insert_chained e db =
     (if \<exists>e'\<in>set (entries_of db). e_sequence e' = e_sequence e then Inl DuplicateKeyError
      else Inr (db\<lparr>audit_log := audit_log db @ [(next_oid db, Chained e)], next_oid := Suc (next_oid db)\<rparr>))"

definition insert_plain :: "plain_entry \<Rightarrow> chain_db \<Rightarrow> chain_db" where
  "insert_plain p db =
     db\<lparr>audit_log := audit_log db @ [(next_oid db, Plain p)], next_oid := Suc (next_oid db)\<rparr>"

definition find_by_sequence :: "int \<Rightarrow> chain_db \<Rightarrow> (nat \<times> chained_entry) option" where
  "find_by_sequence n db = find (\<lambda>d. e_sequence (snd d) = n) (chained_docs db)"

definition first_doc :: "'a list \<Rightarrow> 'a option" where
  "first_doc ds = (case ds of [] \<Rightarrow> None | d # _ \<Rightarrow> Some d)"

definition get_previous_hash :: "int \<Rightarrow> chain_db \<Rightarrow> string option" where
  "get_previous_hash n db =
     (if n = 0 then None else map_option (\<lambda>d. e_hash (snd d)) (find_by_sequence (n - 1) db))"

definition get_latest_chained_entry :: "chain_db \<Rightarrow> (nat \<times> chained_entry) option" where
  "get_latest_chained_entry db =
     first_doc (sort_key (\<lambda>d. - e_sequence (snd d)) (chained_docs db))"

definition get_genesis_entry :: "chain_db \<Rightarrow> (nat \<times> chained_entry) option" where
  "get_genesis_entry db = find_by_sequence 0 db"

definition count_chained_entries :: "chain_db \<Rightarrow> nat" where
  "count_chained_entries db = length (chained_docs db)"

definition stream_entries_for_epoch :: "chain_db \<Rightarrow> int \<Rightarrow> chained_entry list" where
  "stream_entries_for_epoch db k =
     sort_key e_sequence (filter (\<lambda>e. e_epoch e = k) (entries_of db))"

definition stream_entries_in_range :: "chain_db \<Rightarrow> int \<Rightarrow> int \<Rightarrow> chained_entry list" where
  "stream_entries_in_range db lo hi =
     sort_key e_sequence (filter (\<lambda>e. lo \<le> e_sequence e \<and> e_sequence e \<le> hi) (entries_of db))"

definition set_epoch_end :: "nat \<Rightarrow> nat \<times> log_doc \<Rightarrow> nat \<times> log_doc" where
  "set_epoch_end oid d =
     (if fst d = oid then
        (case snd d of Chained e \<Rightarrow> (fst d, Chained (e\<lparr>e_is_epoch_end := True\<rparr>)) | Plain p \<Rightarrow> d)
      else d)"

definition mark_epoch_end :: "nat \<Rightarrow> chain_db \<Rightarrow> chain_db" where
  "mark_epoch_end oid db = db\<lparr>audit_log := map (set_epoch_end oid) (audit_log db)\<rparr>"

definition get_epoch_boundary_entry :: "chain_db \<Rightarrow> int \<Rightarrow> bool \<Rightarrow> (nat \<times> chained_entry) option" where
  "get_epoch_boundary_entry db k last_one =
     first_doc (sort_key (\<lambda>d. if last_one then - e_sequence (snd d) else e_sequence (snd d))
       (filter (\<lambda>d. e_epoch (snd d) = k) (chained_docs db)))"

definition get_completed_epochs :: "chain_db \<Rightarrow> chained_entry list" where
  "get_completed_epochs db = sort_key e_epoch (filter e_is_epoch_end (entries_of db))"

section \<open>audit_chain_meta\<close>

definition DEFAULT_EPOCH_SIZE :: int where
  "DEFAULT_EPOCH_SIZE = 1000"

definition get_next_sequence :: "chain_db \<Rightarrow> int \<times> chain_db" where
  "get_next_sequence db =
     (let v = (case seq_counter db of None \<Rightarrow> 1 | Some v \<Rightarrow> v + 1)
      in (v - 1, db\<lparr>seq_counter := Some v\<rparr>))"

definition reset_sequence_to :: "int \<Rightarrow> chain_db \<Rightarrow> chain_db" where
  "reset_sequence_to v db = db\<lparr>seq_counter := Some v\<rparr>"

definition get_epoch_size :: "chain_db \<Rightarrow> int" where
  "get_epoch_size db =
     (case chain_config db of None \<Rightarrow> DEFAULT_EPOCH_SIZE
      | Some n \<Rightarrow> if n = 0 then DEFAULT_EPOCH_SIZE else n)"

definition save_epoch_size :: "int \<Rightarrow> chain_db \<Rightarrow> chain_db" where
  "save_epoch_size n db = db\<lparr>chain_config := Some n\<rparr>"

definition save_verification_result :: "verification_doc \<Rightarrow> chain_db \<Rightarrow> chain_db" where
  "save_verification_result r db = db\<lparr>last_verification := Some r\<rparr>"

definition get_last_verification :: "chain_db \<Rightarrow> verification_doc option" where
  "get_last_verification db = last_verification db"

definition mark_epoch_exported :: "int \<Rightarrow> chain_db \<Rightarrow> chain_db" where
  "mark_epoch_exported k db =
     db\<lparr>exported_epochs := (if k \<in> set (exported_epochs db) then exported_epochs db
                            else exported_epochs db @ [k])\<rparr>"

definition get_exported_epochs :: "chain_db \<Rightarrow> int set" where
  "get_exported_epochs db = set (exported_epochs db)"

lemmas repo_defs = find_by_sequence_def get_previous_hash_def get_genesis_entry_def
  get_next_sequence_def reset_sequence_to_def get_epoch_size_def save_epoch_size_def
  mark_epoch_end_def insert_plain_def save_verification_result_def mark_epoch_exported_def

end
