(* ===== verification/HashChain.thy ===== *)
theory HashChain
  imports Prelude
begin

text \<open>
  The interface of a digest chain, independent of what an entry is: a text per entry that fixes
  the link to the entry before, a digest of that text stored with the entry, and consecutive
  entries linked by the stored digest. The tamper-evidence of such a chain is proved once, here;
  the server's verification and the air-gapped verifier are interpretations of it.
\<close>

fun linked :: "('e \<Rightarrow> string) \<Rightarrow> ('e \<Rightarrow> string) \<Rightarrow> 'e list \<Rightarrow> bool" where
  "linked stored link [] = True"
| "linked stored link [e] = True"
| "linked stored link (a # b # es) = (link b = stored a \<and> linked stored link (b # es))"

fun numbered :: "('e \<Rightarrow> int) \<Rightarrow> int \<Rightarrow> 'e list \<Rightarrow> bool" where
  "numbered pos n [] = True"
| "numbered pos n (e # es) = (pos e = n \<and> numbered pos (n + 1) es)"

lemma linked_snoc: "es \<noteq> [] \<Longrightarrow> linked st ln (es @ [e]) \<longleftrightarrow> linked st ln es \<and> ln e = st (last es)"
  by (induction es rule: linked.induct [where ?a0.0 = st and ?a1.0 = ln]) auto

lemma linked_butlast: "linked st ln (es @ [e]) \<Longrightarrow> linked st ln es"
  by (cases "es = []") (simp_all add: linked_snoc)

lemma numbered_append:
  "numbered pos n (xs @ ys) \<longleftrightarrow> numbered pos n xs \<and> numbered pos (n + int (length xs)) ys"
  by (induction xs arbitrary: n) (auto simp: algebra_simps)

lemma numbered_nth: "numbered pos n es \<Longrightarrow> i < length es \<Longrightarrow> pos (es ! i) = n + int i"
  by (induction es arbitrary: n i) (auto simp: nth_Cons split: nat.splits)

text \<open>Two chains collide at a position when the texts differ and the digests do not.\<close>

definition collide :: "('e \<Rightarrow> string) \<Rightarrow> (string \<Rightarrow> string) \<Rightarrow> 'e \<Rightarrow> 'e \<Rightarrow> bool" where
  "collide body dig a b \<longleftrightarrow> body a \<noteq> body b \<and> dig (body a) = dig (body b)"

locale digest_chain =
  fixes body :: "'e \<Rightarrow> string"
    and dig :: "string \<Rightarrow> string"
    and stored :: "'e \<Rightarrow> string"
    and link :: "'e \<Rightarrow> string"
    and pos :: "'e \<Rightarrow> int"
    and ok :: "'e \<Rightarrow> bool"
  assumes body_link: "ok a \<Longrightarrow> ok b \<Longrightarrow> body a = body b \<Longrightarrow> link a = link b"
    and body_pos: "ok a \<Longrightarrow> ok b \<Longrightarrow> body a = body b \<Longrightarrow> pos a = pos b"
begin

definition sealed :: "'e list \<Rightarrow> bool" where
  "sealed es \<longleftrightarrow> (\<forall>e\<in>set es. ok e \<and> stored e = dig (body e)) \<and> linked stored link es"

lemma sealed_butlast: "sealed (es @ [e]) \<Longrightarrow> sealed es"
  by (auto simp: sealed_def dest: linked_butlast)

lemma same_length_same_text:
  "length es = length fs \<Longrightarrow> sealed es \<Longrightarrow> sealed fs \<Longrightarrow> es \<noteq> [] \<Longrightarrow>
   stored (last es) = stored (last fs) \<Longrightarrow>
   map body es = map body fs \<or> (\<exists>(a, b)\<in>set (zip es fs). collide body dig a b)"
proof (induction es arbitrary: fs rule: rev_induct)
  case (snoc e es)
  then obtain fs' f where fs: "fs = fs' @ [f]" "length es = length fs'"
    by (cases fs rule: rev_cases) auto
  have dig: "dig (body e) = dig (body f)" "ok e" "ok f" using snoc.prems fs by (auto simp: sealed_def)
  show ?case
  proof (cases "body e = body f")
    case False
    with dig fs show ?thesis by (auto simp: collide_def)
  next
    case same: True
    show ?thesis
    proof (cases "es = []")
      case True
      with same fs show ?thesis by simp
    next
      case False
      with fs have "fs' \<noteq> []" by auto
      have "link e = link f" using body_link dig(2,3) same by blast
      with snoc.prems fs False \<open>fs' \<noteq> []\<close> have "stored (last es) = stored (last fs')"
        by (auto simp: sealed_def linked_snoc)
      with snoc.IH [OF fs(2)] snoc.prems fs False
      have "map body es = map body fs' \<or> (\<exists>(a, b)\<in>set (zip es fs'). collide body dig a b)"
        by (auto dest: sealed_butlast)
      with same fs show ?thesis by auto
    qed
  qed
qed simp

text \<open>
  Equal final digests: the two chains carry the same texts throughout, or some pair of entries
  exhibits two texts with the same digest.
\<close>

theorem same_head_same_chain:
  assumes "sealed es" "sealed fs" "numbered pos n es" "numbered pos n fs" "es \<noteq> []" "fs \<noteq> []"
    and "stored (last es) = stored (last fs)"
  shows "map body es = map body fs \<or> (\<exists>a\<in>set es. \<exists>b\<in>set fs. collide body dig a b)"
proof (cases "length es = length fs")
  case True
  from same_length_same_text [OF this assms(1,2,5,7)] show ?thesis
    by (auto dest: set_zip_leftD set_zip_rightD)
next
  case False
  have l: "last es \<in> set es" "last fs \<in> set fs" using assms(5,6) by simp_all
  have "pos (last es) = n + int (length es - 1)" "pos (last fs) = n + int (length fs - 1)"
    using assms(3-6) by (auto simp: last_conv_nth numbered_nth)
  moreover have "length es - 1 \<noteq> length fs - 1" using False assms(5,6) by (cases es; cases fs) auto
  ultimately have "pos (last es) \<noteq> pos (last fs)" by simp
  then have "body (last es) \<noteq> body (last fs)" using body_pos assms(1,2) l by (auto simp: sealed_def)
  moreover have "dig (body (last es)) = dig (body (last fs))" using assms(1,2,7) l by (simp add: sealed_def)
  ultimately show ?thesis using l by (auto simp: collide_def)
qed

end

end
