(* ===== verification/ChainSpec.thy ===== *)
theory ChainSpec
  imports ChainStore HashChain
begin

text \<open>
  What a correct chain is, stated without the batches, cursors and counters of the code, and the
  tamper evidence of it: \<open>chain_ok\<close> is an instance of the digest chain of \<open>HashChain\<close>, with the
  entry's canonical JSON as the text and SHA-256 as the digest.
\<close>

fun chain_ok :: "int \<Rightarrow> string option \<Rightarrow> chained_entry list \<Rightarrow> bool" where
  "chain_ok n p [] = True"
| "chain_ok n p (e # es) =
     (e_sequence e = n \<and> e_previous_hash e = p \<and> e_hash e = compute_entry_hash e p \<and>
      chain_ok (n + 1) (Some (e_hash e)) es)"

fun last_hash :: "string option \<Rightarrow> chained_entry list \<Rightarrow> string option" where
  "last_hash p [] = p"
| "last_hash p (e # es) = last_hash (Some (e_hash e)) es"

lemma last_hash_append: "last_hash p (xs @ ys) = last_hash (last_hash p xs) ys"
  by (induction xs arbitrary: p) auto

lemma last_hash_last: "es \<noteq> [] \<Longrightarrow> last_hash p es = Some (e_hash (last es))"
  by (induction es arbitrary: p) auto

lemma chain_ok_append:
  "chain_ok n p (xs @ ys) \<longleftrightarrow> chain_ok n p xs \<and> chain_ok (n + int (length xs)) (last_hash p xs) ys"
  by (induction xs arbitrary: n p) (auto simp: algebra_simps)

lemma chain_ok_sequence: "chain_ok n p es \<Longrightarrow> i < length es \<Longrightarrow> e_sequence (es ! i) = n + int i"
  by (induction es arbitrary: n p i) (auto simp: nth_Cons split: nat.splits)

lemma chain_ok_sequences: "chain_ok n p es \<Longrightarrow> map e_sequence es = map (\<lambda>i. n + int i) [0..<length es]"
  by (rule nth_equalityI) (simp_all add: chain_ok_sequence)

lemma chain_ok_bounds: "chain_ok n p es \<Longrightarrow> e \<in> set es \<Longrightarrow> n \<le> e_sequence e \<and> e_sequence e < n + int (length es)"
  by (metis chain_ok_sequence in_set_conv_nth le_add_same_cancel1 of_nat_0_le_iff of_nat_less_iff add_less_cancel_left)

lemma chain_ok_hash: "chain_ok n p es \<Longrightarrow> e \<in> set es \<Longrightarrow> e_hash e = compute_entry_hash e (e_previous_hash e)"
  by (induction es arbitrary: n p) auto

lemma chain_ok_sorted: "chain_ok n p es \<Longrightarrow> sorted_wrt (<) (map e_sequence es)"
  by (simp add: chain_ok_sequences sorted_wrt_map)

text \<open>Flags that the digest does not cover may change freely.\<close>

definition same_sealed :: "chained_entry \<Rightarrow> chained_entry \<Rightarrow> bool" where
  "same_sealed a b \<longleftrightarrow> same_content a b \<and> e_previous_hash a = e_previous_hash b \<and> e_hash a = e_hash b"

lemma same_content_refl [simp]: "same_content e e"
  by (simp add: same_content_def)

lemma same_sealed_refl [simp]: "same_sealed e e"
  by (simp add: same_sealed_def)

lemma same_sealedD:
  assumes "same_sealed a b"
  shows "e_sequence a = e_sequence b" "e_epoch a = e_epoch b" "e_hash a = e_hash b"
    "e_previous_hash a = e_previous_hash b" "compute_entry_hash a p = compute_entry_hash b p"
  using assms compute_entry_hash_cong [of a b p p] by (auto simp: same_sealed_def same_content_def)

lemma last_hash_same_sealed: "list_all2 same_sealed es fs \<Longrightarrow> last_hash p es = last_hash p fs"
  by (induction es fs arbitrary: p rule: list_all2_induct) (auto simp: same_sealedD)

lemma chain_ok_same_sealed: "list_all2 same_sealed es fs \<Longrightarrow> chain_ok n p es = chain_ok n p fs"
  by (induction es fs arbitrary: n p rule: list_all2_induct) (auto simp: same_sealedD)

section \<open>Tamper evidence\<close>

definition entry_text :: "chained_entry \<Rightarrow> string" where
  "entry_text e = dumps (build_hashable e (e_previous_hash e))"

definition entry_link :: "chained_entry \<Rightarrow> string" where
  "entry_link e = prev_or_genesis (e_previous_hash e)"

definition entry_wf :: "chained_entry \<Rightarrow> bool" where
  "entry_wf e \<longleftrightarrow> wf_val (e_details e)"

text \<open>Two entries that an auditor reads differently have the same SHA-256.\<close>

definition entry_collision :: "chained_entry \<Rightarrow> chained_entry \<Rightarrow> bool" where
  "entry_collision a b \<longleftrightarrow> collide entry_text sha256_hex a b"

interpretation audit_chain: digest_chain entry_text sha256_hex e_hash entry_link e_sequence entry_wf
  by unfold_locales
    (auto simp: entry_text_def entry_link_def entry_wf_def hashable_text_iff same_content_def)

lemma chain_ok_linked: "chain_ok n p es \<Longrightarrow> linked e_hash entry_link es"
proof (induction es arbitrary: n p)
  case (Cons a es)
  then show ?case by (cases es) (auto simp: entry_link_def)
qed simp

lemma chain_ok_sealed:
  assumes "chain_ok n p es" "list_all entry_wf es"
  shows "audit_chain.sealed es"
proof -
  have "e_hash e = sha256_hex (entry_text e)" if "e \<in> set es" for e
    using chain_ok_hash [OF assms(1) that] by (simp add: compute_entry_hash_def entry_text_def)
  then show ?thesis
    using chain_ok_linked [OF assms(1)] assms(2) by (simp add: audit_chain.sealed_def list_all_iff)
qed

lemma chain_ok_numbered: "chain_ok n p es \<Longrightarrow> numbered e_sequence n es"
  by (induction es arbitrary: n p) auto

lemma entry_text_same: "entry_wf a \<Longrightarrow> entry_wf b \<Longrightarrow> entry_text a = entry_text b \<Longrightarrow> same_content a b"
  by (simp add: entry_text_def entry_wf_def hashable_text_iff)

text \<open>Chains with the same head carry the same content, or they exhibit a SHA-256 collision.\<close>

lemma chain_ok_same_head:
  assumes ok: "chain_ok n p es" "chain_ok n q fs" and wf: "list_all entry_wf es" "list_all entry_wf fs"
    and ne: "es \<noteq> []" "fs \<noteq> []" and head: "e_hash (last es) = e_hash (last fs)"
  shows "list_all2 same_content es fs \<or> (\<exists>a\<in>set es. \<exists>b\<in>set fs. entry_collision a b)"
proof -
  have "map entry_text es = map entry_text fs \<or> (\<exists>a\<in>set es. \<exists>b\<in>set fs. entry_collision a b)"
    unfolding entry_collision_def
    by (rule audit_chain.same_head_same_chain [OF chain_ok_sealed [OF ok(1) wf(1)]
          chain_ok_sealed [OF ok(2) wf(2)] chain_ok_numbered [OF ok(1)] chain_ok_numbered [OF ok(2)] ne head])
  moreover have "list_all2 same_content es fs" if m: "map entry_text es = map entry_text fs"
  proof (rule list_all2_all_nthI)
    show "length es = length fs" using m by (rule map_eq_imp_length_eq)
    fix i assume i: "i < length es"
    then have i': "i < length fs" using m map_eq_imp_length_eq by fastforce
    have "entry_text (es ! i) = entry_text (fs ! i)" using m i i' by (metis nth_map)
    then show "same_content (es ! i) (fs ! i)"
      using entry_text_same wf i i' by (simp add: list_all_length)
  qed
  ultimately show ?thesis by blast
qed

end
