(* ===== verification/ChainCommands.thy ===== *)
theory ChainCommands
  imports ChainSpec
begin

text \<open>
  \<open>backend/audit/chain/commands.py\<close>: the genesis entry and the append. What other workers do while
  a command waits is an argument (\<open>others\<close>), and so is the fate of each database write: it may be
  acknowledged, not happen, or happen with the acknowledgement lost.
\<close>

datatype chain_error =
    LockNotAcquired
  | ChainWriteFailed int
  | ChainNotInitializedError
  | EpochNotFoundError int
  | EpochNotCompleteError int nat

section \<open>initialize_chain\<close>

definition genesis_entry :: "datetime \<Rightarrow> string option \<Rightarrow> string \<Rightarrow> int \<Rightarrow> string \<Rightarrow> chained_entry" where
  "genesis_entry now tenant_id initialized_by epoch_size version =
     (let entry = \<lparr>e_sequence = 0, e_epoch = 0, e_timestamp = TDate now, e_domain = ''system'',
          e_action = ''system.genesis'', e_actor = initialized_by, e_status = ''info'',
          e_summary = ''Audit hash-chain initialized'',
          e_details = PDict [(''sentora_version'', PStr version), (''tenant_id'', opt_str tenant_id),
            (''initialized_by'', PStr initialized_by), (''chain_algorithm'', PStr CHAIN_ALGORITHM),
            (''epoch_size'', PInt epoch_size)],
          e_tenant_id = tenant_id, e_previous_hash = None, e_hash = [],
          e_is_epoch_start = True, e_is_epoch_end = False, e_previous_epoch_hash = None\<rparr>
      in entry\<lparr>e_hash := compute_entry_hash entry None\<rparr>)"

definition upsert_genesis :: "chained_entry \<Rightarrow> chain_db \<Rightarrow> chain_db" where
  "upsert_genesis e db =
     (case find_by_sequence 0 db of
        Some _ \<Rightarrow> db
      | None \<Rightarrow> db\<lparr>audit_log := audit_log db @ [(next_oid db, Chained e)], next_oid := Suc (next_oid db)\<rparr>)"

definition initialize_chain ::
  "(chain_db \<Rightarrow> chain_db) \<Rightarrow> datetime \<Rightarrow> string option \<Rightarrow> string \<Rightarrow> int \<Rightarrow> string \<Rightarrow> chain_db
    \<Rightarrow> chained_entry \<times> chain_db" where
  "initialize_chain others now tenant_id initialized_by epoch_size version db0 =
     (let db = save_epoch_size epoch_size db0
      in case find_by_sequence 0 db of
           Some (_, existing) \<Rightarrow>
             (case get_latest_chained_entry db of
                Some (_, max_doc) \<Rightarrow> (existing, reset_sequence_to (e_sequence max_doc + 1) db)
              | None \<Rightarrow> (existing, db))
         | None \<Rightarrow>
             (let (sequence, db1) = get_next_sequence db;
                  db2 = (if sequence \<noteq> 0 then reset_sequence_to 0 db1 else db1);
                  entry = genesis_entry now tenant_id initialized_by epoch_size version;
                  db3 = upsert_genesis entry (others db2);
                  db4 = reset_sequence_to 1 db3
              in case find_by_sequence 0 db4 of
                   Some (_, existing) \<Rightarrow> (existing, db4)
                 | None \<Rightarrow> (entry, db4)))"

section \<open>append_chained_entry\<close>

record append_args =
  a_domain :: string
  a_action :: string
  a_actor :: string
  a_status :: string
  a_summary :: string
  a_details :: "(string \<times> pyval) list option"
  a_tenant_id :: "string option"

datatype write_outcome = Acked | NotWritten | AckLost

text \<open>One \<open>insert_one\<close>: whether it returned, and the collection after it.\<close>

definition insert_one :: "write_outcome \<Rightarrow> chained_entry \<Rightarrow> chain_db \<Rightarrow> bool \<times> chain_db" where
  "insert_one w e db =
     (case w of
        NotWritten \<Rightarrow> (False, db)
      | Acked \<Rightarrow> (case insert_chained e db of Inr db' \<Rightarrow> (True, db') | Inl _ \<Rightarrow> (False, db))
      | AckLost \<Rightarrow> (case insert_chained e db of Inr db' \<Rightarrow> (False, db') | Inl _ \<Rightarrow> (False, db)))"

text \<open>The loop over two attempts: retry once, then give the sequence number back.\<close>

definition write_entry ::
  "write_outcome \<Rightarrow> write_outcome \<Rightarrow> chained_entry \<Rightarrow> chain_db \<Rightarrow> (chain_error + chained_entry) \<times> chain_db" where
  "write_entry w1 w2 e db =
     (let (done1, db1) = insert_one w1 e db
      in if done1 then (Inr e, db1)
         else let (done2, db2) = insert_one w2 e db1
              in if done2 then (Inr e, db2)
                 else (Inl (ChainWriteFailed (e_sequence e)), reset_sequence_to (e_sequence e) db2))"

text \<open>A new epoch closes the one before: its last entry is marked and its hash is recorded.\<close>

definition close_epoch :: "int \<Rightarrow> int \<Rightarrow> chain_db \<Rightarrow> bool \<times> string option \<times> chain_db" where
  "close_epoch sequence epoch_size db =
     (if sequence > 0 \<and> sequence mod epoch_size = 0
      then (case get_epoch_boundary_entry db (sequence div epoch_size - 1) True of
              Some (oid, last_entry) \<Rightarrow> (True, Some (e_hash last_entry), mark_epoch_end oid db)
            | None \<Rightarrow> (True, None, db))
      else (False, None, db))"

definition new_entry ::
  "append_args \<Rightarrow> datetime \<Rightarrow> int \<Rightarrow> int \<Rightarrow> string option \<Rightarrow> bool \<Rightarrow> string option \<Rightarrow> chained_entry" where
  "new_entry a now sequence epoch previous_hash is_epoch_start prev_epoch_hash =
     (let entry = \<lparr>e_sequence = sequence, e_epoch = epoch, e_timestamp = TDate now,
          e_domain = a_domain a, e_action = a_action a, e_actor = a_actor a, e_status = a_status a,
          e_summary = a_summary a,
          e_details = PDict (case a_details a of None \<Rightarrow> [] | Some d \<Rightarrow> d),
          e_tenant_id = a_tenant_id a, e_previous_hash = previous_hash, e_hash = [],
          e_is_epoch_start = is_epoch_start, e_is_epoch_end = False,
          e_previous_epoch_hash = prev_epoch_hash\<rparr>
      in entry\<lparr>e_hash := compute_entry_hash entry previous_hash\<rparr>)"

text \<open>The section of \<open>append_chained_entry\<close> that runs under the lock.\<close>

definition append_locked ::
  "write_outcome \<Rightarrow> write_outcome \<Rightarrow> datetime \<Rightarrow> append_args \<Rightarrow> chain_db
    \<Rightarrow> (chain_error + chained_entry) \<times> chain_db" where
  "append_locked w1 w2 now a db0 =
     (let epoch_size = get_epoch_size db0;
          (sequence, db1) = get_next_sequence db0;
          (is_epoch_start, prev_epoch_hash, db2) = close_epoch sequence epoch_size db1;
          previous_hash = get_previous_hash sequence db2;
          entry = new_entry a now sequence (sequence div epoch_size) previous_hash
                    is_epoch_start prev_epoch_hash
      in write_entry w1 w2 entry db2)"

fun acquire_loop ::
  "(nat \<Rightarrow> chain_db \<Rightarrow> chain_db) \<Rightarrow> (nat \<Rightarrow> instant) \<Rightarrow> nat \<Rightarrow> nat \<Rightarrow> lock_obj \<Rightarrow> chain_db
    \<Rightarrow> lock_obj option \<times> chain_db" where
  "acquire_loop others clock k 0 lk db = (None, db)"
| "acquire_loop others clock k (Suc n) lk db =
     (let db' = others k db
      in case lock_acquire (clock k) lk (chain_locks db') of
           (True, lk', t) \<Rightarrow> (Some lk', db'\<lparr>chain_locks := t\<rparr>)
         | (False, lk', t) \<Rightarrow> acquire_loop others clock (Suc k) n lk' (db'\<lparr>chain_locks := t\<rparr>))"

definition max_lock_attempts :: nat where
  "max_lock_attempts = 10"

definition append_chained_entry ::
  "(nat \<Rightarrow> chain_db \<Rightarrow> chain_db) \<Rightarrow> (nat \<Rightarrow> instant) \<Rightarrow> string \<Rightarrow> write_outcome \<Rightarrow> write_outcome
    \<Rightarrow> datetime \<Rightarrow> append_args \<Rightarrow> chain_db \<Rightarrow> (chain_error + chained_entry) \<times> chain_db" where
  "append_chained_entry others clock owner w1 w2 now a db =
     (case acquire_loop others clock 0 max_lock_attempts (new_lock ''audit_chain_append'' 30 owner) db of
        (None, db') \<Rightarrow> (Inl LockNotAcquired, db')
      | (Some lk, db') \<Rightarrow>
          (let (r, db'') = append_locked w1 w2 now a db'
           in (r, db''\<lparr>chain_locks := snd (lock_release lk (chain_locks db''))\<rparr>)))"

section \<open>The log under the commands\<close>

lemma chained_part_append [simp]: "chained_part (xs @ ys) = chained_part xs @ chained_part ys"
  by (induction xs rule: chained_part.induct) auto

lemma chained_part_oids: "set (map fst (chained_part ds)) \<subseteq> set (map fst ds)"
  by (induction ds rule: chained_part.induct) auto

lemma chained_part_set_epoch_end:
  "chained_part (map (set_epoch_end oid) ds) =
     map (\<lambda>(k, e). (k, if k = oid then e\<lparr>e_is_epoch_end := True\<rparr> else e)) (chained_part ds)"
  by (induction ds rule: chained_part.induct) (auto simp: set_epoch_end_def)

lemma fst_set_epoch_end [simp]: "fst (set_epoch_end oid d) = fst d"
  by (simp add: set_epoch_end_def split: log_doc.splits)

lemma map_fst_set_epoch_end [simp]: "map fst (map (set_epoch_end oid) ds) = map fst ds"
  by (simp add: comp_def)

text \<open>The log keeps its \<open>_id\<close>s distinct, and new ones are fresh.\<close>

definition log_wf :: "chain_db \<Rightarrow> bool" where
  "log_wf db \<longleftrightarrow> distinct (map fst (audit_log db)) \<and> (\<forall>d\<in>set (audit_log db). fst d < next_oid db)"

definition chain_inv :: "chain_db \<Rightarrow> bool" where
  "chain_inv db \<longleftrightarrow> log_wf db \<and> entries_of db \<noteq> [] \<and> chain_ok 0 None (entries_of db) \<and>
     seq_counter db = Some (int (length (entries_of db)))"

lemma entries_mark_epoch_end:
  "list_all2 same_sealed (entries_of (mark_epoch_end oid db)) (entries_of db)"
  by (auto simp: entries_of_def chained_docs_def mark_epoch_end_def chained_part_set_epoch_end
      list_all2_map1 list_all2_map2 same_sealed_def same_content_def split_def
      intro!: list.rel_refl_strong)

lemma log_wf_mark_epoch_end [simp]: "log_wf (mark_epoch_end oid db) = log_wf db"
  by (simp add: log_wf_def mark_epoch_end_def del: map_map)

lemma entries_of_simps [simp]:
  "entries_of (db\<lparr>seq_counter := c\<rparr>) = entries_of db"
  "entries_of (db\<lparr>chain_locks := l\<rparr>) = entries_of db"
  "entries_of (db\<lparr>chain_config := k\<rparr>) = entries_of db"
  by (simp_all add: entries_of_def chained_docs_def)

lemma log_wf_simps [simp]:
  "log_wf (db\<lparr>seq_counter := c\<rparr>) = log_wf db"
  "log_wf (db\<lparr>chain_locks := l\<rparr>) = log_wf db"
  "log_wf (db\<lparr>chain_config := k\<rparr>) = log_wf db"
  by (simp_all add: log_wf_def)

lemma mark_epoch_end_counter [simp]: "seq_counter (mark_epoch_end oid db) = seq_counter db"
  "chain_config (mark_epoch_end oid db) = chain_config db"
  "chain_locks (mark_epoch_end oid db) = chain_locks db"
  by (simp_all add: mark_epoch_end_def)

text \<open>Closing an epoch changes flags only.\<close>

lemma close_epoch_db:
  assumes "close_epoch n k db = (st, ph, db')"
  shows "list_all2 same_sealed (entries_of db') (entries_of db)" "log_wf db' = log_wf db"
    "seq_counter db' = seq_counter db" "chain_locks db' = chain_locks db"
    "chain_config db' = chain_config db"
  using assms entries_mark_epoch_end
  by (auto simp: close_epoch_def list.rel_refl split: if_splits option.splits)

text \<open>Inserting at the end of the chain.\<close>

lemma insert_chained_fresh:
  assumes "chain_ok 0 None (entries_of db)" "e_sequence e = int (length (entries_of db))"
  shows "insert_chained e db =
    Inr (db\<lparr>audit_log := audit_log db @ [(next_oid db, Chained e)], next_oid := Suc (next_oid db)\<rparr>)"
  using chain_ok_bounds [OF assms(1)] assms(2) by (fastforce simp: insert_chained_def)

lemma find_by_sequence_at:
  assumes "chain_ok 0 None (entries_of db)" "i < length (entries_of db)"
  shows "map_option snd (find_by_sequence (int i) db) = Some (entries_of db ! i)"
proof -
  have s: "\<And>j. j < length (entries_of db) \<Longrightarrow> e_sequence (entries_of db ! j) = int j"
    using chain_ok_sequence [OF assms(1)] by simp
  have "find (\<lambda>d. e_sequence (snd d) = int i) (chained_docs db) = Some (chained_docs db ! i)"
    unfolding find_Some_iff
    using s assms(2) by (intro exI [of _ i]) (auto simp: entries_of_def)
  with assms(2) show ?thesis by (simp add: find_by_sequence_def entries_of_def)
qed

lemma previous_hash_at_end:
  assumes "chain_ok 0 None (entries_of db)" "entries_of db \<noteq> []"
  shows "get_previous_hash (int (length (entries_of db))) db = last_hash None (entries_of db)"
proof -
  let ?n = "length (entries_of db)"
  have "?n - 1 < ?n" using assms(2) by simp
  from find_by_sequence_at [OF assms(1) this]
  have "map_option (\<lambda>d. e_hash (snd d)) (find_by_sequence (int ?n - 1) db) = Some (e_hash (last (entries_of db)))"
    using assms(2) by (auto simp: last_conv_nth of_nat_diff Suc_leI)
  then show ?thesis using assms(2) by (simp add: get_previous_hash_def last_hash_last)
qed

lemma new_entry_fields [simp]:
  "e_sequence (new_entry a now n k ph st peh) = n"
  "e_epoch (new_entry a now n k ph st peh) = k"
  "e_previous_hash (new_entry a now n k ph st peh) = ph"
  "e_domain (new_entry a now n k ph st peh) = a_domain a"
  "e_action (new_entry a now n k ph st peh) = a_action a"
  "e_actor (new_entry a now n k ph st peh) = a_actor a"
  "e_is_epoch_start (new_entry a now n k ph st peh) = st"
  "e_previous_epoch_hash (new_entry a now n k ph st peh) = peh"
  by (simp_all add: new_entry_def Let_def)

lemma compute_entry_hash_ignores_hash [simp]: "compute_entry_hash (e\<lparr>e_hash := h\<rparr>) p = compute_entry_hash e p"
  by (rule compute_entry_hash_cong) (simp_all add: same_content_def)

lemma new_entry_hash [simp]:
  "e_hash (new_entry a now n k ph st peh) = compute_entry_hash (new_entry a now n k ph st peh) ph"
  by (simp add: new_entry_def Let_def)
    (rule compute_entry_hash_cong, simp_all add: same_content_def)

text \<open>The state in which an entry is ready to be written: everything but the entry is in place.\<close>

definition ready :: "chained_entry \<Rightarrow> chain_db \<Rightarrow> bool" where
  "ready e db \<longleftrightarrow> log_wf db \<and> entries_of db \<noteq> [] \<and> chain_ok 0 None (entries_of db @ [e]) \<and>
     seq_counter db = Some (int (length (entries_of db)) + 1)"

lemma append_locked_ready:
  assumes "chain_inv db"
  obtains st peh db2 where
    "append_locked w1 w2 now a db = write_entry w1 w2
       (new_entry a now (int (length (entries_of db))) (int (length (entries_of db)) div get_epoch_size db)
          (last_hash None (entries_of db)) st peh) db2"
    "ready (new_entry a now (int (length (entries_of db))) (int (length (entries_of db)) div get_epoch_size db)
          (last_hash None (entries_of db)) st peh) db2"
    "list_all2 same_sealed (entries_of db2) (entries_of db)"
    "chain_config db2 = chain_config db"
proof -
  let ?n = "int (length (entries_of db))"
  from assms have inv: "log_wf db" "entries_of db \<noteq> []" "chain_ok 0 None (entries_of db)" "seq_counter db = Some ?n"
    by (auto simp: chain_inv_def)
  let ?db1 = "db\<lparr>seq_counter := Some (?n + 1)\<rparr>"
  obtain st peh db2 where c: "close_epoch ?n (get_epoch_size db) ?db1 = (st, peh, db2)"
    by (cases "close_epoch ?n (get_epoch_size db) ?db1")
  note c' = close_epoch_db [OF c, simplified]
  have ok2: "chain_ok 0 None (entries_of db2)" using chain_ok_same_sealed [OF c'(1)] inv(3) by simp
  have len: "length (entries_of db2) = length (entries_of db)" using c'(1) by (rule list_all2_lengthD)
  have ne: "entries_of db2 \<noteq> []" using inv(2) len by auto
  have ph: "get_previous_hash ?n db2 = last_hash None (entries_of db)"
    using previous_hash_at_end [OF ok2 ne] len last_hash_same_sealed [OF c'(1)] by simp
  let ?e = "new_entry a now ?n (?n div get_epoch_size db) (last_hash None (entries_of db)) st peh"
  have "append_locked w1 w2 now a db = write_entry w1 w2 ?e db2"
    using c ph inv(4) by (simp add: append_locked_def get_next_sequence_def)
  moreover have "ready ?e db2"
    using c' inv ok2 ne len last_hash_same_sealed [OF c'(1)]
    by (simp add: ready_def chain_ok_append)
  ultimately show thesis using that c'(1) c'(5) by simp
qed

lemma chain_ok_butlast: "chain_ok n p (es @ [e]) \<Longrightarrow> chain_ok n p es"
  by (simp add: chain_ok_append)

lemma insert_ready:
  assumes "ready e db"
  shows "insert_chained e db =
    Inr (db\<lparr>audit_log := audit_log db @ [(next_oid db, Chained e)], next_oid := Suc (next_oid db)\<rparr>)"
  using assms by (intro insert_chained_fresh) (auto simp: ready_def chain_ok_append)

lemma inserted_inv:
  assumes "ready e db"
  shows "chain_inv (db\<lparr>audit_log := audit_log db @ [(next_oid db, Chained e)], next_oid := Suc (next_oid db)\<rparr>)"
    "entries_of (db\<lparr>audit_log := audit_log db @ [(next_oid db, Chained e)], next_oid := Suc (next_oid db)\<rparr>)
       = entries_of db @ [e]"
  using assms
  by (auto simp: ready_def chain_inv_def log_wf_def entries_of_def chained_docs_def)

lemma rolled_back_inv: "ready e db \<Longrightarrow> chain_inv (reset_sequence_to (e_sequence e) db)"
  by (auto simp: ready_def chain_inv_def reset_sequence_to_def chain_ok_append)

text \<open>Writing, with every acknowledgement arriving: the entry is there, or the number is given back.\<close>

lemma write_entry_ok:
  assumes "ready e db" "w1 \<noteq> AckLost" "w2 \<noteq> AckLost" "w1 = Acked \<or> w2 = Acked"
  shows "fst (write_entry w1 w2 e db) = Inr e \<and> chain_inv (snd (write_entry w1 w2 e db)) \<and>
    entries_of (snd (write_entry w1 w2 e db)) = entries_of db @ [e] \<and>
    chain_config (snd (write_entry w1 w2 e db)) = chain_config db"
  using assms(2-4) inserted_inv [OF assms(1)] insert_ready [OF assms(1)]
  by (cases w1; cases w2) (simp_all add: write_entry_def insert_one_def)

lemma write_entry_failed:
  assumes "ready e db"
  shows "fst (write_entry NotWritten NotWritten e db) = Inl (ChainWriteFailed (e_sequence e)) \<and>
    chain_inv (snd (write_entry NotWritten NotWritten e db)) \<and>
    entries_of (snd (write_entry NotWritten NotWritten e db)) = entries_of db \<and>
    chain_config (snd (write_entry NotWritten NotWritten e db)) = chain_config db"
  using rolled_back_inv [OF assms] by (simp add: write_entry_def insert_one_def reset_sequence_to_def)

lemma append_locked_inv:
  assumes "chain_inv db" "w1 \<noteq> AckLost" "w2 \<noteq> AckLost"
  shows "chain_inv (snd (append_locked w1 w2 now a db))"
proof (rule append_locked_ready [OF assms(1), of w1 w2 now a])
  fix st peh db2
  let ?e = "new_entry a now (int (length (entries_of db))) (int (length (entries_of db)) div get_epoch_size db)
          (last_hash None (entries_of db)) st peh"
  assume e: "append_locked w1 w2 now a db = write_entry w1 w2 ?e db2" and r: "ready ?e db2"
  show ?thesis
  proof (cases "w1 = Acked \<or> w2 = Acked")
    case True
    then show ?thesis using write_entry_ok [OF r assms(2,3)] e by simp
  next
    case False
    then have "w1 = NotWritten" "w2 = NotWritten" using assms(2,3) by (cases w1; cases w2; simp)+
    then show ?thesis using write_entry_failed [OF r] e by simp
  qed
qed

section \<open>Under the lock\<close>

lemma chain_inv_locks [simp]: "chain_inv (db\<lparr>chain_locks := l\<rparr>) = chain_inv db"
  by (simp add: chain_inv_def)

lemma acquire_loop_inv:
  assumes "\<And>k d. chain_inv d \<Longrightarrow> chain_inv (others k d)"
  shows "chain_inv db \<Longrightarrow> chain_inv (snd (acquire_loop others clock k n lk db))"
proof (induction n arbitrary: k lk db)
  case (Suc n)
  then show ?case
    using assms by (auto simp: Let_def split: prod.splits bool.splits)
qed simp

lemma append_chained_entry_unfold:
  "append_chained_entry others clock owner w1 w2 now a db =
     (case acquire_loop others clock 0 max_lock_attempts (new_lock ''audit_chain_append'' 30 owner) db of
        (None, db') \<Rightarrow> (Inl LockNotAcquired, db')
      | (Some lk, db') \<Rightarrow>
          (fst (append_locked w1 w2 now a db'),
           (snd (append_locked w1 w2 now a db'))
             \<lparr>chain_locks := snd (lock_release lk (chain_locks (snd (append_locked w1 w2 now a db'))))\<rparr>))"
  by (simp add: append_chained_entry_def Let_def split_def split: prod.splits option.splits)

lemma append_chained_inv:
  assumes "\<And>k d. chain_inv d \<Longrightarrow> chain_inv (others k d)" "chain_inv db" "w1 \<noteq> AckLost" "w2 \<noteq> AckLost"
  shows "chain_inv (snd (append_chained_entry others clock owner w1 w2 now a db))"
proof -
  have "chain_inv (snd (acquire_loop others clock 0 max_lock_attempts (new_lock ''audit_chain_append'' 30 owner) db))"
    by (rule acquire_loop_inv [OF assms(1) assms(2)])
  then show ?thesis
    using append_locked_inv [OF _ assms(3,4)]
    by (auto simp: append_chained_entry_unfold split: prod.splits option.splits)
qed

text \<open>With the lock free and nobody interfering, the first attempt gets it.\<close>

lemma acquire_free:
  assumes "chain_locks db ''audit_chain_append'' = None"
  shows "\<exists>lk t. acquire_loop (\<lambda>_ d. d) clock 0 max_lock_attempts (new_lock ''audit_chain_append'' 30 owner) db
    = (Some lk, db\<lparr>chain_locks := t\<rparr>)"
  using assms by (auto simp: max_lock_attempts_def numeral_eq_Suc lock_acquire_def new_lock_def Let_def)

section \<open>A lost acknowledgement\<close>

text \<open>
  The counter points at a sequence number that the log already holds: every append from here on
  runs into the unique index, twice, and gives the same number back.
\<close>

definition stuck :: "chain_db \<Rightarrow> bool" where
  "stuck db \<longleftrightarrow> (\<exists>v. seq_counter db = Some v \<and> v \<in> e_sequence ` set (entries_of db))"

lemma insert_stuck:
  "e_sequence e \<in> e_sequence ` set (entries_of db) \<Longrightarrow> insert_one w e db = (False, db)"
  by (cases w) (auto simp: insert_one_def insert_chained_def)

lemma same_sealed_sequences:
  "list_all2 same_sealed es fs \<Longrightarrow> e_sequence ` set es = e_sequence ` set fs"
  by (induction es fs rule: list_all2_induct) (auto simp: same_sealedD)

lemma append_locked_stuck:
  assumes "seq_counter db = Some v" "v \<in> e_sequence ` set (entries_of db)"
  shows "fst (append_locked w1 w2 now a db) = Inl (ChainWriteFailed v) \<and>
    seq_counter (snd (append_locked w1 w2 now a db)) = Some v \<and>
    list_all2 same_sealed (entries_of (snd (append_locked w1 w2 now a db))) (entries_of db)"
proof -
  obtain st peh db2 where c: "close_epoch v (get_epoch_size db) (db\<lparr>seq_counter := Some (v + 1)\<rparr>) = (st, peh, db2)"
    by (cases "close_epoch v (get_epoch_size db) (db\<lparr>seq_counter := Some (v + 1)\<rparr>)")
  note c' = close_epoch_db [OF c, simplified]
  have v2: "v \<in> e_sequence ` set (entries_of db2)" using assms(2) same_sealed_sequences [OF c'(1)] by simp
  then show ?thesis
    using assms(1) c c'(1)
    by (simp add: append_locked_def get_next_sequence_def write_entry_def insert_stuck reset_sequence_to_def)
qed

lemma lost_ack_stuck:
  assumes "chain_inv db"
  shows "fst (append_locked AckLost w2 now a db) = Inl (ChainWriteFailed (int (length (entries_of db)))) \<and>
    stuck (snd (append_locked AckLost w2 now a db)) \<and>
    length (entries_of (snd (append_locked AckLost w2 now a db))) = Suc (length (entries_of db))"
proof (rule append_locked_ready [OF assms, of AckLost w2 now a])
  fix st peh db2
  let ?e = "new_entry a now (int (length (entries_of db))) (int (length (entries_of db)) div get_epoch_size db)
          (last_hash None (entries_of db)) st peh"
  assume e: "append_locked AckLost w2 now a db = write_entry AckLost w2 ?e db2" and r: "ready ?e db2"
    and s: "list_all2 same_sealed (entries_of db2) (entries_of db)"
  let ?db3 = "db2\<lparr>audit_log := audit_log db2 @ [(next_oid db2, Chained ?e)], next_oid := Suc (next_oid db2)\<rparr>"
  have 3: "insert_one AckLost ?e db2 = (False, ?db3)" using insert_ready [OF r] by (simp add: insert_one_def)
  have "insert_one w2 ?e ?db3 = (False, ?db3)"
    by (rule insert_stuck) (simp add: inserted_inv(2) [OF r])
  with 3 have "write_entry AckLost w2 ?e db2 = (Inl (ChainWriteFailed (e_sequence ?e)), reset_sequence_to (e_sequence ?e) ?db3)"
    by (simp add: write_entry_def)
  with e inserted_inv(2) [OF r] list_all2_lengthD [OF s] show ?thesis
    by (simp add: stuck_def reset_sequence_to_def)
qed

section \<open>Initialisation\<close>

lemma genesis_fields [simp]:
  "e_sequence (genesis_entry now tid by sz v) = 0"
  "e_epoch (genesis_entry now tid by sz v) = 0"
  "e_previous_hash (genesis_entry now tid by sz v) = None"
  "e_hash (genesis_entry now tid by sz v) = compute_entry_hash (genesis_entry now tid by sz v) None"
  by (simp_all add: genesis_entry_def Let_def)
    (rule compute_entry_hash_cong, simp_all add: same_content_def)

lemma find_by_sequence_None: "entries_of db = [] \<Longrightarrow> find_by_sequence n db = None"
  by (simp add: find_by_sequence_def entries_of_def find_None_iff)

text \<open>On a database without a chain the genesis entry is the whole chain.\<close>

lemma initialize_fresh:
  assumes "entries_of db = []" "log_wf db"
  shows "fst (initialize_chain (\<lambda>d. d) now tid by sz v db) = genesis_entry now tid by sz v \<and>
    entries_of (snd (initialize_chain (\<lambda>d. d) now tid by sz v db)) = [genesis_entry now tid by sz v] \<and>
    chain_inv (snd (initialize_chain (\<lambda>d. d) now tid by sz v db))"
proof -
  let ?g = "genesis_entry now tid by sz v"
  obtain n c where n: "get_next_sequence (save_epoch_size sz db) = (n, (save_epoch_size sz db)\<lparr>seq_counter := c\<rparr>)"
    by (simp add: get_next_sequence_def Let_def)
  have none: "find_by_sequence 0 d = None" if "entries_of d = []" for d
    using that by (rule find_by_sequence_None)
  let ?db2 = "if n \<noteq> 0 then reset_sequence_to 0 ((save_epoch_size sz db)\<lparr>seq_counter := c\<rparr>)
     else (save_epoch_size sz db)\<lparr>seq_counter := c\<rparr>"
  let ?db4 = "reset_sequence_to 1 (?db2\<lparr>audit_log := audit_log db @ [(next_oid db, Chained ?g)],
     next_oid := Suc (next_oid db)\<rparr>)"
  have e2: "entries_of ?db2 = []" "audit_log ?db2 = audit_log db" "next_oid ?db2 = next_oid db"
    using assms(1) by (simp_all add: reset_sequence_to_def save_epoch_size_def)
  have up: "upsert_genesis ?g ?db2 =
     ?db2\<lparr>audit_log := audit_log db @ [(next_oid db, Chained ?g)], next_oid := Suc (next_oid db)\<rparr>"
    using none [OF e2(1)] e2 by (simp add: upsert_genesis_def)
  have n0: "find_by_sequence 0 (save_epoch_size sz db) = None"
    by (rule none) (simp add: save_epoch_size_def assms(1))
  have e4: "entries_of ?db4 = [?g]" "chained_docs ?db4 = [(next_oid db, ?g)]"
    using assms(1) by (simp_all add: entries_of_def chained_docs_def reset_sequence_to_def)
  have found: "find_by_sequence 0 ?db4 = Some (next_oid db, ?g)"
    using e4(2) by (simp add: find_by_sequence_def)
  have "initialize_chain (\<lambda>d. d) now tid by sz v db = (?g, ?db4)"
    by (simp only: initialize_chain_def Let_def n0 n up found prod.case option.case)
  moreover have "chain_inv ?db4"
    using assms(2) e4(1) by (auto simp: chain_inv_def log_wf_def reset_sequence_to_def save_epoch_size_def)
  ultimately show ?thesis using e4(1) by simp
qed

lemma sort_key_rev_sorted:
  fixes f :: "'a \<Rightarrow> int"
  assumes "sorted_wrt (\<lambda>x y. f x < f y) xs"
  shows "sort_key (\<lambda>x. - f x) xs = rev xs"
proof -
  have s: "sorted (map (\<lambda>x. - f x) (rev xs))"
    unfolding sorted_wrt_map sorted_wrt_rev by (rule sorted_wrt_mono_rel [OF _ assms]) simp
  have "distinct (map f xs)" using assms by (induction xs) auto
  then have "inj_on (\<lambda>x. - f x) (set xs)" by (simp add: distinct_map inj_on_def)
  then have "sort_key (\<lambda>x. - f x) (rev xs) = sort_key (\<lambda>x. - f x) xs"
    by (intro sort_key_inj_key_eq) simp_all
  then show ?thesis using sort_key_id_if_sorted [OF s] by simp
qed

lemma latest_at_end:
  assumes "chain_ok 0 None (entries_of db)" "entries_of db \<noteq> []"
  shows "map_option snd (get_latest_chained_entry db) = Some (last (entries_of db))"
proof -
  have "sorted_wrt (\<lambda>x y. e_sequence (snd x) < e_sequence (snd y)) (chained_docs db)"
    using chain_ok_sorted [OF assms(1)] by (simp add: entries_of_def sorted_wrt_map)
  then have "sort_key (\<lambda>d. - e_sequence (snd d)) (chained_docs db) = rev (chained_docs db)"
    by (rule sort_key_rev_sorted)
  then show ?thesis
    using assms(2) by (cases "chained_docs db" rule: rev_cases)
      (simp_all add: get_latest_chained_entry_def first_doc_def entries_of_def)
qed

text \<open>Initialising again repairs the counter, and so ends a stuck chain.\<close>

lemma initialize_again:
  assumes "log_wf db" "chain_ok 0 None (entries_of db)" "entries_of db \<noteq> []"
  shows "fst (initialize_chain others now tid by sz v db) = hd (entries_of db) \<and>
    entries_of (snd (initialize_chain others now tid by sz v db)) = entries_of db \<and>
    chain_inv (snd (initialize_chain others now tid by sz v db)) \<and>
    chain_config (snd (initialize_chain others now tid by sz v db)) = Some sz"
proof -
  let ?db = "save_epoch_size sz db"
  have e: "entries_of ?db = entries_of db" "log_wf ?db" using assms(1) by (simp_all add: save_epoch_size_def)
  have g: "map_option snd (find_by_sequence 0 ?db) = Some (entries_of db ! 0)"
    using find_by_sequence_at [of ?db 0] assms(2,3) e by simp
  have l: "map_option snd (get_latest_chained_entry ?db) = Some (last (entries_of db))"
    using latest_at_end [of ?db] assms(2,3) e by simp
  have n: "e_sequence (last (entries_of db)) + 1 = int (length (entries_of db))"
    using chain_ok_sequence [OF assms(2)] assms(3) by (simp add: last_conv_nth of_nat_diff Suc_leI)
  from g l n show ?thesis
    using assms e
    by (auto simp: initialize_chain_def Let_def reset_sequence_to_def chain_inv_def hd_conv_nth save_epoch_size_def)
qed

end
