(* ===== verification/ChainQueries.thy ===== *)
theory ChainQueries
  imports ChainCommands
begin

text \<open>
  \<open>backend/audit/chain/queries.py\<close>: verification of the whole chain in batches and of one epoch,
  the status, the epoch list and the export. The batch loop is a \<open>partial_function\<close>: its value
  \<open>None\<close> is a loop that does not end.
\<close>

section \<open>verify_chain\<close>

record verification_result =
  vr_status :: chain_status
  vr_verified_entries :: int
  vr_first_sequence :: int
  vr_last_sequence :: int
  vr_epochs_verified :: int
  vr_broken_at_sequence :: "int option"
  vr_broken_reason :: "broken_reason option"
  vr_verification_time_ms :: int

type_synonym batch_result = "(chain_status \<times> int \<times> int \<times> broken_reason) option"

fun verify_batch_from ::
  "chained_entry list \<Rightarrow> int \<Rightarrow> string option \<Rightarrow> bool \<Rightarrow> int \<Rightarrow> batch_result" where
  "verify_batch_from [] expected_start prev_hash skip i = None"
| "verify_batch_from (entry # es) expected_start prev_hash skip i =
     (let seq = e_sequence entry; expected_seq = expected_start + i; entry_prev_hash = e_previous_hash entry
      in if seq \<noteq> expected_seq then Some (GAP_DETECTED, expected_seq, i, SEQUENCE_GAP)
         else if (\<not> skip \<or> i > 0) \<and> entry_prev_hash \<noteq> prev_hash then Some (BROKEN, seq, i, HASH_MISMATCH)
         else if compute_entry_hash entry entry_prev_hash \<noteq> e_hash entry then Some (BROKEN, seq, i, HASH_MISMATCH)
         else verify_batch_from es expected_start (Some (e_hash entry)) skip (i + 1))"

definition verify_batch :: "chained_entry list \<Rightarrow> int \<Rightarrow> string option \<Rightarrow> bool \<Rightarrow> batch_result" where
  "verify_batch entries expected_start expected_prev_hash skip =
     verify_batch_from entries expected_start expected_prev_hash skip 0"

definition mk_result ::
  "chain_status \<Rightarrow> int \<Rightarrow> int \<Rightarrow> int \<Rightarrow> int \<Rightarrow> int option \<Rightarrow> broken_reason option \<Rightarrow> verification_result" where
  "mk_result st n f l ep at why = \<lparr>vr_status = st, vr_verified_entries = n, vr_first_sequence = f,
     vr_last_sequence = l, vr_epochs_verified = ep, vr_broken_at_sequence = at, vr_broken_reason = why,
     vr_verification_time_ms = 0\<rparr>"

text \<open>The body of the batch loop, from the read of a batch to the new loop variables.\<close>

definition next_epochs :: "chained_entry list \<Rightarrow> bool \<Rightarrow> int \<Rightarrow> int" where
  "next_epochs entries at_max epochs =
     (if entries = [] then epochs
      else if e_is_epoch_end (last entries) \<or> at_max then e_epoch (last entries) + 1 else epochs)"

definition next_prev :: "chained_entry list \<Rightarrow> string option \<Rightarrow> string option" where
  "next_prev entries p = (if entries = [] then p else Some (e_hash (last entries)))"

partial_function (option) verify_loop ::
  "chain_db \<Rightarrow> int \<Rightarrow> int \<Rightarrow> int \<Rightarrow> string option \<Rightarrow> int \<Rightarrow> int \<Rightarrow> verification_result option" where
  "verify_loop db epoch_size max_sequence batch_start previous_hash total_verified epochs =
     (if batch_start \<le> max_sequence then
        (let batch_end = min (batch_start + epoch_size - 1) max_sequence;
             entries = stream_entries_in_range db batch_start batch_end
         in case verify_batch entries batch_start previous_hash False of
              Some (st, seq, n, why) \<Rightarrow>
                Some (mk_result st (total_verified + n) 0 seq epochs (Some seq) (Some why))
            | None \<Rightarrow>
                verify_loop db epoch_size max_sequence (batch_end + 1) (next_prev entries previous_hash)
                  (total_verified + int (length entries)) (next_epochs entries (batch_end = max_sequence) epochs))
      else Some (mk_result VALID total_verified 0 max_sequence epochs None None))"

declare verify_loop.simps [code]

definition verify_full_chain :: "chain_db \<Rightarrow> verification_result option" where
  "verify_full_chain db =
     (let epoch_size = get_epoch_size db
      in case get_latest_chained_entry db of
           None \<Rightarrow> Some (mk_result VALID 0 0 0 0 None None)
         | Some (_, latest) \<Rightarrow> verify_loop db epoch_size (e_sequence latest) 0 None 0 0)"

definition verify_single_epoch :: "chain_db \<Rightarrow> int \<Rightarrow> chain_error + verification_result" where
  "verify_single_epoch db epoch =
     (case stream_entries_for_epoch db epoch of
        [] \<Rightarrow> Inl (EpochNotFoundError epoch)
      | first # rest \<Rightarrow>
          (let entries = first # rest; first_seq = e_sequence first; last_seq = e_sequence (last entries)
           in case verify_batch entries first_seq (e_previous_hash first) True of
                Some (st, seq, n, why) \<Rightarrow> Inr (mk_result st n first_seq seq 0 (Some seq) (Some why))
              | None \<Rightarrow> Inr (mk_result VALID (int (length entries)) first_seq last_seq 1 None None)))"

text \<open>
  What \<open>verify_chain\<close> hands to the webhook dispatcher when the chain is not valid. The epoch is
  computed by truthiness: a break at sequence 0 has none.
\<close>

record failure_event =
  fe_broken_at_sequence :: "int option"
  fe_reason :: "broken_reason option"
  fe_epoch :: "int option"
  fe_verified_entries :: int

definition failure_event_of :: "chain_db \<Rightarrow> verification_result \<Rightarrow> failure_event" where
  "failure_event_of db r = \<lparr>fe_broken_at_sequence = vr_broken_at_sequence r, fe_reason = vr_broken_reason r,
     fe_epoch = (case vr_broken_at_sequence r of None \<Rightarrow> None
                 | Some s \<Rightarrow> if s = 0 then None else Some (s div get_epoch_size db)),
     fe_verified_entries = vr_verified_entries r\<rparr>"

definition result_doc :: "instant \<Rightarrow> verification_result \<Rightarrow> verification_doc" where
  "result_doc now r = \<lparr>vd_status = vr_status r, vd_verified_entries = vr_verified_entries r,
     vd_chain_valid = (vr_status r = VALID), vd_verified_at = now,
     vd_broken_at_sequence = vr_broken_at_sequence r, vd_broken_reason = vr_broken_reason r,
     vd_verification_time_ms = vr_verification_time_ms r\<rparr>"

definition verify_chain ::
  "int \<Rightarrow> instant \<Rightarrow> chain_db \<Rightarrow> int option
    \<Rightarrow> (chain_error + verification_result \<times> failure_event option \<times> chain_db) option" where
  "verify_chain elapsed_ms now db epoch =
     (case get_genesis_entry db of
        None \<Rightarrow> Some (Inl ChainNotInitializedError)
      | Some _ \<Rightarrow>
          (case (case epoch of Some k \<Rightarrow> Some (verify_single_epoch db k)
                 | None \<Rightarrow> map_option Inr (verify_full_chain db)) of
             None \<Rightarrow> None
           | Some (Inl err) \<Rightarrow> Some (Inl err)
           | Some (Inr r0) \<Rightarrow>
               (let r = r0\<lparr>vr_verification_time_ms := elapsed_ms\<rparr>;
                    db' = save_verification_result (result_doc now r) db
                in Some (Inr (r, if vr_status r \<noteq> VALID then Some (failure_event_of db' r) else None, db')))))"

section \<open>get_chain_status and list_epochs\<close>

record chain_status_info =
  si_total_entries :: int
  si_current_epoch :: int
  si_current_sequence :: int
  si_genesis_hash :: string
  si_latest_hash :: string
  si_chain_valid :: "bool option"
  si_last_verified_at :: "instant option"

definition get_chain_status :: "chain_db \<Rightarrow> chain_error + chain_status_info" where
  "get_chain_status db =
     (case get_genesis_entry db of
        None \<Rightarrow> Inl ChainNotInitializedError
      | Some (_, genesis) \<Rightarrow>
          (let latest = map_option snd (get_latest_chained_entry db);
               lv = get_last_verification db
           in Inr \<lparr>si_total_entries = int (count_chained_entries db),
                si_current_epoch = (case latest of Some l \<Rightarrow> e_epoch l | None \<Rightarrow> 0),
                si_current_sequence = (case latest of Some l \<Rightarrow> e_sequence l | None \<Rightarrow> 0),
                si_genesis_hash = e_hash genesis,
                si_latest_hash = (case latest of Some l \<Rightarrow> e_hash l | None \<Rightarrow> e_hash genesis),
                si_chain_valid = map_option vd_chain_valid lv,
                si_last_verified_at = map_option vd_verified_at lv\<rparr>))"

record epoch_summary =
  es_epoch :: int
  es_first_sequence :: int
  es_last_sequence :: int
  es_entry_count :: int
  es_first_timestamp :: tstamp
  es_last_timestamp :: tstamp
  es_final_hash :: string
  es_previous_epoch_hash :: "string option"
  es_exported :: bool

fun summarise_epochs :: "chain_db \<Rightarrow> chained_entry list \<Rightarrow> epoch_summary list" where
  "summarise_epochs db [] = []"
| "summarise_epochs db (epoch_end # rest) =
     (case get_epoch_boundary_entry db (e_epoch epoch_end) False of
        None \<Rightarrow> summarise_epochs db rest
      | Some (_, first_entry) \<Rightarrow>
          \<lparr>es_epoch = e_epoch epoch_end, es_first_sequence = e_sequence first_entry,
           es_last_sequence = e_sequence epoch_end,
           es_entry_count = e_sequence epoch_end - e_sequence first_entry + 1,
           es_first_timestamp = e_timestamp first_entry, es_last_timestamp = e_timestamp epoch_end,
           es_final_hash = e_hash epoch_end, es_previous_epoch_hash = e_previous_epoch_hash first_entry,
           es_exported = (e_epoch epoch_end \<in> get_exported_epochs db)\<rparr> # summarise_epochs db rest)"

definition list_epochs :: "chain_db \<Rightarrow> epoch_summary list" where
  "list_epochs db = summarise_epochs db (get_completed_epochs db)"

section \<open>export_epoch\<close>

record export_metadata =
  m_sentora_version :: string
  m_tenant_id :: "string option"
  m_tenant_name :: "string option"
  m_epoch :: int
  m_epoch_size :: int
  m_first_sequence :: int
  m_last_sequence :: int
  m_first_timestamp :: string
  m_last_timestamp :: string
  m_entry_count :: int
  m_previous_epoch_hash :: "string option"
  m_epoch_final_hash :: string
  m_exported_at :: string
  m_exported_by :: string
  m_chain_algorithm :: string
  m_export_hash :: "string option"

record epoch_export =
  x_metadata :: export_metadata
  x_entries :: "chained_entry list"

definition tstamp_iso :: "tstamp \<Rightarrow> string" where
  "tstamp_iso t = (case t of TDate d \<Rightarrow> isoformat d | TStr s \<Rightarrow> s)"

definition serialise_entry :: "chained_entry \<Rightarrow> chained_entry" where
  "serialise_entry e =
     (case e_timestamp e of TDate d \<Rightarrow> e\<lparr>e_timestamp := TStr (isoformat d)\<rparr> | TStr _ \<Rightarrow> e)"

definition export_epoch ::
  "datetime \<Rightarrow> string \<Rightarrow> string option \<Rightarrow> string option \<Rightarrow> string \<Rightarrow> chain_db \<Rightarrow> int
    \<Rightarrow> chain_error + epoch_export \<times> chain_db" where
  "export_epoch now exported_by tenant_id tenant_name version db epoch =
     (case stream_entries_for_epoch db epoch of
        [] \<Rightarrow> Inl (EpochNotFoundError epoch)
      | first_entry # rest \<Rightarrow>
          (let entries = first_entry # rest; last_entry = last entries
           in if \<not> e_is_epoch_end last_entry \<and>
                 (case get_latest_chained_entry db of Some (_, l) \<Rightarrow> e_epoch l = epoch | None \<Rightarrow> False)
              then Inl (EpochNotCompleteError epoch (length entries))
              else
                (let metadata = \<lparr>m_sentora_version = version, m_tenant_id = tenant_id,
                       m_tenant_name = tenant_name, m_epoch = epoch, m_epoch_size = get_epoch_size db,
                       m_first_sequence = e_sequence first_entry, m_last_sequence = e_sequence last_entry,
                       m_first_timestamp = tstamp_iso (e_timestamp first_entry),
                       m_last_timestamp = tstamp_iso (e_timestamp last_entry),
                       m_entry_count = int (length entries),
                       m_previous_epoch_hash = e_previous_epoch_hash first_entry,
                       m_epoch_final_hash = e_hash last_entry, m_exported_at = isoformat now,
                       m_exported_by = exported_by, m_chain_algorithm = CHAIN_ALGORITHM,
                       m_export_hash = Some (compute_export_hash entries)\<rparr>
                 in Inr (\<lparr>x_metadata = metadata, x_entries = map serialise_entry entries\<rparr>,
                         mark_epoch_exported epoch db))))"

section \<open>What a batch establishes\<close>

lemma verify_batch_from_None:
  assumes "0 \<le> i" "skip \<longrightarrow> i > 0"
  shows "verify_batch_from es n p skip i = None \<longleftrightarrow> chain_ok (n + i) p es"
  using assms
proof (induction es arbitrary: i p)
  case (Cons e es)
  show ?case
    using Cons.prems Cons.IH [of "i + 1" "Some (e_hash e)"] by (auto simp: Let_def algebra_simps)
qed simp

lemma verify_batch_None: "verify_batch es n p False = None \<longleftrightarrow> chain_ok n p es"
  by (simp add: verify_batch_def verify_batch_from_None)

lemma verify_batch_skip_None:
  "verify_batch (e # es) n p True = None \<longleftrightarrow> chain_ok n (e_previous_hash e) (e # es)"
  by (auto simp: verify_batch_def verify_batch_from_None Let_def)

lemma verify_batch_from_Some:
  assumes "verify_batch_from es n p False i = Some (st, s, j, why)" "0 \<le> i"
  shows "\<exists>k<length es. j = i + int k \<and> s = n + j \<and> chain_ok (n + i) p (take k es) \<and>
    \<not> chain_ok (n + i) p (take (Suc k) es) \<and>
    (st = GAP_DETECTED \<longleftrightarrow> e_sequence (es ! k) \<noteq> s) \<and> (st = BROKEN \<longleftrightarrow> e_sequence (es ! k) = s) \<and>
    (why = SEQUENCE_GAP \<longleftrightarrow> st = GAP_DETECTED)"
  using assms
proof (induction es arbitrary: i p)
  case (Cons e es)
  show ?case
  proof (cases "chain_ok (n + i) p [e]")
    case False
    with Cons.prems show ?thesis by (intro exI [of _ 0]) (auto simp: Let_def split: if_splits)
  next
    case True
    then have "verify_batch_from es n (Some (e_hash e)) False (i + 1) = Some (st, s, j, why)"
      using Cons.prems by (simp add: Let_def)
    from Cons.IH [OF this] Cons.prems(2) obtain k where
      "k < length es" "j = i + 1 + int k" "s = n + j" "chain_ok (n + (i + 1)) (Some (e_hash e)) (take k es)"
      "\<not> chain_ok (n + (i + 1)) (Some (e_hash e)) (take (Suc k) es)"
      "st = GAP_DETECTED \<longleftrightarrow> e_sequence (es ! k) \<noteq> s" "st = BROKEN \<longleftrightarrow> e_sequence (es ! k) = s"
      "why = SEQUENCE_GAP \<longleftrightarrow> st = GAP_DETECTED"
      by auto
    with True show ?thesis by (intro exI [of _ "Suc k"]) (simp add: algebra_simps)
  qed
qed simp

section \<open>Batches of the log\<close>

lemma sort_range_split:
  fixes f :: "'a \<Rightarrow> int"
  assumes "lo \<le> mid + 1" "mid \<le> hi"
  shows "sort_key f (filter (\<lambda>x. lo \<le> f x \<and> f x \<le> hi) xs) =
    sort_key f (filter (\<lambda>x. lo \<le> f x \<and> f x \<le> mid) xs) @
    sort_key f (filter (\<lambda>x. mid + 1 \<le> f x \<and> f x \<le> hi) xs)"
proof (rule properties_for_sort_key)
  show "mset (sort_key f (filter (\<lambda>x. lo \<le> f x \<and> f x \<le> mid) xs) @
      sort_key f (filter (\<lambda>x. mid + 1 \<le> f x \<and> f x \<le> hi) xs)) =
    mset (filter (\<lambda>x. lo \<le> f x \<and> f x \<le> hi) xs)"
    using assms by (induction xs) auto
  show "filter (\<lambda>x. f k = f x) (sort_key f (filter (\<lambda>x. lo \<le> f x \<and> f x \<le> mid) xs) @
      sort_key f (filter (\<lambda>x. mid + 1 \<le> f x \<and> f x \<le> hi) xs)) =
    filter (\<lambda>x. f k = f x) (filter (\<lambda>x. lo \<le> f x \<and> f x \<le> hi) xs)" for k
  proof -
    have "filter (\<lambda>x. f k = f x) (sort_key f zs) = filter (\<lambda>x. f k = f x) zs" for zs :: "'a list"
      using sort_key_stable [of f "f k" zs] by (simp add: eq_commute)
    then show ?thesis using assms by (induction xs) auto
  qed
  show "sorted (map f (sort_key f (filter (\<lambda>x. lo \<le> f x \<and> f x \<le> mid) xs) @
      sort_key f (filter (\<lambda>x. mid + 1 \<le> f x \<and> f x \<le> hi) xs)))"
    by (auto simp: sorted_append)
qed

lemma range_split:
  "lo \<le> mid + 1 \<Longrightarrow> mid \<le> hi \<Longrightarrow>
   stream_entries_in_range db lo hi =
     stream_entries_in_range db lo mid @ stream_entries_in_range db (mid + 1) hi"
  unfolding stream_entries_in_range_def by (rule sort_range_split)

lemma range_sequences: "e \<in> set (stream_entries_in_range db lo hi) \<Longrightarrow> lo \<le> e_sequence e \<and> e_sequence e \<le> hi"
  by (simp add: stream_entries_in_range_def)

lemma range_beyond: "hi < lo \<Longrightarrow> stream_entries_in_range db lo hi = []"
  by (auto simp: stream_entries_in_range_def filter_empty_conv)

lemma range_of_chain:
  assumes "chain_ok 0 None (entries_of db)" "k \<le> m"
  shows "stream_entries_in_range db (int k) (int m - 1) = take (m - k) (drop k (entries_of db))"
proof -
  let ?es = "entries_of db"
  have seq: "e_sequence (?es ! i) = int i" if "i < length ?es" for i
    using chain_ok_sequence [OF assms(1) that] by simp
  let ?P = "\<lambda>e. int k \<le> e_sequence e \<and> e_sequence e \<le> int m - 1"
  have split: "?es = take k ?es @ take (m - k) (drop k ?es) @ drop m ?es"
    using assms(2) by (metis append_take_drop_id drop_drop le_add_diff_inverse2)
  have "filter ?P (take k ?es) = []" "filter ?P (drop m ?es) = []"
    using seq by (auto simp: filter_empty_conv in_set_conv_nth)
  moreover have "filter ?P (take (m - k) (drop k ?es)) = take (m - k) (drop k ?es)"
    using seq by (auto simp: filter_id_conv in_set_conv_nth)
  ultimately have "filter ?P (take k ?es @ take (m - k) (drop k ?es) @ drop m ?es) = take (m - k) (drop k ?es)"
    by (simp only: filter_append append_Nil append_Nil2)
  then have "filter ?P ?es = take (m - k) (drop k ?es)"
    using split by simp
  moreover have "sorted (take (m - k) (drop k (map e_sequence ?es)))"
    by (intro sorted_wrt_take sorted_wrt_drop strict_sorted_imp_sorted chain_ok_sorted [OF assms(1)])
  then have "sorted (map e_sequence (take (m - k) (drop k ?es)))"
    by (simp only: take_map drop_map)
  ultimately show ?thesis by (simp add: stream_entries_in_range_def sort_key_id_if_sorted)
qed

section \<open>The batch loop\<close>

text \<open>With a positive epoch size the loop ends, whatever the log holds.\<close>

lemma verify_loop_returns:
  assumes "0 < sz"
  shows "\<exists>r. verify_loop db sz mx b p t ep = Some r"
proof (induction "nat (mx + 1 - b)" arbitrary: b p t ep rule: less_induct)
  case less
  show ?case
  proof (cases "b \<le> mx")
    case True
    let ?e = "min (b + sz - 1) mx"
    have "nat (mx + 1 - (?e + 1)) < nat (mx + 1 - b)" using True assms by simp
    note IH = less [OF this]
    show ?thesis
      using IH True by (subst verify_loop.simps) (auto simp: Let_def split: option.splits)
  next
    case False
    then show ?thesis by (simp add: verify_loop.simps)
  qed
qed

lemma next_prev_last_hash: "next_prev es p = last_hash p es"
  by (cases "es = []") (simp_all add: next_prev_def last_hash_last)

text \<open>On a good chain every batch passes and the loop ends with all entries counted.\<close>

lemma verify_loop_complete:
  assumes ok: "chain_ok 0 None (entries_of db)" and ne: "entries_of db \<noteq> []" and sz: "0 < sz"
  shows "k \<le> length (entries_of db) \<Longrightarrow>
    verify_loop db sz (int (length (entries_of db)) - 1) (int k) (last_hash None (take k (entries_of db))) (int k) ep =
      Some (mk_result VALID (int (length (entries_of db))) 0 (int (length (entries_of db)) - 1)
        (if k < length (entries_of db) then e_epoch (last (entries_of db)) + 1 else ep) None None)"
proof (induction "length (entries_of db) - k" arbitrary: k ep rule: less_induct)
  case less
  let ?es = "entries_of db" and ?n = "length (entries_of db)"
  show ?case
  proof (cases "k < ?n")
    case False
    with less.prems show ?thesis by (simp add: verify_loop.simps)
  next
    case True
    define m where "m = min (k + nat sz) ?n"
    have m: "k < m" "m \<le> ?n" using True sz by (auto simp: m_def)
    have be: "min (int k + sz - 1) (int ?n - 1) = int m - 1" using sz by (auto simp: m_def)
    let ?b = "take (m - k) (drop k ?es)"
    have b: "stream_entries_in_range db (int k) (int m - 1) = ?b"
      using m by (intro range_of_chain [OF ok]) simp
    have tm: "take m ?es = take k ?es @ ?b"
      using m by (metis le_add_diff_inverse less_imp_le take_add)
    have len: "length ?b = m - k" "length (take k ?es) = k" using m by auto
    have "chain_ok 0 None (take m ?es)" using ok by (metis append_take_drop_id chain_ok_append)
    then have vb: "verify_batch ?b (int k) (last_hash None (take k ?es)) False = None"
      using len by (simp add: verify_batch_None tm chain_ok_append)
    have lh: "next_prev ?b (last_hash None (take k ?es)) = last_hash None (take m ?es)"
      by (simp add: next_prev_last_hash tm last_hash_append)
    let ?ep = "next_epochs ?b (int m - 1 = int ?n - 1) ep"
    have step: "verify_loop db sz (int ?n - 1) (int k) (last_hash None (take k ?es)) (int k) ep =
        verify_loop db sz (int ?n - 1) (int m) (last_hash None (take m ?es)) (int m) ?ep"
      using True m len(1) by (subst verify_loop.simps) (simp add: be b vb lh Let_def of_nat_diff)
    have "?ep = e_epoch (last ?es) + 1" if "m = ?n"
    proof -
      have "drop k ?es \<noteq> []" using True by simp
      with that True show ?thesis by (simp add: next_epochs_def)
    qed
    with less.hyps [of m ?ep] m True show ?thesis unfolding step by auto
  qed
qed

text \<open>
  A valid run covers at most one entry per sequence number, and when it covers them all, what it
  covered is a good chain.
\<close>

lemma batch_fits:
  assumes "chain_ok lo p (stream_entries_in_range db lo hi)" "lo \<le> hi + 1"
  shows "int (length (stream_entries_in_range db lo hi)) \<le> hi + 1 - lo"
proof (cases "stream_entries_in_range db lo hi = []")
  case False
  let ?es = "stream_entries_in_range db lo hi"
  have l: "length ?es - 1 < length ?es" using False by simp
  have "e_sequence (?es ! (length ?es - 1)) = lo + int (length ?es - 1)"
    by (rule chain_ok_sequence [OF assms(1) l])
  moreover have "e_sequence (?es ! (length ?es - 1)) \<le> hi"
    using range_sequences l nth_mem by blast
  ultimately show ?thesis using False by (simp add: of_nat_diff Suc_leI)
qed (use assms(2) in simp)

lemma verify_loop_sound:
  assumes "0 < sz"
  shows "verify_loop db sz mx b p t ep = Some r \<Longrightarrow> vr_status r = VALID \<Longrightarrow> b \<le> mx + 1 \<Longrightarrow>
    vr_last_sequence r = mx \<and> vr_verified_entries r \<le> t + (mx + 1 - b) \<and>
    (vr_verified_entries r = t + (mx + 1 - b) \<longrightarrow> chain_ok b p (stream_entries_in_range db b mx))"
proof (induction "nat (mx + 1 - b)" arbitrary: b p t ep rule: less_induct)
  case less
  show ?case
  proof (cases "b \<le> mx")
    case False
    with less.prems show ?thesis
      by (auto simp: verify_loop.simps mk_result_def range_beyond)
  next
    case True
    let ?e = "min (b + sz - 1) mx"
    let ?es = "stream_entries_in_range db b ?e"
    have e: "b \<le> ?e" "?e \<le> mx" using True assms by auto
    have vb: "verify_batch ?es b p False = None"
      using less.prems(1,2) True
      by (subst (asm) verify_loop.simps) (auto simp: Let_def mk_result_def verify_batch_def
          dest!: verify_batch_from_Some split: option.splits)
    then have ok: "chain_ok b p ?es" by (simp add: verify_batch_None)
    have fit: "int (length ?es) \<le> ?e + 1 - b" using batch_fits [OF ok] e by simp
    have rec: "verify_loop db sz mx (?e + 1) (next_prev ?es p) (t + int (length ?es))
        (next_epochs ?es (?e = mx) ep) = Some r"
      using less.prems(1) True vb by (subst (asm) verify_loop.simps) (simp add: Let_def)
    have "nat (mx + 1 - (?e + 1)) < nat (mx + 1 - b)" "?e + 1 \<le> mx + 1" using e by auto
    note IH = less.hyps [OF this(1) rec less.prems(2) this(2)]
    have "chain_ok b p (stream_entries_in_range db b mx)" if "vr_verified_entries r = t + (mx + 1 - b)"
    proof -
      have "int (length ?es) = ?e + 1 - b" "chain_ok (?e + 1) (next_prev ?es p) (stream_entries_in_range db (?e + 1) mx)"
        using IH fit that by linarith+
      moreover have "stream_entries_in_range db b mx = ?es @ stream_entries_in_range db (?e + 1) mx"
        using e by (intro range_split) auto
      ultimately show ?thesis using ok by (simp add: chain_ok_append next_prev_last_hash)
    qed
    with IH fit show ?thesis by linarith
  qed
qed

end
