(* ===== verification/ChainTheorems.thy ===== *)
theory ChainTheorems
  imports ChainQueries
begin

text \<open>
  The properties of the server side of the audit chain, over the commands and the queries, and the
  small concrete chains that witness them.
\<close>

section \<open>Epochs\<close>

lemma div_eq_iff_range:
  assumes "0 < (n::int)"
  shows "s div n = k \<longleftrightarrow> k * n \<le> s \<and> s < (k + 1) * n"
proof
  assume "s div n = k"
  then have "s = k * n + s mod n" by auto
  moreover have "0 \<le> s mod n" "s mod n < n" "(k + 1) * n = k * n + n"
    using assms by (simp_all add: algebra_simps)
  ultimately show "k * n \<le> s \<and> s < (k + 1) * n" by linarith
next
  assume "k * n \<le> s \<and> s < (k + 1) * n"
  then show "s div n = k" using assms by (intro int_div_pos_eq [of s n k "s - k * n"]) (auto simp: algebra_simps)
qed

text \<open>Every entry carries the epoch that its sequence number belongs to under the stored size.\<close>

definition epochs_ok :: "chain_db \<Rightarrow> bool" where
  "epochs_ok db \<longleftrightarrow> get_epoch_size db > 0 \<and>
     (\<forall>e\<in>set (entries_of db). e_epoch e = e_sequence e div get_epoch_size db)"

lemma same_sealed_epochs:
  assumes "list_all2 same_sealed es fs" "\<forall>e\<in>set fs. e_epoch e = e_sequence e div k"
  shows "\<forall>e\<in>set es. e_epoch e = e_sequence e div k"
  using assms by (induction es fs rule: list_all2_induct) (auto simp: same_sealedD)

lemma append_locked_epochs:
  assumes "chain_inv db" "epochs_ok db" "w1 \<noteq> AckLost" "w2 \<noteq> AckLost"
  shows "epochs_ok (snd (append_locked w1 w2 now a db))"
proof (rule append_locked_ready [OF assms(1), of w1 w2 now a])
  fix st peh db2
  let ?e = "new_entry a now (int (length (entries_of db))) (int (length (entries_of db)) div get_epoch_size db)
          (last_hash None (entries_of db)) st peh"
  assume e: "append_locked w1 w2 now a db = write_entry w1 w2 ?e db2" and r: "ready ?e db2"
    and s: "list_all2 same_sealed (entries_of db2) (entries_of db)" and c: "chain_config db2 = chain_config db"
  have k: "get_epoch_size d = get_epoch_size db" if "chain_config d = chain_config db" for d
    using that by (simp add: get_epoch_size_def)
  have old: "\<forall>e\<in>set (entries_of db2). e_epoch e = e_sequence e div get_epoch_size db"
    using same_sealed_epochs [OF s] assms(2) by (simp add: epochs_ok_def)
  show ?thesis
  proof (cases "w1 = Acked \<or> w2 = Acked")
    case True
    then show ?thesis
      using write_entry_ok [OF r assms(3,4)] e old c assms(2) k [of "snd (write_entry w1 w2 ?e db2)"]
      by (auto simp: epochs_ok_def)
  next
    case False
    then have "w1 = NotWritten" "w2 = NotWritten" using assms(3,4) by (cases w1; cases w2; simp)+
    then show ?thesis
      using write_entry_failed [OF r] e old c assms(2) k [of "snd (write_entry w1 w2 ?e db2)"]
      by (auto simp: epochs_ok_def)
  qed
qed

lemma chain_nth_epoch:
  assumes "chain_inv db" "epochs_ok db" "i < length (entries_of db)"
  shows "e_epoch (entries_of db ! i) = int i div get_epoch_size db"
  using assms chain_ok_sequence [of 0 None "entries_of db" i]
  by (auto simp: chain_inv_def epochs_ok_def)

text \<open>An epoch is a contiguous piece of the chain.\<close>

lemma epoch_is_range:
  assumes "chain_inv db" "epochs_ok db" "0 \<le> k"
  shows "stream_entries_for_epoch db k =
    stream_entries_in_range db (k * get_epoch_size db) ((k + 1) * get_epoch_size db - 1)"
proof -
  let ?n = "get_epoch_size db"
  have "e_epoch e = k \<longleftrightarrow> k * ?n \<le> e_sequence e \<and> e_sequence e \<le> (k + 1) * ?n - 1"
    if "e \<in> set (entries_of db)" for e
  proof -
    have n: "0 < ?n" "e_epoch e = e_sequence e div ?n" using assms(2) that by (auto simp: epochs_ok_def)
    have "e_sequence e div ?n = k \<longleftrightarrow> k * ?n \<le> e_sequence e \<and> e_sequence e < (k + 1) * ?n"
      by (rule div_eq_iff_range [OF n(1)])
    then show ?thesis using n by auto
  qed
  then have "filter (\<lambda>e. e_epoch e = k) (entries_of db) =
      filter (\<lambda>e. k * ?n \<le> e_sequence e \<and> e_sequence e \<le> (k + 1) * ?n - 1) (entries_of db)"
    by (intro filter_cong) simp_all
  then show ?thesis by (simp add: stream_entries_for_epoch_def stream_entries_in_range_def)
qed

text \<open>Verifying one finished or running epoch of a good chain succeeds.\<close>

lemma epoch_slice:
  assumes "chain_inv db" "epochs_ok db" "0 \<le> k"
  shows "\<exists>p. chain_ok (k * get_epoch_size db) p (stream_entries_for_epoch db k)"
    "stream_entries_for_epoch db k =
      take (nat (get_epoch_size db)) (drop (nat (k * get_epoch_size db)) (entries_of db))"
proof -
  let ?n = "get_epoch_size db"
  define a where "a = nat (k * ?n)"
  have n: "0 < ?n" using assms(2) by (simp add: epochs_ok_def)
  have ok: "chain_ok 0 None (entries_of db)" using assms(1) by (simp add: chain_inv_def)
  have a: "int a = k * ?n" using n assms(3) by (simp add: a_def)
  have "(k + 1) * ?n - 1 = int (a + nat ?n) - 1" using n a by (simp add: algebra_simps)
  then have "stream_entries_for_epoch db k = stream_entries_in_range db (int a) (int (a + nat ?n) - 1)"
    using epoch_is_range [OF assms] a by simp
  also have "\<dots> = take (nat ?n) (drop a (entries_of db))"
    using range_of_chain [OF ok, of a "a + nat ?n"] by simp
  finally show s: "stream_entries_for_epoch db k = take (nat ?n) (drop (nat (k * ?n)) (entries_of db))"
    by (simp add: a_def)
  have "entries_of db = take a (entries_of db) @ take (nat ?n) (drop a (entries_of db)) @ drop (a + nat ?n) (entries_of db)"
    by (metis add.commute append_take_drop_id drop_drop)
  then have "chain_ok (int (length (take a (entries_of db)))) (last_hash None (take a (entries_of db)))
      (take (nat ?n) (drop a (entries_of db)))"
    using ok by (metis add_0 chain_ok_append)
  then show "\<exists>p. chain_ok (k * ?n) p (stream_entries_for_epoch db k)"
    unfolding s a_def [symmetric] using a
    by (cases "a \<le> length (entries_of db)") (auto simp: min_def split: if_splits)
qed

section \<open>Small chains\<close>

text \<open>A new tenant: a genesis entry, then two entries.\<close>

definition demo_now :: datetime where
  "demo_now = \<lparr>dt_year = 2025, dt_month = 3, dt_day = 9, dt_hour = 7, dt_minute = 5, dt_second = 4,
     dt_micro = 123456, dt_offset = Some 0\<rparr>"

definition demo_args :: append_args where
  "demo_args = \<lparr>a_domain = ''auth'', a_action = ''auth.login'', a_actor = ''ann'', a_status = ''success'',
     a_summary = ''Login'', a_details = Some [(''attempt'', PInt 1)], a_tenant_id = None\<rparr>"

definition demo1 :: chain_db where
  "demo1 = snd (initialize_chain (\<lambda>d. d) demo_now None ''system'' 2 ''1.1.0'' empty_db)"

definition demo2 :: chain_db where
  "demo2 = snd (append_locked Acked Acked demo_now demo_args demo1)"

definition demo3 :: chain_db where
  "demo3 = snd (append_locked Acked Acked demo_now demo_args demo2)"

lemma empty_entries [simp]: "entries_of empty_db = []" "log_wf empty_db"
  by (simp_all add: empty_db_def entries_of_def chained_docs_def log_wf_def)

lemma demo1_inv: "chain_inv demo1" "entries_of demo1 = [genesis_entry demo_now None ''system'' 2 ''1.1.0'']"
  using initialize_fresh [of empty_db demo_now None "''system''" 2 "''1.1.0''"] by (simp_all add: demo1_def)

lemma demo_inv: "chain_inv demo2" "chain_inv demo3"
  using append_locked_inv [OF demo1_inv(1), of Acked Acked] append_locked_inv [of demo2 Acked Acked]
  by (simp_all add: demo2_def demo3_def)

lemma append_locked_acked:
  assumes "chain_inv db"
  shows "\<exists>st peh. fst (append_locked Acked Acked now a db) =
      Inr (new_entry a now (int (length (entries_of db))) (int (length (entries_of db)) div get_epoch_size db)
        (last_hash None (entries_of db)) st peh) \<and>
    list_all2 same_sealed (entries_of (snd (append_locked Acked Acked now a db)))
      (entries_of db @ [new_entry a now (int (length (entries_of db))) (int (length (entries_of db)) div get_epoch_size db)
        (last_hash None (entries_of db)) st peh]) \<and>
    chain_config (snd (append_locked Acked Acked now a db)) = chain_config db"
proof (rule append_locked_ready [OF assms, of Acked Acked now a])
  fix st peh db2
  let ?e = "new_entry a now (int (length (entries_of db))) (int (length (entries_of db)) div get_epoch_size db)
          (last_hash None (entries_of db)) st peh"
  assume e: "append_locked Acked Acked now a db = write_entry Acked Acked ?e db2" and r: "ready ?e db2"
    and s: "list_all2 same_sealed (entries_of db2) (entries_of db)" and c: "chain_config db2 = chain_config db"
  show ?thesis
    using write_entry_ok [OF r, of Acked Acked] e c s
    by (intro exI [of _ st] exI [of _ peh]) (simp add: list_all2_appendI)
qed

lemma demo_length: "length (entries_of demo2) = 2" "length (entries_of demo3) = 3"
  using append_locked_acked [OF demo1_inv(1), of demo_now demo_args]
    append_locked_acked [OF demo_inv(1), of demo_now demo_args] demo1_inv(2)
  by (auto simp: demo2_def demo3_def dest!: list_all2_lengthD)

lemma demo1_config: "chain_config demo1 = Some 2"
  by (simp add: demo1_def initialize_chain_def Let_def get_next_sequence_def reset_sequence_to_def
      save_epoch_size_def upsert_genesis_def find_by_sequence_def chained_docs_def empty_db_def)

lemma demo_size: "get_epoch_size demo1 = 2" "get_epoch_size demo2 = 2" "get_epoch_size demo3 = 2"
  using append_locked_acked [OF demo1_inv(1), of demo_now demo_args]
    append_locked_acked [OF demo_inv(1), of demo_now demo_args] demo1_config
  by (auto simp: demo2_def demo3_def get_epoch_size_def)

lemma demo_epochs: "epochs_ok demo1" "epochs_ok demo2" "epochs_ok demo3"
proof -
  show 1: "epochs_ok demo1" by (simp add: epochs_ok_def demo_size demo1_inv)
  show 2: "epochs_ok demo2"
    unfolding demo2_def by (rule append_locked_epochs [OF demo1_inv(1) 1]) simp_all
  show "epochs_ok demo3"
    unfolding demo3_def by (rule append_locked_epochs [OF demo_inv(1) 2]) simp_all
qed

section \<open>Verification\<close>

lemma latest_Some:
  assumes "chain_ok 0 None (entries_of db)" "entries_of db \<noteq> []"
  obtains oid where "get_latest_chained_entry db = Some (oid, last (entries_of db))"
  using latest_at_end [OF assms] by (cases "get_latest_chained_entry db") auto

lemma latest_exists:
  assumes "entries_of db \<noteq> []"
  obtains i where "get_latest_chained_entry db = Some i" "i \<in> set (chained_docs db)"
proof -
  let ?ds = "sort_key (\<lambda>d. - e_sequence (snd d)) (chained_docs db)"
  have "length ?ds \<noteq> 0" using assms by (simp add: entries_of_def)
  then obtain i ds where "?ds = i # ds" by (cases ?ds) auto
  moreover from this have "i \<in> set (chained_docs db)" by (metis list.set_intros(1) set_sort)
  ultimately show thesis using that by (simp add: get_latest_chained_entry_def first_doc_def)
qed

lemma last_sequence:
  assumes "chain_ok 0 None es" "es \<noteq> []"
  shows "e_sequence (last es) = int (length es) - 1"
  using assms chain_ok_sequence [OF assms(1), of "length es - 1"]
  by (simp add: last_conv_nth of_nat_diff Suc_leI)

lemma full_chain_valid:
  assumes "chain_ok 0 None (entries_of db)" "entries_of db \<noteq> []" "0 < get_epoch_size db"
  shows "verify_full_chain db = Some (mk_result VALID (int (length (entries_of db))) 0
    (int (length (entries_of db)) - 1) (e_epoch (last (entries_of db)) + 1) None None)"
proof -
  obtain oid where l: "get_latest_chained_entry db = Some (oid, last (entries_of db))"
    using latest_Some [OF assms(1,2)] .
  have "0 < length (entries_of db)" using assms(2) by simp
  with verify_loop_complete [OF assms, of 0 0] show ?thesis
    by (simp add: verify_full_chain_def l last_sequence [OF assms(1,2)])
qed

lemma full_chain_sound:
  assumes "verify_full_chain db = Some r" "vr_status r = VALID" "0 < get_epoch_size db"
    "vr_verified_entries r = vr_last_sequence r + 1" "entries_of db \<noteq> []"
  shows "chain_ok 0 None (stream_entries_in_range db 0 (vr_last_sequence r))"
proof -
  obtain oid latest where l: "get_latest_chained_entry db = Some (oid, latest)"
    using latest_exists [OF assms(5)] by (metis surj_pair)
  have loop: "verify_loop db (get_epoch_size db) (e_sequence latest) 0 None 0 0 = Some r"
    using assms(1) by (simp add: verify_full_chain_def l)
  show ?thesis
  proof (cases "0 \<le> e_sequence latest + 1")
    case True
    from verify_loop_sound [OF assms(3) loop assms(2) True] assms(4) show ?thesis by simp
  next
    case False
    then have "vr_last_sequence r < 0"
      using loop by (auto simp: verify_loop.simps mk_result_def split: if_splits)
    then show ?thesis by (simp add: range_beyond)
  qed
qed

text \<open>C1. Tamper evidence. Take a chain that the commands built and any log whose full verification
  reports valid with every sequence number covered. If the last hashes are the same, the two logs
  carry the same content entry by entry, or two of their entries exhibit a SHA-256 collision.\<close>

theorem verified_log_tamper_evident:
  assumes "chain_inv db" "list_all entry_wf (entries_of db)"
    and "verify_full_chain db' = Some r" "vr_status r = VALID" "0 < get_epoch_size db'"
      "vr_verified_entries r = vr_last_sequence r + 1" "entries_of db' \<noteq> []"
    and "\<forall>e\<in>set (entries_of db'). entry_wf e"
    and "map_option (e_hash \<circ> snd) (get_latest_chained_entry db) =
      Some (e_hash (last (stream_entries_in_range db' 0 (vr_last_sequence r))))"
    and "0 \<le> vr_last_sequence r"
  shows "list_all2 same_content (entries_of db) (stream_entries_in_range db' 0 (vr_last_sequence r)) \<or>
    (\<exists>a\<in>set (entries_of db). \<exists>b\<in>set (entries_of db'). entry_collision a b)"
proof -
  let ?fs = "stream_entries_in_range db' 0 (vr_last_sequence r)"
  have sub: "set ?fs \<subseteq> set (entries_of db')" by (auto simp: stream_entries_in_range_def)
  obtain oid where l: "get_latest_chained_entry db = Some (oid, last (entries_of db))"
    using latest_Some assms(1) unfolding chain_inv_def by blast
  have ok: "chain_ok 0 None ?fs" using full_chain_sound [OF assms(3-7)] .
  have "?fs \<noteq> []"
  proof -
    obtain i where i: "get_latest_chained_entry db' = Some i" and m: "i \<in> set (chained_docs db')"
      using latest_exists [OF assms(7)] .
    have loop: "verify_loop db' (get_epoch_size db') (e_sequence (snd i)) 0 None 0 0 = Some r"
      using assms(3) i by (simp add: verify_full_chain_def split: prod.splits)
    have "0 \<le> e_sequence (snd i) + 1"
    proof (rule ccontr)
      assume "\<not> ?thesis"
      with loop assms(10) show False by (auto simp: verify_loop.simps mk_result_def split: if_splits)
    qed
    from verify_loop_sound [OF assms(5) loop assms(4) this]
    have "e_sequence (snd i) = vr_last_sequence r" by simp
    with m assms(10) have "snd i \<in> set ?fs" by (auto simp: stream_entries_in_range_def entries_of_def)
    then show ?thesis by auto
  qed
  then have "list_all2 same_content (entries_of db) ?fs \<or> (\<exists>a\<in>set (entries_of db). \<exists>b\<in>set ?fs. entry_collision a b)"
    using chain_ok_same_head [of 0 None "entries_of db" None ?fs] assms(1,2,8,9) ok l sub
    by (auto simp: chain_inv_def list_all_iff)
  then show ?thesis using sub by blast
qed

text \<open>C4. Verification accepts what the commands build: on a chain in the invariant, with a positive
  epoch size, the full run returns, is valid, and has counted every entry.\<close>

theorem verify_full_chain_complete:
  assumes "chain_inv db" "0 < get_epoch_size db"
  shows "verify_full_chain db = Some (mk_result VALID (int (length (entries_of db))) 0
    (int (length (entries_of db)) - 1) (e_epoch (last (entries_of db)) + 1) None None)"
  using assms by (intro full_chain_valid) (auto simp: chain_inv_def)

lemma verify_full_chain_complete_witness:
  "verify_full_chain demo3 = Some (mk_result VALID 3 0 2 (e_epoch (last (entries_of demo3)) + 1) None None)"
  using verify_full_chain_complete [OF demo_inv(2)] by (simp add: demo_size demo_length)

lemma demo1_wf: "list_all entry_wf (entries_of demo1)"
  by (simp add: demo1_inv entry_wf_def genesis_entry_def Let_def opt_str_def)

lemma demo1_verified: "verify_full_chain demo1 = Some (mk_result VALID 1 0 0 1 None None)"
  using full_chain_valid [of demo1] demo1_inv by (simp add: demo_size chain_inv_def)

lemma demo1_range: "stream_entries_in_range demo1 0 0 = entries_of demo1"
  by (simp add: stream_entries_in_range_def demo1_inv)

lemma verified_log_tamper_evident_witness:
  "list_all2 same_content (entries_of demo1) (stream_entries_in_range demo1 0 0) \<or>
    (\<exists>a\<in>set (entries_of demo1). \<exists>b\<in>set (entries_of demo1). entry_collision a b)"
proof -
  obtain oid where l: "get_latest_chained_entry demo1 = Some (oid, last (entries_of demo1))"
    using latest_Some demo1_inv(1) unfolding chain_inv_def by blast
  show ?thesis
    using verified_log_tamper_evident [OF demo1_inv(1) demo1_wf demo1_verified] demo1_wf l
    by (simp add: mk_result_def demo_size demo1_inv(2) demo1_range)
qed

text \<open>C6. Termination: with a positive epoch size, full verification returns a result on every log,
  tampered or not.\<close>

theorem verify_full_chain_returns:
  assumes "0 < get_epoch_size db"
  shows "\<exists>r. verify_full_chain db = Some r"
  using verify_loop_returns [OF assms] by (simp add: verify_full_chain_def split: option.splits prod.splits)

lemma verify_full_chain_returns_witness: "\<exists>r. verify_full_chain empty_db = Some r"
  by (rule verify_full_chain_returns) (simp add: get_epoch_size_def empty_db_def DEFAULT_EPOCH_SIZE_def)

text \<open>C5. What a failing batch reports: the position it names is the first one whose prefix is not a good
  chain, it counts the entries before it, and the status tells a wrong sequence number from a wrong
  digest or link; and it reports nothing exactly when the batch is a good chain.\<close>

theorem verify_batch_reports_first_break:
  "(verify_batch es n p False = None \<longleftrightarrow> chain_ok n p es) \<and>
   (\<forall>st s j why. verify_batch es n p False = Some (st, s, j, why) \<longrightarrow>
     (\<exists>k<length es. j = int k \<and> s = n + int k \<and> chain_ok n p (take k es) \<and>
        \<not> chain_ok n p (take (Suc k) es) \<and>
        (st = GAP_DETECTED \<longleftrightarrow> e_sequence (es ! k) \<noteq> s) \<and> (st = BROKEN \<longleftrightarrow> e_sequence (es ! k) = s) \<and>
        (why = SEQUENCE_GAP \<longleftrightarrow> st = GAP_DETECTED)))"
  using verify_batch_None verify_batch_from_Some [of es n p 0]
  by (fastforce simp: verify_batch_def)

lemma verify_batch_reports_first_break_witness:
  "\<exists>k<1. (0::int) = int k \<and> \<not> chain_ok 5 None (take (Suc k) [genesis_entry demo_now None ''system'' 2 ''1.1.0''])"
  using verify_batch_reports_first_break [of "[genesis_entry demo_now None ''system'' 2 ''1.1.0'']" 5 None]
  by (simp add: verify_batch_def Let_def)

text \<open>A failure event is raised exactly when the result is not valid; the result is stored, the log is
  not touched, and a log without a genesis entry is refused.\<close>

theorem verify_chain_effects:
  "(get_genesis_entry db = None \<longrightarrow> verify_chain ms now db ep = Some (Inl ChainNotInitializedError)) \<and>
   (\<forall>r ev db'. verify_chain ms now db ep = Some (Inr (r, ev, db')) \<longrightarrow>
      audit_log db' = audit_log db \<and> (ev = None \<longleftrightarrow> vr_status r = VALID) \<and>
      get_last_verification db' = Some (result_doc now r) \<and>
      (vd_chain_valid (result_doc now r) \<longleftrightarrow> vr_status r = VALID) \<and> vr_verification_time_ms r = ms)"
  by (auto simp: verify_chain_def Let_def save_verification_result_def get_last_verification_def result_doc_def
      split: option.splits sum.splits if_splits)

lemma verify_chain_effects_witness:
  "verify_chain 3 0 empty_db None = Some (Inl ChainNotInitializedError)"
  using verify_chain_effects [of empty_db 3 0 None]
  by (simp add: get_genesis_entry_def find_by_sequence_def chained_docs_def empty_db_def)

text \<open>Verifying one epoch of a good chain: an epoch that has entries is valid as a whole, and one that
  has none is reported as not found.\<close>

theorem verify_single_epoch_complete:
  assumes "chain_inv db" "epochs_ok db" "0 \<le> k"
  shows "if stream_entries_for_epoch db k = [] then verify_single_epoch db k = Inl (EpochNotFoundError k)
    else verify_single_epoch db k =
      Inr (mk_result VALID (int (length (stream_entries_for_epoch db k))) (k * get_epoch_size db)
        (k * get_epoch_size db + int (length (stream_entries_for_epoch db k)) - 1) 1 None None)"
proof (cases "stream_entries_for_epoch db k")
  case (Cons e es)
  obtain p where p: "chain_ok (k * get_epoch_size db) p (e # es)"
    using epoch_slice(1) [OF assms] Cons by auto
  then have "verify_batch (e # es) (e_sequence e) (e_previous_hash e) True = None"
    by (subst verify_batch_skip_None) auto
  moreover have "last (e # es) = (e # es) ! length es"
    using last_conv_nth [of "e # es"] by simp
  then have "e_sequence (last (e # es)) = k * get_epoch_size db + int (length es)"
    using chain_ok_sequence [OF p, of "length es"] by simp
  ultimately show ?thesis using Cons p by (simp add: verify_single_epoch_def Let_def)
qed (simp add: verify_single_epoch_def)

lemma verify_single_epoch_complete_witness:
  "if stream_entries_for_epoch demo3 1 = [] then verify_single_epoch demo3 1 = Inl (EpochNotFoundError 1)
    else verify_single_epoch demo3 1 =
      Inr (mk_result VALID (int (length (stream_entries_for_epoch demo3 1))) 2
        (2 + int (length (stream_entries_for_epoch demo3 1)) - 1) 1 None None)"
  using verify_single_epoch_complete [OF demo_inv(2) demo_epochs(3), of 1] by (simp add: demo_size)

section \<open>Appending\<close>

lemma insert_one_locks: "chain_locks (snd (insert_one w e db)) = chain_locks db"
  by (cases w) (auto simp: insert_one_def insert_chained_def)

lemma write_entry_locks: "chain_locks (snd (write_entry w1 w2 e db)) = chain_locks db"
  using insert_one_locks [of w1 e db] insert_one_locks [of w2 e "snd (insert_one w1 e db)"]
  by (auto simp: write_entry_def Let_def reset_sequence_to_def split: prod.splits if_splits)

lemma append_locked_locks: "chain_locks (snd (append_locked w1 w2 now a db)) = chain_locks db"
proof -
  obtain n db1 where n: "get_next_sequence db = (n, db1)" by (cases "get_next_sequence db")
  obtain st ph db2 where c: "close_epoch n (get_epoch_size db) db1 = (st, ph, db2)"
    by (cases "close_epoch n (get_epoch_size db) db1")
  have "chain_locks db1 = chain_locks db" using n by (auto simp: get_next_sequence_def Let_def)
  then show ?thesis
    using n c close_epoch_db(4) [OF c] by (simp add: append_locked_def write_entry_locks)
qed

lemma acquire_free_lock:
  assumes "chain_locks db ''audit_chain_append'' = None"
  shows "\<exists>doc. acquire_loop (\<lambda>_ d. d) clock 0 max_lock_attempts (new_lock ''audit_chain_append'' 30 owner) db
    = (Some ((new_lock ''audit_chain_append'' 30 owner)\<lparr>lk_acquired := True\<rparr>),
       db\<lparr>chain_locks := (chain_locks db)(''audit_chain_append'' \<mapsto> doc)\<rparr>) \<and> l_owner_id doc = owner"
  using assms by (auto simp: max_lock_attempts_def numeral_eq_Suc lock_acquire_def new_lock_def Let_def)


lemma demo1_locks: "chain_locks demo1 = (\<lambda>_. None)"
  by (simp add: demo1_def initialize_chain_def Let_def get_next_sequence_def reset_sequence_to_def
      save_epoch_size_def upsert_genesis_def find_by_sequence_def chained_docs_def empty_db_def)




text \<open>C10. A failed append, with neither write having happened, reports the failure with its sequence
  number and leaves no gap: the entries keep their sealed content and the number is free again.\<close>

theorem append_failure_leaves_no_gap:
  assumes "chain_inv db"
  shows "fst (append_locked NotWritten NotWritten now a db) = Inl (ChainWriteFailed (int (length (entries_of db)))) \<and>
    list_all2 same_sealed (entries_of (snd (append_locked NotWritten NotWritten now a db))) (entries_of db) \<and>
    seq_counter (snd (append_locked NotWritten NotWritten now a db)) = seq_counter db"
proof (rule append_locked_ready [OF assms, of NotWritten NotWritten now a])
  fix st peh db2
  let ?e = "new_entry a now (int (length (entries_of db))) (int (length (entries_of db)) div get_epoch_size db)
          (last_hash None (entries_of db)) st peh"
  assume e: "append_locked NotWritten NotWritten now a db = write_entry NotWritten NotWritten ?e db2"
    and r: "ready ?e db2" and s: "list_all2 same_sealed (entries_of db2) (entries_of db)"
  have "seq_counter (snd (write_entry NotWritten NotWritten ?e db2)) = Some (int (length (entries_of db)))"
    by (simp add: write_entry_def insert_one_def reset_sequence_to_def)
  with write_entry_failed [OF r] e s assms show ?thesis by (simp add: chain_inv_def)
qed

lemma append_failure_leaves_no_gap_witness:
  "fst (append_locked NotWritten NotWritten demo_now demo_args demo3) = Inl (ChainWriteFailed 3)"
  using append_failure_leaves_no_gap [OF demo_inv(2), of demo_now demo_args] by (simp add: demo_length)

section \<open>A lost acknowledgement\<close>

lemma lost_ack_counter:
  assumes "chain_inv db"
  shows "seq_counter (snd (append_locked AckLost w2 now a db)) = Some (int (length (entries_of db))) \<and>
    int (length (entries_of db)) \<in> e_sequence ` set (entries_of (snd (append_locked AckLost w2 now a db)))"
proof (rule append_locked_ready [OF assms, of AckLost w2 now a])
  fix st peh db2
  let ?e = "new_entry a now (int (length (entries_of db))) (int (length (entries_of db)) div get_epoch_size db)
          (last_hash None (entries_of db)) st peh"
  assume e: "append_locked AckLost w2 now a db = write_entry AckLost w2 ?e db2" and r: "ready ?e db2"
  let ?db3 = "db2\<lparr>audit_log := audit_log db2 @ [(next_oid db2, Chained ?e)], next_oid := Suc (next_oid db2)\<rparr>"
  have 3: "insert_one AckLost ?e db2 = (False, ?db3)" using insert_ready [OF r] by (simp add: insert_one_def)
  have "insert_one w2 ?e ?db3 = (False, ?db3)"
    by (rule insert_stuck) (simp add: inserted_inv(2) [OF r])
  with 3 have "write_entry AckLost w2 ?e db2 = (Inl (ChainWriteFailed (e_sequence ?e)), reset_sequence_to (e_sequence ?e) ?db3)"
    by (simp add: write_entry_def)
  with e inserted_inv(2) [OF r] show ?thesis by (simp add: reset_sequence_to_def)
qed

text \<open>A run of appends, each with its arguments and the fate of its two writes.\<close>

fun append_run ::
  "(write_outcome \<times> write_outcome \<times> datetime \<times> append_args) list \<Rightarrow> chain_db
    \<Rightarrow> (chain_error + chained_entry) list \<times> chain_db" where
  "append_run [] db = ([], db)"
| "append_run ((w1, w2, now, a) # ops) db =
     (let (r, db1) = append_locked w1 w2 now a db; (rs, db2) = append_run ops db1 in (r # rs, db2))"

lemma append_run_stuck:
  assumes "seq_counter db = Some v" "v \<in> e_sequence ` set (entries_of db)"
  shows "list_all (\<lambda>r. r = Inl (ChainWriteFailed v)) (fst (append_run ops db)) \<and>
    length (entries_of (snd (append_run ops db))) = length (entries_of db)"
  using assms
proof (induction ops arbitrary: db)
  case (Cons op ops)
  obtain w1 w2 now a where op: "op = (w1, w2, now, a)" by (cases op)
  let ?r = "append_locked w1 w2 now a db"
  note st = append_locked_stuck [OF Cons.prems, of w1 w2 now a]
  have "v \<in> e_sequence ` set (entries_of (snd ?r))"
    using st same_sealed_sequences Cons.prems(2) by blast
  from Cons.IH [OF _ this] st show ?case
    by (auto simp: op Let_def split_def dest: list_all2_lengthD)
qed simp

text \<open>A write that happens but is reported as failed is fatal for the chain: the append fails although its
  entry is in the log, the counter is given back to a number that is taken, and from then on every
  append fails, however the writes go, with the log never growing again.\<close>

theorem lost_acknowledgement_blocks_chain:
  assumes "chain_inv db"
  shows "list_all (\<lambda>r. r = Inl (ChainWriteFailed (int (length (entries_of db)))))
      (fst (append_run ((AckLost, w2, now, a) # ops) db)) \<and>
    length (entries_of (snd (append_run ((AckLost, w2, now, a) # ops) db))) = Suc (length (entries_of db))"
proof -
  note c = lost_ack_counter [OF assms, of w2 now a]
  show ?thesis
    using append_run_stuck [of "snd (append_locked AckLost w2 now a db)" _ ops] c lost_ack_stuck [OF assms, of w2 now a]
    by (auto simp: Let_def split_def)
qed

lemma lost_acknowledgement_blocks_chain_witness:
  "list_all (\<lambda>r. r = Inl (ChainWriteFailed 3))
     (fst (append_run [(AckLost, Acked, demo_now, demo_args), (Acked, Acked, demo_now, demo_args)] demo3))"
  using lost_acknowledgement_blocks_chain [OF demo_inv(2), of Acked demo_now demo_args
      "[(Acked, Acked, demo_now, demo_args)]"] by (simp add: demo_length)

section \<open>Initialising\<close>

text \<open>Initialising a database without a chain writes the genesis entry as its only chained entry; doing it
  again returns that entry, leaves the log as it is and repairs the counter, also of a blocked chain.\<close>

theorem initialize_chain_idempotent:
  "(entries_of db = [] \<and> log_wf db \<longrightarrow>
      fst (initialize_chain (\<lambda>d. d) now tid by sz v db) = genesis_entry now tid by sz v \<and>
      entries_of (snd (initialize_chain (\<lambda>d. d) now tid by sz v db)) = [genesis_entry now tid by sz v] \<and>
      chain_inv (snd (initialize_chain (\<lambda>d. d) now tid by sz v db))) \<and>
   (log_wf db \<and> chain_ok 0 None (entries_of db) \<and> entries_of db \<noteq> [] \<longrightarrow>
      fst (initialize_chain others now tid by sz v db) = hd (entries_of db) \<and>
      entries_of (snd (initialize_chain others now tid by sz v db)) = entries_of db \<and>
      chain_inv (snd (initialize_chain others now tid by sz v db)))"
  using initialize_fresh [of db now tid "by" sz v] initialize_again [of db others now tid "by" sz v] by blast

lemma initialize_chain_idempotent_witness:
  "entries_of (snd (initialize_chain (\<lambda>d. d) demo_now None ''x'' 7 ''2'' empty_db)) = [genesis_entry demo_now None ''x'' 7 ''2''] \<and>
   entries_of (snd (initialize_chain (\<lambda>d. d) demo_now None ''x'' 7 ''2'' demo3)) = entries_of demo3"
  using initialize_chain_idempotent [of empty_db demo_now None "''x''" 7 "''2''"]
    initialize_chain_idempotent [of demo3 demo_now None "''x''" 7 "''2''" "\<lambda>d. d"] demo_inv(2)
  by (simp add: chain_inv_def)

text \<open>The second initialisation is not without effect: it replaces the epoch size, and with a larger one the next
  append goes back to an earlier epoch.\<close>

theorem reinitialize_moves_epochs_back:
  assumes "chain_inv db" "epochs_ok db" "int (length (entries_of db)) > 1" "get_epoch_size db = 1"
  shows "\<exists>e. fst (append_locked Acked Acked now a
      (snd (initialize_chain others now tid by (int (length (entries_of db)) + 1) v db))) = Inr e \<and>
    e_epoch e = 0 \<and> e_epoch (last (entries_of db)) > 0"
proof -
  let ?sz = "int (length (entries_of db)) + 1"
  let ?db = "snd (initialize_chain others now tid by ?sz v db)"
  have i: "entries_of ?db = entries_of db" "chain_inv ?db" "chain_config ?db = Some ?sz"
    using initialize_again [of db others now tid "by" ?sz v] assms(1) by (simp_all add: chain_inv_def)
  have sz: "get_epoch_size ?db = ?sz" using i(3) by (simp add: get_epoch_size_def)
  have "e_epoch (last (entries_of db)) = int (length (entries_of db)) - 1"
    using chain_nth_epoch [OF assms(1,2), of "length (entries_of db) - 1"] assms(1,4)
    by (simp add: chain_inv_def last_conv_nth of_nat_diff Suc_leI)
  with append_locked_acked [OF i(2), of now a] assms(3) show ?thesis
    by (auto simp: i(1) sz)
qed

definition demo_unit :: chain_db where
  "demo_unit = snd (append_locked Acked Acked demo_now demo_args
     (snd (initialize_chain (\<lambda>d. d) demo_now None ''system'' 1 ''1.1.0'' empty_db)))"

lemma demo_unit_facts: "chain_inv demo_unit" "epochs_ok demo_unit" "length (entries_of demo_unit) = 2"
  "get_epoch_size demo_unit = 1"
proof -
  let ?d = "snd (initialize_chain (\<lambda>d. d) demo_now None ''system'' 1 ''1.1.0'' empty_db)"
  have i: "chain_inv ?d" "entries_of ?d = [genesis_entry demo_now None ''system'' 1 ''1.1.0'']"
    using initialize_fresh [of empty_db demo_now None "''system''" 1 "''1.1.0''"] by simp_all
  have c: "chain_config ?d = Some 1"
    by (simp add: initialize_chain_def Let_def get_next_sequence_def reset_sequence_to_def
        save_epoch_size_def upsert_genesis_def find_by_sequence_def chained_docs_def empty_db_def)
  have e: "epochs_ok ?d" using i c by (simp add: epochs_ok_def get_epoch_size_def)
  show "chain_inv demo_unit" unfolding demo_unit_def by (rule append_locked_inv [OF i(1)]) simp_all
  show "epochs_ok demo_unit" unfolding demo_unit_def by (rule append_locked_epochs [OF i(1) e]) simp_all
  show "length (entries_of demo_unit) = 2" "get_epoch_size demo_unit = 1"
    using append_locked_acked [OF i(1), of demo_now demo_args] i(2) c
    by (auto simp: demo_unit_def get_epoch_size_def dest!: list_all2_lengthD)
qed

lemma reinitialize_moves_epochs_back_witness:
  "\<exists>e. fst (append_locked Acked Acked demo_now demo_args
      (snd (initialize_chain (\<lambda>d. d) demo_now None ''x'' 3 ''2'' demo_unit))) = Inr e \<and> e_epoch e = 0"
  using reinitialize_moves_epochs_back [OF demo_unit_facts(1,2), of demo_now demo_args "\<lambda>d. d" None "''x''" "''2''"]
  by (auto simp: demo_unit_facts)

section \<open>Closing an epoch\<close>

lemma boundary_is_head:
  assumes "chain_ok 0 None (entries_of db)" "chained_docs db = ds @ [(oid, e)]" "e_epoch e = k"
  shows "get_epoch_boundary_entry db k True = Some (oid, e)"
proof -
  have "sorted_wrt (\<lambda>x y. e_sequence (snd x) < e_sequence (snd y)) (chained_docs db)"
    using chain_ok_sorted [OF assms(1)] by (simp add: entries_of_def sorted_wrt_map)
  then have "sorted_wrt (\<lambda>x y. e_sequence (snd x) < e_sequence (snd y))
      (filter (\<lambda>d. e_epoch (snd d) = k) (chained_docs db))"
    by (rule sorted_wrt_filter)
  then have "sort_key (\<lambda>d. - e_sequence (snd d)) (filter (\<lambda>d. e_epoch (snd d) = k) (chained_docs db)) =
      rev (filter (\<lambda>d. e_epoch (snd d) = k) (chained_docs db))"
    by (rule sort_key_rev_sorted)
  then show ?thesis using assms(2,3) by (simp add: get_epoch_boundary_entry_def first_doc_def)
qed

lemma marked_head:
  assumes "log_wf db" "chained_docs db = ds @ [(oid, e)]"
  shows "entries_of (mark_epoch_end oid db) = map snd ds @ [e\<lparr>e_is_epoch_end := True\<rparr>]"
proof -
  have sub: "distinct (map fst (chained_part xs))" if "distinct (map fst xs)" for xs :: "(nat \<times> log_doc) list"
    using that
  proof (induction xs rule: chained_part.induct)
    case (3 i e xs)
    then show ?case using chained_part_oids [of xs] by auto
  qed auto
  have d: "distinct (map fst (chained_docs db))"
    using assms(1) by (simp add: log_wf_def chained_docs_def sub)
  then have "i \<noteq> oid" if "(i, x) \<in> set ds" for i x using that assms(2) by force
  then have "map (\<lambda>(k, e). (k, if k = oid then e\<lparr>e_is_epoch_end := True\<rparr> else e)) ds = ds"
    by (intro map_idI) (auto split: prod.splits)
  with assms(2) show ?thesis
    by (simp add: entries_of_def mark_epoch_end_def chained_docs_def chained_part_set_epoch_end)
qed

text \<open>What is about to be written, and the log it is about to be written to.\<close>

definition marked_entries :: "chain_db \<Rightarrow> chained_entry list" where
  "marked_entries db =
     (if int (length (entries_of db)) mod get_epoch_size db = 0
      then butlast (entries_of db) @ [(last (entries_of db))\<lparr>e_is_epoch_end := True\<rparr>]
      else entries_of db)"

definition next_entry :: "datetime \<Rightarrow> append_args \<Rightarrow> chain_db \<Rightarrow> chained_entry" where
  "next_entry now a db =
     (let n = int (length (entries_of db)); k = get_epoch_size db; h = last_hash None (entries_of db)
      in new_entry a now n (n div k) h (n mod k = 0) (if n mod k = 0 then h else None))"

lemma append_shape:
  assumes "chain_inv db" "epochs_ok db"
  obtains db2 where "append_locked w1 w2 now a db = write_entry w1 w2 (next_entry now a db) db2"
    "ready (next_entry now a db) db2" "entries_of db2 = marked_entries db" "chain_config db2 = chain_config db"
proof -
  let ?n = "int (length (entries_of db))" and ?k = "get_epoch_size db"
  let ?db1 = "db\<lparr>seq_counter := Some (?n + 1)\<rparr>"
  have inv: "log_wf db" "entries_of db \<noteq> []" "chain_ok 0 None (entries_of db)" "seq_counter db = Some ?n"
    using assms(1) by (auto simp: chain_inv_def)
  have k: "0 < ?k" using assms(2) by (simp add: epochs_ok_def)
  obtain st ph db2 where c: "close_epoch ?n ?k ?db1 = (st, ph, db2)"
    by (cases "close_epoch ?n ?k ?db1")
  note c' = close_epoch_db [OF c, simplified]
  have ok2: "chain_ok 0 None (entries_of db2)" "entries_of db2 \<noteq> []" "length (entries_of db2) = length (entries_of db)"
    using chain_ok_same_sealed [OF c'(1)] inv(2,3) list_all2_lengthD [OF c'(1)] by auto
  have ph: "get_previous_hash ?n db2 = last_hash None (entries_of db)"
    using previous_hash_at_end [OF ok2(1,2)] ok2(3) last_hash_same_sealed [OF c'(1)] by simp
  have shape: "(st, ph) = (?n mod ?k = 0, if ?n mod ?k = 0 then last_hash None (entries_of db) else None) \<and>
      entries_of db2 = marked_entries db"
  proof (cases "?n mod ?k = 0")
    case False
    then show ?thesis using c by (auto simp: close_epoch_def marked_entries_def)
  next
    case True
    obtain ds oid h where ds: "chained_docs db = ds @ [(oid, h)]"
      using inv(2) by (cases "chained_docs db" rule: rev_cases) (auto simp: entries_of_def)
    then have ds1: "chained_docs ?db1 = ds @ [(oid, h)]" and last: "entries_of db = map snd ds @ [h]"
      by (simp_all add: chained_docs_def entries_of_def)
    have "?n div ?k - 1 = (?n - 1) div ?k"
    proof -
      obtain q where q: "?n = ?k * q" using True by auto
      then have "(?n - 1) div ?k = q - 1"
        using k by (intro int_div_pos_eq [of _ _ _ "?k - 1"]) (simp_all add: algebra_simps)
      moreover have "?n div ?k = q" using q k by simp
      ultimately show ?thesis by simp
    qed
    moreover have "e_epoch h = (?n - 1) div ?k"
      using chain_nth_epoch [OF assms, of "length ds"] last by (simp add: nth_append)
    ultimately have "get_epoch_boundary_entry ?db1 (?n div ?k - 1) True = Some (oid, h)"
      using inv(3) by (intro boundary_is_head [OF _ ds1]) simp_all
    with True c inv(2) have "st = True" "ph = Some (e_hash h)" "db2 = mark_epoch_end oid ?db1"
      by (auto simp: close_epoch_def)
    moreover have "entries_of (mark_epoch_end oid ?db1) = map snd ds @ [h\<lparr>e_is_epoch_end := True\<rparr>]"
      using inv(1) by (intro marked_head [OF _ ds1]) simp
    ultimately show ?thesis using True last by (simp add: marked_entries_def last_hash_last)
  qed
  show thesis
  proof (rule that [of db2])
    show "append_locked w1 w2 now a db = write_entry w1 w2 (next_entry now a db) db2"
      using c ph inv(4) shape
      by (simp add: append_locked_def get_next_sequence_def next_entry_def Let_def split: if_splits)
    show "ready (next_entry now a db) db2"
      using c' inv ok2 last_hash_same_sealed [OF c'(1)]
      by (simp add: ready_def chain_ok_append next_entry_def Let_def)
    show "entries_of db2 = marked_entries db" using shape by simp
    show "chain_config db2 = chain_config db" using c' by simp
  qed
qed

lemma append_entries:
  assumes "chain_inv db" "epochs_ok db"
  shows "append_locked Acked w2 now a db = (Inr (next_entry now a db), snd (append_locked Acked w2 now a db)) \<and>
    entries_of (snd (append_locked Acked w2 now a db)) = marked_entries db @ [next_entry now a db]"
proof (rule append_shape [OF assms, of Acked w2 now a])
  fix db2
  assume s: "append_locked Acked w2 now a db = write_entry Acked w2 (next_entry now a db) db2"
    "ready (next_entry now a db) db2" "entries_of db2 = marked_entries db"
  with inserted_inv(2) [OF s(2)] insert_ready [OF s(2)] show ?thesis
    by (simp add: write_entry_def insert_one_def)
qed

text \<open>The epoch boundary. The first append after a full epoch marks the head as the epoch's last entry and
  starts a new epoch that records the head's digest; any other append does neither.\<close>

theorem append_closes_epoch:
  assumes "chain_inv db" "epochs_ok db"
  shows "\<exists>e db'. append_locked Acked w2 now a db = (Inr e, db') \<and>
    (if int (length (entries_of db)) mod get_epoch_size db = 0
     then e_is_epoch_start e \<and> e_previous_epoch_hash e = Some (e_hash (last (entries_of db))) \<and>
       entries_of db' = butlast (entries_of db) @ [(last (entries_of db))\<lparr>e_is_epoch_end := True\<rparr>, e]
     else \<not> e_is_epoch_start e \<and> e_previous_epoch_hash e = None \<and> entries_of db' = entries_of db @ [e])"
proof -
  have "entries_of db \<noteq> []" using assms(1) by (simp add: chain_inv_def)
  with append_entries [OF assms, of w2 now a] show ?thesis
    by (intro exI [of _ "next_entry now a db"] exI [of _ "snd (append_locked Acked w2 now a db)"])
      (auto simp: next_entry_def marked_entries_def Let_def last_hash_last)
qed

lemma append_closes_epoch_witness:
  "\<exists>e db'. append_locked Acked Acked demo_now demo_args demo2 = (Inr e, db') \<and> e_is_epoch_start e \<and>
     e_previous_epoch_hash e = Some (e_hash (last (entries_of demo2)))"
  using append_closes_epoch [OF demo_inv(1) demo_epochs(2), of Acked demo_now demo_args]
  by (auto simp: demo_length demo_size)

section \<open>What verification does not see\<close>

text \<open>Removing entries from the end is not detected: a log that holds only the first entries of a good chain is
  reported valid.\<close>

theorem truncated_log_is_valid:
  assumes "chain_inv db" "0 < m" "m \<le> length (entries_of db)" "entries_of db' = take m (entries_of db)"
    "0 < get_epoch_size db'"
  shows "\<exists>r. verify_full_chain db' = Some r \<and> vr_status r = VALID \<and> vr_verified_entries r = int m"
proof -
  have "chain_ok 0 None (take m (entries_of db) @ drop m (entries_of db))"
    using assms(1) by (simp add: chain_inv_def)
  then have "chain_ok 0 None (entries_of db')" unfolding assms(4) chain_ok_append by simp
  moreover have "entries_of db' \<noteq> []" "length (entries_of db') = m" using assms(2-4) by auto
  ultimately show ?thesis using full_chain_valid [of db'] assms(5) by (simp add: mk_result_def)
qed

text \<open>A log with exactly the given chained documents.\<close>

definition with_entries :: "chained_entry list \<Rightarrow> chain_db \<Rightarrow> chain_db" where
  "with_entries es db = db\<lparr>audit_log := map (\<lambda>e. (0, Chained e)) es\<rparr>"

lemma entries_with_entries [simp]: "entries_of (with_entries es db) = es"
  by (induction es) (auto simp: with_entries_def entries_of_def chained_docs_def)

lemma size_with_entries [simp]: "get_epoch_size (with_entries es db) = get_epoch_size db"
  by (simp add: with_entries_def get_epoch_size_def)

lemma truncated_log_is_valid_witness:
  "\<exists>r. verify_full_chain (with_entries (take 2 (entries_of demo3)) demo3) = Some r \<and> vr_status r = VALID"
  using truncated_log_is_valid [OF demo_inv(2), of 2 "with_entries (take 2 (entries_of demo3)) demo3"]
  by (auto simp: demo_length demo_size)

text \<open>A gap at the end of a batch is not detected either: with an epoch size of two, a log with the sequence numbers
  0 and 2 whose entries are linked to each other is reported valid, although entry 1 is missing.\<close>

theorem gap_at_batch_end_is_valid:
  assumes "chain_ok 0 None [a]" "chain_ok 2 (Some (e_hash a)) [b]" "entries_of db = [a, b]"
    "get_epoch_size db = 2"
  shows "\<exists>r. verify_full_chain db = Some r \<and> vr_status r = VALID \<and> vr_verified_entries r = 2 \<and>
    vr_last_sequence r = 2 \<and> find_by_sequence 1 db = None"
proof -
  have seq: "e_sequence a = 0" "e_sequence b = 2" using assms(1,2) by auto
  obtain i j where docs: "chained_docs db = [(i, a), (j, b)]"
    using assms(3) by (auto simp: entries_of_def map_eq_Cons_conv)
  have l: "get_latest_chained_entry db = Some (j, b)"
    using seq by (simp add: get_latest_chained_entry_def first_doc_def docs)
  have r: "stream_entries_in_range db 0 1 = [a]" "stream_entries_in_range db 2 2 = [b]"
    using seq by (simp_all add: stream_entries_in_range_def assms(3))
  have v: "verify_batch [a] 0 None False = None" "verify_batch [b] 2 (Some (e_hash a)) False = None"
    using assms(1,2) by (simp_all only: verify_batch_None)
  have "verify_loop db 2 2 0 None 0 0 = Some (mk_result VALID 2 0 2 (e_epoch b + 1) None None)"
    using r v
    by (subst verify_loop.simps, simp add: Let_def next_prev_def)
      (subst verify_loop.simps, simp add: Let_def next_epochs_def, simp add: verify_loop.simps)
  then show ?thesis
    using seq by (simp add: verify_full_chain_def l assms(4) mk_result_def find_by_sequence_def docs)
qed

text \<open>The chain with a hole: entry 2 was linked to entry 0 by whoever removed entry 1.\<close>

definition gap_tail :: "chained_entry \<Rightarrow> chained_entry" where
  "gap_tail a = new_entry demo_args demo_now 2 1 (Some (e_hash a)) True (Some (e_hash a))"

lemma gap_at_batch_end_is_valid_witness:
  "\<exists>r. verify_full_chain (with_entries [genesis_entry demo_now None ''system'' 2 ''1.1.0'',
      gap_tail (genesis_entry demo_now None ''system'' 2 ''1.1.0'')] demo1) = Some r \<and>
    vr_status r = VALID \<and> vr_last_sequence r = 2"
  using gap_at_batch_end_is_valid [of "genesis_entry demo_now None ''system'' 2 ''1.1.0''"
      "gap_tail (genesis_entry demo_now None ''system'' 2 ''1.1.0'')"
      "with_entries [genesis_entry demo_now None ''system'' 2 ''1.1.0'',
        gap_tail (genesis_entry demo_now None ''system'' 2 ''1.1.0'')] demo1"]
  by (auto simp: gap_tail_def demo_size)

end
