(* ===== verification/Verifier.thy ===== *)
theory Verifier
  imports ChainTheorems
begin

text \<open>
  \<open>tools/sentora_verify\<close>: the air-gapped verifier (\<open>verifier.py\<close>) and its command line
  (\<open>__main__.py\<close>), over the file that the export route writes. Its \<open>hasher.py\<close> is a copy of the
  server's. An entry of a file has the fields that the server writes, any of which may have been
  altered; a Python exception of the verifier is a value of \<open>verify_crash\<close>.
\<close>

section \<open>The exported file\<close>

text \<open>What \<open>json.loads\<close> gives back for a value that \<open>json.dumps(..., default=str)\<close> wrote.\<close>

fun reload_val :: "pyval \<Rightarrow> pyval" where
  "reload_val (PDatetime d) = PStr (datetime_str d)"
| "reload_val (POther s) = PStr s"
| "reload_val (PList vs) = PList (map reload_val vs)"
| "reload_val (PDict kvs) = PDict (map (map_prod id reload_val) kvs)"
| "reload_val v = v"

definition reload_entry :: "chained_entry \<Rightarrow> chained_entry" where
  "reload_entry e = e\<lparr>e_details := reload_val (e_details e)\<rparr>"

text \<open>The route \<open>export_chain_epoch\<close> and the file it produces, as the verifier parses it.\<close>

definition reload_export :: "epoch_export \<Rightarrow> epoch_export" where
  "reload_export x = x\<lparr>x_entries := map reload_entry (x_entries x)\<rparr>"

section \<open>verify_epoch\<close>

record verify_result =
  v_valid :: bool
  v_entries_checked :: nat
  v_message :: string
  v_broken_at_sequence :: "int option"
  v_broken_reason :: "string option"

datatype verify_crash = TypeError

definition short_hash :: "string \<Rightarrow> string" where
  "short_hash h = take 16 h"

definition vfail :: "nat \<Rightarrow> string \<Rightarrow> int option \<Rightarrow> string option \<Rightarrow> verify_result" where
  "vfail n msg at why = \<lparr>v_valid = False, v_entries_checked = n, v_message = msg,
     v_broken_at_sequence = at, v_broken_reason = why\<rparr>"

definition vpass :: "nat \<Rightarrow> string \<Rightarrow> verify_result" where
  "vpass n msg = \<lparr>v_valid = True, v_entries_checked = n, v_message = msg,
     v_broken_at_sequence = None, v_broken_reason = None\<rparr>"

text \<open>Step 1: the sequence numbers.\<close>

fun check_sequences :: "int \<Rightarrow> nat \<Rightarrow> chained_entry list \<Rightarrow> verify_result option" where
  "check_sequences first_seq i [] = None"
| "check_sequences first_seq i (entry # es) =
     (let expected_seq = first_seq + int i; actual_seq = e_sequence entry
      in if actual_seq \<noteq> expected_seq
         then Some (vfail i (''Sequence gap: expected '' @ int_str expected_seq @ '', found '' @ int_str actual_seq)
                (Some expected_seq) (Some ''sequence_gap''))
         else check_sequences first_seq (Suc i) es)"

text \<open>
  Step 2: digests and links. The message of a broken link slices \<open>previous_hash\<close>, which raises
  when the entry has none.
\<close>

fun check_hashes :: "string option \<Rightarrow> nat \<Rightarrow> chained_entry list \<Rightarrow> verify_crash + verify_result option" where
  "check_hashes prev_entry_hash i [] = Inr None"
| "check_hashes prev_entry_hash i (entry # es) =
     (let previous_hash = e_previous_hash entry; stored_hash = e_hash entry;
          recomputed = compute_entry_hash entry previous_hash
      in if recomputed \<noteq> stored_hash
         then Inr (Some (vfail i (''Hash mismatch at sequence '' @ int_str (e_sequence entry) @ '': '' @
                 ''stored='' @ short_hash stored_hash @ ''..., computed='' @ short_hash recomputed @ ''...'')
                (Some (e_sequence entry)) (Some ''hash_mismatch'')))
         else if i > 0 \<and> previous_hash \<noteq> prev_entry_hash
         then (case previous_hash of
                 None \<Rightarrow> Inl TypeError
               | Some ph \<Rightarrow> Inr (Some (vfail i (''Chain link broken at sequence '' @ int_str (e_sequence entry) @
                     '': previous_hash='' @ short_hash ph @ ''... does not match prior entry hash='' @
                     short_hash (case prev_entry_hash of Some h \<Rightarrow> h | None \<Rightarrow> []) @ ''...'')
                   (Some (e_sequence entry)) (Some ''hash_mismatch''))))
         else check_hashes (Some stored_hash) (Suc i) es)"

text \<open>Step 3: the export hash, when the metadata has one that is not empty.\<close>

definition check_export_hash :: "epoch_export \<Rightarrow> verify_result option" where
  "check_export_hash data =
     (case m_export_hash (x_metadata data) of
        None \<Rightarrow> None
      | Some expected \<Rightarrow>
          if expected = [] then None
          else (let computed = compute_export_hash (x_entries data)
                in if computed \<noteq> expected
                   then Some (vfail (length (x_entries data))
                          (''Export integrity hash mismatch: stored='' @ short_hash expected @
                           ''..., computed='' @ short_hash computed @ ''...'')
                          None (Some ''export_hash_mismatch''))
                   else None))"

definition verify_epoch :: "epoch_export \<Rightarrow> verify_crash + verify_result" where
  "verify_epoch data =
     (case x_entries data of
        [] \<Rightarrow> Inr (vfail 0 ''No entries in export file'' None None)
      | first # rest \<Rightarrow>
          (let entries = first # rest; first_seq = e_sequence first
           in case check_sequences first_seq 0 entries of
                Some r \<Rightarrow> Inr r
              | None \<Rightarrow>
                  (case check_hashes None 0 entries of
                     Inl err \<Rightarrow> Inl err
                   | Inr (Some r) \<Rightarrow> Inr r
                   | Inr None \<Rightarrow>
                       (case check_export_hash data of
                          Some r \<Rightarrow> Inr r
                        | None \<Rightarrow> Inr (vpass (length entries)
                            (''All '' @ nat_str (length entries) @ '' entries verified. Sequences '' @
                             int_str first_seq @ ''-'' @ int_str (e_sequence (last entries)) @ '', epoch '' @
                             int_str (m_epoch (x_metadata data)) @ ''.''))))))"

section \<open>verify_cross_epoch\<close>

definition verify_cross_epoch :: "epoch_export \<Rightarrow> epoch_export \<Rightarrow> verify_result" where
  "verify_cross_epoch current_data previous_data =
     (case (x_entries current_data, x_entries previous_data) of
        (curr_first # _, p # ps) \<Rightarrow>
          (let prev_final_hash = e_hash (last (p # ps))
           in case e_previous_epoch_hash curr_first of
                None \<Rightarrow>
                  if e_previous_hash curr_first = Some prev_final_hash
                  then vpass 1 ''Cross-epoch chain valid (via previous_hash link)''
                  else vfail 1 ''First entry of current epoch has no previous_epoch_hash'' None
                         (Some ''missing_epoch_link'')
              | Some h \<Rightarrow>
                  if h \<noteq> prev_final_hash
                  then vfail 1 (''Cross-epoch chain broken: previous epoch final hash='' @ short_hash prev_final_hash @
                         ''..., current epoch previous_epoch_hash='' @ short_hash h @ ''...'') None
                         (Some ''epoch_link_mismatch'')
                  else vpass 1 (''Cross-epoch chain valid. Epoch '' @ int_str (m_epoch (x_metadata previous_data)) @
                         '' -> Epoch '' @ int_str (m_epoch (x_metadata current_data))))
      | _ \<Rightarrow> vfail 0 ''One or both epoch files have no entries'' None None)"

section \<open>The command line\<close>

datatype epoch_file = Missing | BadJson | Parsed epoch_export

datatype outcome = Exit int | Traceback verify_crash

definition load_epoch :: "(string \<Rightarrow> epoch_file) \<Rightarrow> string \<Rightarrow> outcome + epoch_export" where
  "load_epoch files path =
     (case files path of Missing \<Rightarrow> Inl (Exit 2) | BadJson \<Rightarrow> Inl (Exit 2) | Parsed x \<Rightarrow> Inr x)"

definition final_result :: "bool \<Rightarrow> outcome" where
  "final_result valid = (if valid then Exit 0 else Exit 1)"

text \<open>The last check of \<open>main\<close>: the export hash once more.\<close>

definition export_check :: "epoch_export \<Rightarrow> outcome" where
  "export_check data =
     (case m_export_hash (x_metadata data) of
        None \<Rightarrow> final_result True
      | Some h \<Rightarrow> if h = [] then final_result True else final_result (compute_export_hash (x_entries data) = h))"

definition main_cli :: "(string \<Rightarrow> epoch_file) \<Rightarrow> string list \<Rightarrow> outcome" where
  "main_cli files args =
     (case args of
        [] \<Rightarrow> Exit 2
      | current_path # rest \<Rightarrow>
          if current_path \<in> {''-h'', ''--help''} then Exit 0
          else if current_path \<in> {''-V'', ''--version''} then Exit 0
          else (case load_epoch files current_path of
                  Inl r \<Rightarrow> r
                | Inr current_data \<Rightarrow>
                    if x_entries current_data = [] then final_result False
                    else (case verify_epoch current_data of
                            Inl err \<Rightarrow> Traceback err
                          | Inr result \<Rightarrow>
                              if \<not> v_valid result then final_result False
                              else if rest \<noteq> [] \<and> hd rest \<noteq> []
                              then (case load_epoch files (hd rest) of
                                      Inl r \<Rightarrow> r
                                    | Inr previous_data \<Rightarrow>
                                        if v_valid (verify_cross_epoch current_data previous_data)
                                        then export_check current_data else final_result False)
                              else export_check current_data)))"

section \<open>What the verifier accepts\<close>

lemma check_sequences_None: "check_sequences n i es = None \<longleftrightarrow> numbered e_sequence (n + int i) es"
  by (induction es arbitrary: i) (auto simp: Let_def algebra_simps)

fun hashes_ok :: "string option \<Rightarrow> nat \<Rightarrow> chained_entry list \<Rightarrow> bool" where
  "hashes_ok p i [] = True"
| "hashes_ok p i (e # es) =
     (compute_entry_hash e (e_previous_hash e) = e_hash e \<and> (i > 0 \<longrightarrow> e_previous_hash e = p) \<and>
      hashes_ok (Some (e_hash e)) (Suc i) es)"

lemma check_hashes_ok: "check_hashes p i es = Inr None \<longleftrightarrow> hashes_ok p i es"
  by (induction es arbitrary: p i) (auto simp: Let_def split: option.splits)

lemma hashes_ok_chain: "i > 0 \<Longrightarrow> numbered e_sequence n es \<and> hashes_ok p i es \<longleftrightarrow> chain_ok n p es"
  by (induction es arbitrary: n p i) auto

lemma check_hashes_invalid: "check_hashes p i es = Inr (Some r) \<Longrightarrow> \<not> v_valid r"
  by (induction es arbitrary: p i) (auto simp: Let_def vfail_def split: option.splits if_splits)

lemma check_sequences_invalid: "check_sequences n i es = Some r \<Longrightarrow> \<not> v_valid r"
  by (induction es arbitrary: i) (auto simp: Let_def vfail_def split: if_splits)

lemma check_export_hash_invalid: "check_export_hash x = Some r \<Longrightarrow> \<not> v_valid r"
  by (auto simp: check_export_hash_def Let_def vfail_def split: option.splits if_splits)

definition chain_part_ok :: "chained_entry list \<Rightarrow> bool" where
  "chain_part_ok es \<longleftrightarrow> (case es of [] \<Rightarrow> False | e # _ \<Rightarrow> chain_ok (e_sequence e) (e_previous_hash e) es)"

lemma verify_epoch_Cons:
  assumes "x_entries x = e # es"
  shows "(\<exists>r. verify_epoch x = Inr r \<and> v_valid r) \<longleftrightarrow>
    check_sequences (e_sequence e) 0 (e # es) = None \<and> check_hashes None 0 (e # es) = Inr None \<and>
    check_export_hash x = None"
proof (cases "check_sequences (e_sequence e) 0 (e # es)")
  case (Some r)
  then show ?thesis using assms check_sequences_invalid [OF Some]
    by (simp add: verify_epoch_def Let_def del: check_sequences.simps check_hashes.simps)
next
  case seq: None
  show ?thesis
  proof (cases "check_hashes None 0 (e # es)")
    case (Inl err)
    then show ?thesis using assms seq
      by (simp add: verify_epoch_def Let_def del: check_sequences.simps check_hashes.simps)
  next
    case hash: (Inr o1)
    show ?thesis
    proof (cases o1)
      case (Some r)
      then have "check_hashes None 0 (e # es) = Inr (Some r)" using hash by (simp only:)
      then have "\<not> v_valid r" by (rule check_hashes_invalid)
      then show ?thesis using assms seq hash Some
        by (simp add: verify_epoch_def Let_def del: check_sequences.simps check_hashes.simps)
    next
      case None
      then have "verify_epoch x = (case check_export_hash x of Some r \<Rightarrow> Inr r
        | None \<Rightarrow> Inr (vpass (length (e # es))
            (''All '' @ nat_str (length (e # es)) @ '' entries verified. Sequences '' @
             int_str (e_sequence e) @ ''-'' @ int_str (e_sequence (last (e # es))) @ '', epoch '' @
             int_str (m_epoch (x_metadata x)) @ ''.'')))"
        using assms seq hash by (simp only: verify_epoch_def list.case Let_def option.case sum.case)
      then show ?thesis using seq hash None check_export_hash_invalid [of x]
        by (cases "check_export_hash x") (simp_all add: vpass_def del: check_sequences.simps check_hashes.simps)
    qed
  qed
qed

lemma verify_epoch_valid_iff:
  "(\<exists>r. verify_epoch x = Inr r \<and> v_valid r) \<longleftrightarrow> chain_part_ok (x_entries x) \<and> check_export_hash x = None"
proof (cases "x_entries x")
  case Nil
  then show ?thesis by (simp add: verify_epoch_def chain_part_ok_def vfail_def)
next
  case (Cons e es)
  have "chain_ok (e_sequence e) (e_previous_hash e) (e # es) \<longleftrightarrow>
      numbered e_sequence (e_sequence e) (e # es) \<and> hashes_ok None 0 (e # es)"
    using hashes_ok_chain [of 1 "e_sequence e + 1" es "Some (e_hash e)"] by auto
  then show ?thesis
    using Cons unfolding verify_epoch_Cons [OF Cons] check_sequences_None check_hashes_ok
    by (simp add: chain_part_ok_def del: chain_ok.simps numbered.simps hashes_ok.simps)
qed

section \<open>The export of a good chain\<close>

lemma canon_reload [simp]: "canon (reload_val v) = canon v"
proof (induction v)
  case (PDict kvs)
  then have "map (map_prod id canon) (map (map_prod id reload_val) kvs) = map (map_prod id canon) kvs"
    by (force simp: prod.map_comp)
  then show ?case by (simp del: map_map)
qed auto

lemma wf_reload [simp]: "wf_val v \<Longrightarrow> wf_val (reload_val v)"
  by (induction v) (auto simp: comp_def split_def prod.map_comp list_all_iff)

lemma reload_same_sealed [simp]: "same_sealed (reload_entry e) e"
  by (simp add: same_sealed_def same_content_def reload_entry_def)

definition time_wf :: "chained_entry \<Rightarrow> bool" where
  "time_wf e = (case e_timestamp e of TDate d \<Rightarrow> valid_datetime d \<and> (dt_offset d = None \<or> dt_offset d = Some 0)
     | TStr _ \<Rightarrow> False)"

lemma serialise_same_sealed: "time_wf e \<Longrightarrow> same_sealed (serialise_entry e) e"
  using normalize_isoformat
  by (auto simp: same_sealed_def same_content_def serialise_entry_def time_wf_def
      simp del: normalize_timestamp.simps(2) split: tstamp.splits)

lemma same_sealed_trans: "same_sealed a b \<Longrightarrow> same_sealed b c \<Longrightarrow> same_sealed a c"
  by (simp add: same_sealed_def same_content_def)

lemma exported_same_sealed:
  "\<forall>e\<in>set es. time_wf e \<Longrightarrow> list_all2 same_sealed (map reload_entry (map serialise_entry es)) es"
  by (induction es) (auto intro: same_sealed_trans [OF reload_same_sealed serialise_same_sealed])

lemma chain_part_same_sealed: "list_all2 same_sealed es fs \<Longrightarrow> chain_part_ok es = chain_part_ok fs"
proof (cases fs)
  case (Cons f gs)
  assume s: "list_all2 same_sealed es fs"
  then obtain e hs where "es = e # hs" "same_sealed e f" using Cons by (auto simp: list_all2_Cons2)
  with s Cons show ?thesis
    using chain_ok_same_sealed [OF s] by (simp add: chain_part_ok_def same_sealedD del: chain_ok.simps)
qed (simp add: chain_part_ok_def)

section \<open>Chains the server built\<close>

text \<open>Reachable states: an initialised chain and appends whose acknowledgements are not lost.\<close>

inductive built :: "chain_db \<Rightarrow> bool" where
  init: "entries_of db = [] \<Longrightarrow> log_wf db \<Longrightarrow> sz > 0 \<Longrightarrow> valid_datetime now \<Longrightarrow> dt_offset now = Some 0 \<Longrightarrow>
    built (snd (initialize_chain (\<lambda>d. d) now tid by sz v db))"
| append: "built db \<Longrightarrow> w1 \<noteq> AckLost \<Longrightarrow> w2 \<noteq> AckLost \<Longrightarrow> valid_datetime now \<Longrightarrow> dt_offset now = Some 0 \<Longrightarrow>
    built (snd (append_locked w1 w2 now a db))"

inductive_cases built_cases: "built db"

text \<open>The links between epochs, which no digest covers, and the timestamps.\<close>

definition epoch_link_ok :: "chained_entry list \<Rightarrow> int \<Rightarrow> nat \<Rightarrow> bool" where
  "epoch_link_ok es k i \<longleftrightarrow> e_previous_epoch_hash (es ! i) =
     (if i > 0 \<and> int i mod k = 0 then Some (e_hash (es ! (i - 1))) else None)"

definition links_ok :: "chain_db \<Rightarrow> bool" where
  "links_ok db \<longleftrightarrow> (\<forall>i<length (entries_of db). epoch_link_ok (entries_of db) (get_epoch_size db) i \<and>
     time_wf (entries_of db ! i))"

text \<open>Marking the head changes neither links nor digests nor timestamps.\<close>

lemma marked_fields:
  assumes "entries_of db \<noteq> []"
  shows "map e_previous_epoch_hash (marked_entries db) = map e_previous_epoch_hash (entries_of db)"
    "map e_hash (marked_entries db) = map e_hash (entries_of db)"
    "map e_timestamp (marked_entries db) = map e_timestamp (entries_of db)"
  using assms
  by (cases "entries_of db" rule: rev_cases; simp add: marked_entries_def)+

lemma links_same_fields:
  assumes "links_ok db" "map e_previous_epoch_hash (entries_of db') = map e_previous_epoch_hash (entries_of db)"
    "map e_hash (entries_of db') = map e_hash (entries_of db)"
    "map e_timestamp (entries_of db') = map e_timestamp (entries_of db)"
    "get_epoch_size db' = get_epoch_size db"
  shows "links_ok db'"
proof -
  have len: "length (entries_of db') = length (entries_of db)" using assms(2) by (rule map_eq_imp_length_eq)
  have f: "f (entries_of db' ! i) = f (entries_of db ! i)"
    if "map f (entries_of db') = map f (entries_of db)" "i < length (entries_of db)" for f :: "chained_entry \<Rightarrow> 'b" and i
    using that len by (metis nth_map)
  show ?thesis
    using assms(1) len f [OF assms(2)] f [OF assms(3)] f [OF assms(4)] assms(5)
    by (simp add: links_ok_def epoch_link_ok_def time_wf_def)
qed

lemma links_snoc:
  assumes "links_ok db" "entries_of db' = entries_of db @ [e]" "get_epoch_size db' = get_epoch_size db"
    "time_wf e" "e_previous_epoch_hash e = (if int (length (entries_of db)) mod get_epoch_size db = 0
      then last_hash None (entries_of db) else None)" "entries_of db \<noteq> []"
  shows "links_ok db'"
  using assms
  by (auto simp: links_ok_def epoch_link_ok_def nth_append less_Suc_eq last_hash_last last_conv_nth)

lemma append_locked_links:
  assumes "chain_inv db" "epochs_ok db" "links_ok db" "w1 \<noteq> AckLost" "w2 \<noteq> AckLost"
    "valid_datetime now" "dt_offset now = Some 0"
  shows "links_ok (snd (append_locked w1 w2 now a db))"
proof (rule append_shape [OF assms(1,2), of w1 w2 now a])
  fix db2
  let ?e = "next_entry now a db"
  assume s: "append_locked w1 w2 now a db = write_entry w1 w2 ?e db2" "ready ?e db2"
    "entries_of db2 = marked_entries db" "chain_config db2 = chain_config db"
  have ne: "entries_of db \<noteq> []" using assms(1) by (simp add: chain_inv_def)
  have size: "get_epoch_size d = get_epoch_size db" if "chain_config d = chain_config db" for d
    using that by (simp add: get_epoch_size_def)
  have l2: "links_ok db2"
    using marked_fields [OF ne] s(3) size [OF s(4)] by (intro links_same_fields [OF assms(3)]) simp_all
  show ?thesis
  proof (cases "w1 = Acked \<or> w2 = Acked")
    case True
    note w = write_entry_ok [OF s(2) assms(4,5) True]
    have len: "length (entries_of db2) = length (entries_of db)"
      using marked_fields(2) [OF ne] s(3) by (metis length_map)
    have lh: "last_hash None (entries_of db2) = last_hash None (entries_of db)"
      using marked_fields(2) [OF ne] s(3) ne by (metis last_hash_last last_map map_is_Nil_conv)
    have "time_wf ?e" "e_previous_epoch_hash ?e = (if int (length (entries_of db)) mod get_epoch_size db = 0
        then last_hash None (entries_of db) else None)"
      using assms(6,7) by (simp_all add: next_entry_def Let_def time_wf_def new_entry_def)
    then show ?thesis
      using w s(1) len lh ne size [OF s(4)] size [of "snd (write_entry w1 w2 ?e db2)"] s(4)
      by (intro links_snoc [OF l2, of _ ?e]) auto
  next
    case False
    then have "w1 = NotWritten" "w2 = NotWritten" using assms(4,5) by (cases w1; cases w2; simp)+
    then show ?thesis
      using write_entry_failed [OF s(2)] s(1,4) size [OF s(4)] size [of "snd (write_entry w1 w2 ?e db2)"]
      by (intro links_same_fields [OF l2]) simp_all
  qed
qed

lemma built_inv: "built db \<Longrightarrow> chain_inv db \<and> epochs_ok db \<and> links_ok db"
proof (induction rule: built.induct)
  case (init db sz now tid "by" v)
  let ?d = "snd (initialize_chain (\<lambda>d. d) now tid by sz v db)"
  have i: "entries_of ?d = [genesis_entry now tid by sz v]" "chain_inv ?d"
    using initialize_fresh [OF init(1,2)] by simp_all
  have c: "chain_config ?d = Some sz"
    using init(1) find_by_sequence_None [of "save_epoch_size sz db" 0]
    by (simp add: initialize_chain_def Let_def get_next_sequence_def reset_sequence_to_def save_epoch_size_def
        upsert_genesis_def split: option.splits prod.splits)
  show ?case
    using i c init(3-5)
    by (auto simp: epochs_ok_def links_ok_def epoch_link_ok_def get_epoch_size_def genesis_entry_def Let_def time_wf_def)
next
  case (append db w1 w2 now a)
  then show ?case
    using append_locked_inv append_locked_epochs append_locked_links by blast
qed

section \<open>The export hash of a genuine export\<close>

definition export_text :: "chained_entry list \<Rightarrow> string" where
  "export_text es = concat (map (\<lambda>e. dumps (entry_doc e)) es)"

lemma compute_export_hash_text: "compute_export_hash es = sha256_hex (export_text es)"
  by (simp add: compute_export_hash_def export_text_def)

lemma isoformat_differs: "isoformat d \<noteq> datetime_str d"
  by (simp add: isoformat_def datetime_str_def isoformat_sep_def)

lemma distinct_entry_doc: "distinct (map fst
     [(''sequence'', PInt (e_sequence e)), (''epoch'', PInt (e_epoch e)), (''timestamp'', tstamp_val (e_timestamp e)),
      (''domain'', PStr (e_domain e)), (''action'', PStr (e_action e)), (''actor'', PStr (e_actor e)),
      (''status'', PStr (e_status e)), (''summary'', PStr (e_summary e)), (''details'', e_details e),
      (''tenant_id'', opt_str (e_tenant_id e)), (''previous_hash'', opt_str (e_previous_hash e)),
      (''is_epoch_start'', PBool (e_is_epoch_start e)), (''is_epoch_end'', PBool (e_is_epoch_end e)),
      (''previous_epoch_hash'', opt_str (e_previous_epoch_hash e)), (''hash'', PStr (e_hash e))])"
  by simp

lemma entry_doc_timestamp:
  assumes "canon (entry_doc a) = canon (entry_doc b)"
  shows "canon (tstamp_val (e_timestamp a)) = canon (tstamp_val (e_timestamp b))"
  using canon_dict_eqD [OF assms [unfolded entry_doc_def] distinct_entry_doc distinct_entry_doc, of "''timestamp''"]
  by simp

lemma export_text_Cons: "export_text (e # es) = dumps (entry_doc e) @ export_text es"
  by (simp add: export_text_def)

lemma delim_export_text: "delim (export_text es)"
  by (cases es) (simp_all add: export_text_def dumps_def entry_doc_def delim_def not_atomch)

lemma wf_entry_doc: "entry_wf e \<Longrightarrow> wf_val (entry_doc e)"
  by (simp add: entry_wf_def entry_doc_def tstamp_val_def split: tstamp.splits)

lemma export_texts_differ:
  assumes "time_wf e" "entry_wf e"
  shows "export_text (map (\<lambda>x. reload_entry (serialise_entry x)) (e # es)) \<noteq> export_text (e # es)"
proof
  let ?f = "\<lambda>x. reload_entry (serialise_entry x)"
  assume eq: "export_text (map ?f (e # es)) = export_text (e # es)"
  obtain d where d: "e_timestamp e = TDate d" using assms(1) by (auto simp: time_wf_def split: tstamp.splits)
  have "e_details (serialise_entry e) = e_details e" by (simp add: serialise_entry_def split: tstamp.splits)
  then have wf: "entry_wf (?f e)" using assms(2) by (simp add: entry_wf_def reload_entry_def)
  have "split_ok render (canon (entry_doc (?f e))) (canon (entry_doc e))"
    using wf_entry_doc [OF wf] wf_entry_doc [OF assms(2)] by (intro split_ok_render plain_canon)
  from split_okD [OF this, of "export_text (map ?f es)" "export_text es"] eq
  have "canon (entry_doc (?f e)) = canon (entry_doc e)"
    by (simp add: export_text_Cons dumps_def delim_export_text)
  from entry_doc_timestamp [OF this] isoformat_differs [of d] show False
    by (simp add: d reload_entry_def serialise_entry_def tstamp_val_def)
qed

lemma export_shape:
  assumes "export_epoch now by tid tn v db k = Inr (x, db')"
  shows "x_entries x = map serialise_entry (stream_entries_for_epoch db k) \<and> stream_entries_for_epoch db k \<noteq> [] \<and>
    m_export_hash (x_metadata x) = Some (compute_export_hash (stream_entries_for_epoch db k)) \<and>
    m_epoch_final_hash (x_metadata x) = e_hash (last (stream_entries_for_epoch db k)) \<and>
    db' = mark_epoch_exported k db"
  using assms by (auto simp: export_epoch_def Let_def split: list.splits if_splits)

lemma built_epoch:
  assumes "built db" "0 \<le> k" "stream_entries_for_epoch db k \<noteq> []"
  shows "chain_part_ok (stream_entries_for_epoch db k) \<and> (\<forall>e\<in>set (stream_entries_for_epoch db k). time_wf e)"
proof -
  have inv: "chain_inv db" "epochs_ok db" "links_ok db" using built_inv [OF assms(1)] by auto
  obtain p where p: "chain_ok (k * get_epoch_size db) p (stream_entries_for_epoch db k)"
    using epoch_slice(1) [OF inv(1,2) assms(2)] by blast
  then have "chain_part_ok (stream_entries_for_epoch db k)"
    using assms(3) by (cases "stream_entries_for_epoch db k") (auto simp: chain_part_ok_def)
  moreover have "set (stream_entries_for_epoch db k) \<subseteq> set (entries_of db)"
    by (auto simp: stream_entries_for_epoch_def)
  moreover have "\<forall>e\<in>set (entries_of db). time_wf e" using inv(3) by (auto simp: links_ok_def in_set_conv_nth)
  ultimately show ?thesis by blast
qed

lemma exported_chain_ok:
  assumes "built db" "0 \<le> k" "export_epoch now by tid tn v db k = Inr (x, db')"
  shows "chain_part_ok (x_entries (reload_export x))"
proof -
  note sh = export_shape [OF assms(3)]
  note b = built_epoch [OF assms(1,2)]
  have "list_all2 same_sealed (x_entries (reload_export x)) (stream_entries_for_epoch db k)"
    using exported_same_sealed [of "stream_entries_for_epoch db k"] sh b by (simp add: reload_export_def)
  from chain_part_same_sealed [OF this] b sh show ?thesis by simp
qed

section \<open>Properties\<close>

definition without_export_hash :: "epoch_export \<Rightarrow> epoch_export" where
  "without_export_hash x = x\<lparr>x_metadata := (x_metadata x)\<lparr>m_export_hash := None\<rparr>\<rparr>"

lemma demo_built: "built demo1" "built demo2" "built demo3"
proof -
  have v: "valid_datetime demo_now" "dt_offset demo_now = Some 0"
    by (simp_all add: demo_now_def valid_datetime_def days_in_month_def)
  show 1: "built demo1"
    unfolding demo1_def by (rule built.init) (use v in simp_all)
  show 2: "built demo2"
    unfolding demo2_def by (rule built.append [OF 1]) (use v in simp_all)
  show "built demo3"
    unfolding demo3_def by (rule built.append [OF 2]) (use v in simp_all)
qed

text \<open>The first epoch of the small chain, as a list of entries.\<close>

lemma demo_epoch0: "stream_entries_for_epoch demo3 0 = take 2 (entries_of demo3)"
  using epoch_slice(2) [OF demo_inv(2) demo_epochs(3), of 0] by (simp add: demo_size)

lemma demo3_marked: "e_is_epoch_end (entries_of demo3 ! 1)"
  using append_entries [OF demo_inv(1) demo_epochs(2), of Acked demo_now demo_args] demo_length demo_size
  by (simp add: demo3_def marked_entries_def nth_append)

lemma demo3_wf: "\<forall>e\<in>set (entries_of demo3). entry_wf e"
  using append_entries [OF demo1_inv(1) demo_epochs(1), of Acked demo_now demo_args]
    append_entries [OF demo_inv(1) demo_epochs(2), of Acked demo_now demo_args] demo1_wf demo_length demo_size
  by (auto simp: demo2_def demo3_def demo1_inv(2) marked_entries_def next_entry_def new_entry_def Let_def
      entry_wf_def demo_args_def)

lemma demo_export: "\<exists>x db'. export_epoch now by tid tn v demo3 0 = Inr (x, db')"
proof -
  have ne: "take 2 (entries_of demo3) \<noteq> []" "last (take 2 (entries_of demo3)) = entries_of demo3 ! 1"
    using demo_length(2) by (auto simp: length_Suc_conv numeral_eq_Suc)
  then obtain f r where fr: "stream_entries_for_epoch demo3 0 = f # r" "last (f # r) = entries_of demo3 ! 1"
    unfolding demo_epoch0 by (cases "take 2 (entries_of demo3)") auto
  then show ?thesis using demo3_marked by (simp add: export_epoch_def Let_def del: last.simps)
qed

text \<open>C7. The air-gapped verifier and the server agree: a file is valid exactly when the server's own epoch check of
  the same entries succeeds and the export hash, where there is one, is that of the entries.\<close>

theorem verifier_agrees_with_server:
  "(\<exists>r. verify_epoch x = Inr r \<and> v_valid r) \<longleftrightarrow>
   x_entries x \<noteq> [] \<and>
   verify_batch (x_entries x) (e_sequence (hd (x_entries x))) (e_previous_hash (hd (x_entries x))) True = None \<and>
   (m_export_hash (x_metadata x) \<in> {None, Some [], Some (compute_export_hash (x_entries x))})"
proof -
  have "check_export_hash x = None \<longleftrightarrow>
      m_export_hash (x_metadata x) \<in> {None, Some [], Some (compute_export_hash (x_entries x))}"
    by (auto simp: check_export_hash_def Let_def split: option.splits)
  moreover have "chain_part_ok (x_entries x) \<longleftrightarrow> x_entries x \<noteq> [] \<and>
      verify_batch (x_entries x) (e_sequence (hd (x_entries x))) (e_previous_hash (hd (x_entries x))) True = None"
    by (cases "x_entries x") (simp_all add: chain_part_ok_def verify_batch_skip_None del: chain_ok.simps)
  ultimately show ?thesis unfolding verify_epoch_valid_iff by blast
qed



text \<open>The round trip with the export hash fails: the hash in the metadata is taken over the entries with their
  database timestamps, the verifier's over the entries of the file. The two texts are never the same, so a genuine
  export is accepted only if SHA-256 collides on them.\<close>

theorem export_hash_never_matches:
  assumes "built db" "0 \<le> k" "export_epoch now by tid tn v db k = Inr (x, db')"
    "\<forall>e\<in>set (entries_of db). entry_wf e"
  shows "export_text (stream_entries_for_epoch db k) \<noteq> export_text (x_entries (reload_export x)) \<and>
    ((\<exists>r. verify_epoch (reload_export x) = Inr r \<and> v_valid r) \<longleftrightarrow>
      sha256_hex (export_text (stream_entries_for_epoch db k)) = sha256_hex (export_text (x_entries (reload_export x))))"
proof -
  note sh = export_shape [OF assms(3)]
  obtain e es where es: "stream_entries_for_epoch db k = e # es" using sh by (cases "stream_entries_for_epoch db k") auto
  moreover have "set (stream_entries_for_epoch db k) \<subseteq> set (entries_of db)"
    by (auto simp: stream_entries_for_epoch_def)
  ultimately have "e \<in> set (entries_of db)" by auto
  then have "export_text (map (\<lambda>x. reload_entry (serialise_entry x)) (e # es)) \<noteq> export_text (e # es)"
    using built_epoch [OF assms(1,2)] es assms(4) by (intro export_texts_differ) auto
  moreover have "check_export_hash (reload_export x) = None \<longleftrightarrow>
      compute_export_hash (x_entries (reload_export x)) = compute_export_hash (stream_entries_for_epoch db k)"
    using sh by (auto simp: check_export_hash_def reload_export_def Let_def compute_export_hash_def)
  ultimately show ?thesis
    using exported_chain_ok [OF assms(1-3)] sh es
    by (auto simp: verify_epoch_valid_iff compute_export_hash_text reload_export_def comp_def)
qed

lemma export_hash_never_matches_witness:
  "\<exists>x db'. export_epoch demo_now ''ann'' None None ''1.1.0'' demo3 0 = Inr (x, db') \<and>
     export_text (stream_entries_for_epoch demo3 0) \<noteq> export_text (x_entries (reload_export x))"
  using demo_export [of demo_now "''ann''" None None "''1.1.0''"]
    export_hash_never_matches [OF demo_built(3), of 0 demo_now "''ann''" None None "''1.1.0''"] demo3_wf
  by fastforce

text \<open>Two consecutive epochs of a chain that the server built, exported and parsed, pass the cross-epoch check.\<close>

theorem consecutive_exports_link:
  assumes "built db" "0 \<le> k" "export_epoch now by tid tn v db k = Inr (x, db1)"
    "export_epoch now' by' tid' tn' v' db (k + 1) = Inr (y, db2)"
  shows "v_valid (verify_cross_epoch (reload_export y) (reload_export x))"
proof -
  have inv: "chain_inv db" "epochs_ok db" "links_ok db" using built_inv [OF assms(1)] by auto
  let ?n = "get_epoch_size db" and ?es = "entries_of db"
  define a where "a = nat (k * ?n)"
  define m where "m = nat ?n"
  have n: "0 < ?n" using inv(2) by (simp add: epochs_ok_def)
  have am: "nat ((k + 1) * ?n) = a + m" "0 < m" "int m = ?n" "int a = k * ?n"
    using n assms(2) by (simp_all add: a_def m_def algebra_simps nat_add_distrib)
  note sx = export_shape [OF assms(3)] and sy = export_shape [OF assms(4)]
  have ex: "stream_entries_for_epoch db k = take m (drop a ?es)"
    using epoch_slice(2) [OF inv(1,2) assms(2)] by (simp add: a_def m_def)
  have ey: "stream_entries_for_epoch db (k + 1) = take m (drop (a + m) ?es)"
    using epoch_slice(2) [OF inv(1,2), of "k + 1"] assms(2) am(1) by (simp add: m_def)
  have len: "a + m < length ?es" using sy ey am(2) by (cases "a + m < length ?es") auto
  have lx: "last (stream_entries_for_epoch db k) = ?es ! (a + m - 1)"
    using len am(2) unfolding ex by (subst last_conv_nth) (auto simp: min_def)
  have hy: "hd (stream_entries_for_epoch db (k + 1)) = ?es ! (a + m)"
    using len am(2) unfolding ey by (simp add: hd_conv_nth)
  have "int (a + m) mod ?n = 0" using am by simp
  then have link: "e_previous_epoch_hash (hd (stream_entries_for_epoch db (k + 1))) =
      Some (e_hash (last (stream_entries_for_epoch db k)))"
    using inv(3) len am(2) unfolding lx hy by (auto simp: links_ok_def epoch_link_ok_def)
  have f: "e_hash (reload_entry (serialise_entry e)) = e_hash e"
    "e_previous_epoch_hash (reload_entry (serialise_entry e)) = e_previous_epoch_hash e" for e
    by (simp_all add: reload_entry_def serialise_entry_def split: tstamp.splits)
  obtain q qs where q: "stream_entries_for_epoch db (k + 1) = q # qs" using sy by (cases "stream_entries_for_epoch db (k + 1)") auto
  obtain p ps where p: "stream_entries_for_epoch db k = p # ps" using sx by (cases "stream_entries_for_epoch db k") auto
  let ?g = "\<lambda>e. reload_entry (serialise_entry e)"
  have x: "x_entries (reload_export x) = map ?g (p # ps)" and y: "x_entries (reload_export y) = map ?g (q # qs)"
    using sx sy p q by (simp_all add: reload_export_def)
  have "last (map ?g (p # ps)) = ?g (last (p # ps))" by (rule last_map) simp
  then have h: "e_hash (last (map ?g (p # ps))) = e_hash (last (p # ps))" using f(1) by simp
  obtain c cs where c: "map ?g (p # ps) = c # cs" by simp
  show ?thesis
    using h link unfolding verify_cross_epoch_def x y c p q
    by (simp add: f vpass_def Let_def del: last.simps)
qed

lemma demo3_export1: "stream_entries_for_epoch demo3 1 = drop 2 (entries_of demo3)"
  using epoch_slice(2) [OF demo_inv(2) demo_epochs(3), of 1] demo_length by (simp add: demo_size)

definition demo5 :: chain_db where
  "demo5 = snd (append_locked Acked Acked demo_now demo_args (snd (append_locked Acked Acked demo_now demo_args demo3)))"

lemma demo5_facts: "built demo5" "length (entries_of demo5) = 5" "get_epoch_size demo5 = 2"
  "e_is_epoch_end (entries_of demo5 ! 1)" "e_is_epoch_end (entries_of demo5 ! 3)"
proof -
  let ?d4 = "snd (append_locked Acked Acked demo_now demo_args demo3)"
  have v: "valid_datetime demo_now" "dt_offset demo_now = Some 0"
    by (simp_all add: demo_now_def valid_datetime_def days_in_month_def)
  have b4: "built ?d4" by (rule built.append [OF demo_built(3)]) (use v in simp_all)
  have i4: "chain_inv ?d4" "epochs_ok ?d4" using built_inv [OF b4] by auto
  have s4: "get_epoch_size ?d4 = 2"
    using append_locked_acked [OF demo_inv(2), of demo_now demo_args] demo_size by (auto simp: get_epoch_size_def)
  have e4: "entries_of ?d4 = entries_of demo3 @ [next_entry demo_now demo_args demo3]"
    using append_entries [OF demo_inv(2) demo_epochs(3), of Acked demo_now demo_args] demo_length demo_size
    by (simp add: marked_entries_def)
  have e5: "entries_of demo5 = butlast (entries_of ?d4) @ [(last (entries_of ?d4))\<lparr>e_is_epoch_end := True\<rparr>,
      next_entry demo_now demo_args ?d4]"
    using append_entries [OF i4, of Acked demo_now demo_args] demo_length s4 e4
    by (simp add: marked_entries_def demo5_def)
  show "built demo5" unfolding demo5_def by (rule built.append [OF b4]) (use v in simp_all)
  show "length (entries_of demo5) = 5" using e5 e4 demo_length by simp
  show "get_epoch_size demo5 = 2"
    using append_locked_acked [OF i4(1), of demo_now demo_args] s4 by (auto simp: demo5_def get_epoch_size_def)
  show "e_is_epoch_end (entries_of demo5 ! 1)" "e_is_epoch_end (entries_of demo5 ! 3)"
    using demo3_marked demo_length by (simp_all add: e5 e4 nth_append)
qed

lemma demo5_exports:
  "\<exists>x db'. export_epoch demo_now ''ann'' None None ''1'' demo5 0 = Inr (x, db')"
  "\<exists>x db'. export_epoch demo_now ''ann'' None None ''1'' demo5 1 = Inr (x, db')"
proof -
  have i: "chain_inv demo5" "epochs_ok demo5" using built_inv [OF demo5_facts(1)] by auto
  obtain a b c d e where es: "entries_of demo5 = [a, b, c, d, e]"
    using demo5_facts(2) by (auto simp: length_Suc_conv numeral_eq_Suc)
  have "stream_entries_for_epoch demo5 0 = [a, b]" "stream_entries_for_epoch demo5 1 = [c, d]"
    using epoch_slice(2) [OF i, of 0] epoch_slice(2) [OF i, of 1] es demo5_facts(3) by simp_all
  with demo5_facts(4,5) es show
    "\<exists>x db'. export_epoch demo_now ''ann'' None None ''1'' demo5 0 = Inr (x, db')"
    "\<exists>x db'. export_epoch demo_now ''ann'' None None ''1'' demo5 1 = Inr (x, db')"
    by (simp_all add: export_epoch_def Let_def)
qed

lemma consecutive_exports_link_witness:
  "\<exists>x y. v_valid (verify_cross_epoch (reload_export y) (reload_export x)) \<and>
     (\<exists>d. export_epoch demo_now ''ann'' None None ''1'' demo5 0 = Inr (x, d)) \<and>
     (\<exists>d. export_epoch demo_now ''ann'' None None ''1'' demo5 1 = Inr (y, d))"
proof -
  obtain x d1 y d2 where xy: "export_epoch demo_now ''ann'' None None ''1'' demo5 0 = Inr (x, d1)"
    "export_epoch demo_now ''ann'' None None ''1'' demo5 1 = Inr (y, d2)" using demo5_exports by blast
  have "v_valid (verify_cross_epoch (reload_export y) (reload_export x))"
    by (rule consecutive_exports_link [OF demo5_facts(1) _ xy(1)]) (use xy(2) in simp_all)
  then show ?thesis using xy by blast
qed

text \<open>C8. Two files that the verifier accepts, with the same first sequence number and the same final hash, carry the
  same entries, or two of their entries exhibit a SHA-256 collision: whoever knows an epoch's final hash knows
  the epoch.\<close>

theorem verified_files_with_same_final_hash_agree:
  assumes "verify_epoch x = Inr r" "v_valid r" "verify_epoch y = Inr s" "v_valid s"
    and "e_sequence (hd (x_entries x)) = e_sequence (hd (x_entries y))"
    and "e_hash (last (x_entries x)) = e_hash (last (x_entries y))"
    and "list_all entry_wf (x_entries x)" "list_all entry_wf (x_entries y)"
  shows "list_all2 same_content (x_entries x) (x_entries y) \<or>
    (\<exists>a\<in>set (x_entries x). \<exists>b\<in>set (x_entries y). entry_collision a b)"
proof -
  have "chain_part_ok (x_entries x)" "chain_part_ok (x_entries y)"
    using assms(1-4) verify_epoch_valid_iff by blast+
  then obtain p q where ok: "chain_ok (e_sequence (hd (x_entries x))) p (x_entries x)"
      "chain_ok (e_sequence (hd (x_entries y))) q (x_entries y)" "x_entries x \<noteq> []" "x_entries y \<noteq> []"
    unfolding chain_part_ok_def by (cases "x_entries x"; cases "x_entries y") auto
  show ?thesis
    using chain_ok_same_head [OF ok(1) ok(2) [folded assms(5)] assms(7,8) ok(3,4) assms(6)] .
qed

lemma demo_file_valid:
  "\<exists>x r. verify_epoch x = Inr r \<and> v_valid r \<and> list_all entry_wf (x_entries x) \<and> m_export_hash (x_metadata x) = None"
proof -
  obtain x d where x: "export_epoch demo_now ''ann'' None None ''1.1.0'' demo3 0 = Inr (x, d)"
    using demo_export [of demo_now "''ann''" None None "''1.1.0''"] by blast
  let ?x = "without_export_hash (reload_export x)"
  have "\<exists>r. verify_epoch ?x = Inr r \<and> v_valid r"
    using exported_chain_ok [OF demo_built(3) _ x] unfolding verify_epoch_valid_iff
    by (simp add: without_export_hash_def check_export_hash_def)
  moreover have "list_all entry_wf (x_entries ?x)"
    using export_shape [OF x] demo3_wf
    by (auto simp: without_export_hash_def reload_export_def reload_entry_def serialise_entry_def entry_wf_def
        stream_entries_for_epoch_def list_all_iff split: tstamp.splits)
  ultimately show ?thesis by (intro exI [of _ ?x]) (auto simp: without_export_hash_def)
qed

lemma verified_files_with_same_final_hash_agree_witness:
  "\<exists>x :: epoch_export. list_all2 same_content (x_entries x) (x_entries x) \<or>
    (\<exists>a\<in>set (x_entries x). \<exists>b\<in>set (x_entries x). entry_collision a b)"
proof -
  obtain x r where x: "verify_epoch x = Inr r" "v_valid r" "list_all entry_wf (x_entries x)"
    using demo_file_valid by blast
  show ?thesis
    by (rule exI, rule verified_files_with_same_final_hash_agree [OF x(1,2) x(1,2) refl refl x(3) x(3)])
qed

text \<open>The exit code of the command line: 0 for a file means that its chain and export hash are right and, when an
  earlier file is given, that the two link up; everything else that is not a usage error exits with 1.\<close>

theorem cli_exit_zero_iff:
  assumes "p \<notin> {''-h'', ''--help'', ''-V'', ''--version''}"
  shows "main_cli files (p # rest) = Exit 0 \<longleftrightarrow>
    (\<exists>x. files p = Parsed x \<and> (\<exists>r. verify_epoch x = Inr r \<and> v_valid r) \<and>
      (rest \<noteq> [] \<and> hd rest \<noteq> [] \<longrightarrow>
        (\<exists>y. files (hd rest) = Parsed y \<and> v_valid (verify_cross_epoch x y))))"
proof (cases "files p")
  case (Parsed x)
  have ec: "export_check x = Exit 0" if "verify_epoch x = Inr r" "v_valid r" for r
  proof -
    have "check_export_hash x = None" using that verify_epoch_valid_iff by blast
    then show ?thesis
      by (auto simp: check_export_hash_def export_check_def final_result_def Let_def split: option.splits if_splits)
  qed
  have ne: "x_entries x \<noteq> []" if "verify_epoch x = Inr r" "v_valid r" for r
    using that by (auto simp: verify_epoch_def vfail_def split: list.splits)
  show ?thesis
  proof (cases "verify_epoch x")
    case (Inl err)
    then show ?thesis using assms Parsed by (simp add: main_cli_def load_epoch_def final_result_def)
  next
    case (Inr r)
    show ?thesis
    proof (cases "v_valid r")
      case True
      note facts = ec [OF Inr True] ne [OF Inr True]
      show ?thesis
      proof (cases "rest \<noteq> [] \<and> hd rest \<noteq> []")
        case True
        then show ?thesis using assms Parsed Inr \<open>v_valid r\<close> facts
          by (cases "files (hd rest)") (simp_all add: main_cli_def load_epoch_def final_result_def)
      next
        case False
        then have "main_cli files (p # rest) = export_check x"
          using assms Parsed Inr \<open>v_valid r\<close> facts by (auto simp: main_cli_def load_epoch_def)
        then show ?thesis using False Parsed Inr \<open>v_valid r\<close> facts by auto
      qed
    next
      case False
      then show ?thesis using assms Parsed Inr by (simp add: main_cli_def load_epoch_def final_result_def)
    qed
  qed
qed (use assms in \<open>simp_all add: main_cli_def load_epoch_def\<close>)

lemma cli_exit_zero_iff_witness:
  "\<exists>x. main_cli (\<lambda>f. if f = ''epoch_0.json'' then Parsed x else Missing) [''epoch_0.json''] = Exit 0"
proof -
  obtain x r where "verify_epoch x = Inr r" "v_valid r" using demo_file_valid by blast
  then show ?thesis
    using cli_exit_zero_iff [of "''epoch_0.json''" "\<lambda>f. if f = ''epoch_0.json'' then Parsed x else Missing" "[]" for x]
    by auto
qed

text \<open>The verifier does not survive one kind of tampering: an entry after the first whose own digest is right but
  whose previous hash was removed ends in an exception, and the command line in a traceback.\<close>

theorem removed_link_crashes_verifier:
  assumes "x_entries x = a # b # es" "numbered e_sequence (e_sequence a) (a # b # es)"
    "e_hash a = compute_entry_hash a (e_previous_hash a)" "e_previous_hash b = None"
    "e_hash b = compute_entry_hash b None"
  shows "verify_epoch x = Inl TypeError"
proof -
  have "check_sequences (e_sequence a) 0 (a # b # es) = None"
    using assms(2) by (simp add: check_sequences_None del: check_sequences.simps)
  then show ?thesis
    using assms by (simp add: verify_epoch_def Let_def del: check_sequences.simps)
qed

lemma removed_link_crashes_verifier_witness:
  "\<exists>x. verify_epoch x = Inl TypeError"
proof -
  let ?a = "genesis_entry demo_now None ''system'' 2 ''1.1.0''"
  let ?b = "new_entry demo_args demo_now 1 0 None False None"
  obtain x :: epoch_export where "x_entries x = [?a, ?b]" by (metis epoch_export.select_convs(2))
  then show ?thesis using removed_link_crashes_verifier [of x ?a ?b "[]"] by auto
qed

end
