(* ===== verification/AuditLog.thy ===== *)
theory AuditLog
  imports ChainTheorems
begin

text \<open>
  \<open>backend/audit/log.py\<close>: the audit entry point, its fallback from a chained to a plain write, and
  the per-tenant retry queues with their background consumer. Broadcasting to WebSocket clients
  never raises (\<open>utils/ws_broadcast.py\<close>) and is left out. Times of the consumer's sleeps are left
  out; what each write of the database does is an argument.
\<close>

section \<open>The state\<close>

definition MAX_QUEUE_SIZE :: nat where
  "MAX_QUEUE_SIZE = 500"

definition MAX_RETRIES :: nat where
  "MAX_RETRIES = 3"

text \<open>
  A queued document. The driver adds \<open>_id\<close> on the first insert and \<open>audit\<close> removes it before
  queueing; a failed retry leaves it in place.
\<close>

record retry_item =
  ri_doc :: plain_entry
  ri_id :: "nat option"
  ri_attempt :: nat

record audit_state =
  dbs :: "string \<Rightarrow> chain_db"
  retry_queues :: "(string \<times> retry_item list) list"
  lost_entries :: "plain_entry list"

definition get_retry_queue :: "string \<Rightarrow> audit_state \<Rightarrow> retry_item list \<times> audit_state" where
  "get_retry_queue key st =
     (case map_of (retry_queues st) key of
        Some q \<Rightarrow> (q, st)
      | None \<Rightarrow> ([], st\<lparr>retry_queues := retry_queues st @ [(key, [])]\<rparr>))"

definition set_queue :: "string \<Rightarrow> retry_item list \<Rightarrow> audit_state \<Rightarrow> audit_state" where
  "set_queue key q st = st\<lparr>retry_queues := map (\<lambda>(k, old). (k, if k = key then q else old)) (retry_queues st)\<rparr>"

text \<open>\<open>deque.append\<close> and \<open>deque.appendleft\<close> on a deque with \<open>maxlen\<close>.\<close>

definition deque_append :: "'a \<Rightarrow> 'a list \<Rightarrow> 'a list" where
  "deque_append x q = (if length q < MAX_QUEUE_SIZE then q @ [x] else tl q @ [x])"

definition deque_appendleft :: "'a \<Rightarrow> 'a list \<Rightarrow> 'a list" where
  "deque_appendleft x q = (if length q < MAX_QUEUE_SIZE then x # q else x # butlast q)"

definition set_db :: "string \<Rightarrow> chain_db \<Rightarrow> audit_state \<Rightarrow> audit_state" where
  "set_db key d st = st\<lparr>dbs := (dbs st)(key := d)\<rparr>"

text \<open>\<open>insert_one\<close> of a plain document under a given \<open>_id\<close>; \<open>True\<close> means that it returned.\<close>

definition insert_doc :: "write_outcome \<Rightarrow> nat \<Rightarrow> plain_entry \<Rightarrow> chain_db \<Rightarrow> bool \<times> chain_db" where
  "insert_doc w oid p db =
     (if oid \<in> fst ` set (audit_log db) then (False, db)
      else (case w of
              NotWritten \<Rightarrow> (False, db\<lparr>next_oid := max (next_oid db) (Suc oid)\<rparr>)
            | Acked \<Rightarrow> (True, db\<lparr>audit_log := audit_log db @ [(oid, Plain p)], next_oid := max (next_oid db) (Suc oid)\<rparr>)
            | AckLost \<Rightarrow> (False, db\<lparr>audit_log := audit_log db @ [(oid, Plain p)], next_oid := max (next_oid db) (Suc oid)\<rparr>)))"

section \<open>audit\<close>

definition plain_doc :: "datetime \<Rightarrow> append_args \<Rightarrow> plain_entry" where
  "plain_doc now a = \<lparr>p_timestamp = TDate now, p_actor = a_actor a, p_domain = a_domain a, p_action = a_action a,
     p_status = a_status a, p_summary = a_summary a,
     p_details = PDict (case a_details a of None \<Rightarrow> [] | Some d \<Rightarrow> d)\<rparr>"

definition write_plain :: "write_outcome \<Rightarrow> datetime \<Rightarrow> append_args \<Rightarrow> string \<Rightarrow> audit_state \<Rightarrow> audit_state" where
  "write_plain w now a key st =
     (let doc = plain_doc now a; (returned, db') = insert_doc w (next_oid (dbs st key)) doc (dbs st key);
          st1 = set_db key db' st
      in if returned then st1
         else (let (q, st2) = get_retry_queue key st1
               in set_queue key (deque_append \<lparr>ri_doc = doc, ri_id = None, ri_attempt = 0\<rparr> q) st2))"

text \<open>What happens around one call: the other workers, the clock, and the fate of the writes.\<close>

record environment =
  env_probe_raises :: bool
  env_others :: "nat \<Rightarrow> chain_db \<Rightarrow> chain_db"
  env_clock :: "nat \<Rightarrow> instant"
  env_owner :: string
  env_write1 :: write_outcome
  env_write2 :: write_outcome
  env_plain :: write_outcome
  env_now :: datetime
  env_plain_now :: datetime

definition write_chained :: "environment \<Rightarrow> append_args \<Rightarrow> string \<Rightarrow> audit_state \<Rightarrow> audit_state" where
  "write_chained env a key st =
     (case append_chained_entry (env_others env) (env_clock env) (env_owner env) (env_write1 env) (env_write2 env)
             (env_now env) (a\<lparr>a_tenant_id := None\<rparr>) (dbs st key) of
        (Inr _, db') \<Rightarrow> set_db key db' st
      | (Inl _, db') \<Rightarrow> write_plain (env_plain env) (env_plain_now env) a key (set_db key db' st))"

definition is_chain_initialized :: "chain_db \<Rightarrow> bool" where
  "is_chain_initialized db = (find_by_sequence 0 db \<noteq> None)"

definition audit :: "environment \<Rightarrow> append_args \<Rightarrow> string \<Rightarrow> audit_state \<Rightarrow> audit_state" where
  "audit env a key st =
     (let chain_active = (if env_probe_raises env then False else is_chain_initialized (dbs st key))
      in if chain_active then write_chained env a key st
         else write_plain (env_plain env) (env_plain_now env) a key st)"

section \<open>The background consumer\<close>

datatype retry_fate = Write write_outcome | Cancelled

text \<open>One queue's turn; \<open>True\<close> says that the consumer goes on.\<close>

definition drain_one :: "retry_fate \<Rightarrow> string \<Rightarrow> audit_state \<Rightarrow> bool \<times> audit_state" where
  "drain_one f key st =
     (case map_of (retry_queues st) key of
        None \<Rightarrow> (True, st)
      | Some [] \<Rightarrow> (True, st)
      | Some (item # rest) \<Rightarrow>
          (case f of
             Cancelled \<Rightarrow> (False, set_queue key (deque_appendleft item rest) st)
           | Write w \<Rightarrow>
               (let db = dbs st key; oid = (case ri_id item of Some i \<Rightarrow> i | None \<Rightarrow> next_oid db);
                    (returned, db') = insert_doc w oid (ri_doc item) db; st1 = set_db key db' st
                in if returned then (True, set_queue key rest st1)
                   else if ri_attempt item + 1 < MAX_RETRIES
                   then (True, set_queue key (deque_append (item\<lparr>ri_id := Some oid, ri_attempt := ri_attempt item + 1\<rparr>) rest) st1)
                   else (True, (set_queue key rest st1)\<lparr>lost_entries := lost_entries st @ [ri_doc item]\<rparr>))))"

text \<open>One pass over the queues that exist when it starts, in their order of creation.\<close>

fun drain_pass :: "(string \<Rightarrow> retry_fate) \<Rightarrow> string list \<Rightarrow> audit_state \<Rightarrow> bool \<times> audit_state" where
  "drain_pass fate [] st = (True, st)"
| "drain_pass fate (key # keys) st =
     (case drain_one (fate key) key st of
        (False, st') \<Rightarrow> (False, st')
      | (True, st') \<Rightarrow> drain_pass fate keys st')"

definition drain_retry_queue :: "(string \<Rightarrow> retry_fate) \<Rightarrow> audit_state \<Rightarrow> bool \<times> audit_state" where
  "drain_retry_queue fate st = drain_pass fate (map fst (retry_queues st)) st"

section \<open>Queue lemmas\<close>

lemma set_queue_keys [simp]: "map fst (retry_queues (set_queue key q st)) = map fst (retry_queues st)"
  by (induction "retry_queues st") (auto simp: set_queue_def comp_def split_def)

lemma map_of_set_queue:
  "map_of (retry_queues (set_queue key q st)) k =
     (if k = key \<and> map_of (retry_queues st) key \<noteq> None then Some q else map_of (retry_queues st) k)"
proof -
  have "map_of (map (\<lambda>(k, old). (k, if k = key then q else old)) xs) k =
      (if k = key \<and> map_of xs key \<noteq> None then Some q else map_of xs k)" for xs :: "(string \<times> retry_item list) list"
    by (induction xs) auto
  then show ?thesis by (simp add: set_queue_def)
qed

lemma set_queue_simps [simp]:
  "dbs (set_queue key q st) = dbs st" "lost_entries (set_queue key q st) = lost_entries st"
  by (simp_all add: set_queue_def)

lemma set_db_simps [simp]:
  "retry_queues (set_db key d st) = retry_queues st" "lost_entries (set_db key d st) = lost_entries st"
  "dbs (set_db key d st) = (dbs st)(key := d)"
  by (simp_all add: set_db_def)

lemma deque_length: "length q \<le> MAX_QUEUE_SIZE \<Longrightarrow> length (deque_append x q) \<le> MAX_QUEUE_SIZE"
  by (simp add: deque_append_def MAX_QUEUE_SIZE_def)

lemma set_deque_append: "set (deque_append x q) \<subseteq> insert x (set q)"
  by (cases q) (auto simp: deque_append_def)

lemma deque_appendleft_length: "length q < MAX_QUEUE_SIZE \<Longrightarrow> deque_appendleft x q = x # q"
  by (simp add: deque_appendleft_def)

text \<open>The queues are bounded and hold only entries with retries left.\<close>

definition queue_ok :: "retry_item list \<Rightarrow> bool" where
  "queue_ok q \<longleftrightarrow> length q \<le> MAX_QUEUE_SIZE \<and> (\<forall>i\<in>set q. ri_attempt i < MAX_RETRIES)"

definition queues_ok :: "audit_state \<Rightarrow> bool" where
  "queues_ok st \<longleftrightarrow> (\<forall>k q. map_of (retry_queues st) k = Some q \<longrightarrow> queue_ok q)"

lemma queues_okI: "queues_ok st \<Longrightarrow> queue_ok q \<Longrightarrow> queues_ok (set_queue key q st)"
  by (auto simp: queues_ok_def map_of_set_queue split: if_splits)

lemma queues_ok_simps [simp]:
  "queues_ok (set_db key d st) = queues_ok st"
  "queues_ok (st\<lparr>lost_entries := l\<rparr>) = queues_ok st"
  by (simp_all add: queues_ok_def)

lemma get_retry_queue_ok:
  assumes "get_retry_queue key st = (q, st')" "queues_ok st"
  shows "queue_ok q \<and> queues_ok st' \<and> dbs st' = dbs st \<and> lost_entries st' = lost_entries st \<and>
    map_of (retry_queues st') key = Some q"
  using assms
  by (auto simp: get_retry_queue_def queues_ok_def queue_ok_def map_add_def split: option.splits if_splits)

lemma queue_ok_append:
  assumes "queue_ok q" "ri_attempt i < MAX_RETRIES"
  shows "queue_ok (deque_append i q)"
proof -
  have "ri_attempt j < MAX_RETRIES" if "j \<in> set (deque_append i q)" for j
    using that assms set_deque_append [of i q] by (auto simp: queue_ok_def)
  then show ?thesis using assms deque_length [of q i] by (auto simp: queue_ok_def)
qed

lemma write_plain_ok:
  assumes "queues_ok st"
  shows "queues_ok (write_plain w now a key st)"
proof -
  obtain r d where i: "insert_doc w (next_oid (dbs st key)) (plain_doc now a) (dbs st key) = (r, d)"
    by (cases "insert_doc w (next_oid (dbs st key)) (plain_doc now a) (dbs st key)")
  obtain q st2 where q: "get_retry_queue key (set_db key d st) = (q, st2)"
    by (cases "get_retry_queue key (set_db key d st)")
  have "queue_ok q" "queues_ok st2" using get_retry_queue_ok [OF q] assms by auto
  then show ?thesis
    using assms i q
    by (auto simp: write_plain_def Let_def MAX_RETRIES_def intro!: queues_okI queue_ok_append)
qed

lemma audit_ok: "queues_ok st \<Longrightarrow> queues_ok (audit env a key st)"
  by (auto simp: audit_def write_chained_def write_plain_ok Let_def split: prod.splits sum.splits)

lemma drain_one_ok:
  assumes "queues_ok st"
  shows "queues_ok (snd (drain_one f key st))"
proof (cases "map_of (retry_queues st) key")
  case (Some q)
  show ?thesis
  proof (cases q)
    case (Cons item rest)
    have q: "queue_ok (item # rest)" using assms Some Cons unfolding queues_ok_def by blast
    then have ok: "queue_ok rest" "ri_attempt item < MAX_RETRIES" "length rest < MAX_QUEUE_SIZE"
      by (simp_all add: queue_ok_def)
    from q show ?thesis
      using assms Some Cons ok
      by (auto simp: drain_one_def Let_def deque_appendleft_length split: retry_fate.splits prod.splits
          intro!: queues_okI queue_ok_append)
  qed (use assms Some in \<open>simp add: drain_one_def\<close>)
qed (use assms in \<open>simp add: drain_one_def\<close>)

lemma drain_pass_ok: "queues_ok st \<Longrightarrow> queues_ok (snd (drain_pass fate keys st))"
proof (induction keys arbitrary: st)
  case (Cons key keys)
  then show ?case
    using drain_one_ok [OF Cons.prems, of "fate key" key]
    by (cases "drain_one (fate key) key st") (auto split: bool.splits)
qed simp

section \<open>Properties\<close>

definition demo_audit :: audit_state where
  "demo_audit = \<lparr>dbs = (\<lambda>_. demo3), retry_queues = [], lost_entries = []\<rparr>"

definition demo_env :: "write_outcome \<Rightarrow> write_outcome \<Rightarrow> write_outcome \<Rightarrow> environment" where
  "demo_env w1 w2 wp = \<lparr>env_probe_raises = False, env_others = (\<lambda>_ d. d), env_clock = (\<lambda>_. 0), env_owner = ''w'',
     env_write1 = w1, env_write2 = w2, env_plain = wp, env_now = demo_now, env_plain_now = demo_now\<rparr>"

text \<open>The retry queues stay bounded: neither a call of \<open>audit\<close>, whatever its writes do, nor a pass of the
  consumer lets a tenant's queue grow beyond the limit or hold an entry without retries left.\<close>

theorem retry_queues_bounded:
  assumes "queues_ok st"
  shows "queues_ok (audit env a key st) \<and> queues_ok (snd (drain_retry_queue fate st))"
  using audit_ok [OF assms] drain_pass_ok [OF assms] by (simp add: drain_retry_queue_def)

lemma retry_queues_bounded_witness:
  "queues_ok (audit (demo_env NotWritten NotWritten NotWritten) demo_args ''t'' demo_audit)"
  using retry_queues_bounded [of demo_audit] by (simp add: queues_ok_def demo_audit_def)

lemma chain_inv_initialized: "chain_inv db \<Longrightarrow> is_chain_initialized db"
  using find_by_sequence_at [of db 0] by (auto simp: is_chain_initialized_def chain_inv_def)

lemma insert_doc_fresh:
  assumes "log_wf db" "w \<noteq> NotWritten"
  shows "audit_log (snd (insert_doc w (next_oid db) p db)) = audit_log db @ [(next_oid db, Plain p)]"
proof -
  have "next_oid db \<notin> fst ` set (audit_log db)" using assms(1) by (auto simp: log_wf_def)
  then show ?thesis using assms(2) by (cases w) (simp_all add: insert_doc_def)
qed

lemma write_plain_written:
  assumes "log_wf (dbs st key)" "w \<noteq> NotWritten"
  shows "audit_log (dbs (write_plain w now a key st) key) =
    audit_log (dbs st key) @ [(next_oid (dbs st key), Plain (plain_doc now a))]"
proof -
  obtain r d where i: "insert_doc w (next_oid (dbs st key)) (plain_doc now a) (dbs st key) = (r, d)"
    by (cases "insert_doc w (next_oid (dbs st key)) (plain_doc now a) (dbs st key)")
  then have "audit_log d = audit_log (dbs st key) @ [(next_oid (dbs st key), Plain (plain_doc now a))]"
    using insert_doc_fresh [OF assms, of "plain_doc now a"] by simp
  then show ?thesis
    using i by (auto simp: write_plain_def Let_def get_retry_queue_def split: option.splits)
qed

lemma failed_append:
  assumes "chain_inv db" "w1 \<noteq> Acked" "w2 \<noteq> Acked" "chain_locks db ''audit_chain_append'' = None"
  shows "\<exists>db'. append_chained_entry (\<lambda>_ d. d) clock owner w1 w2 now a db =
      (Inl (ChainWriteFailed (int (length (entries_of db)))), db') \<and> log_wf db' \<and>
      length (entries_of db') = length (entries_of db) + (if w1 = AckLost \<or> w2 = AckLost then 1 else 0)"
proof -
  obtain lk t where acq: "acquire_loop (\<lambda>_ d. d) clock 0 max_lock_attempts (new_lock ''audit_chain_append'' 30 owner) db
    = (Some lk, db\<lparr>chain_locks := t\<rparr>)" using acquire_free [OF assms(4)] by blast
  let ?db1 = "db\<lparr>chain_locks := t\<rparr>"
  have inv: "chain_inv ?db1" using assms(1) by simp
  show ?thesis
  proof (rule append_locked_ready [OF inv, of w1 w2 now a])
    fix st peh db2
    let ?e = "new_entry a now (int (length (entries_of ?db1))) (int (length (entries_of ?db1)) div get_epoch_size ?db1)
        (last_hash None (entries_of ?db1)) st peh"
    assume al: "append_locked w1 w2 now a ?db1 = write_entry w1 w2 ?e db2" and r: "ready ?e db2"
      and s: "list_all2 same_sealed (entries_of db2) (entries_of ?db1)"
    let ?db3 = "db2\<lparr>audit_log := audit_log db2 @ [(next_oid db2, Chained ?e)], next_oid := Suc (next_oid db2)\<rparr>"
    have st3: "insert_one w ?e ?db3 = (False, ?db3)" for w
      by (rule insert_stuck, subst inserted_inv(2) [OF r]) simp
    have i: "insert_one AckLost ?e db2 = (False, ?db3)" "insert_one NotWritten ?e db2 = (False, db2)"
      using insert_ready [OF r] by (simp_all add: insert_one_def)
    have wf: "log_wf db2" "log_wf ?db3" using r inserted_inv(1) [OF r] by (auto simp: ready_def chain_inv_def)
    have len: "length (entries_of db2) = length (entries_of db)" using list_all2_lengthD [OF s] by simp
    have "fst (write_entry w1 w2 ?e db2) = Inl (ChainWriteFailed (int (length (entries_of db)))) \<and>
        log_wf (snd (write_entry w1 w2 ?e db2)) \<and>
        length (entries_of (snd (write_entry w1 w2 ?e db2))) = length (entries_of db) + (if w1 = AckLost \<or> w2 = AckLost then 1 else 0)"
      using assms(2,3) i st3 wf len inserted_inv(2) [OF r]
      by (cases w1; cases w2) (simp_all add: write_entry_def reset_sequence_to_def)
    then show ?thesis using al by (simp add: append_chained_entry_unfold acq)
  qed
qed

text \<open>The event survives a failed append: when neither write of the chained entry is acknowledged, the call falls
  back to a plain entry with the caller's fields; if one of the writes did happen, the event is in the log
  twice, once chained and once plain.\<close>

theorem audit_falls_back_to_plain:
  assumes "chain_inv (dbs st key)" "chain_locks (dbs st key) ''audit_chain_append'' = None"
    and "env_others env = (\<lambda>_ d. d)" "\<not> env_probe_raises env" "env_write1 env \<noteq> Acked" "env_write2 env \<noteq> Acked"
      "env_plain env \<noteq> NotWritten"
  shows "(\<exists>oid. last (audit_log (dbs (audit env a key st) key)) = (oid, Plain (plain_doc (env_plain_now env) a))) \<and>
    length (entries_of (dbs (audit env a key st) key)) = length (entries_of (dbs st key)) +
      (if env_write1 env = AckLost \<or> env_write2 env = AckLost then 1 else 0)"
proof -
  obtain db' where f: "append_chained_entry (env_others env) (env_clock env) (env_owner env) (env_write1 env) (env_write2 env)
        (env_now env) (a\<lparr>a_tenant_id := None\<rparr>) (dbs st key) = (Inl (ChainWriteFailed (int (length (entries_of (dbs st key))))), db')"
    and d: "log_wf db'" "length (entries_of db') = length (entries_of (dbs st key)) +
      (if env_write1 env = AckLost \<or> env_write2 env = AckLost then 1 else 0)"
    using failed_append [OF assms(1,5,6,2)] unfolding assms(3) by blast
  have a: "audit env a key st = write_plain (env_plain env) (env_plain_now env) a key (set_db key db' st)"
    using chain_inv_initialized [OF assms(1)] assms(4) f by (simp add: audit_def write_chained_def)
  have log: "audit_log (dbs (audit env a key st) key) =
      audit_log db' @ [(next_oid db', Plain (plain_doc (env_plain_now env) a))]"
    using write_plain_written [of "set_db key db' st" key "env_plain env"] d(1) assms(7) by (simp add: a)
  then have "entries_of (dbs (audit env a key st) key) = entries_of db'"
    by (simp add: entries_of_def chained_docs_def)
  with log d(2) show ?thesis by simp
qed

lemma audit_falls_back_to_plain_witness:
  "length (entries_of (dbs (audit (demo_env AckLost NotWritten Acked) demo_args ''t'' demo_audit) ''t'')) = 4"
proof -
  have l: "chain_locks demo3 = (\<lambda>_. None)"
    by (simp add: demo3_def demo2_def append_locked_locks demo1_locks)
  show ?thesis
    using audit_falls_back_to_plain [of demo_audit "''t''" "demo_env AckLost NotWritten Acked" demo_args] demo_inv(2)
    by (simp add: demo_audit_def demo_env_def demo_length l)
qed

section \<open>The consumer ends\<close>

text \<open>The retries that are left, over all queues.\<close>

definition queue_budget :: "retry_item list \<Rightarrow> nat" where
  "queue_budget q = sum_list (map (\<lambda>i. MAX_RETRIES - ri_attempt i) q)"

definition budget :: "audit_state \<Rightarrow> nat" where
  "budget st = sum_list (map (\<lambda>kq. queue_budget (snd kq)) (retry_queues st))"

lemma budget_set_queue:
  assumes "distinct (map fst (retry_queues st))" "map_of (retry_queues st) key = Some q"
  shows "budget (set_queue key q' st) + queue_budget q = budget st + queue_budget q'"
proof -
  have other: "map (\<lambda>(k, old). (k, if k = key then q' else old)) ys = ys" if "key \<notin> fst ` set ys"
    for ys :: "(string \<times> retry_item list) list"
    using that by (induction ys) auto
  have "sum_list (map (\<lambda>kq. queue_budget (snd kq)) (map (\<lambda>(k, old). (k, if k = key then q' else old)) xs)) + queue_budget q =
      sum_list (map (\<lambda>kq. queue_budget (snd kq)) xs) + queue_budget q'"
    if "distinct (map fst xs)" "map_of xs key = Some q" for xs
    using that
  proof (induction xs)
    case (Cons x xs)
    then show ?case using other [of xs] by (cases "fst x = key") (auto split: prod.splits)
  qed simp
  from this [OF assms] show ?thesis by (simp add: budget_def set_queue_def del: map_map)
qed

lemma budget_simps [simp]:
  "budget (set_db key d st) = budget st" "budget (st\<lparr>lost_entries := l\<rparr>) = budget st"
  "retry_queues (st\<lparr>lost_entries := l\<rparr>) = retry_queues st"
  by (simp_all add: budget_def)

lemma queue_budget_simps [simp]:
  "queue_budget [] = 0" "queue_budget (i # q) = MAX_RETRIES - ri_attempt i + queue_budget q"
  "queue_budget (q @ r) = queue_budget q + queue_budget r"
  by (simp_all add: queue_budget_def)

lemma deque_append_short: "length q < MAX_QUEUE_SIZE \<Longrightarrow> deque_append x q = q @ [x]"
  by (simp add: deque_append_def)

lemma map_of_set_db [simp]: "map_of (retry_queues (set_db key d st)) k = map_of (retry_queues st) k"
  by simp

lemma drain_one_budget:
  assumes "queues_ok st" "distinct (map fst (retry_queues st))" "f = Write w"
  shows "fst (drain_one f key st) \<and> budget (snd (drain_one f key st)) \<le> budget st \<and>
    (map_of (retry_queues st) key \<notin> {None, Some []} \<longrightarrow> budget (snd (drain_one f key st)) < budget st) \<and>
    map fst (retry_queues (snd (drain_one f key st))) = map fst (retry_queues st) \<and>
    (\<forall>k. k \<noteq> key \<longrightarrow> map_of (retry_queues (snd (drain_one f key st))) k = map_of (retry_queues st) k)"
proof (cases "map_of (retry_queues st) key")
  case (Some q)
  show ?thesis
  proof (cases q)
    case (Cons item rest)
    have q: "queue_ok (item # rest)" using assms(1) Some Cons unfolding queues_ok_def by blast
    then have ok: "ri_attempt item < MAX_RETRIES" "length rest < MAX_QUEUE_SIZE" by (simp_all add: queue_ok_def)
    let ?oid = "case ri_id item of Some i \<Rightarrow> i | None \<Rightarrow> next_oid (dbs st key)"
    obtain r d where i: "insert_doc w ?oid (ri_doc item) (dbs st key) = (r, d)"
      by (cases "insert_doc w ?oid (ri_doc item) (dbs st key)")
    have dist: "distinct (map fst (retry_queues (set_db key d st)))" using assms(2) by simp
    have mo: "map_of (retry_queues (set_db key d st)) key = Some (item # rest)" using Some Cons by simp
    have b: "budget (set_queue key q' (set_db key d st)) + queue_budget (item # rest) = budget st + queue_budget q'" for q'
      using budget_set_queue [OF dist mo, of q'] by simp
    show ?thesis
      using Some Cons i b [of rest] ok assms(3) deque_append_short [OF ok(2)]
        b [of "rest @ [item\<lparr>ri_id := Some ?oid, ri_attempt := ri_attempt item + 1\<rparr>]"]
      by (cases r; cases "ri_attempt item + 1 < MAX_RETRIES")
        (auto simp: drain_one_def Let_def map_of_set_queue)
  qed (use Some in \<open>simp add: drain_one_def\<close>)
qed (simp add: drain_one_def)

lemma drain_pass_budget:
  assumes "\<And>k. \<exists>w. fate k = Write w"
  shows "queues_ok st \<Longrightarrow> distinct (map fst (retry_queues st)) \<Longrightarrow>
    fst (drain_pass fate keys st) \<and> budget (snd (drain_pass fate keys st)) \<le> budget st \<and>
    ((\<exists>k\<in>set keys. map_of (retry_queues st) k \<notin> {None, Some []}) \<longrightarrow>
      budget (snd (drain_pass fate keys st)) < budget st)"
proof (induction keys arbitrary: st)
  case (Cons key keys)
  obtain w where w: "fate key = Write w" using assms by blast
  obtain b st' where d: "drain_one (fate key) key st = (b, st')" by (cases "drain_one (fate key) key st")
  note one = drain_one_budget [OF Cons.prems w, of key]
  have ok: "queues_ok st'" using drain_one_ok [OF Cons.prems(1), of "fate key" key] d by simp
  have "distinct (map fst (retry_queues st'))" using one d Cons.prems(2) by simp
  note IH = Cons.IH [OF ok this]
  have b: "b" using one d by simp
  have "budget (snd (drain_pass fate keys st')) < budget st"
    if "\<exists>k\<in>set (key # keys). map_of (retry_queues st) k \<notin> {None, Some []}"
  proof (cases "map_of (retry_queues st) key \<notin> {None, Some []}")
    case True
    then show ?thesis using one d IH by simp
  next
    case False
    from that obtain k where "k \<in> set (key # keys)" and n: "map_of (retry_queues st) k \<notin> {None, Some []}" by blast
    moreover have "k \<noteq> key" using n False by blast
    ultimately have k: "k \<in> set keys" "map_of (retry_queues st) k \<notin> {None, Some []}" "k \<noteq> key" by simp_all
    then have "map_of (retry_queues st') k \<notin> {None, Some []}" using one d by simp
    with k(1) IH one d show ?thesis by fastforce
  qed
  then show ?case using b d IH one by auto
qed simp

text \<open>The consumer makes progress: a pass that is not cancelled uses up at least one retry as long as any queue has
  an entry, so that after as many passes as there are retries left every entry is written or given up.\<close>

theorem drain_makes_progress:
  assumes "queues_ok st" "distinct (map fst (retry_queues st))" "\<And>k. \<exists>w. fate k = Write w"
    and "map_of (retry_queues st) key = Some (item # rest)"
  shows "fst (drain_retry_queue fate st) \<and> budget (snd (drain_retry_queue fate st)) < budget st"
proof -
  have "key \<in> set (map fst (retry_queues st))" using map_of_SomeD [OF assms(4)] by force
  then have "\<exists>k\<in>set (map fst (retry_queues st)). map_of (retry_queues st) k \<notin> {None, Some []}"
    using assms(4) by (intro bexI [of _ key]) simp_all
  then show ?thesis
    using drain_pass_budget [OF assms(3,1,2), where keys = "map fst (retry_queues st)"]
    by (simp add: drain_retry_queue_def)
qed

definition demo_queued :: audit_state where
  "demo_queued = demo_audit\<lparr>retry_queues :=
     [(''t'', [\<lparr>ri_doc = plain_doc demo_now demo_args, ri_id = None, ri_attempt = 2\<rparr>])]\<rparr>"

lemma drain_makes_progress_witness:
  "budget (snd (drain_retry_queue (\<lambda>_. Write NotWritten) demo_queued)) < budget demo_queued"
  using drain_makes_progress [of demo_queued "\<lambda>_. Write NotWritten" "''t''"]
  by (simp add: demo_queued_def queues_ok_def queue_ok_def MAX_QUEUE_SIZE_def MAX_RETRIES_def)

end
