(* ===== verification/Glob.thy ===== *)
theory Glob
  imports Prelude
begin

text \<open>
  The two pattern languages of the product: the globs of \<open>domains/fingerprint/matcher.py\<close>, compiled to
  a regular expression by splitting and escaping, and the \<open>fnmatch\<close> patterns of the enforcement engine.
  Both are modelled as they are built and matched by \<open>re\<close>, and related to one reference matcher.
  Case is ignored by comparing lower-cased characters, which for Latin-1 is what \<open>re.IGNORECASE\<close> does.
\<close>

section \<open>Regular expressions as the code builds them\<close>

datatype ratom = RLit char | RDot | RDotStar

text \<open>
  \<open>re.match\<close> for the expressions of \<open>glob_to_regex\<close>: a dot does not match a newline, and \<open>$\<close> also
  matches before a final newline.
\<close>

abbreviation newline :: char where
  "newline \<equiv> CHR 0x0A"

function rmatch :: "ratom list \<Rightarrow> string \<Rightarrow> bool" where
  "rmatch [] s = (s = [] \<or> s = [newline])"
| "rmatch (RLit c # rs) s = (case s of [] \<Rightarrow> False | d # t \<Rightarrow> lower_char c = lower_char d \<and> rmatch rs t)"
| "rmatch (RDot # rs) s = (case s of [] \<Rightarrow> False | d # t \<Rightarrow> d \<noteq> newline \<and> rmatch rs t)"
| "rmatch (RDotStar # rs) s =
     (rmatch rs s \<or> (case s of [] \<Rightarrow> False | d # t \<Rightarrow> d \<noteq> newline \<and> rmatch (RDotStar # rs) t))"
  by pat_completeness auto
termination by (relation "measures [\<lambda>(rs, s). length rs + length s]") auto

text \<open>\<open>str.split\<close> on a one-character separator, and \<open>str.join\<close> on lists.\<close>

fun split_on :: "char \<Rightarrow> string \<Rightarrow> string list" where
  "split_on x [] = [[]]"
| "split_on x (c # cs) =
     (if c = x then [] # split_on x cs
      else (case split_on x cs of p # ps \<Rightarrow> (c # p) # ps | [] \<Rightarrow> [[c]]))"

fun join_lists :: "'a list \<Rightarrow> 'a list list \<Rightarrow> 'a list" where
  "join_lists sep [] = []"
| "join_lists sep [x] = x"
| "join_lists sep (x # y # xs) = x @ sep @ join_lists sep (y # xs)"

definition glob_to_regex :: "string \<Rightarrow> ratom list" where
  "glob_to_regex pattern =
     join_lists [RDotStar]
       (map (\<lambda>part. join_lists [RDot] (map (map RLit) (split_on (CHR ''?'') part)))
          (split_on (CHR ''*'') pattern))"

definition matches_pattern :: "string \<Rightarrow> string \<Rightarrow> bool" where
  "matches_pattern pattern s =
     (if CHR ''*'' \<notin> set pattern \<and> CHR ''?'' \<notin> set pattern then lower pattern = lower s
      else rmatch (glob_to_regex pattern) s)"

section \<open>The reference\<close>

text \<open>What a glob means: a star is any text, a question mark any character, all else itself.\<close>

inductive globs :: "string \<Rightarrow> string \<Rightarrow> bool" where
  g_empty: "globs [] []"
| g_star: "globs p s \<Longrightarrow> globs (CHR ''*'' # p) (r @ s)"
| g_one: "globs p s \<Longrightarrow> globs (CHR ''?'' # p) (c # s)"
| g_lit: "globs p s \<Longrightarrow> x \<noteq> CHR ''*'' \<Longrightarrow> x \<noteq> CHR ''?'' \<Longrightarrow> lower_char x = lower_char c \<Longrightarrow> globs (x # p) (c # s)"

inductive_simps globs_simps: "globs [] s" "globs (x # p) s"

lemma split_on_nonempty [simp]: "split_on x s \<noteq> []"
  by (cases s) (auto split: list.splits)

definition glob_atom :: "char \<Rightarrow> ratom" where
  "glob_atom c = (if c = CHR ''*'' then RDotStar else if c = CHR ''?'' then RDot else RLit c)"

lemma join_split_one:
  "join_lists [b] (map (map f) (split_on x s)) = map (\<lambda>c. if c = x then b else f c) s"
proof (induction s)
  case (Cons c s)
  then show ?case
    by (cases "split_on x s"; cases "tl (split_on x s)") (auto split: list.splits)
qed simp

lemma split_on_parts: "p \<in> set (split_on x s) \<Longrightarrow> x \<notin> set p"
proof (induction s arbitrary: p)
  case (Cons c s)
  then show ?case by (cases "split_on x s") (auto split: if_splits)
qed simp

text \<open>Splitting, escaping and joining is one atom per character.\<close>

lemma glob_to_regex_atoms: "glob_to_regex p = map glob_atom p"
proof -
  let ?f = "\<lambda>c. if c = CHR ''?'' then RDot else RLit c"
  have "glob_to_regex p = join_lists [RDotStar] (map (map ?f) (split_on (CHR ''*'') p))"
    unfolding glob_to_regex_def using join_split_one [of RDot RLit "CHR ''?''"] by simp
  also have "\<dots> = map (\<lambda>c. if c = CHR ''*'' then RDotStar else ?f c) p"
    by (rule join_split_one)
  finally show ?thesis by (simp add: glob_atom_def)
qed

lemma rmatch_star_iff:
  "newline \<notin> set s \<Longrightarrow> rmatch (RDotStar # rs) s \<longleftrightarrow> (\<exists>u v. s = u @ v \<and> rmatch rs v)"
proof (induction s)
  case Nil
  then show ?case by simp
next
  case (Cons d t)
  have "(\<exists>u v. d # t = u @ v \<and> rmatch rs v) \<longleftrightarrow> rmatch rs (d # t) \<or> (\<exists>u v. t = u @ v \<and> rmatch rs v)"
  proof
    assume "\<exists>u v. d # t = u @ v \<and> rmatch rs v"
    then obtain u v where "d # t = u @ v" "rmatch rs v" by blast
    then show "rmatch rs (d # t) \<or> (\<exists>u v. t = u @ v \<and> rmatch rs v)" by (cases u) auto
  next
    assume "rmatch rs (d # t) \<or> (\<exists>u v. t = u @ v \<and> rmatch rs v)"
    then show "\<exists>u v. d # t = u @ v \<and> rmatch rs v" by (metis append_Cons append_Nil)
  qed
  moreover have "d \<noteq> newline" "newline \<notin> set t" using Cons.prems by auto
  ultimately show ?case using Cons.IH by simp
qed

lemma rmatch_globs: "newline \<notin> set s \<Longrightarrow> rmatch (map glob_atom p) s \<longleftrightarrow> globs p s"
proof (induction p arbitrary: s)
  case Nil
  then show ?case by (auto simp: globs_simps)
next
  case (Cons x p)
  show ?case
  proof (cases "x = CHR ''*''")
    case True
    have "rmatch (map glob_atom (x # p)) s \<longleftrightarrow> (\<exists>u v. s = u @ v \<and> rmatch (map glob_atom p) v)"
      using True Cons.prems rmatch_star_iff by (simp add: glob_atom_def)
    also have "\<dots> \<longleftrightarrow> (\<exists>u v. s = u @ v \<and> globs p v)"
    proof -
      have "rmatch (map glob_atom p) v \<longleftrightarrow> globs p v" if "s = u @ v" for u v
        using Cons.IH [of v] Cons.prems that by simp
      then show ?thesis by blast
    qed
    also have "\<dots> \<longleftrightarrow> globs (x # p) s" using True by (auto simp: globs_simps)
    finally show ?thesis .
  next
    case False
    then show ?thesis using Cons by (cases s) (auto simp: glob_atom_def globs_simps)
  qed
qed

lemma globs_literal:
  "CHR ''*'' \<notin> set p \<Longrightarrow> CHR ''?'' \<notin> set p \<Longrightarrow> globs p s \<longleftrightarrow> lower p = lower s"
proof (induction p arbitrary: s)
  case Nil
  then show ?case by (auto simp: globs_simps lower_def)
next
  case (Cons x p)
  then show ?case by (cases s) (auto simp: globs_simps lower_def)
qed

section \<open>fnmatch patterns\<close>

text \<open>
  \<open>fnmatch.translate\<close> of the standard library: globs with bracket expressions. A set is a list of
  ranges, a single member a range from itself to itself, and may be negated.
\<close>

datatype fatom = FStar | FAny | FLit char | FSet bool "(char \<times> char) list"

fun set_ranges :: "string \<Rightarrow> (char \<times> char) list" where
  "set_ranges [] = []"
| "set_ranges [x] = [(x, x)]"
| "set_ranges [x, y] = [(x, x), (y, y)]"
| "set_ranges (x # y # z # r) =
     (if y = CHR ''-'' then (x, z) # set_ranges r else (x, x) # set_ranges (y # z # r))"

definition set_atom :: "string \<Rightarrow> fatom" where
  "set_atom stuff =
     (case stuff of
        c # r \<Rightarrow> if c = CHR ''!'' then FSet True (set_ranges r) else FSet False (set_ranges (c # r))
      | [] \<Rightarrow> FSet False [])"

text \<open>The text between the brackets and the pattern after them, when there is a closing bracket.\<close>

definition leading :: "char \<Rightarrow> string \<Rightarrow> string \<times> string" where
  "leading c s = (case s of d # t \<Rightarrow> if d = c then ([c], t) else ([], s) | [] \<Rightarrow> ([], []))"

definition bracket :: "string \<Rightarrow> (string \<times> string) option" where
  "bracket s =
     (let (bang, s1) = leading (CHR ''!'') s; (close1, s2) = leading (CHR '']'') s1;
          rest = dropWhile (\<lambda>c. c \<noteq> CHR '']'') s2
      in if rest = [] then None
         else Some (bang @ close1 @ takeWhile (\<lambda>c. c \<noteq> CHR '']'') s2, tl rest))"

lemma length_leading: "length (snd (leading c s)) \<le> length s"
  by (simp add: leading_def split: list.splits)

lemma bracket_shorter:
  assumes "bracket s = Some (stuff, rest)"
  shows "length rest < length s"
proof -
  obtain bang s1 where 1: "leading (CHR ''!'') s = (bang, s1)" by (cases "leading (CHR ''!'') s")
  obtain close1 s2 where 2: "leading (CHR '']'') s1 = (close1, s2)" by (cases "leading (CHR '']'') s1")
  define d where "d = dropWhile (\<lambda>c. c \<noteq> CHR '']'') s2"
  have "d \<noteq> [] \<and> rest = tl d" using assms by (simp add: bracket_def 1 2 Let_def d_def split: if_splits)
  then have "length rest < length d" by simp
  also have "length d \<le> length s2" by (simp add: d_def length_dropWhile_le)
  also have "\<dots> \<le> length s1" using length_leading [of "CHR '']''" s1] 2 by simp
  also have "\<dots> \<le> length s" using length_leading [of "CHR ''!''" s] 1 by simp
  finally show ?thesis .
qed

function fn_translate :: "string \<Rightarrow> fatom list" where
  "fn_translate [] = []"
| "fn_translate (c # r) =
     (if c = CHR ''*'' then FStar # fn_translate r
      else if c = CHR ''?'' then FAny # fn_translate r
      else if c = CHR ''['' then
        (case bracket r of
           None \<Rightarrow> FLit c # fn_translate r
         | Some (stuff, rest) \<Rightarrow> set_atom stuff # fn_translate rest)
      else FLit c # fn_translate r)"
  by pat_completeness auto
termination
proof (relation "measure length")
  fix c r x stuff rest
  assume "bracket r = Some x" "(stuff, rest) = x"
  then show "(rest, c # r) \<in> measure length" using bracket_shorter [of r stuff rest] by simp
qed simp_all

definition in_range :: "char \<Rightarrow> char \<times> char \<Rightarrow> bool" where
  "in_range c lh = list_ex (\<lambda>n. lower_char (char_of n) = lower_char c) [of_char (fst lh) ..< Suc (of_char (snd lh))]"

definition in_set :: "char \<Rightarrow> (char \<times> char) list \<Rightarrow> bool" where
  "in_set c rs = list_ex (in_range c) rs"

function fmatch :: "fatom list \<Rightarrow> string \<Rightarrow> bool" where
  "fmatch [] s = (s = [])"
| "fmatch (FLit c # rs) s = (case s of [] \<Rightarrow> False | d # t \<Rightarrow> lower_char c = lower_char d \<and> fmatch rs t)"
| "fmatch (FAny # rs) s = (case s of [] \<Rightarrow> False | d # t \<Rightarrow> fmatch rs t)"
| "fmatch (FSet neg m # rs) s = (case s of [] \<Rightarrow> False | d # t \<Rightarrow> in_set d m \<noteq> neg \<and> fmatch rs t)"
| "fmatch (FStar # rs) s = (fmatch rs s \<or> (case s of [] \<Rightarrow> False | d # t \<Rightarrow> fmatch (FStar # rs) t))"
  by pat_completeness auto
termination by (relation "measures [\<lambda>(rs, s). length rs + length s]") auto

definition fnmatches :: "string \<Rightarrow> string \<Rightarrow> bool" where
  "fnmatches p s = fmatch (fn_translate p) s"

section \<open>Both agree with the reference\<close>

lemma fmatch_star_iff: "fmatch (FStar # rs) s \<longleftrightarrow> (\<exists>u v. s = u @ v \<and> fmatch rs v)"
proof (induction s)
  case (Cons d t)
  have "(\<exists>u v. d # t = u @ v \<and> fmatch rs v) \<longleftrightarrow> fmatch rs (d # t) \<or> (\<exists>u v. t = u @ v \<and> fmatch rs v)"
  proof
    assume "\<exists>u v. d # t = u @ v \<and> fmatch rs v"
    then obtain u v where "d # t = u @ v" "fmatch rs v" by blast
    then show "fmatch rs (d # t) \<or> (\<exists>u v. t = u @ v \<and> fmatch rs v)" by (cases u) auto
  next
    assume "fmatch rs (d # t) \<or> (\<exists>u v. t = u @ v \<and> fmatch rs v)"
    then show "\<exists>u v. d # t = u @ v \<and> fmatch rs v" by (metis append_Cons append_Nil)
  qed
  with Cons show ?case by simp
qed simp

lemma fnmatches_globs: "CHR ''['' \<notin> set p \<Longrightarrow> fnmatches p s \<longleftrightarrow> globs p s"
proof (induction p arbitrary: s)
  case Nil
  then show ?case by (simp add: fnmatches_def globs_simps)
next
  case (Cons x p)
  have IH: "fmatch (fn_translate p) t \<longleftrightarrow> globs p t" for t using Cons by (simp add: fnmatches_def)
  show ?case
  proof (cases "x = CHR ''*''")
    case True
    then show ?thesis
      by (simp add: fnmatches_def fmatch_star_iff IH globs_simps del: fmatch.simps(5)) auto
  next
    case False
    then show ?thesis using Cons.prems
      by (cases s) (auto simp: fnmatches_def IH globs_simps)
  qed
qed

lemma matches_pattern_globs: "newline \<notin> set s \<Longrightarrow> matches_pattern p s \<longleftrightarrow> globs p s"
  by (simp add: matches_pattern_def glob_to_regex_atoms rmatch_globs globs_literal)

text \<open>C40. A glob means what it says: on a name without a line break, the compiled expression and the exact-match
  shortcut together decide the declarative reading of the pattern.\<close>

theorem matches_pattern_correct:
  assumes "newline \<notin> set s"
  shows "matches_pattern p s \<longleftrightarrow> globs p s"
  by (rule matches_pattern_globs [OF assms])

lemma matches_pattern_correct_witness: "globs ''wincc*'' ''WinCC Runtime''"
proof -
  have "matches_pattern ''wincc*'' ''WinCC Runtime''" by code_simp
  then show ?thesis using matches_pattern_correct [of "''WinCC Runtime''" "''wincc*''"] by simp
qed

text \<open>The two matchers agree: a taxonomy pattern without brackets selects the same names in the enforcement
  engine as in the fingerprint matcher.\<close>

theorem enforcement_and_fingerprint_globs_agree:
  assumes "CHR ''['' \<notin> set p" "newline \<notin> set s"
  shows "fnmatches p s \<longleftrightarrow> matches_pattern p s"
  using assms by (simp add: fnmatches_globs matches_pattern_globs)

lemma enforcement_and_fingerprint_globs_agree_witness:
  "fnmatches ''7-zip ??.*'' ''7-Zip 24.01'' \<longleftrightarrow> matches_pattern ''7-zip ??.*'' ''7-Zip 24.01''"
  by (rule enforcement_and_fingerprint_globs_agree) simp_all

end
