(* ===== verification/Fleet.thy ===== *)
theory Fleet
  imports Glob
begin

text \<open>
  The endpoints that rules and checks are evaluated on: the documents of the \<open>agents\<close> collection as far as the
  checks read them, and \<open>utils/scope.py\<close>, which restricts a query to groups and tags. A missing field
  is \<open>None\<close>.
\<close>

record agent =
  ag_source_id :: "string option"
  ag_hostname :: "string option"
  ag_installed :: "string list option"
  ag_group_name :: "string option"
  ag_tags :: "string list option"

text \<open>The MongoDB filters that are built.\<close>

datatype scope_query = QAll | QTagsIn "string list" | QGroupIn "string list" | QAnd "scope_query list"

definition build_agent_scope_filter :: "string list \<Rightarrow> string list \<Rightarrow> scope_query" where
  "build_agent_scope_filter scope_tags scope_groups =
     (let conditions = (if scope_tags \<noteq> [] then [QTagsIn scope_tags] else []) @
            (if scope_groups \<noteq> [] then [QGroupIn scope_groups] else [])
      in case conditions of [] \<Rightarrow> QAll | [c] \<Rightarrow> c | cs \<Rightarrow> QAnd cs)"

text \<open>What MongoDB selects: \<open>$in\<close> on an array field asks for a common element.\<close>

fun selects :: "scope_query \<Rightarrow> 'z agent_scheme \<Rightarrow> bool" where
  "selects QAll a = True"
| "selects (QTagsIn ts) a = (case ag_tags a of None \<Rightarrow> False | Some xs \<Rightarrow> list_ex (\<lambda>t. List.member ts t) xs)"
| "selects (QGroupIn gs) a = (case ag_group_name a of None \<Rightarrow> False | Some g \<Rightarrow> List.member gs g)"
| "selects (QAnd qs) a = list_all (\<lambda>q. selects q a) qs"

definition scoped :: "string list \<Rightarrow> string list \<Rightarrow> 'z agent_scheme list \<Rightarrow> 'z agent_scheme list" where
  "scoped scope_tags scope_groups ags = filter (selects (build_agent_scope_filter scope_tags scope_groups)) ags"

definition installed_apps :: "'z agent_scheme \<Rightarrow> string list" where
  "installed_apps a = (case ag_installed a of Some xs \<Rightarrow> xs | None \<Rightarrow> [])"

definition host_of :: "'z agent_scheme \<Rightarrow> string" where
  "host_of a = (case ag_hostname a of Some h \<Rightarrow> h | None \<Rightarrow> ''unknown'')"

lemma selects_scope:
  "selects (build_agent_scope_filter ts gs) a \<longleftrightarrow>
     (ts \<noteq> [] \<longrightarrow> (\<exists>xs. ag_tags a = Some xs \<and> set xs \<inter> set ts \<noteq> {})) \<and>
     (gs \<noteq> [] \<longrightarrow> (\<exists>g. ag_group_name a = Some g \<and> g \<in> set gs))"
  by (auto simp: build_agent_scope_filter_def Let_def list_ex_iff split: option.splits)

lemma scoped_iff:
  "a \<in> set (scoped ts gs ags) \<longleftrightarrow> a \<in> set ags \<and>
     (ts \<noteq> [] \<longrightarrow> (\<exists>xs. ag_tags a = Some xs \<and> set xs \<inter> set ts \<noteq> {})) \<and>
     (gs \<noteq> [] \<longrightarrow> (\<exists>g. ag_group_name a = Some g \<and> g \<in> set gs))"
  by (simp add: scoped_def selects_scope)

text \<open>Collecting findings over agents; an exception stops the loop.\<close>

datatype check_error = KeyError string

fun collect :: "('a \<Rightarrow> check_error + 'v list) \<Rightarrow> 'a list \<Rightarrow> check_error + 'v list" where
  "collect f [] = Inr []"
| "collect f (a # as) =
     (case f a of
        Inl err \<Rightarrow> Inl err
      | Inr vs \<Rightarrow> (case collect f as of Inl err \<Rightarrow> Inl err | Inr ws \<Rightarrow> Inr (vs @ ws)))"

lemma collect_Inr:
  assumes "\<And>a. a \<in> set as \<Longrightarrow> f a = Inr (g a)"
  shows "collect f as = Inr (concat (map g as))"
  using assms by (induction as) auto

text \<open>A list cut at a bound, as the checks cut their violations.\<close>

definition cut_at :: "nat \<Rightarrow> 'v list \<Rightarrow> 'v list" where
  "cut_at n vs = (if length vs > n then take n vs else vs)"

lemma cut_at_take: "cut_at n vs = take n vs"
  by (simp add: cut_at_def)

definition sq :: "string \<Rightarrow> string" where
  "sq s = CHR 0x27 # s @ [CHR 0x27]"

end
