(* ===== verification/Enforcement.thy ===== *)
theory Enforcement
  imports Fleet "HOL-Library.Product_Lexorder"
begin

text \<open>
  \<open>domains/enforcement\<close>: the rules and results (\<open>entities.py\<close>), their collections (\<open>repository.py\<close>) and
  the check engine (\<open>engine.py\<close>). A read of a collection sees the collection as it is when the check runs;
  the count of agents and the scan of them see the same fleet.
\<close>

section \<open>Entities\<close>

datatype rule_type = Required | Forbidden | Allowlist

datatype severity = Critical | High | Medium | Low

datatype check_status = Passed | Failed

definition type_value :: "rule_type \<Rightarrow> string" where
  "type_value t = (case t of Required \<Rightarrow> ''required'' | Forbidden \<Rightarrow> ''forbidden'' | Allowlist \<Rightarrow> ''allowlist'')"

definition severity_value :: "severity \<Rightarrow> string" where
  "severity_value s = (case s of Critical \<Rightarrow> ''critical'' | High \<Rightarrow> ''high'' | Medium \<Rightarrow> ''medium'' | Low \<Rightarrow> ''low'')"

definition parse_type :: "string \<Rightarrow> rule_type option" where
  "parse_type s = find (\<lambda>t. type_value t = s) [Required, Forbidden, Allowlist]"

definition parse_severity :: "string \<Rightarrow> severity option" where
  "parse_severity s = find (\<lambda>t. severity_value t = s) [Critical, High, Medium, Low]"

record enforcement_rule =
  r_id :: string
  r_name :: string
  r_taxonomy_category_id :: string
  r_type :: rule_type
  r_severity :: severity
  r_description :: "string option"
  r_enabled :: bool
  r_scope_groups :: "string list"
  r_scope_tags :: "string list"
  r_labels :: "string list"
  r_created_at :: instant
  r_updated_at :: instant
  r_created_by :: string
  r_updated_by :: string

record enforcement_violation =
  ev_agent_id :: string
  ev_agent_hostname :: string
  ev_violation_detail :: string
  ev_app_name :: "string option"
  ev_app_version :: "string option"

record enforcement_result =
  er_rule_id :: string
  er_rule_name :: string
  er_rule_type :: string
  er_severity :: string
  er_checked_at :: instant
  er_status :: check_status
  er_total_agents :: int
  er_compliant_agents :: int
  er_non_compliant_agents :: int
  er_violations :: "enforcement_violation list"

section \<open>The database\<close>

record taxonomy_entry =
  te_category :: string
  te_patterns :: "string list option"

record enf_db =
  agents :: "agent list"
  taxonomy_entries :: "taxonomy_entry list"
  taxonomy_categories :: "string list"
  enforcement_rules :: "enforcement_rule list"
  enforcement_results :: "(string \<times> enforcement_result) list" \<comment> \<open>with the run's id, in insertion order\<close>

section \<open>engine.py\<close>

definition MAX_VIOLATIONS :: nat where
  "MAX_VIOLATIONS = 10000"

definition get_taxonomy_patterns :: "enf_db \<Rightarrow> string \<Rightarrow> string list" where
  "get_taxonomy_patterns db category_id =
     concat (map (\<lambda>e. case te_patterns e of Some ps \<Rightarrow> ps | None \<Rightarrow> [])
       (filter (\<lambda>e. te_category e = category_id) (taxonomy_entries db)))"

definition compile_patterns :: "string list \<Rightarrow> fatom list list" where
  "compile_patterns patterns = map fn_translate patterns"

definition matches_any :: "string \<Rightarrow> fatom list list \<Rightarrow> bool" where
  "matches_any app_name compiled_patterns = list_ex (\<lambda>p. fmatch p app_name) compiled_patterns"

definition mk_enf_result ::
  "enforcement_rule \<Rightarrow> instant \<Rightarrow> check_status \<Rightarrow> int \<Rightarrow> int \<Rightarrow> enforcement_violation list \<Rightarrow> enforcement_result" where
  "mk_enf_result rule now st tot bad vs = \<lparr>er_rule_id = r_id rule, er_rule_name = r_name rule,
     er_rule_type = type_value (r_type rule), er_severity = severity_value (r_severity rule),
     er_checked_at = now, er_status = st, er_total_agents = tot, er_compliant_agents = tot - bad,
     er_non_compliant_agents = bad, er_violations = vs\<rparr>"

text \<open>What one agent contributes; \<open>agent["source_id"]\<close> is only read for a violation.\<close>

definition with_source_id :: "agent \<Rightarrow> (string \<Rightarrow> 'v list) \<Rightarrow> check_error + 'v list" where
  "with_source_id a f = (case ag_source_id a of None \<Rightarrow> Inl (KeyError ''source_id'') | Some i \<Rightarrow> Inr (f i))"

definition required_violations :: "enforcement_rule \<Rightarrow> fatom list list \<Rightarrow> agent \<Rightarrow> check_error + enforcement_violation list" where
  "required_violations rule pats a =
     (if list_ex (\<lambda>app. matches_any app pats) (installed_apps a) then Inr []
      else with_source_id a (\<lambda>i. [\<lparr>ev_agent_id = i, ev_agent_hostname = host_of a,
             ev_violation_detail = ''Missing: no application in category '' @ sq (r_taxonomy_category_id rule),
             ev_app_name = None, ev_app_version = None\<rparr>]))"

definition check_required ::
  "instant \<Rightarrow> enforcement_rule \<Rightarrow> fatom list list \<Rightarrow> agent list \<Rightarrow> check_error + enforcement_result" where
  "check_required now rule pats scope =
     (let tot = int (length scope)
      in if tot = 0 then Inr (mk_enf_result rule now Passed 0 0 [])
         else (case collect (required_violations rule pats) scope of
                 Inl err \<Rightarrow> Inl err
               | Inr violations \<Rightarrow>
                   (let non_compliant = int (length violations)
                    in Inr (mk_enf_result rule now (if non_compliant = 0 then Passed else Failed) tot non_compliant
                         (cut_at MAX_VIOLATIONS violations)))))"

definition app_violations ::
  "(string \<Rightarrow> string) \<Rightarrow> (string \<Rightarrow> bool) \<Rightarrow> agent \<Rightarrow> check_error + enforcement_violation list" where
  "app_violations detail bad a =
     (case filter bad (installed_apps a) of
        [] \<Rightarrow> Inr []
      | apps \<Rightarrow> with_source_id a (\<lambda>i. map (\<lambda>app. \<lparr>ev_agent_id = i, ev_agent_hostname = host_of a,
             ev_violation_detail = detail app, ev_app_name = Some app, ev_app_version = None\<rparr>) apps))"

definition forbidden_violations :: "enforcement_rule \<Rightarrow> fatom list list \<Rightarrow> agent \<Rightarrow> check_error + enforcement_violation list" where
  "forbidden_violations rule pats a =
     app_violations (\<lambda>app. ''Forbidden application '' @ sq app @ '' found (category '' @ sq (r_taxonomy_category_id rule) @ '')'')
       (\<lambda>app. matches_any app pats) a"

definition allowlist_violations :: "enforcement_rule \<Rightarrow> fatom list list \<Rightarrow> agent \<Rightarrow> check_error + enforcement_violation list" where
  "allowlist_violations rule pats a =
     app_violations (\<lambda>app. ''Unapproved application '' @ sq app @ '' not in allowlist'') (\<lambda>app. \<not> matches_any app pats) a"

text \<open>The number of distinct agents named in a list of violations.\<close>

definition agents_named :: "enforcement_violation list \<Rightarrow> int" where
  "agents_named vs = int (length (remdups (map ev_agent_id vs)))"

definition check_apps ::
  "(agent \<Rightarrow> check_error + enforcement_violation list) \<Rightarrow> instant \<Rightarrow> enforcement_rule \<Rightarrow> agent list
    \<Rightarrow> check_error + enforcement_result" where
  "check_apps f now rule scope =
     (let tot = int (length scope)
      in if tot = 0 then Inr (mk_enf_result rule now Passed 0 0 [])
         else (case collect f scope of
                 Inl err \<Rightarrow> Inl err
               | Inr violations \<Rightarrow>
                   (let non_compliant_agents = agents_named violations
                    in Inr (mk_enf_result rule now (if non_compliant_agents = 0 then Passed else Failed) tot
                         non_compliant_agents (cut_at MAX_VIOLATIONS violations)))))"

definition check_forbidden ::
  "instant \<Rightarrow> enforcement_rule \<Rightarrow> fatom list list \<Rightarrow> agent list \<Rightarrow> check_error + enforcement_result" where
  "check_forbidden now rule pats scope = check_apps (forbidden_violations rule pats) now rule scope"

definition check_allowlist ::
  "instant \<Rightarrow> enforcement_rule \<Rightarrow> fatom list list \<Rightarrow> agent list \<Rightarrow> check_error + enforcement_result" where
  "check_allowlist now rule pats scope = check_apps (allowlist_violations rule pats) now rule scope"

definition check_dispatch ::
  "rule_type \<Rightarrow> instant \<Rightarrow> enforcement_rule \<Rightarrow> fatom list list \<Rightarrow> agent list \<Rightarrow> check_error + enforcement_result" where
  "check_dispatch t = (case t of Required \<Rightarrow> check_required | Forbidden \<Rightarrow> check_forbidden | Allowlist \<Rightarrow> check_allowlist)"

definition system_violation :: "string \<Rightarrow> enforcement_violation" where
  "system_violation detail = \<lparr>ev_agent_id = ''system'', ev_agent_hostname = ''sentora'',
     ev_violation_detail = detail, ev_app_name = None, ev_app_version = None\<rparr>"

definition evaluate_rule :: "instant \<Rightarrow> enf_db \<Rightarrow> enforcement_rule \<Rightarrow> check_error + enforcement_result" where
  "evaluate_rule now db rule =
     (let compiled = compile_patterns (get_taxonomy_patterns db (r_taxonomy_category_id rule));
          scope = scoped (r_scope_tags rule) (r_scope_groups rule) (agents db)
      in if compiled = [] then
           Inr (mk_enf_result rule now Passed 0 0
             [system_violation (''No taxonomy patterns found for category '' @ sq (r_taxonomy_category_id rule))])
         else check_dispatch (r_type rule) now rule compiled scope)"

section \<open>repository.py\<close>

definition list_rules :: "enf_db \<Rightarrow> bool \<Rightarrow> enforcement_rule list" where
  "list_rules db enabled_only =
     sort_key (\<lambda>r. - r_created_at r) (filter (\<lambda>r. enabled_only \<longrightarrow> r_enabled r) (enforcement_rules db))"

text \<open>Object ids are printed in lower case and parsed in either case; anything else is not found.\<close>

definition get_rule :: "enf_db \<Rightarrow> string \<Rightarrow> enforcement_rule option" where
  "get_rule db rule_id = find (\<lambda>r. r_id r = lower rule_id) (enforcement_rules db)"

definition insert_rule :: "string \<Rightarrow> enforcement_rule \<Rightarrow> enf_db \<Rightarrow> string \<times> enf_db" where
  "insert_rule new_id rule db = (new_id, db\<lparr>enforcement_rules := enforcement_rules db @ [rule\<lparr>r_id := new_id\<rparr>]\<rparr>)"

definition update_rule ::
  "instant \<Rightarrow> string \<Rightarrow> (enforcement_rule \<Rightarrow> enforcement_rule) \<Rightarrow> enf_db \<Rightarrow> bool \<times> enf_db" where
  "update_rule now rule_id updates db =
     (case get_rule db rule_id of
        None \<Rightarrow> (False, db)
      | Some _ \<Rightarrow> (True, db\<lparr>enforcement_rules := map (\<lambda>r. if r_id r = lower rule_id then (updates r)\<lparr>r_updated_at := now\<rparr> else r)
            (enforcement_rules db)\<rparr>))"

definition delete_rule :: "string \<Rightarrow> enf_db \<Rightarrow> bool \<times> enf_db" where
  "delete_rule rule_id db =
     (case get_rule db rule_id of
        None \<Rightarrow> (False, db)
      | Some _ \<Rightarrow> (True, db\<lparr>enforcement_rules := filter (\<lambda>r. r_id r \<noteq> lower rule_id) (enforcement_rules db)\<rparr>))"

definition store_results :: "string \<Rightarrow> enforcement_result list \<Rightarrow> enf_db \<Rightarrow> enf_db" where
  "store_results run_id results db =
     (if results = [] then db
      else db\<lparr>enforcement_results := enforcement_results db @ map (\<lambda>r. (run_id, r)) results\<rparr>)"

text \<open>The first document of each rule in a list, as \<open>$group\<close> with \<open>$first\<close> picks it.\<close>

fun first_per_rule :: "enforcement_result list \<Rightarrow> enforcement_result list" where
  "first_per_rule [] = []"
| "first_per_rule (r # rs) = r # filter (\<lambda>x. er_rule_id x \<noteq> er_rule_id r) (first_per_rule rs)"

definition newest_per_rule :: "enf_db \<Rightarrow> enforcement_result list" where
  "newest_per_rule db = first_per_rule (sort_key (\<lambda>r. - er_checked_at r) (map snd (enforcement_results db)))"

definition get_latest_results :: "enf_db \<Rightarrow> enforcement_result list" where
  "get_latest_results db = sort_key (\<lambda>r. (er_severity r, er_rule_name r)) (newest_per_rule db)"

definition get_rule_history :: "enf_db \<Rightarrow> string \<Rightarrow> nat \<Rightarrow> enforcement_result list" where
  "get_rule_history db rule_id limit =
     take limit (map (\<lambda>r. r\<lparr>er_violations := []\<rparr>)
       (sort_key (\<lambda>r. - er_checked_at r) (filter (\<lambda>r. er_rule_id r = rule_id) (map snd (enforcement_results db)))))"

text \<open>A current violation with the result it comes from.\<close>

type_synonym violation_row = "enforcement_result \<times> enforcement_violation"

definition current_violations :: "enf_db \<Rightarrow> string option \<Rightarrow> violation_row list" where
  "current_violations db sev =
     sort_key (\<lambda>(r, v). (er_severity r, - er_checked_at r))
       (concat (map (\<lambda>r. map (\<lambda>v. (r, v)) (er_violations r))
          (filter (\<lambda>r. er_status r = Failed \<and> (case sev of None \<Rightarrow> True | Some s \<Rightarrow> s = [] \<or> er_severity r = s))
             (newest_per_rule db))))"

definition get_all_current_violations :: "enf_db \<Rightarrow> string option \<Rightarrow> nat \<Rightarrow> nat \<Rightarrow> violation_row list \<times> nat" where
  "get_all_current_violations db sev page page_size =
     (let rows = current_violations db sev
      in (take page_size (drop ((page - 1) * page_size) rows), length rows))"

section \<open>run_enforcement_checks\<close>

definition check_error_text :: "check_error \<Rightarrow> string" where
  "check_error_text e = (case e of KeyError k \<Rightarrow> sq k)"

text \<open>The time at which a rule is checked is an argument per rule.\<close>

definition rule_outcome :: "(string \<Rightarrow> instant) \<Rightarrow> enf_db \<Rightarrow> enforcement_rule \<Rightarrow> enforcement_result" where
  "rule_outcome now db rule =
     (case evaluate_rule (now (r_id rule)) db rule of
        Inr r \<Rightarrow> r
      | Inl err \<Rightarrow> mk_enf_result rule (now (r_id rule)) Failed 0 0 [system_violation (''Check error: '' @ check_error_text err)])"

definition run_enforcement_checks ::
  "(string \<Rightarrow> instant) \<Rightarrow> string \<Rightarrow> string option \<Rightarrow> enf_db \<Rightarrow> enforcement_result list \<times> enf_db" where
  "run_enforcement_checks now run_id rule_id db =
     (let rules = (case rule_id of
            Some rid \<Rightarrow> if rid \<noteq> [] then (case get_rule db rid of Some r \<Rightarrow> [r] | None \<Rightarrow> []) else list_rules db True
          | None \<Rightarrow> list_rules db True)
      in if rules = [] then ([], db)
         else (let results = map (rule_outcome now db) rules in (results, store_results run_id results db)))"

end
