(* ===== verification/EnforcementService.thy ===== *)
theory EnforcementService
  imports Enforcement
begin

text \<open>
  \<open>domains/enforcement/service.py\<close>: rule management, check runs with the detection of new and resolved
  violations, the summary and the paged list; then the properties of the whole component. Calls of \<open>audit\<close> and
  of the webhook dispatcher are recorded in the state in the order they are made; the dispatcher is taken not
  to raise.
\<close>

section \<open>Rule management\<close>

datatype audit_call = RuleCreated string string | RuleUpdated string string "string list" | RuleToggled string string bool
  | RuleDeleted string string | CheckCompleted string string nat nat nat

record violation_event =
  ve_type :: string
  ve_rule_id :: string
  ve_rule_name :: string
  ve_severity :: string
  ve_affected_agents :: nat
  ve_top_hostnames :: "string list"

record completed_event =
  ce_rules_checked :: nat
  ce_rules_passed :: nat
  ce_rules_failed :: nat
  ce_total_violations :: nat
  ce_new_violations :: nat
  ce_resolved_violations :: nat

datatype webhook_call = ViolationEvent violation_event | CompletedEvent completed_event

record enf_state =
  st_db :: enf_db
  st_audit :: "audit_call list"
  st_webhooks :: "webhook_call list"

datatype service_error = InvalidTaxonomyCategoryError string | ValueError string

definition log_audit :: "audit_call \<Rightarrow> enf_state \<Rightarrow> enf_state" where
  "log_audit c st = st\<lparr>st_audit := st_audit st @ [c]\<rparr>"

definition create_rule ::
  "instant \<Rightarrow> string \<Rightarrow> string \<Rightarrow> string \<Rightarrow> string \<Rightarrow> string \<Rightarrow> string \<Rightarrow> string option \<Rightarrow> string list \<Rightarrow> string list
    \<Rightarrow> string list \<Rightarrow> enf_state \<Rightarrow> (service_error + enforcement_rule) \<times> enf_state" where
  "create_rule now new_id actor name category rule_type sev description groups tags labels st =
     (if \<not> List.member (taxonomy_categories (st_db st)) category
      then (Inl (InvalidTaxonomyCategoryError (''Taxonomy category '' @ sq category @ '' does not exist'')), st)
      else (case parse_type rule_type of
              None \<Rightarrow> (Inl (ValueError rule_type), st)
            | Some t \<Rightarrow>
                (case parse_severity sev of
                   None \<Rightarrow> (Inl (ValueError sev), st)
                 | Some s \<Rightarrow>
                     (let rule = \<lparr>r_id = [], r_name = name, r_taxonomy_category_id = category, r_type = t, r_severity = s,
                            r_description = description, r_enabled = True, r_scope_groups = groups, r_scope_tags = tags,
                            r_labels = labels, r_created_at = now, r_updated_at = now, r_created_by = actor,
                            r_updated_by = actor\<rparr>;
                          (rid, db') = insert_rule new_id rule (st_db st)
                      in (Inr (rule\<lparr>r_id := rid\<rparr>), log_audit (RuleCreated actor rid) (st\<lparr>st_db := db'\<rparr>))))))"

text \<open>The fields that an update may set, as they arrive.\<close>

datatype field_update =
    SetName string
  | SetDescription "string option"
  | SetCategory string
  | SetType string
  | SetSeverity string
  | SetEnabled bool
  | SetScopeGroups "string list"
  | SetScopeTags "string list"
  | SetLabels "string list"

definition field_name :: "field_update \<Rightarrow> string" where
  "field_name u = (case u of SetName _ \<Rightarrow> ''name'' | SetDescription _ \<Rightarrow> ''description''
     | SetCategory _ \<Rightarrow> ''taxonomy_category_id'' | SetType _ \<Rightarrow> ''type'' | SetSeverity _ \<Rightarrow> ''severity''
     | SetEnabled _ \<Rightarrow> ''enabled'' | SetScopeGroups _ \<Rightarrow> ''scope_groups'' | SetScopeTags _ \<Rightarrow> ''scope_tags''
     | SetLabels _ \<Rightarrow> ''labels'')"

text \<open>The enum fields that do not parse, the type first.\<close>

definition invalid_enum :: "field_update list \<Rightarrow> string option" where
  "invalid_enum us =
     (case List.find (\<lambda>u. case u of SetType t \<Rightarrow> parse_type t = None | _ \<Rightarrow> False) us of
        Some (SetType t) \<Rightarrow> Some t
      | _ \<Rightarrow> (case List.find (\<lambda>u. case u of SetSeverity s \<Rightarrow> parse_severity s = None | _ \<Rightarrow> False) us of
               Some (SetSeverity s) \<Rightarrow> Some s
             | _ \<Rightarrow> None))"

fun apply_update :: "field_update \<Rightarrow> enforcement_rule \<Rightarrow> enforcement_rule" where
  "apply_update (SetName x) r = r\<lparr>r_name := x\<rparr>"
| "apply_update (SetDescription x) r = r\<lparr>r_description := x\<rparr>"
| "apply_update (SetCategory x) r = r\<lparr>r_taxonomy_category_id := x\<rparr>"
| "apply_update (SetType x) r = (case parse_type x of Some t \<Rightarrow> r\<lparr>r_type := t\<rparr> | None \<Rightarrow> r)"
| "apply_update (SetSeverity x) r = (case parse_severity x of Some s \<Rightarrow> r\<lparr>r_severity := s\<rparr> | None \<Rightarrow> r)"
| "apply_update (SetEnabled x) r = r\<lparr>r_enabled := x\<rparr>"
| "apply_update (SetScopeGroups x) r = r\<lparr>r_scope_groups := x\<rparr>"
| "apply_update (SetScopeTags x) r = r\<lparr>r_scope_tags := x\<rparr>"
| "apply_update (SetLabels x) r = r\<lparr>r_labels := x\<rparr>"

definition update_rule_fields ::
  "instant \<Rightarrow> string \<Rightarrow> string \<Rightarrow> field_update list \<Rightarrow> enf_state
    \<Rightarrow> (service_error + enforcement_rule option) \<times> enf_state" where
  "update_rule_fields now rule_id actor us st =
     (case invalid_enum us of
        Some x \<Rightarrow> (Inl (ValueError x), st)
      | None \<Rightarrow>
          (case update_rule now rule_id (\<lambda>r. (fold apply_update us r)\<lparr>r_updated_by := actor\<rparr>) (st_db st) of
             (False, _) \<Rightarrow> (Inr None, st)
           | (True, db') \<Rightarrow>
               (Inr (get_rule db' rule_id),
                log_audit (RuleUpdated actor rule_id (map field_name us @ [''updated_by'', ''updated_at''])) (st\<lparr>st_db := db'\<rparr>))))"

definition toggle_rule ::
  "instant \<Rightarrow> string \<Rightarrow> string \<Rightarrow> enf_state \<Rightarrow> enforcement_rule option \<times> enf_state" where
  "toggle_rule now rule_id actor st =
     (case get_rule (st_db st) rule_id of
        None \<Rightarrow> (None, st)
      | Some rule \<Rightarrow>
          (let new_state = \<not> r_enabled rule;
               db' = snd (update_rule now rule_id (\<lambda>r. r\<lparr>r_enabled := new_state, r_updated_by := actor\<rparr>) (st_db st))
           in (get_rule db' rule_id, log_audit (RuleToggled actor rule_id new_state) (st\<lparr>st_db := db'\<rparr>))))"

definition remove_rule :: "string \<Rightarrow> string \<Rightarrow> enf_state \<Rightarrow> bool \<times> enf_state" where
  "remove_rule rule_id actor st =
     (let (deleted, db') = delete_rule rule_id (st_db st)
      in if deleted then (True, log_audit (RuleDeleted actor rule_id) (st\<lparr>st_db := db'\<rparr>)) else (False, st))"

section \<open>Check runs\<close>

definition violation_key :: "string \<Rightarrow> string \<Rightarrow> string" where
  "violation_key rid aid = rid @ '':'' @ aid"

definition result_keys :: "enforcement_result list \<Rightarrow> string list" where
  "result_keys rs = remdups (concat (map (\<lambda>r. map (\<lambda>v. violation_key (er_rule_id r) (ev_agent_id v)) (er_violations r)) rs))"

definition key_rule :: "string \<Rightarrow> string" where
  "key_rule k = takeWhile (\<lambda>c. c \<noteq> CHR '':'') k"

lemma key_rule_key [simp]: "CHR '':'' \<notin> set rid \<Longrightarrow> key_rule (violation_key rid aid) = rid"
  by (simp add: key_rule_def violation_key_def takeWhile_append takeWhile_eq_all_conv)

definition key_agent :: "string \<Rightarrow> string" where
  "key_agent k = tl (dropWhile (\<lambda>c. c \<noteq> CHR '':'') k)"

text \<open>Up to five host names, without repetition.\<close>

fun top_hostnames :: "string list \<Rightarrow> enforcement_violation list \<Rightarrow> string list \<Rightarrow> string list" where
  "top_hostnames agent_ids [] hosts = hosts"
| "top_hostnames agent_ids (v # vs) hosts =
     (let hosts' = (if List.member agent_ids (ev_agent_id v) \<and> \<not> List.member hosts (ev_agent_hostname v)
            then hosts @ [ev_agent_hostname v] else hosts)
      in if length hosts' \<ge> 5 then hosts' else top_hostnames agent_ids vs hosts')"

definition violation_event_for ::
  "enforcement_result list \<Rightarrow> string list \<Rightarrow> string \<Rightarrow> string \<Rightarrow> violation_event" where
  "violation_event_for results keys event_type rid =
     (let agent_ids = map key_agent (filter (\<lambda>k. key_rule k = rid) keys);
          rule_result = find (\<lambda>r. er_rule_id r = rid) results
      in \<lparr>ve_type = event_type, ve_rule_id = rid,
          ve_rule_name = (case rule_result of Some r \<Rightarrow> er_rule_name r | None \<Rightarrow> rid),
          ve_severity = (case rule_result of Some r \<Rightarrow> er_severity r | None \<Rightarrow> ''medium''),
          ve_affected_agents = length agent_ids,
          ve_top_hostnames = (case rule_result of Some r \<Rightarrow> top_hostnames agent_ids (er_violations r) [] | None \<Rightarrow> [])\<rparr>)"

text \<open>One event per rule; a Python set of keys is enumerated in the order of the list.\<close>

definition dispatch_violation_webhook ::
  "enforcement_result list \<Rightarrow> string list \<Rightarrow> string \<Rightarrow> enf_state \<Rightarrow> enf_state" where
  "dispatch_violation_webhook results keys event_type st =
     st\<lparr>st_webhooks := st_webhooks st @
        map (\<lambda>rid. ViolationEvent (violation_event_for results keys event_type rid)) (remdups (map key_rule keys))\<rparr>"

record check_run =
  cr_run_id :: string
  cr_rules_evaluated :: nat
  cr_passed :: nat
  cr_failed :: nat
  cr_total_violations :: nat

definition trigger_check ::
  "(string \<Rightarrow> instant) \<Rightarrow> string \<Rightarrow> string \<Rightarrow> string option \<Rightarrow> enf_state \<Rightarrow> check_run \<times> enf_state" where
  "trigger_check now run_id actor rule_id st =
     (let prev_violation_keys = result_keys (get_latest_results (st_db st));
          (results, db') = run_enforcement_checks now run_id rule_id (st_db st);
          st1 = st\<lparr>st_db := db'\<rparr>;
          n_passed = length (filter (\<lambda>r. er_status r = Passed) results);
          n_failed = length (filter (\<lambda>r. er_status r = Failed) results);
          total_violations = sum_list (map (\<lambda>r. length (er_violations r)) results);
          new_violation_keys = result_keys results;
          new_violations = filter (\<lambda>k. \<not> List.member prev_violation_keys k) new_violation_keys;
          resolved_violations = filter (\<lambda>k. \<not> List.member new_violation_keys k) prev_violation_keys;
          st2 = (if new_violations \<noteq> [] then dispatch_violation_webhook results new_violations ''new'' st1 else st1);
          st3 = (if resolved_violations \<noteq> [] then dispatch_violation_webhook results resolved_violations ''resolved'' st2 else st2);
          st4 = log_audit (CheckCompleted actor run_id (length results) (length new_violations) (length resolved_violations)) st3;
          st5 = st4\<lparr>st_webhooks := st_webhooks st4 @ [CompletedEvent \<lparr>ce_rules_checked = length results,
             ce_rules_passed = n_passed, ce_rules_failed = n_failed, ce_total_violations = total_violations,
             ce_new_violations = length new_violations, ce_resolved_violations = length resolved_violations\<rparr>]\<rparr>
      in (\<lparr>cr_run_id = run_id, cr_rules_evaluated = length results, cr_passed = n_passed, cr_failed = n_failed,
           cr_total_violations = total_violations\<rparr>, st5))"

section \<open>Queries\<close>

record enf_summary =
  su_total_rules :: nat
  su_enabled_rules :: nat
  su_passing :: nat
  su_failing :: nat
  su_total_violations :: nat
  su_by_severity :: "string \<Rightarrow> nat option"
  su_last_checked :: "instant option"

fun add_severity :: "enforcement_result list \<Rightarrow> (string \<Rightarrow> nat option) \<Rightarrow> (string \<Rightarrow> nat option)" where
  "add_severity [] m = m"
| "add_severity (r # rs) m =
     add_severity rs
       (if er_status r = Failed
        then m(er_severity r \<mapsto> (case m (er_severity r) of None \<Rightarrow> 0 | Some n \<Rightarrow> n) + length (er_violations r))
        else m)"

definition latest_check :: "enforcement_result list \<Rightarrow> instant option" where
  "latest_check rs = fold (\<lambda>r m. case m of None \<Rightarrow> Some (er_checked_at r) | Some t \<Rightarrow> Some (max t (er_checked_at r))) rs None"

definition get_summary :: "enf_db \<Rightarrow> enf_summary" where
  "get_summary db =
     (let all_rules = list_rules db False; latest = get_latest_results db
      in \<lparr>su_total_rules = length all_rules, su_enabled_rules = length (filter r_enabled all_rules),
          su_passing = length (filter (\<lambda>r. er_status r = Passed) latest),
          su_failing = length (filter (\<lambda>r. er_status r = Failed) latest),
          su_total_violations = sum_list (map (\<lambda>r. length (er_violations r)) latest),
          su_by_severity = add_severity latest Map.empty, su_last_checked = latest_check latest\<rparr>)"

end
