(* ===== verification/EnforcementTheorems.thy ===== *)
theory EnforcementTheorems
  imports EnforcementService
begin

text \<open>The properties of the enforcement engine, its repository and its service.\<close>

section \<open>What a rule asks of an agent\<close>

definition complies :: "rule_type \<Rightarrow> fatom list list \<Rightarrow> agent \<Rightarrow> bool" where
  "complies t pats a =
     (case t of
        Required \<Rightarrow> list_ex (\<lambda>app. matches_any app pats) (installed_apps a)
      | Forbidden \<Rightarrow> list_all (\<lambda>app. \<not> matches_any app pats) (installed_apps a)
      | Allowlist \<Rightarrow> list_all (\<lambda>app. matches_any app pats) (installed_apps a))"

definition identified :: "agent list \<Rightarrow> bool" where
  "identified as \<longleftrightarrow> (\<forall>a\<in>set as. ag_source_id a \<noteq> None) \<and> distinct (map ag_source_id as)"

definition sid :: "agent \<Rightarrow> string" where
  "sid a = the (ag_source_id a)"

lemma with_source_id_Some: "ag_source_id a \<noteq> None \<Longrightarrow> with_source_id a f = Inr (f (sid a))"
  by (auto simp: with_source_id_def sid_def)

definition required_row :: "enforcement_rule \<Rightarrow> agent \<Rightarrow> enforcement_violation" where
  "required_row rule a = \<lparr>ev_agent_id = sid a, ev_agent_hostname = host_of a,
     ev_violation_detail = ''Missing: no application in category '' @ sq (r_taxonomy_category_id rule),
     ev_app_name = None, ev_app_version = None\<rparr>"

definition app_rows :: "(string \<Rightarrow> string) \<Rightarrow> (string \<Rightarrow> bool) \<Rightarrow> agent \<Rightarrow> enforcement_violation list" where
  "app_rows detail bad a = map (\<lambda>app. \<lparr>ev_agent_id = sid a, ev_agent_hostname = host_of a,
     ev_violation_detail = detail app, ev_app_name = Some app, ev_app_version = None\<rparr>) (filter bad (installed_apps a))"

lemma required_violations_eq:
  assumes "ag_source_id a \<noteq> None"
  shows "required_violations rule pats a = Inr (if complies Required pats a then [] else [required_row rule a])"
  by (simp add: required_violations_def complies_def required_row_def with_source_id_Some [OF assms])

lemma app_violations_eq:
  assumes "ag_source_id a \<noteq> None"
  shows "app_violations detail bad a = Inr (app_rows detail bad a)"
  by (auto simp: app_violations_def app_rows_def with_source_id_Some [OF assms] split: list.splits)

lemma concat_if_single: "concat (map (\<lambda>a. if P a then [] else [f a]) as) = map f (filter (\<lambda>a. \<not> P a) as)"
  by (induction as) auto

lemma collect_required:
  assumes "identified as"
  shows "collect (required_violations rule pats) as =
    Inr (map (required_row rule) (filter (\<lambda>a. \<not> complies Required pats a) as))"
proof -
  have "collect (required_violations rule pats) as =
      Inr (concat (map (\<lambda>a. if complies Required pats a then [] else [required_row rule a]) as))"
    using assms by (intro collect_Inr required_violations_eq) (simp add: identified_def)
  then show ?thesis by (simp only: concat_if_single)
qed

lemma collect_apps:
  assumes "identified as"
  shows "collect (app_violations detail bad) as = Inr (concat (map (app_rows detail bad) as))"
  using assms by (intro collect_Inr app_violations_eq) (simp add: identified_def)

text \<open>Distinct agents are counted once each, however many of their applications are reported.\<close>

lemma agents_named_rows:
  assumes "identified as"
  shows "agents_named (concat (map (app_rows detail bad) as)) =
    int (length (filter (\<lambda>a. list_ex bad (installed_apps a)) as))"
proof -
  let ?bad = "filter (\<lambda>a. list_ex bad (installed_apps a)) as"
  have ids: "set (map ev_agent_id (concat (map (app_rows detail bad) as))) = set (map sid ?bad)"
    by (force simp: app_rows_def list_ex_iff)
  have inj: "inj_on sid (set as)"
  proof (rule inj_onI)
    fix a b assume ab: "a \<in> set as" "b \<in> set as" "sid a = sid b"
    have "ag_source_id a \<noteq> None" "ag_source_id b \<noteq> None" using assms ab(1,2) by (simp_all add: identified_def)
    with ab(3) have "ag_source_id a = ag_source_id b" by (auto simp: sid_def)
    with assms ab show "a = b" by (auto simp: identified_def distinct_map inj_on_def)
  qed
  have "distinct ?bad" using assms by (simp add: identified_def distinct_map)
  then have "distinct (map sid ?bad)" using inj by (auto simp: distinct_map inj_on_def)
  then have "card (set (map sid ?bad)) = length ?bad" using distinct_card by fastforce
  with ids show ?thesis by (simp add: agents_named_def length_remdups_card_conv del: set_map)
qed

lemma violations_of_bad:
  assumes "v \<in> set (concat (map (app_rows detail bad) as))"
  shows "\<exists>a\<in>set as. ev_agent_id v = sid a \<and> list_ex bad (installed_apps a)"
  using assms by (force simp: app_rows_def list_ex_iff)

lemma check_result_spec:
  assumes "identified as" "as \<noteq> []"
  shows "\<exists>vs. check_dispatch (r_type rule) now rule pats as =
      Inr (mk_enf_result rule now
        (if length (filter (\<lambda>a. \<not> complies (r_type rule) pats a) as) = 0 then Passed else Failed)
        (int (length as)) (int (length (filter (\<lambda>a. \<not> complies (r_type rule) pats a) as))) (take MAX_VIOLATIONS vs)) \<and>
    (\<forall>v\<in>set vs. \<exists>a\<in>set as. ev_agent_id v = sid a \<and> \<not> complies (r_type rule) pats a)"
proof -
  have app: "\<exists>vs. check_apps (app_violations d bad) now rule as =
      Inr (mk_enf_result rule now (if length (filter (\<lambda>a. \<not> complies t pats a) as) = 0 then Passed else Failed)
        (int (length as)) (int (length (filter (\<lambda>a. \<not> complies t pats a) as))) (take MAX_VIOLATIONS vs)) \<and>
      (\<forall>v\<in>set vs. \<exists>a\<in>set as. ev_agent_id v = sid a \<and> \<not> complies t pats a)"
    if "\<And>a. complies t pats a \<longleftrightarrow> \<not> list_ex bad (installed_apps a)" for t d bad
    using agents_named_rows [OF assms(1), of d bad] violations_of_bad [of _ d bad as] assms(2)
    by (intro exI [of _ "concat (map (app_rows d bad) as)"])
      (simp add: check_apps_def collect_apps [OF assms(1)] Let_def cut_at_take that)
  show ?thesis
  proof (cases "r_type rule")
    case Required
    then show ?thesis
      using assms(2) by (intro exI [of _ "map (required_row rule) (filter (\<lambda>a. \<not> complies Required pats a) as)"])
        (auto simp: check_dispatch_def check_required_def collect_required [OF assms(1)] Let_def cut_at_take required_row_def)
  next
    case Forbidden
    have "complies Forbidden pats a \<longleftrightarrow> \<not> list_ex (\<lambda>app. matches_any app pats) (installed_apps a)" for a
      by (simp add: complies_def list_ex_iff list_all_iff)
    from app [OF this] Forbidden show ?thesis
      by (simp add: check_dispatch_def check_forbidden_def forbidden_violations_def [abs_def])
  next
    case Allowlist
    have "complies Allowlist pats a \<longleftrightarrow> \<not> list_ex (\<lambda>app. \<not> matches_any app pats) (installed_apps a)" for a
      by (simp add: complies_def list_ex_iff list_all_iff)
    from app [OF this] Allowlist show ?thesis
      by (simp add: check_dispatch_def check_allowlist_def allowlist_violations_def [abs_def])
  qed
qed

lemma evaluate_rule_spec:
  fixes db :: enf_db and rule :: enforcement_rule
  defines "pats \<equiv> compile_patterns (get_taxonomy_patterns db (r_taxonomy_category_id rule))"
    and "as \<equiv> scoped (r_scope_tags rule) (r_scope_groups rule) (agents db)"
  assumes "identified as" "pats \<noteq> []"
  shows "\<exists>vs. evaluate_rule now db rule =
      Inr (mk_enf_result rule now
        (if length (filter (\<lambda>a. \<not> complies (r_type rule) pats a) as) = 0 then Passed else Failed)
        (int (length as)) (int (length (filter (\<lambda>a. \<not> complies (r_type rule) pats a) as))) (take MAX_VIOLATIONS vs)) \<and>
    (\<forall>v\<in>set vs. \<exists>a\<in>set as. ev_agent_id v = sid a \<and> \<not> complies (r_type rule) pats a)"
proof (cases "as = []")
  case True
  then show ?thesis
    using assms(4)
    by (intro exI [of _ "[]"])
      (simp add: evaluate_rule_def Let_def check_dispatch_def check_required_def check_forbidden_def check_allowlist_def
        check_apps_def pats_def as_def split: rule_type.splits)
next
  case False
  then show ?thesis
    using check_result_spec [OF assms(3) False, of rule now pats] assms(4)
    by (simp add: evaluate_rule_def Let_def pats_def as_def)
qed

lemma filter_split_length: "length (filter P xs) + length (filter (\<lambda>x. \<not> P x) xs) = length xs"
  by (induction xs) auto

text \<open>C13. Rule evaluation: over agents with distinct ids and a category that has patterns, a rule passes exactly
  when every agent in its scope complies; the counts are the numbers of agents that comply and do not, the
  list of findings is bounded, and every finding names an agent in scope that does not comply.\<close>

theorem evaluate_rule_correct:
  assumes "identified (scoped (r_scope_tags rule) (r_scope_groups rule) (agents db))"
    "compile_patterns (get_taxonomy_patterns db (r_taxonomy_category_id rule)) = pats" "pats \<noteq> []"
    "scoped (r_scope_tags rule) (r_scope_groups rule) (agents db) = as"
  shows "\<exists>r. evaluate_rule now db rule = Inr r \<and>
    (er_status r = Passed \<longleftrightarrow> (\<forall>a\<in>set as. complies (r_type rule) pats a)) \<and>
    er_total_agents r = int (length as) \<and>
    er_compliant_agents r = int (length (filter (complies (r_type rule) pats) as)) \<and>
    er_non_compliant_agents r = int (length (filter (\<lambda>a. \<not> complies (r_type rule) pats a) as)) \<and>
    length (er_violations r) \<le> MAX_VIOLATIONS \<and>
    (\<forall>v\<in>set (er_violations r). \<exists>a\<in>set as. ev_agent_id v = sid a \<and> \<not> complies (r_type rule) pats a)"
proof -
  obtain vs where e: "evaluate_rule now db rule =
      Inr (mk_enf_result rule now
        (if length (filter (\<lambda>a. \<not> complies (r_type rule) pats a) as) = 0 then Passed else Failed)
        (int (length as)) (int (length (filter (\<lambda>a. \<not> complies (r_type rule) pats a) as))) (take MAX_VIOLATIONS vs))"
    and v: "\<forall>v\<in>set vs. \<exists>a\<in>set as. ev_agent_id v = sid a \<and> \<not> complies (r_type rule) pats a"
    using evaluate_rule_spec [of rule db now] assms by auto
  have "int (length as) - int (length (filter (\<lambda>a. \<not> complies (r_type rule) pats a) as)) =
      int (length (filter (complies (r_type rule) pats) as))"
    using filter_split_length [of "complies (r_type rule) pats" as] by linarith
  with e v show ?thesis
    by (auto simp: mk_enf_result_def filter_empty_conv dest: in_set_takeD)
qed

text \<open>The exception to it: a rule whose category has no pattern passes on every fleet, with nobody counted and
  one finding about the system itself.\<close>

theorem rule_without_patterns_passes:
  assumes "get_taxonomy_patterns db (r_taxonomy_category_id rule) = []"
  shows "\<exists>r v. evaluate_rule now db rule = Inr r \<and> er_status r = Passed \<and> er_total_agents r = 0 \<and>
    er_violations r = [v] \<and> ev_agent_id v = ''system''"
  using assms by (simp add: evaluate_rule_def compile_patterns_def mk_enf_result_def system_violation_def)

section \<open>Latest results\<close>

lemma first_per_rule_set:
  "r \<in> set (first_per_rule xs) \<longleftrightarrow> find (\<lambda>x. er_rule_id x = er_rule_id r) xs = Some r"
proof (induction xs)
  case (Cons x xs)
  then show ?case by auto
qed simp

lemma find_filter: "find P xs = (case filter P xs of [] \<Rightarrow> None | x # _ \<Rightarrow> Some x)"
  by (induction xs) auto

lemma sort_key_hd_unique:
  fixes f :: "'a \<Rightarrow> int"
  assumes "r \<in> set xs" "\<And>x. x \<in> set xs \<Longrightarrow> x \<noteq> r \<Longrightarrow> f r < f x"
  shows "\<exists>rest. sort_key f xs = r # rest"
proof -
  have "r \<in> set (sort_key f xs)" using assms(1) by simp
  then obtain y ys where y: "sort_key f xs = y # ys" by (cases "sort_key f xs") auto
  have "sorted (map f (y # ys))" using sorted_sort_key [of f xs] y by simp
  then have "\<forall>z\<in>set (y # ys). f y \<le> f z" by auto
  then have "f y \<le> f r" using \<open>r \<in> set (sort_key f xs)\<close> y by auto
  moreover have "y \<in> set xs" by (metis y list.set_intros(1) set_sort)
  ultimately have "y = r" using assms(2) [of y] by fastforce
  with y show ?thesis by blast
qed

text \<open>A result that is newer than every other of its rule is that rule's current one.\<close>

lemma newest_is_current:
  assumes "r \<in> snd ` set (enforcement_results db)"
    "\<And>x. x \<in> snd ` set (enforcement_results db) \<Longrightarrow> er_rule_id x = er_rule_id r \<Longrightarrow> x \<noteq> r \<Longrightarrow> er_checked_at x < er_checked_at r"
  shows "r \<in> set (newest_per_rule db)"
proof -
  let ?xs = "map snd (enforcement_results db)" and ?P = "\<lambda>x. er_rule_id x = er_rule_id r"
  have "\<exists>rest. sort_key (\<lambda>r. - er_checked_at r) (filter ?P ?xs) = r # rest"
    using assms by (intro sort_key_hd_unique) auto
  then have "find ?P (sort_key (\<lambda>r. - er_checked_at r) ?xs) = Some r"
    unfolding find_filter filter_sort by auto
  then show ?thesis by (simp add: newest_per_rule_def first_per_rule_set)
qed

lemma get_latest_set [simp]: "set (get_latest_results db) = set (newest_per_rule db)"
  by (simp add: get_latest_results_def)

lemma rule_outcome_id [simp]: "er_rule_id (rule_outcome now db rule) = r_id rule"
  "er_checked_at (rule_outcome now db rule) = now (r_id rule)"
proof -
  have "er_rule_id r = r_id rule \<and> er_checked_at r = t" if "evaluate_rule t db rule = Inr r" for r t
    using that
    by (auto simp: evaluate_rule_def check_dispatch_def check_required_def check_forbidden_def check_allowlist_def
        check_apps_def mk_enf_result_def Let_def split: if_splits rule_type.splits sum.splits)
  then show "er_rule_id (rule_outcome now db rule) = r_id rule"
    "er_checked_at (rule_outcome now db rule) = now (r_id rule)"
    by (auto simp: rule_outcome_def mk_enf_result_def split: sum.splits)
qed

definition rules_to_run :: "enf_db \<Rightarrow> string option \<Rightarrow> enforcement_rule list" where
  "rules_to_run db rule_id =
     (case rule_id of
        Some rid \<Rightarrow> if rid \<noteq> [] then (case get_rule db rid of Some r \<Rightarrow> [r] | None \<Rightarrow> []) else list_rules db True
      | None \<Rightarrow> list_rules db True)"

lemma run_enforcement_shape:
  "run_enforcement_checks now run_id rule_id db =
     (map (rule_outcome now db) (rules_to_run db rule_id),
      store_results run_id (map (rule_outcome now db) (rules_to_run db rule_id)) db)"
  by (simp add: run_enforcement_checks_def rules_to_run_def store_results_def Let_def)

lemma set_rules_to_run: "set (rules_to_run db rule_id) \<subseteq> set (enforcement_rules db)"
  by (auto simp: rules_to_run_def list_rules_def get_rule_def dest: find_Some_in_set find_Some_in_set [OF sym]
      split: option.splits if_splits)

lemma stored_results:
  "snd ` set (enforcement_results (store_results run_id rs db)) = snd ` set (enforcement_results db) \<union> set rs"
  by (force simp: store_results_def)

text \<open>C14. A run over all rules: every enabled rule gets exactly its own outcome, a rule whose evaluation raises is
  reported as failed without affecting the others, and with clocks that move on, the outcome is afterwards the
  rule's current result.\<close>

theorem run_reports_every_enabled_rule:
  assumes "distinct (map r_id (enforcement_rules db))" "rule \<in> set (enforcement_rules db)" "r_enabled rule"
    "\<And>x. x \<in> snd ` set (enforcement_results db) \<Longrightarrow> er_checked_at x < now (r_id rule)"
  shows "rule_outcome now db rule \<in> set (fst (run_enforcement_checks now run_id None db)) \<and>
    rule_outcome now db rule \<in> set (get_latest_results (snd (run_enforcement_checks now run_id None db))) \<and>
    (\<forall>err. evaluate_rule (now (r_id rule)) db rule = Inl err \<longrightarrow> er_status (rule_outcome now db rule) = Failed) \<and>
    length (fst (run_enforcement_checks now run_id None db)) = length (filter r_enabled (enforcement_rules db))"
proof -
  have mem: "rule \<in> set (rules_to_run db None)" using assms(2,3) by (simp add: rules_to_run_def list_rules_def)
  let ?rs = "map (rule_outcome now db) (rules_to_run db None)"
  have "rule_outcome now db rule \<in> set (newest_per_rule (store_results run_id ?rs db))"
  proof (rule newest_is_current)
    show "rule_outcome now db rule \<in> snd ` set (enforcement_results (store_results run_id ?rs db))"
      using mem by (simp add: stored_results)
    fix x assume x: "x \<in> snd ` set (enforcement_results (store_results run_id ?rs db))"
      "er_rule_id x = er_rule_id (rule_outcome now db rule)" "x \<noteq> rule_outcome now db rule"
    have "x \<notin> set ?rs"
    proof
      assume "x \<in> set ?rs"
      then obtain q where q: "q \<in> set (rules_to_run db None)" "x = rule_outcome now db q" by auto
      then have "r_id q = r_id rule" using x(2) by simp
      moreover have "q \<in> set (enforcement_rules db)" using q(1) set_rules_to_run by blast
      ultimately have "q = rule" using assms(1,2) by (auto simp: distinct_map inj_on_def)
      with q x(3) show False by simp
    qed
    then have "x \<in> snd ` set (enforcement_results db)" using x(1) by (auto simp: stored_results)
    then show "er_checked_at x < er_checked_at (rule_outcome now db rule)" using assms(4) by simp
  qed
  then show ?thesis using mem
    by (auto simp: run_enforcement_shape rule_outcome_def mk_enf_result_def rules_to_run_def list_rules_def)
qed

section \<open>New and resolved violations\<close>

lemma set_result_keys:
  "set (result_keys rs) = {violation_key (er_rule_id r) (ev_agent_id v) | r v. r \<in> set rs \<and> v \<in> set (er_violations r)}"
  by (auto simp: result_keys_def)

lemma result_keysD:
  "k \<in> set (result_keys rs) \<Longrightarrow> \<exists>x aid. x \<in> set rs \<and> k = violation_key (er_rule_id x) aid"
  by (auto simp: result_keys_def)

lemma violation_key_rule:
  assumes "violation_key rid aid = violation_key rid' aid'" "CHR '':'' \<notin> set rid" "CHR '':'' \<notin> set rid'"
  shows "rid = rid'"
  using key_rule_key [OF assms(2), of aid] key_rule_key [OF assms(3), of aid'] assms(1) by simp

lemma dispatch_webhooks [simp]:
  "st_webhooks (dispatch_violation_webhook results keys ty st) = st_webhooks st @
     map (\<lambda>rid. ViolationEvent (violation_event_for results keys ty rid)) (remdups (map key_rule keys))"
  "st_db (dispatch_violation_webhook results keys ty st) = st_db st"
  by (simp_all add: dispatch_violation_webhook_def)

lemma trigger_check_resolved:
  assumes "k \<in> set (result_keys (get_latest_results (st_db st)))"
    "k \<notin> set (result_keys (fst (run_enforcement_checks now run_id rule_id (st_db st))))"
  shows "\<exists>ev. ViolationEvent ev \<in> set (st_webhooks (snd (trigger_check now run_id actor rule_id st))) \<and>
    ve_type ev = ''resolved'' \<and> ve_rule_id ev = key_rule k"
proof -
  obtain results db' where run: "run_enforcement_checks now run_id rule_id (st_db st) = (results, db')"
    by (cases "run_enforcement_checks now run_id rule_id (st_db st)")
  let ?res = "filter (\<lambda>k. \<not> List.member (result_keys results) k) (result_keys (get_latest_results (st_db st)))"
  let ?ev = "violation_event_for results ?res ''resolved'' (key_rule k)"
  have k: "k \<in> set ?res" using assms run by simp
  have "?res \<noteq> []"
  proof
    assume "?res = []"
    with k have "k \<in> set []" by (simp only:)
    then show False by simp
  qed
  then have "ViolationEvent ?ev \<in> set (st_webhooks (snd (trigger_check now run_id actor rule_id st)))"
    using k by (auto simp: trigger_check_def run Let_def log_audit_def)
  moreover have "ve_type ?ev = ''resolved'' \<and> ve_rule_id ?ev = key_rule k"
    by (simp add: violation_event_for_def Let_def)
  ultimately show ?thesis by blast
qed

text \<open>A run reports the open violations of every rule that it did not evaluate as resolved: those of all other
  rules when one rule is run alone, and those of a rule that has been disabled or removed, again in every run, for its
  last result stays the current one.\<close>

theorem unevaluated_rules_reported_resolved:
  assumes "r \<in> set (get_latest_results (st_db st))" "er_violations r \<noteq> []"
    and "er_rule_id r \<notin> r_id ` set (rules_to_run (st_db st) rule_id)"
    and "CHR '':'' \<notin> set (er_rule_id r)" "\<forall>q\<in>set (enforcement_rules (st_db st)). CHR '':'' \<notin> set (r_id q)"
  shows "(\<exists>ev. ViolationEvent ev \<in> set (st_webhooks (snd (trigger_check now run_id actor rule_id st))) \<and>
      ve_type ev = ''resolved'' \<and> ve_rule_id ev = er_rule_id r) \<and>
    r \<in> set (get_latest_results (st_db (snd (trigger_check now run_id actor rule_id st))))"
proof -
  let ?db = "st_db st" and ?rs = "map (rule_outcome now (st_db st)) (rules_to_run (st_db st) rule_id)"
  obtain v where v: "v \<in> set (er_violations r)" using assms(2) by (cases "er_violations r") auto
  let ?k = "violation_key (er_rule_id r) (ev_agent_id v)"
  have "?k \<in> set (result_keys (get_latest_results ?db))"
    using assms(1) v unfolding set_result_keys by blast
  moreover have "?k \<notin> set (result_keys ?rs)"
  proof
    assume "?k \<in> set (result_keys ?rs)"
    then obtain x aid where x: "x \<in> set ?rs" "?k = violation_key (er_rule_id x) aid"
      using result_keysD by blast
    then obtain q where q: "q \<in> set (rules_to_run ?db rule_id)" "?k = violation_key (r_id q) aid"
      by auto
    have "q \<in> set (enforcement_rules ?db)" using q(1) set_rules_to_run by blast
    then have "er_rule_id r = r_id q" using violation_key_rule [OF q(2) assms(4)] assms(5) by blast
    with q(1) assms(3) show False by blast
  qed
  ultimately have "\<exists>ev. ViolationEvent ev \<in> set (st_webhooks (snd (trigger_check now run_id actor rule_id st))) \<and>
      ve_type ev = ''resolved'' \<and> ve_rule_id ev = er_rule_id r"
    using trigger_check_resolved [of ?k st now run_id rule_id actor] assms(4) by (simp add: run_enforcement_shape)
  moreover have "r \<in> set (newest_per_rule (st_db (snd (trigger_check now run_id actor rule_id st))))"
  proof -
    have db: "st_db (snd (trigger_check now run_id actor rule_id st)) = store_results run_id ?rs ?db"
      by (simp add: trigger_check_def run_enforcement_shape Let_def log_audit_def)
    let ?P = "\<lambda>x. er_rule_id x = er_rule_id r" and ?f = "\<lambda>r. - er_checked_at r"
    have "r_id q \<noteq> er_rule_id r" if "q \<in> set (rules_to_run ?db rule_id)" for q
      using assms(3) that by (metis imageI)
    then have "filter ?P ?rs = []" by (simp add: filter_empty_conv)
    then have "filter ?P (map snd (enforcement_results (store_results run_id ?rs ?db))) =
        filter ?P (map snd (enforcement_results ?db))"
      by (simp add: store_results_def comp_def del: filter_map)
    then have "find ?P (sort_key ?f (map snd (enforcement_results (store_results run_id ?rs ?db)))) =
        find ?P (sort_key ?f (map snd (enforcement_results ?db)))"
      by (simp only: find_filter filter_sort)
    with assms(1) show ?thesis unfolding db by (simp add: newest_per_rule_def first_per_rule_set)
  qed
  ultimately show ?thesis by simp
qed

section \<open>Paging\<close>

lemma concat_pages: "concat (map (\<lambda>i. take n (drop (i * n) xs)) [0..<m]) = take (m * n) xs"
proof (induction m)
  case (Suc m)
  then show ?case by (simp add: take_add [symmetric] add.commute)
qed simp

text \<open>The pages of the violation list, put one after the other, are the whole list: no violation is shown twice
  or left out, and every page reports the total.\<close>

theorem violation_pages_partition:
  assumes "snd (get_all_current_violations db sev 1 n) \<le> m * n"
  shows "concat (map (\<lambda>i. fst (get_all_current_violations db sev (Suc i) n)) [0..<m]) = current_violations db sev \<and>
    (\<forall>i. snd (get_all_current_violations db sev (Suc i) n) = length (current_violations db sev))"
  using assms concat_pages [of n "current_violations db sev" m]
  by (simp add: get_all_current_violations_def Let_def)

section \<open>Rule management\<close>

lemma get_rule_map:
  assumes "\<And>r. r_id (f r) = r_id r"
  shows "find (\<lambda>r. r_id r = i) (map f rs) = map_option f (find (\<lambda>r. r_id r = i) rs)"
  using assms by (induction rs) auto

definition flip_enabled :: "string \<Rightarrow> string \<Rightarrow> instant \<Rightarrow> bool \<Rightarrow> enforcement_rule \<Rightarrow> enforcement_rule" where
  "flip_enabled rid actor now e r =
     (if r_id r = lower rid then (r\<lparr>r_enabled := e, r_updated_by := actor\<rparr>)\<lparr>r_updated_at := now\<rparr> else r)"

lemma flip_enabled_id [simp]: "r_id (flip_enabled rid actor now e r) = r_id r"
  by (simp add: flip_enabled_def)

lemma toggle_rule_eq:
  assumes "get_rule (st_db st) rid = Some rule"
  shows "toggle_rule now rid actor st = (Some (flip_enabled rid actor now (\<not> r_enabled rule) rule),
    log_audit (RuleToggled actor rid (\<not> r_enabled rule))
      (st\<lparr>st_db := (st_db st)\<lparr>enforcement_rules :=
        map (flip_enabled rid actor now (\<not> r_enabled rule)) (enforcement_rules (st_db st))\<rparr>\<rparr>))"
proof -
  have "(\<lambda>r. if r_id r = lower rid then (r\<lparr>r_enabled := e, r_updated_by := actor\<rparr>)\<lparr>r_updated_at := now\<rparr> else r) =
      flip_enabled rid actor now e" for e
    by (rule ext) (simp add: flip_enabled_def)
  with assms show ?thesis
    by (simp add: toggle_rule_def Let_def update_rule_def get_rule_def get_rule_map del: if_split)
qed

text \<open>Toggling a rule that exists flips whether it is enabled and nothing else of the other rules, is recorded in the audit
  log, and toggling it once more restores the flag; a removed rule is gone, and an update with an invalid type or
  severity changes nothing.\<close>

theorem rule_management:
  assumes "get_rule (st_db st) rid = Some rule"
  shows "(\<exists>r. fst (toggle_rule now rid actor st) = Some r \<and> r_enabled r = (\<not> r_enabled rule) \<and> r_type r = r_type rule) \<and>
    (\<exists>r. fst (toggle_rule now' rid actor (snd (toggle_rule now rid actor st))) = Some r \<and> r_enabled r = r_enabled rule) \<and>
    last (st_audit (snd (toggle_rule now rid actor st))) = RuleToggled actor rid (\<not> r_enabled rule) \<and>
    (\<forall>other. other \<noteq> lower rid \<longrightarrow>
      find (\<lambda>r. r_id r = other) (enforcement_rules (st_db (snd (toggle_rule now rid actor st)))) =
      find (\<lambda>r. r_id r = other) (enforcement_rules (st_db st))) \<and>
    fst (remove_rule rid actor st) \<and> get_rule (st_db (snd (remove_rule rid actor st))) rid = None \<and>
    (invalid_enum us \<noteq> None \<longrightarrow> snd (update_rule_fields now rid actor us st) = st)"
proof -
  let ?st1 = "snd (toggle_rule now rid actor st)" and ?flip = "flip_enabled rid actor now (\<not> r_enabled rule)"
  have id: "r_id rule = lower rid" using assms find_Some_in_set by (fastforce simp: get_rule_def)
  have rules: "enforcement_rules (st_db ?st1) = map ?flip (enforcement_rules (st_db st))"
    by (simp add: toggle_rule_eq [OF assms] log_audit_def)
  have g1: "get_rule (st_db ?st1) rid = Some (?flip rule)"
    using assms by (simp add: get_rule_def rules get_rule_map)
  have 1: "\<exists>r. fst (toggle_rule now rid actor st) = Some r \<and> r_enabled r = (\<not> r_enabled rule) \<and> r_type r = r_type rule"
    using id by (simp add: toggle_rule_eq [OF assms] flip_enabled_def)
  have 2: "\<exists>r. fst (toggle_rule now' rid actor ?st1) = Some r \<and> r_enabled r = r_enabled rule"
    using id by (simp add: toggle_rule_eq [OF g1] flip_enabled_def)
  have 3: "last (st_audit ?st1) = RuleToggled actor rid (\<not> r_enabled rule)"
    by (simp add: toggle_rule_eq [OF assms] log_audit_def)
  have 4: "find (\<lambda>r. r_id r = other) (enforcement_rules (st_db ?st1)) = find (\<lambda>r. r_id r = other) (enforcement_rules (st_db st))"
    if "other \<noteq> lower rid" for other
  proof -
    have "map_option ?flip (find (\<lambda>r. r_id r = other) rs) = find (\<lambda>r. r_id r = other) rs" for rs
      using that by (induction rs) (auto simp: flip_enabled_def)
    then show ?thesis by (simp add: rules get_rule_map)
  qed
  have 5: "fst (remove_rule rid actor st) \<and> get_rule (st_db (snd (remove_rule rid actor st))) rid = None"
    using assms by (auto simp: remove_rule_def delete_rule_def log_audit_def get_rule_def find_None_iff)
  have 6: "invalid_enum us \<noteq> None \<longrightarrow> snd (update_rule_fields now rid actor us st) = st"
    by (auto simp: update_rule_fields_def)
  show ?thesis using 1 2 3 4 5 6 by blast
qed

section \<open>A small fleet\<close>

definition demo_agents :: "agent list" where
  "demo_agents =
     [\<lparr>ag_source_id = Some ''1'', ag_hostname = Some ''pc1'', ag_installed = Some [''Defender AV'', ''Putty''],
       ag_group_name = Some ''hq'', ag_tags = None\<rparr>,
      \<lparr>ag_source_id = Some ''2'', ag_hostname = None, ag_installed = None, ag_group_name = Some ''hq'', ag_tags = None\<rparr>,
      \<lparr>ag_source_id = Some ''3'', ag_hostname = None, ag_installed = None, ag_group_name = Some ''lab'', ag_tags = None\<rparr>]"

definition demo_rule :: "string \<Rightarrow> rule_type \<Rightarrow> enforcement_rule" where
  "demo_rule i t = \<lparr>r_id = i, r_name = ''AV'', r_taxonomy_category_id = ''av'', r_type = t, r_severity = High,
     r_description = None, r_enabled = True, r_scope_groups = [''hq''], r_scope_tags = [], r_labels = [],
     r_created_at = 1, r_updated_at = 1, r_created_by = ''ann'', r_updated_by = ''ann''\<rparr>"

definition demo_result :: enforcement_result where
  "demo_result = mk_enf_result (demo_rule ''b'' Forbidden) 5 Failed 2 1
     [\<lparr>ev_agent_id = ''1'', ev_agent_hostname = ''pc1'', ev_violation_detail = ''x'', ev_app_name = Some ''Defender AV'',
       ev_app_version = None\<rparr>]"

definition demo_enf :: enf_db where
  "demo_enf = \<lparr>agents = demo_agents, taxonomy_entries = [\<lparr>te_category = ''av'', te_patterns = Some [''defend*'']\<rparr>],
     taxonomy_categories = [''av''], enforcement_rules = [demo_rule ''a'' Required, demo_rule ''b'' Forbidden],
     enforcement_results = [(''run1'', demo_result)]\<rparr>"

definition demo_enf_state :: enf_state where
  "demo_enf_state = \<lparr>st_db = demo_enf, st_audit = [], st_webhooks = []\<rparr>"

lemma demo_scope:
  "scoped (r_scope_tags (demo_rule i t)) (r_scope_groups (demo_rule i t)) (agents demo_enf) = take 2 demo_agents"
  by (simp add: demo_rule_def demo_enf_def demo_agents_def scoped_def selects_scope)

lemma demo_identified: "identified (take 2 demo_agents)"
  by (simp add: identified_def demo_agents_def)

lemma evaluate_rule_correct_witness:
  "\<exists>r. evaluate_rule 9 demo_enf (demo_rule ''a'' Required) = Inr r \<and> er_status r = Failed \<and>
     er_compliant_agents r = 1 \<and> er_non_compliant_agents r = 1"
proof -
  let ?pats = "compile_patterns (get_taxonomy_patterns demo_enf (r_taxonomy_category_id (demo_rule ''a'' Required)))"
  have p: "?pats \<noteq> []" by (simp add: compile_patterns_def get_taxonomy_patterns_def demo_enf_def demo_rule_def)
  have c: "map (complies (r_type (demo_rule ''a'' Required)) ?pats) (take 2 demo_agents) = [True, False]"
    by code_simp
  obtain a b where ab: "take 2 demo_agents = [a, b]" by (simp add: demo_agents_def)
  show ?thesis
    using evaluate_rule_correct [of "demo_rule ''a'' Required" demo_enf ?pats "take 2 demo_agents" 9]
      demo_scope demo_identified p c ab
    by (auto split: if_splits) (metis check_status.exhaust)
qed

lemma rule_without_patterns_passes_witness:
  "\<exists>r. evaluate_rule 9 (demo_enf\<lparr>taxonomy_entries := []\<rparr>) (demo_rule ''a'' Required) = Inr r \<and> er_status r = Passed"
  using rule_without_patterns_passes [of "demo_enf\<lparr>taxonomy_entries := []\<rparr>" "demo_rule ''a'' Required" 9]
  by (auto simp: get_taxonomy_patterns_def)

lemma run_reports_every_enabled_rule_witness:
  "rule_outcome (\<lambda>_. 9) demo_enf (demo_rule ''b'' Forbidden)
     \<in> set (get_latest_results (snd (run_enforcement_checks (\<lambda>_. 9) ''run2'' None demo_enf)))"
  using run_reports_every_enabled_rule [of demo_enf "demo_rule ''b'' Forbidden" "\<lambda>_. 9" "''run2''"]
  by (simp add: demo_enf_def demo_rule_def demo_result_def mk_enf_result_def)

lemma unevaluated_rules_reported_resolved_witness:
  "\<exists>ev. ViolationEvent ev \<in> set (st_webhooks (snd (trigger_check (\<lambda>_. 9) ''run2'' ''ann'' (Some ''a'') demo_enf_state))) \<and>
     ve_type ev = ''resolved'' \<and> ve_rule_id ev = ''b''"
proof -
  have r: "demo_result \<in> set (get_latest_results (st_db demo_enf_state))"
    by (simp add: newest_per_rule_def demo_enf_state_def demo_enf_def)
  have q: "rules_to_run (st_db demo_enf_state) (Some ''a'') = [demo_rule ''a'' Required]"
    by (simp add: rules_to_run_def get_rule_def demo_enf_state_def demo_enf_def demo_rule_def lower_def lower_char_def Let_def)
  show ?thesis
    using unevaluated_rules_reported_resolved [OF r, of "Some ''a''" "\<lambda>_. 9" "''run2''" "''ann''"] q
    by (simp add: demo_result_def mk_enf_result_def demo_rule_def demo_enf_state_def demo_enf_def)
qed

lemma violation_pages_partition_witness:
  "concat (map (\<lambda>i. fst (get_all_current_violations demo_enf None (Suc i) 1)) [0..<1]) = current_violations demo_enf None"
proof -
  have "length (current_violations demo_enf None) = 1"
    by (simp add: current_violations_def newest_per_rule_def demo_enf_def demo_result_def mk_enf_result_def)
  then have "snd (get_all_current_violations demo_enf None 1 1) \<le> 1 * 1"
    by (simp add: get_all_current_violations_def Let_def)
  from violation_pages_partition [OF this] show ?thesis by simp
qed

lemma rule_management_witness:
  "\<exists>r. fst (toggle_rule 7 ''b'' ''ann'' demo_enf_state) = Some r \<and> \<not> r_enabled r"
  using rule_management [of demo_enf_state "''b''" "demo_rule ''b'' Forbidden" 7 "''ann''" 8 "[]"]
  by (auto simp: get_rule_def demo_enf_state_def demo_enf_def demo_rule_def lower_def lower_char_def Let_def)

end
