(* ===== verification/AuthStore.thy ===== *)
theory AuthStore
  imports Prelude
begin

text \<open>
  The data of \<open>backend/domains/auth\<close>: roles and account states, the \<open>users\<close>, \<open>sessions\<close> and
  \<open>refresh_tokens\<close> collections, the caches of one worker, and \<open>session_service.py\<close>,
  \<open>session_revocation.py\<close> and \<open>utils/user_revocation.py\<close> over them. Random identifiers
  (\<open>secrets.token_urlsafe\<close>) are arguments. The libraries that the domain calls (PyJWT, bcrypt, pyotp,
  Fernet, the breach service) are the fields of a record.
\<close>

section \<open>Roles, account states and settings\<close>

datatype user_role = SuperAdmin | Admin | Analyst | Viewer

definition role_value :: "user_role \<Rightarrow> string" where
  "role_value r = (case r of SuperAdmin \<Rightarrow> ''super_admin'' | Admin \<Rightarrow> ''admin'' | Analyst \<Rightarrow> ''analyst'' | Viewer \<Rightarrow> ''viewer'')"

lemma role_value_inject [simp]: "role_value a = role_value b \<longleftrightarrow> a = b"
  by (cases a; cases b) (simp_all add: role_value_def)

datatype account_status = Invited | Active | Suspended | Deactivated | Deleted

definition status_value :: "account_status \<Rightarrow> string" where
  "status_value s = (case s of Invited \<Rightarrow> ''invited'' | Active \<Rightarrow> ''active'' | Suspended \<Rightarrow> ''suspended''
     | Deactivated \<Rightarrow> ''deactivated'' | Deleted \<Rightarrow> ''deleted'')"

record auth_settings =
  jwt_access_expire_minutes :: int
  jwt_refresh_expire_days :: int
  session_max_lifetime_days :: int
  account_lockout_threshold :: int
  account_lockout_duration_minutes :: int
  is_onprem :: bool

definition minutes :: "int \<Rightarrow> instant" where
  "minutes n = seconds (60 * n)"

definition days :: "int \<Rightarrow> instant" where
  "days n = seconds (86400 * n)"

section \<open>The documents\<close>

text \<open>A stored user; an optional field that is absent is \<open>None\<close>.\<close>

record user_doc =
  d_id :: string
  d_username :: string
  d_email :: string
  d_role :: "user_role option"
  d_disabled :: bool
  d_status :: "account_status option"
  d_hashed_password :: string
  d_totp_secret :: "string option"
  d_totp_enabled :: bool
  d_tenant_id :: "string option"
  d_password_history :: "(string \<times> instant) list"
  d_password_changed_at :: "instant option"
  d_failed_login_attempts :: int
  d_locked_until :: "instant option"
  d_known_user_agents :: "string list"
  d_last_login_ip :: "string option"
  d_last_login_at :: "instant option"
  d_deleted_at :: "instant option"

record user =
  u_id :: string
  u_username :: string
  u_email :: string
  u_role :: user_role
  u_disabled :: bool
  u_status :: account_status
  u_hashed_password :: string
  u_totp_secret :: "string option"
  u_totp_enabled :: bool
  u_tenant_id :: "string option"
  u_password_history :: "(string \<times> instant) list"
  u_password_changed_at :: "instant option"
  u_failed_login_attempts :: int
  u_locked_until :: "instant option"
  u_known_user_agents :: "string list"
  u_last_login_ip :: "string option"
  u_last_login_at :: "instant option"

record session_doc =
  s_session_id :: string
  s_user_id :: string
  s_username :: string
  s_tenant_id :: "string option"
  s_created_at :: instant
  s_last_active_at :: instant
  s_expires_at :: instant
  s_ip_address :: string
  s_user_agent :: string
  s_is_active :: bool
  s_revoked_at :: "instant option"
  s_revoked_reason :: "string option"
  s_refresh_token_family :: string

record refresh_doc =
  t_token_id :: string
  t_family_id :: string
  t_username :: string
  t_role :: string
  t_expires_at :: instant
  t_created_at :: instant
  t_used :: bool

text \<open>An audit call: actor, action and outcome; its summary and details are derived texts.\<close>

datatype auth_event = AuthEvent (ae_actor: string) (ae_action: string) (ae_ok: bool)

text \<open>The collections, and the two caches and the audit calls of this worker.\<close>

record auth_state =
  users :: "user_doc list"
  sessions :: "session_doc list"
  refresh_tokens :: "refresh_doc list"
  first_user_claimed :: "string option"
  revoked_session_ids :: "string set"
  revoked_usernames :: "string set"
  auth_log :: "auth_event list"

definition log_auth :: "string \<Rightarrow> string \<Rightarrow> bool \<Rightarrow> auth_state \<Rightarrow> auth_state" where
  "log_auth actor action success st = st\<lparr>auth_log := auth_log st @ [AuthEvent actor action success]\<rparr>"

definition find_user :: "string \<Rightarrow> auth_state \<Rightarrow> user_doc option" where
  "find_user username st = find (\<lambda>d. d_username d = username) (users st)"

definition update_user :: "string \<Rightarrow> (user_doc \<Rightarrow> user_doc) \<Rightarrow> auth_state \<Rightarrow> auth_state" where
  "update_user username f st = st\<lparr>users := update_first (\<lambda>d. d_username d = username) f (users st)\<rparr>"

section \<open>session_service.py\<close>

definition create_session ::
  "auth_settings \<Rightarrow> instant \<Rightarrow> string \<Rightarrow> string \<Rightarrow> string \<Rightarrow> string option \<Rightarrow> string \<Rightarrow> string \<Rightarrow> string
    \<Rightarrow> auth_state \<Rightarrow> session_doc \<times> auth_state" where
  "create_session cfg now session_id user_id username tenant_id ip agent family st =
     (let doc = \<lparr>s_session_id = session_id, s_user_id = user_id, s_username = username, s_tenant_id = tenant_id,
            s_created_at = now, s_last_active_at = now, s_expires_at = now + days (session_max_lifetime_days cfg),
            s_ip_address = ip, s_user_agent = agent, s_is_active = True, s_revoked_at = None, s_revoked_reason = None,
            s_refresh_token_family = family\<rparr>
      in (doc, st\<lparr>sessions := sessions st @ [doc]\<rparr>))"

definition get_session :: "string \<Rightarrow> auth_state \<Rightarrow> session_doc option" where
  "get_session session_id st = find (\<lambda>s. s_session_id s = session_id) (sessions st)"

definition find_active_session_by_family :: "string \<Rightarrow> auth_state \<Rightarrow> string option" where
  "find_active_session_by_family family st =
     map_option s_session_id (find (\<lambda>s. s_refresh_token_family s = family \<and> s_is_active s) (sessions st))"

definition list_user_sessions :: "instant \<Rightarrow> string \<Rightarrow> bool \<Rightarrow> auth_state \<Rightarrow> session_doc list" where
  "list_user_sessions now username active_only st =
     sort_key (\<lambda>s. - s_last_active_at s)
       (filter (\<lambda>s. s_username s = username \<and> (active_only \<longrightarrow> s_is_active s \<and> now < s_expires_at s)) (sessions st))"

definition mark_sessions_revoked :: "string list \<Rightarrow> auth_state \<Rightarrow> auth_state" where
  "mark_sessions_revoked ids st = st\<lparr>revoked_session_ids := revoked_session_ids st \<union> set ids\<rparr>"

definition mark_session_revoked :: "string \<Rightarrow> auth_state \<Rightarrow> auth_state" where
  "mark_session_revoked sid st = st\<lparr>revoked_session_ids := insert sid (revoked_session_ids st)\<rparr>"

definition delete_families :: "string list \<Rightarrow> auth_state \<Rightarrow> auth_state" where
  "delete_families fams st =
     st\<lparr>refresh_tokens := delete_many (\<lambda>t. List.member fams (t_family_id t)) (refresh_tokens st)\<rparr>"

definition deactivate :: "instant \<Rightarrow> string \<Rightarrow> session_doc \<Rightarrow> session_doc" where
  "deactivate now reason s = s\<lparr>s_is_active := False, s_revoked_at := Some now, s_revoked_reason := Some reason\<rparr>"

definition revoke_session :: "instant \<Rightarrow> string \<Rightarrow> string \<Rightarrow> auth_state \<Rightarrow> bool \<times> auth_state" where
  "revoke_session now session_id reason st =
     (let hit = (\<lambda>s. s_session_id s = session_id \<and> s_is_active s)
      in case find hit (sessions st) of
           None \<Rightarrow> (False, st)
         | Some doc \<Rightarrow>
             (let st1 = st\<lparr>sessions := update_first hit (deactivate now reason) (sessions st)\<rparr>;
                  st2 = (if s_refresh_token_family doc \<noteq> [] then delete_families [s_refresh_token_family doc] st1 else st1)
              in (True, mark_session_revoked session_id st2)))"

definition revoke_all_user_sessions ::
  "instant \<Rightarrow> string \<Rightarrow> string \<Rightarrow> string option \<Rightarrow> auth_state \<Rightarrow> nat \<times> auth_state" where
  "revoke_all_user_sessions now username reason exclude st =
     (let docs = filter (\<lambda>s. s_username s = username \<and> s_is_active s \<and>
            (case exclude of None \<Rightarrow> True | Some x \<Rightarrow> x = [] \<or> s_session_id s \<noteq> x)) (sessions st);
          ids = map s_session_id docs;
          fams = filter (\<lambda>f. f \<noteq> []) (map s_refresh_token_family docs)
      in if ids = [] then (0, st)
         else (let st1 = st\<lparr>sessions := update_many (\<lambda>s. List.member ids (s_session_id s)) (deactivate now reason) (sessions st)\<rparr>;
                   st2 = (if fams \<noteq> [] then delete_families fams st1 else st1)
               in (length (filter (\<lambda>s. List.member ids (s_session_id s)) (sessions st)), mark_sessions_revoked ids st2)))"

definition update_session_activity :: "instant \<Rightarrow> string \<Rightarrow> auth_state \<Rightarrow> auth_state" where
  "update_session_activity now session_id st =
     st\<lparr>sessions := update_first (\<lambda>s. s_session_id s = session_id \<and> s_is_active s)
         (\<lambda>s. s\<lparr>s_last_active_at := now\<rparr>) (sessions st)\<rparr>"

definition is_session_valid :: "instant \<Rightarrow> string \<Rightarrow> auth_state \<Rightarrow> bool" where
  "is_session_valid now session_id st =
     list_ex (\<lambda>s. s_session_id s = session_id \<and> s_is_active s \<and> now < s_expires_at s) (sessions st)"

definition cleanup_expired_sessions :: "instant \<Rightarrow> auth_state \<Rightarrow> nat \<times> auth_state" where
  "cleanup_expired_sessions now st =
     (let marked = update_many (\<lambda>s. s_is_active s \<and> s_expires_at s < now) (deactivate now ''expired'') (sessions st);
          old = (\<lambda>s. \<not> s_is_active s \<and> (case s_revoked_at s of Some r \<Rightarrow> r < now - days 30 | None \<Rightarrow> False))
      in (length (filter old marked), st\<lparr>sessions := delete_many old marked\<rparr>))"

text \<open>The TTL indexes on \<open>expires_at\<close> of the two collections.\<close>

definition ttl_expire :: "instant \<Rightarrow> auth_state \<Rightarrow> auth_state" where
  "ttl_expire now st = st\<lparr>sessions := delete_many (\<lambda>s. s_expires_at s < now) (sessions st),
     refresh_tokens := delete_many (\<lambda>t. t_expires_at t < now) (refresh_tokens st)\<rparr>"

section \<open>The caches\<close>

definition is_session_revoked :: "string \<Rightarrow> auth_state \<Rightarrow> bool" where
  "is_session_revoked session_id st = (session_id \<in> revoked_session_ids st)"

text \<open>The session ids of a rebuilt cache: revoked within the last day. A failed query changes nothing.\<close>

definition refresh_revoked_sessions :: "bool \<Rightarrow> instant \<Rightarrow> auth_state \<Rightarrow> auth_state" where
  "refresh_revoked_sessions query_ok now st =
     (if \<not> query_ok then st
      else st\<lparr>revoked_session_ids := set (filter (\<lambda>i. i \<noteq> []) (map s_session_id
        (filter (\<lambda>s. \<not> s_is_active s \<and> (case s_revoked_at s of Some r \<Rightarrow> now - seconds (24 * 3600) < r | None \<Rightarrow> False))
          (sessions st))))\<rparr>)"

definition is_user_revoked :: "string \<Rightarrow> auth_state \<Rightarrow> bool" where
  "is_user_revoked username st = (username \<in> revoked_usernames st)"

definition refresh_revoked_users :: "bool \<Rightarrow> auth_state \<Rightarrow> auth_state" where
  "refresh_revoked_users query_ok st =
     (if \<not> query_ok then st
      else st\<lparr>revoked_usernames := set (filter (\<lambda>u. u \<noteq> []) (map d_username
        (filter (\<lambda>d. d_disabled d \<or> d_status d \<in> {Some Suspended, Some Deactivated, Some Deleted}) (users st))))\<rparr>)"

definition mark_user_revoked :: "string \<Rightarrow> auth_state \<Rightarrow> auth_state" where
  "mark_user_revoked username st = st\<lparr>revoked_usernames := insert username (revoked_usernames st)\<rparr>"

definition mark_user_restored :: "string \<Rightarrow> auth_state \<Rightarrow> auth_state" where
  "mark_user_restored username st = st\<lparr>revoked_usernames := revoked_usernames st - {username}\<rparr>"

end
