(* ===== verification/AuthTokens.thy ===== *)
theory AuthTokens
  imports AuthStore
begin

text \<open>
  \<open>backend/domains/auth/service.py\<close>: access tokens, refresh tokens with rotation and reuse detection,
  authentication with lockout, and the updates of user documents. Operations that make several database
  calls take the other workers as arguments, functions on the state applied between the calls.
\<close>

section \<open>The libraries\<close>

record claims =
  c_sub :: "string option"
  c_role :: "string option"
  c_type :: "string option"
  c_jti :: "string option"
  c_fam :: "string option"
  c_sid :: "string option"
  c_tenant_id :: "string option"
  c_iss :: "string option"
  c_aud :: "string option"
  c_exp :: "instant option"

text \<open>
  \<open>jwt.encode\<close> and \<open>jwt.decode\<close> under the configured key (audience, issuer, whether the expiry is
  verified, the time), \<open>bcrypt\<close> (the first argument of \<open>pw_hash\<close> is the salt), \<open>pyotp\<close>, Fernet, and the
  breach service.
\<close>

record 'tok auth_lib =
  jwt_encode :: "claims \<Rightarrow> 'tok"
  jwt_decode :: "string option \<Rightarrow> string option \<Rightarrow> bool \<Rightarrow> instant \<Rightarrow> 'tok \<Rightarrow> claims option"
  pw_verify :: "string \<Rightarrow> string \<Rightarrow> bool"
  pw_hash :: "string \<Rightarrow> string \<Rightarrow> string"
  totp_verify :: "instant \<Rightarrow> string \<Rightarrow> string \<Rightarrow> bool"
  field_encrypt :: "string \<Rightarrow> string"
  field_decrypt :: "string \<Rightarrow> string"
  breached :: "string \<Rightarrow> bool"

text \<open>
  What PyJWT documents: a token decodes to the claims it was made from (the expiry in whole seconds),
  when the audience is the expected one or, with none expected, absent, the issuer is the expected one, and
  the expiry lies ahead; nothing else decodes.
\<close>

definition wire :: "claims \<Rightarrow> claims" where
  "wire c = c\<lparr>c_exp := map_option (\<lambda>e. seconds (e div 1000000)) (c_exp c)\<rparr>"

definition jwt_accepts :: "string option \<Rightarrow> string option \<Rightarrow> bool \<Rightarrow> instant \<Rightarrow> claims \<Rightarrow> bool" where
  "jwt_accepts aud iss verify_exp now c \<longleftrightarrow> c_aud c = aud \<and> (iss \<noteq> None \<longrightarrow> c_iss c = iss) \<and>
     (verify_exp \<longrightarrow> (case c_exp c of None \<Rightarrow> True | Some e \<Rightarrow> now < e))"

definition jwt_ok :: "'tok auth_lib \<Rightarrow> bool" where
  "jwt_ok lib \<longleftrightarrow> (\<forall>aud iss ve now tok c. jwt_decode lib aud iss ve now tok = Some c \<longleftrightarrow>
     (\<exists>c0. tok = jwt_encode lib c0 \<and> c = wire c0 \<and> jwt_accepts aud iss ve now c))"

text \<open>A Python value that is a string and not empty.\<close>

definition nonempty :: "string option \<Rightarrow> string option" where
  "nonempty x = (case x of Some s \<Rightarrow> if s = [] then None else Some s | None \<Rightarrow> None)"

datatype token_error = InvalidToken | WrongTokenType | MissingClaims | RevokedOrReused

section \<open>Access tokens\<close>

definition create_access_token ::
  "'tok auth_lib \<Rightarrow> auth_settings \<Rightarrow> instant \<Rightarrow> string \<Rightarrow> string \<Rightarrow> string \<Rightarrow> instant option
    \<Rightarrow> string option \<Rightarrow> string option \<Rightarrow> 'tok" where
  "create_access_token lib cfg now jti sub role expires_delta session_id tenant_id =
     jwt_encode lib \<lparr>c_sub = Some sub, c_role = Some role, c_type = Some ''access'', c_jti = Some jti, c_fam = None,
       c_sid = nonempty session_id, c_tenant_id = nonempty tenant_id, c_iss = Some ''sentora'', c_aud = Some ''sentora-api'',
       c_exp = Some (now + (case expires_delta of Some d \<Rightarrow> if d = 0 then minutes (jwt_access_expire_minutes cfg) else d
                            | None \<Rightarrow> minutes (jwt_access_expire_minutes cfg)))\<rparr>"

record token_payload =
  p_sub :: string
  p_role :: string
  p_exp :: "instant option"
  p_sid :: "string option"
  p_jti :: "string option"
  p_tenant_id :: "string option"

definition verify_token :: "'tok auth_lib \<Rightarrow> instant \<Rightarrow> 'tok \<Rightarrow> token_error + token_payload" where
  "verify_token lib now tok =
     (case jwt_decode lib (Some ''sentora-api'') (Some ''sentora'') True now tok of
        None \<Rightarrow> Inl InvalidToken
      | Some p \<Rightarrow>
          if c_type p \<noteq> Some ''access'' then Inl WrongTokenType
          else (case (nonempty (c_sub p), nonempty (c_role p)) of
                  (Some sub, Some role) \<Rightarrow> Inr \<lparr>p_sub = sub, p_role = role, p_exp = c_exp p, p_sid = c_sid p,
                     p_jti = c_jti p, p_tenant_id = c_tenant_id p\<rparr>
                | _ \<Rightarrow> Inl MissingClaims))"

section \<open>Refresh tokens\<close>

definition create_refresh_token ::
  "'tok auth_lib \<Rightarrow> auth_settings \<Rightarrow> instant \<Rightarrow> string \<Rightarrow> string \<Rightarrow> string \<Rightarrow> string \<Rightarrow> string option
    \<Rightarrow> auth_state \<Rightarrow> ('tok \<times> string) \<times> auth_state" where
  "create_refresh_token lib cfg now token_id new_family username role family_id st =
     (let family = (case nonempty family_id of Some f \<Rightarrow> f | None \<Rightarrow> new_family);
          expire = now + days (jwt_refresh_expire_days cfg);
          doc = \<lparr>t_token_id = token_id, t_family_id = family, t_username = username, t_role = role,
            t_expires_at = expire, t_created_at = now, t_used = False\<rparr>;
          encoded = jwt_encode lib \<lparr>c_sub = Some username, c_role = Some role, c_type = Some ''refresh'',
            c_jti = Some token_id, c_fam = Some family, c_sid = None, c_tenant_id = None, c_iss = Some ''sentora'',
            c_aud = None, c_exp = Some expire\<rparr>
      in ((encoded, family), st\<lparr>refresh_tokens := refresh_tokens st @ [doc]\<rparr>))"

text \<open>
  The part of the rotation that talks to the database: mark the token used or revoke the family; find the
  session; store the successor. \<open>others 0\<close>, \<open>others 1\<close> and \<open>others 2\<close> run between these calls.
\<close>

definition rotate_stored ::
  "'tok auth_lib \<Rightarrow> auth_settings \<Rightarrow> (nat \<Rightarrow> auth_state \<Rightarrow> auth_state) \<Rightarrow> instant \<Rightarrow> string \<Rightarrow> string
    \<Rightarrow> string \<Rightarrow> string \<Rightarrow> string \<Rightarrow> string \<Rightarrow> string option \<Rightarrow> auth_state
    \<Rightarrow> (token_error + 'tok \<times> 'tok) \<times> auth_state" where
  "rotate_stored lib cfg others now jti new_id token_id family username role session_id st =
     (let hit = (\<lambda>t. t_token_id t = token_id \<and> \<not> t_used t)
      in case find hit (refresh_tokens st) of
           None \<Rightarrow> (Inl RevokedOrReused, delete_families [family] (others 0 st))
         | Some _ \<Rightarrow>
             (let st1 = others 1 (st\<lparr>refresh_tokens := update_first hit (\<lambda>t. t\<lparr>t_used := True\<rparr>) (refresh_tokens st)\<rparr>);
                  sid = (case nonempty session_id of Some s \<Rightarrow> Some s | None \<Rightarrow> find_active_session_by_family family st1);
                  access = create_access_token lib cfg now jti username role None sid None;
                  ((refresh, _), st2) = create_refresh_token lib cfg now new_id [] username role (Some family) (others 2 st1)
              in (Inr (access, refresh), st2)))"

definition rotate_refresh_token ::
  "'tok auth_lib \<Rightarrow> auth_settings \<Rightarrow> (nat \<Rightarrow> auth_state \<Rightarrow> auth_state) \<Rightarrow> instant \<Rightarrow> string \<Rightarrow> string
    \<Rightarrow> 'tok \<Rightarrow> string option \<Rightarrow> auth_state \<Rightarrow> (token_error + 'tok \<times> 'tok) \<times> auth_state" where
  "rotate_refresh_token lib cfg others now jti new_id tok session_id st =
     (case jwt_decode lib None (Some ''sentora'') True now tok of
        None \<Rightarrow> (Inl InvalidToken, st)
      | Some p \<Rightarrow>
          if c_type p \<noteq> Some ''refresh'' then (Inl WrongTokenType, st)
          else (case (nonempty (c_jti p), nonempty (c_fam p), nonempty (c_sub p), nonempty (c_role p)) of
                  (Some token_id, Some family, Some username, Some role) \<Rightarrow>
                    rotate_stored lib cfg others now jti new_id token_id family username role session_id st
                | _ \<Rightarrow> (Inl MissingClaims, st)))"

definition revoke_user_tokens :: "string \<Rightarrow> auth_state \<Rightarrow> nat \<times> auth_state" where
  "revoke_user_tokens username st =
     (length (filter (\<lambda>t. t_username t = username) (refresh_tokens st)),
      st\<lparr>refresh_tokens := delete_many (\<lambda>t. t_username t = username) (refresh_tokens st)\<rparr>)"

definition revoke_family :: "'tok auth_lib \<Rightarrow> instant \<Rightarrow> 'tok \<Rightarrow> auth_state \<Rightarrow> nat \<times> auth_state" where
  "revoke_family lib now tok st =
     (case jwt_decode lib None (Some ''sentora'') False now tok of
        None \<Rightarrow> (0, st)
      | Some p \<Rightarrow>
          (case nonempty (c_fam p) of
             None \<Rightarrow> (0, st)
           | Some family \<Rightarrow> (length (filter (\<lambda>t. t_family_id t = family) (refresh_tokens st)), delete_families [family] st)))"

section \<open>Users\<close>

definition doc_to_user :: "'tok auth_lib \<Rightarrow> user_doc \<Rightarrow> user" where
  "doc_to_user lib d = \<lparr>u_id = d_id d, u_username = d_username d, u_email = d_email d,
     u_role = (case d_role d of Some r \<Rightarrow> r | None \<Rightarrow> Viewer), u_disabled = d_disabled d,
     u_status = (case d_status d of Some s \<Rightarrow> s | None \<Rightarrow> if d_disabled d then Deactivated else Active),
     u_hashed_password = d_hashed_password d,
     u_totp_secret = map_option (field_decrypt lib) (nonempty (d_totp_secret d)), u_totp_enabled = d_totp_enabled d,
     u_tenant_id = d_tenant_id d, u_password_history = d_password_history d,
     u_password_changed_at = d_password_changed_at d, u_failed_login_attempts = d_failed_login_attempts d,
     u_locked_until = d_locked_until d, u_known_user_agents = d_known_user_agents d,
     u_last_login_ip = d_last_login_ip d, u_last_login_at = d_last_login_at d\<rparr>"

definition get_user_by_username :: "'tok auth_lib \<Rightarrow> string \<Rightarrow> auth_state \<Rightarrow> user option" where
  "get_user_by_username lib username st = map_option (doc_to_user lib) (find_user username st)"

definition locked_at :: "instant \<Rightarrow> user_doc \<Rightarrow> bool" where
  "locked_at now d = (case d_locked_until d of Some l \<Rightarrow> now < l | None \<Rightarrow> False)"

definition password_matches :: "'tok auth_lib \<Rightarrow> string \<Rightarrow> user_doc \<Rightarrow> bool" where
  "password_matches lib password d = (d_hashed_password d \<noteq> [] \<and> pw_verify lib password (d_hashed_password d))"

text \<open>A wrong password: count it, and lock the account at the threshold.\<close>

definition record_failure :: "auth_settings \<Rightarrow> instant \<Rightarrow> string \<Rightarrow> auth_state \<Rightarrow> auth_state" where
  "record_failure cfg now username st =
     (let st1 = update_user username (\<lambda>d. d\<lparr>d_failed_login_attempts := d_failed_login_attempts d + 1\<rparr>) st;
          new_count = (case find_user username st1 of Some d \<Rightarrow> d_failed_login_attempts d | None \<Rightarrow> 1)
      in if account_lockout_threshold cfg \<le> new_count
         then update_user username (\<lambda>d. d\<lparr>d_locked_until := Some (now + minutes (account_lockout_duration_minutes cfg))\<rparr>) st1
         else st1)"

definition authenticate_user ::
  "'tok auth_lib \<Rightarrow> auth_settings \<Rightarrow> (auth_state \<Rightarrow> auth_state) \<Rightarrow> instant \<Rightarrow> string \<Rightarrow> string
    \<Rightarrow> auth_state \<Rightarrow> user option \<times> auth_state" where
  "authenticate_user lib cfg others now username password st =
     (case find_user username st of
        None \<Rightarrow> (None, st)
      | Some doc \<Rightarrow>
          if locked_at now doc then (None, st)
          else if \<not> password_matches lib password doc then (None, record_failure cfg now username (others st))
          else (Some (doc_to_user lib doc),
                if 0 < d_failed_login_attempts doc
                then update_user username (\<lambda>d. d\<lparr>d_failed_login_attempts := 0, d_locked_until := None\<rparr>) (others st)
                else others st))"

definition record_login_metadata ::
  "instant \<Rightarrow> string \<Rightarrow> string \<Rightarrow> string \<Rightarrow> auth_state \<Rightarrow> bool \<times> auth_state" where
  "record_login_metadata now username ip agent st =
     (case find_user username st of
        None \<Rightarrow> (False, st)
      | Some doc \<Rightarrow>
          (let known = d_known_user_agents doc; new_device = \<not> List.member known agent
           in (new_device, update_user username (\<lambda>d. d\<lparr>d_last_login_ip := Some ip, d_last_login_at := Some now,
                 d_known_user_agents := (if new_device \<and> length known < 50 \<and> \<not> List.member (d_known_user_agents d) agent
                   then d_known_user_agents d @ [agent] else d_known_user_agents d)\<rparr>) st)))"

definition check_password_history :: "'tok auth_lib \<Rightarrow> string \<Rightarrow> (string \<times> instant) list \<Rightarrow> bool" where
  "check_password_history lib password history =
     list_ex (\<lambda>(h, _). h \<noteq> [] \<and> pw_verify lib password h) history"

definition update_user_role :: "string \<Rightarrow> user_role \<Rightarrow> auth_state \<Rightarrow> auth_state" where
  "update_user_role username role = update_user username (\<lambda>d. d\<lparr>d_role := Some role\<rparr>)"

definition update_user_disabled :: "string \<Rightarrow> bool \<Rightarrow> account_status \<Rightarrow> auth_state \<Rightarrow> auth_state" where
  "update_user_disabled username dis s = update_user username (\<lambda>d. d\<lparr>d_disabled := dis, d_status := Some s\<rparr>)"

definition update_user_status :: "string \<Rightarrow> account_status \<Rightarrow> bool \<Rightarrow> auth_state \<Rightarrow> auth_state" where
  "update_user_status username s dis = update_user username (\<lambda>d. d\<lparr>d_status := Some s, d_disabled := dis\<rparr>)"

definition soft_delete_user :: "instant \<Rightarrow> string \<Rightarrow> auth_state \<Rightarrow> auth_state" where
  "soft_delete_user now username =
     update_user username (\<lambda>d. d\<lparr>d_status := Some Deleted, d_disabled := True, d_deleted_at := Some now\<rparr>)"

definition activate_totp :: "string \<Rightarrow> auth_state \<Rightarrow> auth_state" where
  "activate_totp username = update_user username (\<lambda>d. d\<lparr>d_totp_enabled := True\<rparr>)"

definition change_user_password :: "instant \<Rightarrow> string \<Rightarrow> string \<Rightarrow> (string \<times> instant) list \<Rightarrow> auth_state \<Rightarrow> auth_state" where
  "change_user_password now username new_hash history =
     update_user username (\<lambda>d. d\<lparr>d_hashed_password := new_hash, d_password_history := history, d_password_changed_at := Some now\<rparr>)"

definition list_users :: "nat \<Rightarrow> nat \<Rightarrow> auth_state \<Rightarrow> user_doc list \<times> nat" where
  "list_users skip limit st = (take limit (drop skip (sort_key d_username (users st))), length (users st))"

text \<open>The unique indexes on user names and addresses.\<close>

datatype duplicate_key = DuplicateUsername | DuplicateEmail

definition create_user :: "user_doc \<Rightarrow> auth_state \<Rightarrow> (duplicate_key + string) \<times> auth_state" where
  "create_user doc st =
     (if List.member (map d_username (users st)) (d_username doc) then (Inl DuplicateUsername, st)
      else if List.member (map d_email (users st)) (d_email doc) then (Inl DuplicateEmail, st)
      else (Inr (d_id doc), st\<lparr>users := users st @ [doc]\<rparr>))"

text \<open>
  \<open>first_user.py\<close>. Once claimed, the upsert collides with the existing document and raises
  \<open>DuplicateKeyError\<close>, which is caught.
\<close>

definition claim_first_user :: "auth_settings \<Rightarrow> string \<Rightarrow> auth_state \<Rightarrow> user_role \<times> auth_state" where
  "claim_first_user cfg username st =
     (case first_user_claimed st of
        None \<Rightarrow> (if is_onprem cfg then Admin else SuperAdmin, st\<lparr>first_user_claimed := Some username\<rparr>)
      | Some _ \<Rightarrow> (Viewer, st))"

end
