(* ===== verification/AuthRoutes.thy ===== *)
theory AuthRoutes
  imports AuthTokens
begin

text \<open>
  \<open>backend/middleware/auth.py\<close> and the handlers of \<open>backend/domains/auth/router.py\<close> that change the state.
  A handler returns the status code and the detail of the \<open>HTTPException\<close> that it raises, or its response.
  The verdicts of the per-address limiters (\<open>RateLimit\<close>) are arguments, as are the client's address, its
  user agent and the tenant of the request.
\<close>

datatype http_error = HTTPException nat string | TokenRejected nat token_error

section \<open>middleware/auth.py\<close>

definition get_current_user :: "'tok auth_lib \<Rightarrow> instant \<Rightarrow> 'tok \<Rightarrow> auth_state \<Rightarrow> http_error + token_payload" where
  "get_current_user lib now tok st =
     (case verify_token lib now tok of
        Inl err \<Rightarrow> Inl (TokenRejected 401 err)
      | Inr p \<Rightarrow>
          if is_user_revoked (p_sub p) st then Inl (HTTPException 401 ''Account has been disabled'')
          else (case nonempty (p_sid p) of
                  Some sid \<Rightarrow> if is_session_revoked sid st then Inl (HTTPException 401 ''Session has been revoked'') else Inr p
                | None \<Rightarrow> Inr p))"

definition require_role :: "user_role list \<Rightarrow> token_payload \<Rightarrow> http_error + token_payload" where
  "require_role roles p =
     (if p_role p = role_value SuperAdmin then Inr p
      else if \<not> List.member (map role_value roles) (p_role p) then Inl (HTTPException 403 ''Insufficient permissions'')
      else Inr p)"

definition require_platform_role :: "auth_settings \<Rightarrow> token_payload \<Rightarrow> http_error + token_payload" where
  "require_platform_role cfg p =
     (let required = (if is_onprem cfg then Admin else SuperAdmin)
      in if p_role p = role_value SuperAdmin then Inr p
         else if p_role p \<noteq> role_value required then Inl (HTTPException 403 ''Insufficient permissions'')
         else Inr p)"

section \<open>Login\<close>

record fresh_ids =
  i_token :: string
  i_family :: string
  i_session :: string
  i_jti :: string

definition issue_tokens_with_session ::
  "'tok auth_lib \<Rightarrow> auth_settings \<Rightarrow> instant \<Rightarrow> fresh_ids \<Rightarrow> string \<Rightarrow> string \<Rightarrow> string option \<Rightarrow> user
    \<Rightarrow> auth_state \<Rightarrow> ('tok \<times> 'tok) \<times> auth_state" where
  "issue_tokens_with_session lib cfg now ids ip agent req_tenant u st =
     (let ua = take 500 agent;
          ((refresh, family), st1) =
            create_refresh_token lib cfg now (i_token ids) (i_family ids) (u_username u) (role_value (u_role u)) None st;
          (session, st2) = create_session cfg now (i_session ids) (u_id u) (u_username u) (u_tenant_id u) ip ua family st1;
          tenant = (case nonempty (u_tenant_id u) of Some t \<Rightarrow> Some t | None \<Rightarrow> req_tenant);
          access = create_access_token lib cfg now (i_jti ids) (u_username u) (role_value (u_role u)) None
            (Some (s_session_id session)) tenant;
          (new_device, st3) = record_login_metadata now (u_username u) ip ua st2;
          st4 = (if new_device then log_auth (u_username u) ''auth.new_device_detected'' True st3 else st3)
      in ((access, refresh), st4))"

text \<open>The account states that may not log in, and the text shown for them.\<close>

definition login_blocked :: "user \<Rightarrow> bool" where
  "login_blocked u = (u_disabled u \<or> u_status u \<in> {Suspended, Deactivated, Deleted})"

definition blocked_detail :: "user \<Rightarrow> string" where
  "blocked_detail u =
     (if u_status u = Suspended then ''Account is suspended - contact your administrator''
      else if u_status u = Invited then ''Account has not been activated - check your invitation''
      else ''Account is disabled'')"

definition login ::
  "'tok auth_lib \<Rightarrow> auth_settings \<Rightarrow> (auth_state \<Rightarrow> auth_state) \<Rightarrow> instant \<Rightarrow> fresh_ids \<Rightarrow> string \<Rightarrow> string
    \<Rightarrow> string option \<Rightarrow> string \<Rightarrow> string \<Rightarrow> string option \<Rightarrow> auth_state \<Rightarrow> (http_error + 'tok \<times> 'tok) \<times> auth_state" where
  "login lib cfg others now ids ip agent tenant username password totp_code st =
     (case authenticate_user lib cfg others now username password st of
        (None, st1) \<Rightarrow>
          (Inl (HTTPException 401 ''Incorrect username or password''), log_auth username ''auth.login_failed'' False st1)
      | (Some u, st1) \<Rightarrow>
          if login_blocked u
          then (Inl (HTTPException 403 (blocked_detail u)), log_auth username ''auth.login_failed'' False st1)
          else if u_totp_enabled u \<and> nonempty totp_code = None
          then (Inl (HTTPException 401 ''requires_totp''), st1)
          else if u_totp_enabled u \<and> \<not> (case (nonempty (u_totp_secret u), totp_code) of
                  (Some s, Some code) \<Rightarrow> totp_verify lib now s code | _ \<Rightarrow> False)
          then (Inl (HTTPException 401 ''Invalid TOTP code''), log_auth (u_username u) ''auth.totp_verify_failed'' False st1)
          else (let (toks, st2) = issue_tokens_with_session lib cfg now ids ip agent tenant u st1
                in (Inr toks, log_auth (u_username u) ''auth.login'' True st2)))"

section \<open>Refresh and logout\<close>

definition refresh_route ::
  "'tok auth_lib \<Rightarrow> auth_settings \<Rightarrow> bool \<Rightarrow> (nat \<Rightarrow> auth_state \<Rightarrow> auth_state) \<Rightarrow> instant \<Rightarrow> string \<Rightarrow> string
    \<Rightarrow> 'tok \<Rightarrow> auth_state \<Rightarrow> (http_error + 'tok \<times> 'tok) \<times> auth_state" where
  "refresh_route lib cfg limited others now jti new_id tok st =
     (if limited then (Inl (HTTPException 429 ''Rate limit exceeded''), st)
      else (case rotate_refresh_token lib cfg others now jti new_id tok None st of
              (Inl err, st1) \<Rightarrow> (Inl (TokenRejected 401 err), log_auth ''unknown'' ''auth.token_refresh_failed'' False st1)
            | (Inr toks, st1) \<Rightarrow> (Inr toks, st1)))"

definition logout :: "'tok auth_lib \<Rightarrow> instant \<Rightarrow> 'tok \<Rightarrow> auth_state \<Rightarrow> auth_state" where
  "logout lib now tok st =
     (let (actor, st1) =
        (case jwt_decode lib None None False now tok of
           None \<Rightarrow> (''unknown'', st)
         | Some p \<Rightarrow>
             ((case c_sub p of Some s \<Rightarrow> s | None \<Rightarrow> ''unknown''),
              (case nonempty (c_fam p) of
                 None \<Rightarrow> st
               | Some family \<Rightarrow>
                   (case find_active_session_by_family family st of
                      Some sid \<Rightarrow> if sid = [] then st else snd (revoke_session now sid ''logout'' st)
                    | None \<Rightarrow> st))))
      in log_auth actor ''auth.logout'' True (snd (revoke_family lib now tok st1)))"

definition logout_all :: "instant \<Rightarrow> token_payload \<Rightarrow> auth_state \<Rightarrow> auth_state" where
  "logout_all now p st =
     log_auth (p_sub p) ''auth.logout_all'' True
       (snd (revoke_all_user_sessions now (p_sub p) ''logout_all'' None (snd (revoke_user_tokens (p_sub p) st))))"

section \<open>Passwords and enrolment\<close>

record password_policy =
  password_min_length :: int
  password_history_count :: int
  password_check_breached :: bool

text \<open>\<open>history[: count - 1]\<close>: with a count of zero the slice drops the last entry.\<close>

definition next_history :: "int \<Rightarrow> string \<times> instant \<Rightarrow> (string \<times> instant) list \<Rightarrow> (string \<times> instant) list" where
  "next_history n entry history =
     entry # (if 1 \<le> n then take (nat (n - 1)) history else take (length history - nat (1 - n)) history)"

definition change_password ::
  "'tok auth_lib \<Rightarrow> password_policy \<Rightarrow> bool \<Rightarrow> instant \<Rightarrow> string \<Rightarrow> token_payload \<Rightarrow> string \<Rightarrow> string
    \<Rightarrow> auth_state \<Rightarrow> (http_error + unit) \<times> auth_state" where
  "change_password lib pol limited now salt p current_password new_password st =
     (if limited then (Inl (HTTPException 429 ''Rate limit exceeded''), st)
      else (case get_user_by_username lib (p_sub p) st of
              None \<Rightarrow> (Inl (HTTPException 404 ''User not found''), st)
            | Some u \<Rightarrow>
                if u_hashed_password u = [] \<or> \<not> pw_verify lib current_password (u_hashed_password u)
                then (Inl (HTTPException 401 ''Current password is incorrect''),
                      log_auth (p_sub p) ''auth.password_change_failed'' False st)
                else if int (length new_password) < password_min_length pol
                then (Inl (HTTPException 400 (''Password must be at least '' @ int_str (password_min_length pol) @ '' characters'')), st)
                else if 0 < password_history_count pol \<and> check_password_history lib new_password (u_password_history u)
                then (Inl (HTTPException 400 (''Cannot reuse any of your last '' @ int_str (password_history_count pol) @ '' passwords'')), st)
                else if password_check_breached pol \<and> breached lib new_password
                then (Inl (HTTPException 400 ''This password has been found in a data breach''), st)
                else (let history = next_history (password_history_count pol) (u_hashed_password u, now) (u_password_history u);
                          st1 = change_user_password now (p_sub p) (pw_hash lib salt new_password) history st;
                          st2 = snd (revoke_all_user_sessions now (p_sub p) ''password_changed'' (p_sid p) st1)
                      in (Inr (), log_auth (p_sub p) ''auth.password_changed'' True st2))))"

definition new_user_doc :: "'tok auth_lib \<Rightarrow> instant \<Rightarrow> string \<Rightarrow> string \<Rightarrow> string \<Rightarrow> string \<Rightarrow> string \<Rightarrow> user_role \<Rightarrow> string \<Rightarrow> user_doc" where
  "new_user_doc lib now oid salt username email password role totp_secret =
     \<lparr>d_id = oid, d_username = username, d_email = email, d_role = Some role, d_disabled = False, d_status = Some Active,
      d_hashed_password = pw_hash lib salt password, d_totp_secret = Some (field_encrypt lib totp_secret),
      d_totp_enabled = False, d_tenant_id = None, d_password_history = [], d_password_changed_at = Some now,
      d_failed_login_attempts = 0, d_locked_until = None, d_known_user_agents = [], d_last_login_ip = None,
      d_last_login_at = None, d_deleted_at = None\<rparr>"

definition register ::
  "'tok auth_lib \<Rightarrow> auth_settings \<Rightarrow> password_policy \<Rightarrow> bool \<Rightarrow> instant \<Rightarrow> string \<Rightarrow> string \<Rightarrow> string
    \<Rightarrow> string \<Rightarrow> string \<Rightarrow> string \<Rightarrow> auth_state \<Rightarrow> (http_error + string \<times> user_role) \<times> auth_state" where
  "register lib cfg pol limited now oid salt totp_secret username email password st =
     (if limited then (Inl (HTTPException 429 ''Rate limit exceeded''), st)
      else if int (length password) < password_min_length pol
      then (Inl (HTTPException 400 (''Password must be at least '' @ int_str (password_min_length pol) @ '' characters'')), st)
      else if password_check_breached pol \<and> breached lib password
      then (Inl (HTTPException 400 ''This password has been found in a data breach''), st)
      else (case get_user_by_username lib username st of
              Some _ \<Rightarrow> (Inl (HTTPException 409 ''Username is already taken''), st)
            | None \<Rightarrow>
                (let (role, st1) = claim_first_user cfg username st
                 in case create_user (new_user_doc lib now oid salt username email password role totp_secret) st1 of
                      (Inl DuplicateEmail, st2) \<Rightarrow> (Inl (HTTPException 409 ''Email is already registered''), st2)
                    | (Inl DuplicateUsername, st2) \<Rightarrow> (Inl (HTTPException 409 ''Username is already taken''), st2)
                    | (Inr i, st2) \<Rightarrow> (Inr (i, role), log_auth username ''auth.registered'' True st2))))"

definition verify_totp_setup ::
  "'tok auth_lib \<Rightarrow> auth_settings \<Rightarrow> bool \<Rightarrow> instant \<Rightarrow> fresh_ids \<Rightarrow> string \<Rightarrow> string \<Rightarrow> string option
    \<Rightarrow> string \<Rightarrow> string \<Rightarrow> string \<Rightarrow> auth_state \<Rightarrow> (http_error + 'tok \<times> 'tok) \<times> auth_state" where
  "verify_totp_setup lib cfg limited now ids ip agent tenant username password code st =
     (if limited then (Inl (HTTPException 429 ''Rate limit exceeded''), st)
      else (case get_user_by_username lib username st of
              None \<Rightarrow> (Inl (HTTPException 404 ''User not found''), st)
            | Some u \<Rightarrow>
                if u_hashed_password u = [] \<or> \<not> pw_verify lib password (u_hashed_password u)
                then (Inl (HTTPException 401 ''Invalid password''), st)
                else if u_totp_enabled u then (Inl (HTTPException 409 ''TOTP is already enabled for this account''), st)
                else (case nonempty (u_totp_secret u) of
                        None \<Rightarrow> (Inl (HTTPException 400 ''No TOTP secret configured - re-register''), st)
                      | Some secret \<Rightarrow>
                          if \<not> totp_verify lib now secret code
                          then (Inl (HTTPException 401 ''Invalid TOTP code - please try again''),
                                log_auth (u_username u) ''auth.totp_verify_failed'' False st)
                          else (let st1 = log_auth username ''auth.totp_activated'' True (activate_totp username st);
                                    (toks, st2) = issue_tokens_with_session lib cfg now ids ip agent tenant u st1
                                in (Inr toks, st2)))))"

section \<open>Session management\<close>

definition revoke_single_session :: "instant \<Rightarrow> token_payload \<Rightarrow> string \<Rightarrow> auth_state \<Rightarrow> (http_error + unit) \<times> auth_state" where
  "revoke_single_session now p session_id st =
     (case get_session session_id st of
        None \<Rightarrow> (Inl (HTTPException 404 ''Session not found''), st)
      | Some s \<Rightarrow>
          if s_username s \<noteq> p_sub p then (Inl (HTTPException 404 ''Session not found''), st)
          else (case revoke_session now session_id ''user_revoked'' st of
                  (False, st1) \<Rightarrow> (Inl (HTTPException 404 ''Session not found or already revoked''), st1)
                | (True, st1) \<Rightarrow> (Inr (), log_auth (p_sub p) ''auth.session_revoked'' True st1)))"

definition revoke_other_sessions :: "instant \<Rightarrow> token_payload \<Rightarrow> auth_state \<Rightarrow> auth_state" where
  "revoke_other_sessions now p st =
     log_auth (p_sub p) ''auth.sessions_revoked_all'' True
       (snd (revoke_all_user_sessions now (p_sub p) ''user_revoked_others'' (p_sid p) st))"

definition admin_revoke_sessions :: "instant \<Rightarrow> token_payload \<Rightarrow> string \<Rightarrow> auth_state \<Rightarrow> (http_error + unit) \<times> auth_state" where
  "admin_revoke_sessions now p username st =
     (case require_role [Admin] p of
        Inl err \<Rightarrow> (Inl err, st)
      | Inr _ \<Rightarrow>
          (let st1 = snd (revoke_all_user_sessions now username ''admin_revoked'' None st);
               st2 = snd (revoke_user_tokens username st1)
           in (Inr (), log_auth (p_sub p) ''auth.admin_sessions_revoked'' True st2)))"

section \<open>User management\<close>

text \<open>The end of every change that takes rights away: no refresh token and no active session is left.\<close>

definition cut_off :: "instant \<Rightarrow> string \<Rightarrow> string \<Rightarrow> auth_state \<Rightarrow> auth_state" where
  "cut_off now username reason st =
     snd (revoke_all_user_sessions now username reason None (snd (revoke_user_tokens username st)))"

definition protected_from :: "token_payload \<Rightarrow> user \<Rightarrow> bool" where
  "protected_from p u = (u_role u \<in> {Admin, SuperAdmin} \<and> p_role p \<noteq> role_value SuperAdmin)"

definition update_user_role_route ::
  "'tok auth_lib \<Rightarrow> instant \<Rightarrow> token_payload \<Rightarrow> string \<Rightarrow> user_role \<Rightarrow> auth_state \<Rightarrow> (http_error + user) \<times> auth_state" where
  "update_user_role_route lib now p username role st =
     (case require_role [Admin] p of
        Inl err \<Rightarrow> (Inl err, st)
      | Inr _ \<Rightarrow>
          if username = p_sub p then (Inl (HTTPException 400 ''Cannot change your own role''), st)
          else if role = SuperAdmin \<and> p_role p \<noteq> role_value SuperAdmin
          then (Inl (HTTPException 403 ''Only super_admin can escalate to super_admin role''), st)
          else (case get_user_by_username lib username st of
                  None \<Rightarrow> (Inl (HTTPException 404 ''User not found''), st)
                | Some u \<Rightarrow>
                    if protected_from p u
                    then (Inl (HTTPException 403 ''Only super_admin can modify admin or super_admin roles''), st)
                    else (Inr (u\<lparr>u_role := role\<rparr>), log_auth (p_sub p) ''auth.role_changed'' True
                           (cut_off now username ''role_changed'' (update_user_role username role st)))))"

definition update_user_disabled_route ::
  "'tok auth_lib \<Rightarrow> instant \<Rightarrow> token_payload \<Rightarrow> string \<Rightarrow> bool \<Rightarrow> auth_state \<Rightarrow> (http_error + user) \<times> auth_state" where
  "update_user_disabled_route lib now p username dis st =
     (case require_role [Admin] p of
        Inl err \<Rightarrow> (Inl err, st)
      | Inr _ \<Rightarrow>
          if username = p_sub p then (Inl (HTTPException 400 ''Cannot disable or enable your own account''), st)
          else (case get_user_by_username lib username st of
                  None \<Rightarrow> (Inl (HTTPException 404 ''User not found''), st)
                | Some u \<Rightarrow>
                    if protected_from p u
                    then (Inl (HTTPException 403 ''Only super_admin can disable or enable admin/super_admin users''), st)
                    else (let new_status = (if dis then Deactivated else Active);
                              st1 = update_user_disabled username dis new_status st;
                              st2 = (if dis then mark_user_revoked username (cut_off now username ''account_disabled'' st1)
                                     else mark_user_restored username st1)
                          in (Inr (u\<lparr>u_disabled := dis, u_status := new_status\<rparr>),
                              log_auth (p_sub p) (if dis then ''auth.user_disabled'' else ''auth.user_enabled'') True st2))))"

definition non_active :: "account_status set" where
  "non_active = {Suspended, Deactivated, Deleted}"

definition valid_transitions :: "account_status \<Rightarrow> account_status set" where
  "valid_transitions s = (case s of Active \<Rightarrow> non_active | Invited \<Rightarrow> {Active, Deleted}
     | Suspended \<Rightarrow> {Active} \<union> non_active | Deactivated \<Rightarrow> {Active, Deleted} | Deleted \<Rightarrow> {})"

definition update_user_status_route ::
  "'tok auth_lib \<Rightarrow> instant \<Rightarrow> token_payload \<Rightarrow> string \<Rightarrow> account_status \<Rightarrow> auth_state \<Rightarrow> (http_error + user) \<times> auth_state" where
  "update_user_status_route lib now p username new_status st =
     (case require_role [Admin] p of
        Inl err \<Rightarrow> (Inl err, st)
      | Inr _ \<Rightarrow>
          if username = p_sub p then (Inl (HTTPException 400 ''Cannot change your own account status''), st)
          else (case get_user_by_username lib username st of
                  None \<Rightarrow> (Inl (HTTPException 404 ''User not found''), st)
                | Some u \<Rightarrow>
                    if protected_from p u
                    then (Inl (HTTPException 403 ''Only super_admin can change admin/super_admin user status''), st)
                    else if new_status \<notin> valid_transitions (u_status u)
                    then (Inl (HTTPException 400 (''Cannot transition from '' @ status_value (u_status u) @ '' to '' @
                            status_value new_status)), st)
                    else (let dis = (new_status \<in> non_active);
                              st1 = update_user_status username new_status dis st;
                              st2 = (if dis then mark_user_revoked username
                                       (cut_off now username (''status_changed_'' @ status_value new_status) st1)
                                     else mark_user_restored username st1)
                          in (Inr (u\<lparr>u_disabled := dis, u_status := new_status\<rparr>),
                              log_auth (p_sub p) (''auth.user_'' @ status_value new_status) True st2))))"

definition delete_user_route ::
  "'tok auth_lib \<Rightarrow> instant \<Rightarrow> token_payload \<Rightarrow> string \<Rightarrow> auth_state \<Rightarrow> (http_error + unit) \<times> auth_state" where
  "delete_user_route lib now p username st =
     (case require_role [Admin] p of
        Inl err \<Rightarrow> (Inl err, st)
      | Inr _ \<Rightarrow>
          if username = p_sub p then (Inl (HTTPException 400 ''Cannot delete your own account''), st)
          else (case get_user_by_username lib username st of
                  None \<Rightarrow> (Inl (HTTPException 404 ''User not found''), st)
                | Some u \<Rightarrow>
                    if protected_from p u then (Inl (HTTPException 403 ''Only super_admin can delete admin accounts''), st)
                    else (Inr (), log_auth (p_sub p) ''auth.user_deleted'' True
                           (mark_user_revoked username (cut_off now username ''account_deleted''
                             (soft_delete_user now username st))))))"

end
