(* ===== verification/AuthSteps.thy ===== *)
theory AuthSteps
  imports AuthRoutes
begin

text \<open>
  The authentication domain as a state machine: one step is one database call or one change of a cache, by any
  worker. Every operation of the services and every handler is a sequence of such steps, so whatever the
  other workers do between two calls of an operation is one, too. \<open>A\<close> is a set of identifiers that no newly
  drawn random identifier is in.
\<close>

inductive db_step :: "string set \<Rightarrow> auth_state \<Rightarrow> auth_state \<Rightarrow> bool" for A where
  insert_token: "t_token_id t \<notin> A \<Longrightarrow> db_step A st (st\<lparr>refresh_tokens := refresh_tokens st @ [t]\<rparr>)"
| mark_token: "db_step A st
    (st\<lparr>refresh_tokens := update_first (\<lambda>t. t_token_id t = i \<and> \<not> t_used t) (\<lambda>t. t\<lparr>t_used := True\<rparr>) (refresh_tokens st)\<rparr>)"
| delete_tokens: "db_step A st (st\<lparr>refresh_tokens := delete_many P (refresh_tokens st)\<rparr>)"
| insert_session: "s_session_id s \<notin> A \<Longrightarrow> db_step A st (st\<lparr>sessions := sessions st @ [s]\<rparr>)"
| revoke_one: "db_step A st (st\<lparr>sessions := update_first P (deactivate now reason) (sessions st)\<rparr>)"
| revoke_many: "db_step A st (st\<lparr>sessions := update_many P (deactivate now reason) (sessions st)\<rparr>)"
| touch_session: "db_step A st (st\<lparr>sessions := update_first P (\<lambda>s. s\<lparr>s_last_active_at := now\<rparr>) (sessions st)\<rparr>)"
| delete_sessions: "db_step A st (st\<lparr>sessions := delete_many Q (sessions st)\<rparr>)"
| change_user: "(\<And>d. d_username (f d) = d_username d) \<Longrightarrow> db_step A st (update_user username f st)"
| insert_user: "db_step A st (st\<lparr>users := users st @ [d]\<rparr>)"
| claim: "db_step A st (st\<lparr>first_user_claimed := c\<rparr>)"
| cache_sessions: "db_step A st (st\<lparr>revoked_session_ids := ids\<rparr>)"
| cache_users: "db_step A st (st\<lparr>revoked_usernames := names\<rparr>)"
| record_event: "db_step A st (st\<lparr>auth_log := auth_log st @ [e]\<rparr>)"

abbreviation db_steps :: "string set \<Rightarrow> auth_state \<Rightarrow> auth_state \<Rightarrow> bool" where
  "db_steps A \<equiv> (db_step A)\<^sup>*\<^sup>*"

inductive_cases db_stepE: "db_step A st st'"

lemmas one_step = r_into_rtranclp [where r = "db_step A" for A]

section \<open>The services are sequences of steps\<close>

lemma log_auth_steps: "db_steps A st (log_auth actor action success st)"
  unfolding log_auth_def by (rule one_step) (rule record_event)

lemma update_user_steps: "(\<And>d. d_username (f d) = d_username d) \<Longrightarrow> db_steps A st (update_user username f st)"
  by (rule one_step) (rule change_user)

lemma then_update_user:
  "db_steps A st st' \<Longrightarrow> (\<And>d. d_username (f d) = d_username d) \<Longrightarrow> db_steps A st (update_user username f st')"
  by (rule rtranclp_trans [OF _ update_user_steps])

lemma then_log_auth: "db_steps A st st' \<Longrightarrow> db_steps A st (log_auth actor action success st')"
  by (rule rtranclp_trans [OF _ log_auth_steps])

lemma delete_families_steps: "db_steps A st (delete_families fams st)"
  unfolding delete_families_def by (rule one_step) (rule delete_tokens)

lemma mark_session_steps: "db_steps A st (mark_session_revoked sid st)" "db_steps A st (mark_sessions_revoked sids st)"
  unfolding mark_session_revoked_def mark_sessions_revoked_def by (rule one_step, rule cache_sessions)+

lemma mark_user_steps: "db_steps A st (mark_user_revoked u st)" "db_steps A st (mark_user_restored u st)"
  unfolding mark_user_revoked_def mark_user_restored_def by (rule one_step, rule cache_users)+

lemma refresh_cache_steps:
  "db_steps A st (refresh_revoked_sessions q now st)" "db_steps A st (refresh_revoked_users q st)"
  unfolding refresh_revoked_sessions_def refresh_revoked_users_def
  by (auto intro: one_step cache_sessions cache_users)

lemma create_session_steps:
  "sid \<notin> A \<Longrightarrow> db_steps A st (snd (create_session cfg now sid uid un tid ip ua fam st))"
  unfolding create_session_def Let_def by (auto intro!: one_step insert_session)

lemma create_refresh_token_steps:
  "tid \<notin> A \<Longrightarrow> db_steps A st (snd (create_refresh_token lib cfg now tid nf un role fam st))"
  unfolding create_refresh_token_def Let_def by (auto intro!: one_step insert_token)

lemma revoke_user_tokens_steps: "db_steps A st (snd (revoke_user_tokens username st))"
  unfolding revoke_user_tokens_def by (auto intro!: one_step delete_tokens)

lemma revoke_family_steps: "db_steps A st (snd (revoke_family lib now tok st))"
  unfolding revoke_family_def by (auto intro: delete_families_steps split: option.split)

lemma steps_if: "db_steps A st t \<Longrightarrow> db_steps A st u \<Longrightarrow> db_steps A st (if b then t else u)"
  by simp

lemma revoke_session_steps: "db_steps A st (snd (revoke_session now sid reason st))"
proof -
  let ?hit = "\<lambda>s. s_session_id s = sid \<and> s_is_active s"
  have 1: "db_steps A st (st\<lparr>sessions := update_first ?hit (deactivate now reason) (sessions st)\<rparr>)"
    by (rule one_step) (rule revoke_one)
  show ?thesis
    unfolding revoke_session_def Let_def
    by (auto split: option.split
        intro: rtranclp_trans [OF 1] rtranclp_trans [OF delete_families_steps] mark_session_steps)
qed

lemma revoke_all_steps: "db_steps A st (snd (revoke_all_user_sessions now username reason exclude st))"
proof -
  have 1: "db_steps A st (st\<lparr>sessions := update_many P (deactivate now reason) (sessions st)\<rparr>)" for P
    by (rule one_step) (rule revoke_many)
  show ?thesis
    unfolding revoke_all_user_sessions_def Let_def
    by (auto intro: rtranclp_trans [OF 1] rtranclp_trans [OF delete_families_steps] mark_session_steps)
qed

lemma cleanup_steps: "db_steps A st (snd (cleanup_expired_sessions now st))"
  unfolding cleanup_expired_sessions_def Let_def
  by (auto intro: rtranclp_trans [OF one_step [OF revoke_many]]
      one_step [OF delete_sessions [of A "st\<lparr>sessions := s\<rparr>" for s], simplified])

lemma ttl_steps: "db_steps A st (ttl_expire now st)"
  unfolding ttl_expire_def
  using rtranclp_trans [OF one_step [OF delete_sessions [of A st "\<lambda>s. s_expires_at s < now"]]
      one_step [OF delete_tokens [of A _ "\<lambda>t. t_expires_at t < now"]]] by simp

lemma activity_steps: "db_steps A st (update_session_activity now sid st)"
  unfolding update_session_activity_def by (rule one_step) (rule touch_session)

section \<open>Authentication, tokens and handlers are sequences of steps\<close>

lemma user_update_steps:
  "db_steps A st (update_user_role u r st)" "db_steps A st (update_user_disabled u b s st)"
  "db_steps A st (update_user_status u s b st)" "db_steps A st (soft_delete_user now u st)"
  "db_steps A st (activate_totp u st)" "db_steps A st (change_user_password now u h hs st)"
  by (simp_all add: update_user_role_def update_user_disabled_def update_user_status_def soft_delete_user_def
      activate_totp_def change_user_password_def update_user_steps)

lemma record_failure_steps: "db_steps A st (record_failure cfg now username st)"
proof -
  have 1: "db_steps A st (update_user username (\<lambda>d. d\<lparr>d_failed_login_attempts := d_failed_login_attempts d + 1\<rparr>) st)"
    by (rule update_user_steps) simp
  show ?thesis
    unfolding record_failure_def Let_def by (auto intro: 1 then_update_user)
qed

lemma authenticate_steps:
  assumes "\<And>s. db_steps A s (others s)"
  shows "db_steps A st (snd (authenticate_user lib cfg others now username password st))"
  unfolding authenticate_user_def
  by (auto split: option.split intro: assms rtranclp_trans [OF assms] record_failure_steps then_update_user)

lemma metadata_steps: "db_steps A st (snd (record_login_metadata now u ip ua st))"
  unfolding record_login_metadata_def Let_def by (auto split: option.split intro: update_user_steps)

lemma rotate_steps:
  assumes "\<And>i s. db_steps A s (others i s)" "new_id \<notin> A"
  shows "db_steps A st (snd (rotate_refresh_token lib cfg others now jti new_id tok sid st))"
proof -
  have 1: "db_steps A s (s\<lparr>refresh_tokens :=
      update_first (\<lambda>t. t_token_id t = i \<and> \<not> t_used t) (\<lambda>t. t\<lparr>t_used := True\<rparr>) (refresh_tokens s)\<rparr>)" for s i
    by (rule one_step) (rule mark_token)
  have 2: "db_steps A st (snd (rotate_stored lib cfg others now jti new_id tid fam u r sid st))" for tid fam u r
    unfolding rotate_stored_def Let_def split_def
    by (auto split: option.split
        intro: rtranclp_trans [OF 1] rtranclp_trans [OF assms(1)] delete_families_steps
          create_refresh_token_steps [OF assms(2)])
  show ?thesis
    unfolding rotate_refresh_token_def by (auto split: option.split intro: 2)
qed

lemma issue_steps:
  assumes "i_token ids \<notin> A" "i_session ids \<notin> A"
  shows "db_steps A st (snd (issue_tokens_with_session lib cfg now ids ip ua ten u st))"
  unfolding issue_tokens_with_session_def Let_def split_def
  by (auto intro!: log_auth_steps metadata_steps
      intro: rtranclp_trans [OF create_refresh_token_steps [OF assms(1)]]
        rtranclp_trans [OF create_session_steps [OF assms(2)]] rtranclp_trans [OF metadata_steps])

text \<open>The handlers.\<close>

lemma login_steps:
  assumes "\<And>s. db_steps A s (others s)" "i_token ids \<notin> A" "i_session ids \<notin> A"
  shows "db_steps A st (snd (login lib cfg others now ids ip agent tenant username password code st))"
proof -
  obtain r st1 where a: "authenticate_user lib cfg others now username password st = (r, st1)" by fastforce
  have "db_steps A st (snd (authenticate_user lib cfg others now username password st))"
    by (rule authenticate_steps [OF assms(1)])
  with a have 1: "db_steps A st st1" by simp
  show ?thesis
    unfolding login_def a Let_def split_def
    by (auto split: option.split
        intro!: then_log_auth rtranclp_trans [OF 1] issue_steps [OF assms(2,3)])
qed

lemma refresh_route_steps:
  assumes "\<And>i s. db_steps A s (others i s)" "new_id \<notin> A"
  shows "db_steps A st (snd (refresh_route lib cfg limited others now jti new_id tok st))"
proof -
  obtain r st1 where r: "rotate_refresh_token lib cfg others now jti new_id tok None st = (r, st1)" by fastforce
  have "db_steps A st (snd (rotate_refresh_token lib cfg others now jti new_id tok None st))"
    by (rule rotate_steps [OF assms])
  with r have "db_steps A st st1" by simp
  then show ?thesis by (auto simp: refresh_route_def r split: sum.split intro: then_log_auth)
qed

lemma logout_steps: "db_steps A st (logout lib now tok st)"
proof -
  have 1: "db_steps A st (snd (revoke_family lib now tok s))" if "db_steps A st s" for s
    by (rule rtranclp_trans [OF that revoke_family_steps])
  show ?thesis
    unfolding logout_def Let_def split_def
    by (auto split: option.split intro!: then_log_auth 1 revoke_session_steps)
qed

lemma logout_all_steps: "db_steps A st (logout_all now p st)"
  unfolding logout_all_def
  by (intro then_log_auth rtranclp_trans [OF revoke_user_tokens_steps revoke_all_steps])

lemma cut_off_steps: "db_steps A st (cut_off now username reason st)"
  unfolding cut_off_def by (rule rtranclp_trans [OF revoke_user_tokens_steps revoke_all_steps])

lemma change_password_steps: "db_steps A st (snd (change_password lib pol limited now salt p cur new st))"
  unfolding change_password_def Let_def
  by (auto split: option.split intro!: then_log_auth
      intro: rtranclp_trans [OF user_update_steps(6) revoke_all_steps])

lemma register_steps: "db_steps A st (snd (register lib cfg pol limited now oid salt sec un em pw st))"
proof -
  have 1: "db_steps A st (snd (claim_first_user cfg un st))"
    unfolding claim_first_user_def by (auto split: option.split intro: one_step claim)
  have 2: "db_steps A s (snd (create_user d s))" for d s
    unfolding create_user_def by (auto intro: one_step insert_user)
  obtain r s1 where c: "claim_first_user cfg un st = (r, s1)" by fastforce
  then have 3: "db_steps A st (snd (create_user d s1))" for d using rtranclp_trans [OF 1 2] by simp
  obtain x s2 where d: "create_user (new_user_doc lib now oid salt un em pw r sec) s1 = (x, s2)" by fastforce
  with 3 [of "new_user_doc lib now oid salt un em pw r sec"] have "db_steps A st s2" by simp
  then show ?thesis
    by (simp add: register_def c d then_log_auth split: option.split sum.split duplicate_key.split)
qed

lemma verify_totp_setup_steps:
  assumes "i_token ids \<notin> A" "i_session ids \<notin> A"
  shows "db_steps A st (snd (verify_totp_setup lib cfg limited now ids ip agent tenant un pw code st))"
  unfolding verify_totp_setup_def Let_def split_def
  by (auto split: option.split intro!: then_log_auth
      intro: rtranclp_trans [OF then_log_auth [OF user_update_steps(5)] issue_steps [OF assms]])

lemma session_route_steps:
  "db_steps A st (snd (revoke_single_session now p sid st))" "db_steps A st (revoke_other_sessions now p st)"
  "db_steps A st (snd (admin_revoke_sessions now p un st))"
proof -
  show "db_steps A st (snd (revoke_single_session now p sid st))"
    unfolding revoke_single_session_def
    using revoke_session_steps [of A st now sid "''user_revoked''"]
    by (cases "revoke_session now sid ''user_revoked'' st") (simp add: then_log_auth split: option.split bool.split)
  show "db_steps A st (revoke_other_sessions now p st)"
    unfolding revoke_other_sessions_def by (intro then_log_auth revoke_all_steps)
  show "db_steps A st (snd (admin_revoke_sessions now p un st))"
    unfolding admin_revoke_sessions_def Let_def
    by (auto split: sum.split intro!: then_log_auth rtranclp_trans [OF revoke_all_steps revoke_user_tokens_steps])
qed

lemma user_route_steps:
  "db_steps A st (snd (update_user_role_route lib now p un role st))"
  "db_steps A st (snd (update_user_disabled_route lib now p un dis st))"
  "db_steps A st (snd (update_user_status_route lib now p un new st))"
  "db_steps A st (snd (delete_user_route lib now p un st))"
  unfolding update_user_role_route_def update_user_disabled_route_def update_user_status_route_def
    delete_user_route_def Let_def
  by (auto split: sum.split option.split intro!: then_log_auth
      intro: rtranclp_trans [OF user_update_steps(1) cut_off_steps]
        rtranclp_trans [OF rtranclp_trans [OF user_update_steps(2) cut_off_steps] mark_user_steps(1)]
        rtranclp_trans [OF user_update_steps(2) mark_user_steps(2)]
        rtranclp_trans [OF rtranclp_trans [OF user_update_steps(3) cut_off_steps] mark_user_steps(1)]
        rtranclp_trans [OF user_update_steps(3) mark_user_steps(2)]
        rtranclp_trans [OF rtranclp_trans [OF user_update_steps(4) cut_off_steps] mark_user_steps(1)])

end
