(* ===== verification/AuthTheorems.thy ===== *)
theory AuthTheorems
  imports AuthSteps
begin

text \<open>The properties of tokens, sessions and accounts.\<close>

section \<open>The libraries, and an example\<close>

lemma jwt_stable:
  assumes "jwt_ok lib" "jwt_decode lib aud iss ve now tok = Some p" "jwt_decode lib aud iss ve now' tok = Some q"
  shows "p = q"
proof -
  have D: "\<And>n c. jwt_decode lib aud iss ve n tok = Some c \<longleftrightarrow>
      (\<exists>c0. tok = jwt_encode lib c0 \<and> c = wire c0 \<and> jwt_accepts aud iss ve n c)"
    using assms(1) by (simp add: jwt_ok_def)
  have "jwt_decode lib aud iss ve now' tok = Some p" if "now' \<le> now"
    using assms(2) that unfolding D by (fastforce simp: jwt_accepts_def split: option.splits)
  moreover have "jwt_decode lib aud iss ve now tok = Some q" if "now \<le> now'"
    using assms(3) that unfolding D by (fastforce simp: jwt_accepts_def split: option.splits)
  ultimately show ?thesis using assms(2,3) by (cases "now \<le> now'") auto
qed

lemma jwt_roundtrip: "jwt_ok lib \<Longrightarrow> jwt_accepts aud iss ve now (wire c) \<Longrightarrow> jwt_decode lib aud iss ve now (jwt_encode lib c) = Some (wire c)"
  by (auto simp: jwt_ok_def)

lemma wire_simps [simp]:
  "c_sub (wire c) = c_sub c" "c_role (wire c) = c_role c" "c_type (wire c) = c_type c" "c_jti (wire c) = c_jti c"
  "c_fam (wire c) = c_fam c" "c_sid (wire c) = c_sid c" "c_tenant_id (wire c) = c_tenant_id c"
  "c_iss (wire c) = c_iss c" "c_aud (wire c) = c_aud c"
  "c_exp (wire c) = map_option (\<lambda>e. seconds (e div 1000000)) (c_exp c)"
  by (simp_all add: wire_def)

lemma wire_exp: "e - seconds 1 < seconds (e div 1000000)"
  unfolding seconds_def by presburger

text \<open>A token that is its own claims, passwords that are their own hashes: a model of the libraries.\<close>

definition demo_lib :: "claims auth_lib" where
  "demo_lib = \<lparr>jwt_encode = id,
     jwt_decode = (\<lambda>aud iss ve now tok. if jwt_accepts aud iss ve now (wire tok) then Some (wire tok) else None),
     pw_verify = (\<lambda>p h. p = h), pw_hash = (\<lambda>_ p. p), totp_verify = (\<lambda>_ s code. s = code),
     field_encrypt = id, field_decrypt = id, breached = (\<lambda>_. False)\<rparr>"

lemma demo_lib_ok [simp]: "jwt_ok demo_lib"
  by (auto simp: jwt_ok_def demo_lib_def split: if_splits)

definition demo_settings :: auth_settings where
  "demo_settings = \<lparr>jwt_access_expire_minutes = 15, jwt_refresh_expire_days = 7, session_max_lifetime_days = 30,
     account_lockout_threshold = 5, account_lockout_duration_minutes = 15, is_onprem = True\<rparr>"

definition demo_doc :: "string \<Rightarrow> user_role \<Rightarrow> account_status \<Rightarrow> user_doc" where
  "demo_doc name role s = \<lparr>d_id = name, d_username = name, d_email = name, d_role = Some role,
     d_disabled = (s \<in> non_active), d_status = Some s, d_hashed_password = ''pw'', d_totp_secret = None, d_totp_enabled = False,
     d_tenant_id = None, d_password_history = [], d_password_changed_at = None, d_failed_login_attempts = 0,
     d_locked_until = None, d_known_user_agents = [''ua''], d_last_login_ip = None, d_last_login_at = None, d_deleted_at = None\<rparr>"

definition demo_auth :: auth_state where
  "demo_auth = \<lparr>users = [demo_doc ''ann'' Admin Active, demo_doc ''bob'' Viewer Active, demo_doc ''eve'' Analyst Deleted],
     sessions = [], refresh_tokens = [], first_user_claimed = Some ''ann'', revoked_session_ids = {},
     revoked_usernames = {''eve''}, auth_log = []\<rparr>"

definition demo_ids :: fresh_ids where
  "demo_ids = \<lparr>i_token = ''t1'', i_family = ''f1'', i_session = ''s1'', i_jti = ''j1''\<rparr>"

definition demo_login :: "(http_error + claims \<times> claims) \<times> auth_state" where
  "demo_login = login demo_lib demo_settings (\<lambda>s. s) 0 demo_ids ''ip'' ''ua'' None ''bob'' ''pw'' None demo_auth"

definition demo_in :: auth_state where
  "demo_in = snd demo_login"

definition demo_pair :: "claims \<times> claims" where
  "demo_pair = (case fst demo_login of Inr p \<Rightarrow> p | Inl _ \<Rightarrow> undefined)"

lemmas demo_auth_defs = demo_in_def demo_pair_def demo_login_def login_def authenticate_user_def find_user_def demo_auth_def
  demo_doc_def demo_ids_def demo_lib_def demo_settings_def locked_at_def password_matches_def doc_to_user_def nonempty_def
  login_blocked_def issue_tokens_with_session_def create_refresh_token_def create_session_def create_access_token_def
  record_login_metadata_def update_user_def log_auth_def non_active_def role_value_def wire_def days_def minutes_def
  seconds_def Let_def

lemma demo_in_simps:
  "refresh_tokens demo_in = [\<lparr>t_token_id = ''t1'', t_family_id = ''f1'', t_username = ''bob'', t_role = ''viewer'',
     t_expires_at = 604800000000, t_created_at = 0, t_used = False\<rparr>]"
  "sessions demo_in = [\<lparr>s_session_id = ''s1'', s_user_id = ''bob'', s_username = ''bob'', s_tenant_id = None, s_created_at = 0,
     s_last_active_at = 0, s_expires_at = 2592000000000, s_ip_address = ''ip'', s_user_agent = ''ua'', s_is_active = True,
     s_revoked_at = None, s_revoked_reason = None, s_refresh_token_family = ''f1''\<rparr>]"
  "revoked_session_ids demo_in = {}" "revoked_usernames demo_in = {''eve''}"
  by (simp_all add: demo_auth_defs)

lemma demo_pair_eq: "demo_pair =
  (\<lparr>c_sub = Some ''bob'', c_role = Some ''viewer'', c_type = Some ''access'', c_jti = Some ''j1'', c_fam = None,
    c_sid = Some ''s1'', c_tenant_id = None, c_iss = Some ''sentora'', c_aud = Some ''sentora-api'', c_exp = Some 900000000\<rparr>,
   \<lparr>c_sub = Some ''bob'', c_role = Some ''viewer'', c_type = Some ''refresh'', c_jti = Some ''t1'', c_fam = Some ''f1'',
    c_sid = None, c_tenant_id = None, c_iss = Some ''sentora'', c_aud = None, c_exp = Some 604800000000\<rparr>)"
  by (simp add: demo_auth_defs)

section \<open>Refresh tokens\<close>

definition spent :: "string set \<Rightarrow> string \<Rightarrow> auth_state \<Rightarrow> bool" where
  "spent A tid st \<longleftrightarrow> tid \<in> A \<and> (\<forall>t\<in>set (refresh_tokens st). t_token_id t = tid \<longrightarrow> t_used t)"

definition closed_session :: "string set \<Rightarrow> string \<Rightarrow> auth_state \<Rightarrow> bool" where
  "closed_session A sid st \<longleftrightarrow> sid \<in> A \<and> (\<forall>s\<in>set (sessions st). s_session_id s = sid \<longrightarrow> \<not> s_is_active s)"

lemma update_user_simps [simp]:
  "sessions (update_user u f st) = sessions st" "refresh_tokens (update_user u f st) = refresh_tokens st"
  "revoked_session_ids (update_user u f st) = revoked_session_ids st" "auth_log (update_user u f st) = auth_log st"
  "revoked_usernames (update_user u f st) = revoked_usernames st" "first_user_claimed (update_user u f st) = first_user_claimed st"
  by (simp_all add: update_user_def)

interpretation spent_token: lasting "db_step A" "spent A tid" for A tid
  by unfold_locales (auto simp: spent_def elim!: db_stepE dest!: in_update_first)

interpretation session_end: lasting "db_step A" "closed_session A sid" for A sid
  by unfold_locales
    (auto simp: closed_session_def deactivate_def in_update_many elim!: db_stepE dest!: in_update_first split: if_splits)

lemma marked_spent:
  assumes "distinct (map t_token_id (refresh_tokens st))" "tid \<in> A"
  shows "spent A tid (st\<lparr>refresh_tokens :=
    update_first (\<lambda>t. t_token_id t = tid \<and> \<not> t_used t) (\<lambda>t. t\<lparr>t_used := True\<rparr>) (refresh_tokens st)\<rparr>)"
proof -
  let ?m = "update_first (\<lambda>t. t_token_id t = tid \<and> \<not> t_used t) (\<lambda>t. t\<lparr>t_used := True\<rparr>)"
  have ids: "t_token_id ` set (?m ts) = t_token_id ` set ts" for ts
    by (metis (no_types, lifting) list.set_map map_update_first refresh_doc.ext_inject refresh_doc.surjective refresh_doc.update_convs(7))
  have "t \<in> set (?m ts) \<Longrightarrow> t_token_id t = tid \<Longrightarrow> distinct (map t_token_id ts) \<Longrightarrow> t_used t" for t ts
  proof (induction ts)
    case (Cons x ts)
    show ?case
    proof (cases "t_token_id x = tid")
      case True
      with Cons.prems(3) have "tid \<notin> t_token_id ` set (?m ts)" "tid \<notin> t_token_id ` set ts"
        unfolding ids by simp_all
      then have "t \<notin> set (?m ts)" "t \<notin> set ts" using Cons.prems(2) by blast+
      with Cons.prems(1) True show ?thesis by (cases "t_used x") simp_all
    next
      case False
      with Cons show ?thesis by auto
    qed
  qed simp
  with assms show ?thesis by (auto simp: spent_def)
qed

lemma rotate_stored_spends:
  assumes "distinct (map t_token_id (refresh_tokens st))" "tid \<in> A" "new_id \<notin> A" "\<And>i s. db_steps A s (others i s)"
    and "rotate_stored lib cfg others now jti new_id tid fam u r sid st = (Inr pair, st')"
  shows "spent A tid st'"
proof -
  let ?st0 = "st\<lparr>refresh_tokens :=
    update_first (\<lambda>t. t_token_id t = tid \<and> \<not> t_used t) (\<lambda>t. t\<lparr>t_used := True\<rparr>) (refresh_tokens st)\<rparr>"
  have "st' = snd (create_refresh_token lib cfg now new_id [] u r (Some fam) (others 2 (others 1 ?st0)))"
    using assms(5) by (auto simp: rotate_stored_def Let_def split_def split: option.splits)
  then have "db_steps A ?st0 st'"
    using rtranclp_trans [OF rtranclp_trans [OF assms(4) assms(4)] create_refresh_token_steps [OF assms(3)]] by simp
  then show ?thesis by (rule spent_token.keeps) (rule marked_spent [OF assms(1,2)])
qed

lemma spent_not_found: "spent A tid st \<Longrightarrow> find (\<lambda>t. t_token_id t = tid \<and> \<not> t_used t) (refresh_tokens st) = None"
  by (auto simp: spent_def find_None_iff_all)

lemma nonempty_Some: "nonempty x = Some s \<longleftrightarrow> x = Some s \<and> s \<noteq> []"
  by (auto simp: nonempty_def split: option.splits if_splits)

text \<open>When a rotation succeeds, what its token says.\<close>

lemma rotate_Inr:
  assumes "rotate_refresh_token lib cfg others now jti new_id tok sid st = (Inr pair, st')"
    "jwt_decode lib None (Some ''sentora'') True now tok = Some p" "c_jti p = Some tid" "c_fam p = Some fam"
  shows "\<exists>u r. c_type p = Some ''refresh'' \<and> nonempty (c_jti p) = Some tid \<and> nonempty (c_fam p) = Some fam \<and>
    nonempty (c_sub p) = Some u \<and> nonempty (c_role p) = Some r \<and>
    rotate_stored lib cfg others now jti new_id tid fam u r sid st = (Inr pair, st')"
  using assms by (auto simp: rotate_refresh_token_def nonempty_Some split: if_splits option.splits)

text \<open>C15. Rotation makes a refresh token single-use: once a rotation of it has succeeded, whatever the other workers
  did meanwhile and whatever happens afterwards, presenting it again fails, and unless the token has expired by then
  the attempt removes every refresh token of its family, the successor included.\<close>

theorem refresh_token_single_use:
  assumes "jwt_ok lib" "rotate_refresh_token lib cfg others now jti new_id tok sid st = (Inr pair, st')"
    and "jwt_decode lib None (Some ''sentora'') True now tok = Some p" "c_jti p = Some tid" "c_fam p = Some fam"
    and "tid \<in> A" "new_id \<notin> A" "\<And>i s. db_steps A s (others i s)"
    and "distinct (map t_token_id (refresh_tokens st))" "db_steps A st' st2"
  shows "\<exists>err st3. rotate_refresh_token lib cfg' others' now' jti' new_id' tok sid' st2 = (Inl err, st3) \<and>
    (err = InvalidToken \<and> st3 = st2 \<and> jwt_decode lib None (Some ''sentora'') True now' tok = None \<or>
     err = RevokedOrReused \<and> (\<forall>t\<in>set (refresh_tokens st3). t_family_id t \<noteq> fam))"
proof -
  from rotate_Inr [OF assms(2-5)] obtain u r where p: "c_type p = Some ''refresh''" "nonempty (c_jti p) = Some tid"
    "nonempty (c_fam p) = Some fam" "nonempty (c_sub p) = Some u" "nonempty (c_role p) = Some r"
    "rotate_stored lib cfg others now jti new_id tid fam u r sid st = (Inr pair, st')" by blast
  have "spent A tid st2"
    by (rule spent_token.keeps [OF assms(10)]) (rule rotate_stored_spends [OF assms(9,6,7,8) p(6)])
  note gone = spent_not_found [OF this]
  show ?thesis
  proof (cases "jwt_decode lib None (Some ''sentora'') True now' tok")
    case (Some q)
    with assms(1,3) have "q = p" using jwt_stable by fast
    with Some p gone show ?thesis
      by (auto simp: rotate_refresh_token_def rotate_stored_def delete_families_def)
  qed (simp add: rotate_refresh_token_def)
qed

lemma refresh_token_single_use_witness:
  "\<exists>err st3. rotate_refresh_token demo_lib demo_settings (\<lambda>_ s. s) 2000000 ''j3'' ''t3'' (snd demo_pair) None
     (snd (rotate_refresh_token demo_lib demo_settings (\<lambda>_ s. s) 1000000 ''j2'' ''t2'' (snd demo_pair) None demo_in)) = (Inl err, st3) \<and>
   (\<forall>t\<in>set (refresh_tokens st3). t_family_id t \<noteq> ''f1'')"
proof -
  let ?rot = "rotate_refresh_token demo_lib demo_settings (\<lambda>_ s. s) 1000000 ''j2'' ''t2'' (snd demo_pair) None demo_in"
  have dec: "jwt_decode demo_lib None (Some ''sentora'') True t (snd demo_pair) = Some (snd demo_pair)"
    if "t < 604800000000" for t
    using that by (simp add: demo_pair_eq demo_lib_def jwt_accepts_def wire_def seconds_def)
  have ok: "\<exists>pair. ?rot = (Inr pair, snd ?rot)"
    using dec [of 1000000]
    by (simp add: rotate_refresh_token_def rotate_stored_def nonempty_def demo_in_simps Let_def split_def demo_pair_eq)
  then obtain pair where r: "?rot = (Inr pair, snd ?rot)" by blast
  have "\<exists>err st3. rotate_refresh_token demo_lib demo_settings (\<lambda>_ s. s) 2000000 ''j3'' ''t3'' (snd demo_pair) None (snd ?rot) =
      (Inl err, st3) \<and> (err = InvalidToken \<and> st3 = snd ?rot \<and>
        jwt_decode demo_lib None (Some ''sentora'') True 2000000 (snd demo_pair) = None \<or>
      err = RevokedOrReused \<and> (\<forall>t\<in>set (refresh_tokens st3). t_family_id t \<noteq> ''f1''))"
    by (rule refresh_token_single_use [where tid = "''t1''" and A = "{''t1''}", OF demo_lib_ok r dec])
      (simp_all add: demo_pair_eq demo_in_simps)
  with dec [of 2000000] show ?thesis by auto
qed

section \<open>Revocation\<close>

text \<open>An accepted rotation, written out.\<close>

definition refresh_claims :: "auth_settings \<Rightarrow> instant \<Rightarrow> string \<Rightarrow> string \<Rightarrow> string \<Rightarrow> string \<Rightarrow> claims" where
  "refresh_claims cfg now tid fam u r = \<lparr>c_sub = Some u, c_role = Some r, c_type = Some ''refresh'', c_jti = Some tid,
     c_fam = Some fam, c_sid = None, c_tenant_id = None, c_iss = Some ''sentora'', c_aud = None,
     c_exp = Some (now + days (jwt_refresh_expire_days cfg))\<rparr>"

definition fresh_refresh_doc :: "auth_settings \<Rightarrow> instant \<Rightarrow> string \<Rightarrow> string \<Rightarrow> string \<Rightarrow> string \<Rightarrow> refresh_doc" where
  "fresh_refresh_doc cfg now tid fam u r = \<lparr>t_token_id = tid, t_family_id = fam, t_username = u, t_role = r,
     t_expires_at = now + days (jwt_refresh_expire_days cfg), t_created_at = now, t_used = False\<rparr>"

definition token_of :: "claims \<Rightarrow> string \<Rightarrow> string \<Rightarrow> string \<Rightarrow> string \<Rightarrow> bool" where
  "token_of p tid fam u r \<longleftrightarrow> c_type p = Some ''refresh'' \<and> c_jti p = Some tid \<and> tid \<noteq> [] \<and> c_fam p = Some fam \<and> fam \<noteq> [] \<and>
     c_sub p = Some u \<and> u \<noteq> [] \<and> c_role p = Some r \<and> r \<noteq> []"

definition marked :: "string \<Rightarrow> auth_state \<Rightarrow> auth_state" where
  "marked tid st = st\<lparr>refresh_tokens :=
     update_first (\<lambda>t. t_token_id t = tid \<and> \<not> t_used t) (\<lambda>t. t\<lparr>t_used := True\<rparr>) (refresh_tokens st)\<rparr>"

lemma marked_simps [simp]: "sessions (marked tid st) = sessions st" "revoked_usernames (marked tid st) = revoked_usernames st"
  "users (marked tid st) = users st" "revoked_session_ids (marked tid st) = revoked_session_ids st"
  by (simp_all add: marked_def)

lemma rotate_ok:
  assumes "jwt_decode lib None (Some ''sentora'') True now tok = Some p" "token_of p tid fam u r"
    and "t \<in> set (refresh_tokens st)" "t_token_id t = tid" "\<not> t_used t"
    and "st1 = others 1 (marked tid st)" "st2 = others 2 st1"
  shows "rotate_refresh_token lib cfg others now jti new_id tok None st =
    (Inr (create_access_token lib cfg now jti u r None (find_active_session_by_family fam st1) None,
          jwt_encode lib (refresh_claims cfg now new_id fam u r)),
     st2\<lparr>refresh_tokens := refresh_tokens st2 @ [fresh_refresh_doc cfg now new_id fam u r]\<rparr>)"
proof -
  have "find (\<lambda>t. t_token_id t = tid \<and> \<not> t_used t) (refresh_tokens st) \<noteq> None"
    using assms(3-5) by (auto simp: find_None_iff_all)
  with assms(1,2,6,7) show ?thesis
    by (auto simp: rotate_refresh_token_def rotate_stored_def token_of_def nonempty_def create_refresh_token_def
        refresh_claims_def fresh_refresh_doc_def marked_def Let_def)
qed

lemma access_accepted:
  assumes "jwt_ok lib" "u \<noteq> []" "r \<noteq> []" "now' < seconds ((now + minutes (jwt_access_expire_minutes cfg)) div 1000000)"
    and "u \<notin> revoked_usernames st" "\<And>s. nonempty sid = Some s \<Longrightarrow> s \<notin> revoked_session_ids st"
  shows "\<exists>q. get_current_user lib now' (create_access_token lib cfg now jti u r None sid ten) st = Inr q \<and>
    p_sub q = u \<and> p_role q = r \<and> p_sid q = nonempty sid"
proof -
  let ?c = "\<lparr>c_sub = Some u, c_role = Some r, c_type = Some ''access'', c_jti = Some jti, c_fam = None,
       c_sid = nonempty sid, c_tenant_id = nonempty ten, c_iss = Some ''sentora'', c_aud = Some ''sentora-api'',
       c_exp = Some (now + minutes (jwt_access_expire_minutes cfg))\<rparr>"
  have "jwt_decode lib (Some ''sentora-api'') (Some ''sentora'') True now' (jwt_encode lib ?c) = Some (wire ?c)"
    by (rule jwt_roundtrip [OF assms(1)]) (use assms(4) in \<open>simp add: jwt_accepts_def\<close>)
  then have v: "verify_token lib now' (create_access_token lib cfg now jti u r None sid ten) =
      Inr \<lparr>p_sub = u, p_role = r, p_exp = c_exp (wire ?c), p_sid = nonempty sid, p_jti = Some jti, p_tenant_id = nonempty ten\<rparr>"
    using assms(2,3) by (simp add: verify_token_def create_access_token_def nonempty_def)
  have "nonempty (nonempty sid) = nonempty sid" by (simp add: nonempty_def split: option.split)
  with v assms(5,6) show ?thesis
    by (cases "nonempty sid") (simp_all add: get_current_user_def is_user_revoked_def is_session_revoked_def)
qed

lemma fresh_refresh_rotates:
  assumes "jwt_ok lib" "fresh_refresh_doc cfg now tid fam u r \<in> set (refresh_tokens st)"
    and "tid \<noteq> []" "fam \<noteq> []" "u \<noteq> []" "r \<noteq> []" "1 \<le> jwt_refresh_expire_days cfg"
  shows "\<exists>x st'. rotate_refresh_token lib cfg (\<lambda>_ s. s) now jti new_id (jwt_encode lib (refresh_claims cfg now tid fam u r))
    None st = (Inr x, st')"
proof -
  let ?c = "refresh_claims cfg now tid fam u r"
  have "now < seconds ((now + days (jwt_refresh_expire_days cfg)) div 1000000)"
    using wire_exp [of "now + days (jwt_refresh_expire_days cfg)"] assms(7) by (simp add: days_def seconds_def)
  then have "jwt_decode lib None (Some ''sentora'') True now (jwt_encode lib ?c) = Some (wire ?c)"
    by (intro jwt_roundtrip [OF assms(1)]) (simp add: jwt_accepts_def refresh_claims_def)
  from rotate_ok [OF this, of tid fam u r "fresh_refresh_doc cfg now tid fam u r" st] assms(2-6)
  show ?thesis by (simp add: token_of_def refresh_claims_def fresh_refresh_doc_def)
qed

lemma now_before_access_expiry:
  "1 \<le> jwt_access_expire_minutes cfg \<Longrightarrow> now < seconds ((now + minutes (jwt_access_expire_minutes cfg)) div 1000000)"
  using wire_exp [of "now + minutes (jwt_access_expire_minutes cfg)"] by (simp add: minutes_def seconds_def)

text \<open>A session without a living family: the rotation goes on, and its access token names no session.\<close>

lemma orphan_rotation:
  assumes "jwt_ok lib" "1 \<le> jwt_access_expire_minutes cfg" "1 \<le> jwt_refresh_expire_days cfg" "new_id \<noteq> []"
    and "jwt_decode lib None (Some ''sentora'') True now tok = Some p" "token_of p tid fam u r"
    and "t \<in> set (refresh_tokens st)" "t_token_id t = tid" "\<not> t_used t"
    and "st1 = others 1 (marked tid st)" "others 2 = (\<lambda>s. s)"
    and "\<forall>s\<in>set (sessions st1). s_refresh_token_family s = fam \<longrightarrow> \<not> s_is_active s" "u \<notin> revoked_usernames st1"
  shows "\<exists>access refresh st' q x st''.
    rotate_refresh_token lib cfg others now jti new_id tok None st = (Inr (access, refresh), st') \<and>
    sessions st' = sessions st1 \<and> revoked_session_ids st' = revoked_session_ids st1 \<and>
    get_current_user lib now access st' = Inr q \<and> p_sub q = u \<and> p_sid q = None \<and>
    rotate_refresh_token lib cfg (\<lambda>_ s. s) now jti' new_id' refresh None st' = (Inr x, st'')"
proof -
  have none: "find_active_session_by_family fam st1 = None"
    using assms(12) by (auto simp: find_active_session_by_family_def find_None_iff_all)
  note rot = rotate_ok [where others = others, OF assms(5-10) refl, where cfg = cfg and jti = jti and new_id = new_id,
      unfolded none assms(11)]
  let ?st' = "st1\<lparr>refresh_tokens := refresh_tokens st1 @ [fresh_refresh_doc cfg now new_id fam u r]\<rparr>"
  have "\<exists>q. get_current_user lib now (create_access_token lib cfg now jti u r None None None) ?st' = Inr q \<and>
      p_sub q = u \<and> p_role q = r \<and> p_sid q = nonempty None"
    using assms(6,13) by (intro access_accepted assms(1) now_before_access_expiry assms(2)) (auto simp: token_of_def nonempty_def)
  moreover have "\<exists>x st''. rotate_refresh_token lib cfg (\<lambda>_ s. s) now jti' new_id'
      (jwt_encode lib (refresh_claims cfg now new_id fam u r)) None ?st' = (Inr x, st'')"
    using assms(6) by (intro fresh_refresh_rotates [OF assms(1)] assms(3,4)) (auto simp: token_of_def)
  ultimately show ?thesis using rot assms(11) by (auto simp: nonempty_def)
qed

text \<open>What revoking a session does.\<close>

lemma revoke_session_effect:
  assumes "s \<in> set (sessions st)" "s_is_active s" "s_session_id s = sid" "distinct (map s_session_id (sessions st))"
  shows "fst (revoke_session now sid reason st)"
    and "sessions (snd (revoke_session now sid reason st)) =
      update_many (\<lambda>s. s_session_id s = sid \<and> s_is_active s) (deactivate now reason) (sessions st)"
    and "revoked_session_ids (snd (revoke_session now sid reason st)) = insert sid (revoked_session_ids st)"
    and "refresh_tokens (snd (revoke_session now sid reason st)) =
      (if s_refresh_token_family s = [] then refresh_tokens st
       else delete_many (\<lambda>t. t_family_id t = s_refresh_token_family s) (refresh_tokens st))"
    and "users (snd (revoke_session now sid reason st)) = users st"
    and "revoked_usernames (snd (revoke_session now sid reason st)) = revoked_usernames st"
proof -
  let ?hit = "\<lambda>s. s_session_id s = sid \<and> s_is_active s"
  obtain d where d: "find ?hit (sessions st) = Some d"
    using assms(1-3) by (cases "find ?hit (sessions st)") (auto simp: find_None_iff_all)
  then have "d \<in> set (sessions st)" "s_session_id d = s_session_id s" using find_Some_in_set assms(3) by fastforce+
  then have [simp]: "d = s" using assms(1,4) by (meson inj_onD distinct_map)
  have u: "update_first ?hit (deactivate now reason) (sessions st) = update_many ?hit (deactivate now reason) (sessions st)"
    by (rule update_first_unique [OF assms(4)]) simp
  show "fst (revoke_session now sid reason st)"
    "sessions (snd (revoke_session now sid reason st)) = update_many ?hit (deactivate now reason) (sessions st)"
    "revoked_session_ids (snd (revoke_session now sid reason st)) = insert sid (revoked_session_ids st)"
    "refresh_tokens (snd (revoke_session now sid reason st)) =
      (if s_refresh_token_family s = [] then refresh_tokens st
       else delete_many (\<lambda>t. t_family_id t = s_refresh_token_family s) (refresh_tokens st))"
    "users (snd (revoke_session now sid reason st)) = users st"
    "revoked_usernames (snd (revoke_session now sid reason st)) = revoked_usernames st"
    by (simp_all add: revoke_session_def Let_def d u mark_session_revoked_def delete_families_def)
qed

lemma deactivate_simps [simp]:
  "\<not> s_is_active (deactivate now reason s)" "s_session_id (deactivate now reason s) = s_session_id s"
  "s_username (deactivate now reason s) = s_username s" "s_revoked_at (deactivate now reason s) = Some now"
  "s_refresh_token_family (deactivate now reason s) = s_refresh_token_family s"
  by (simp_all add: deactivate_def)



lemma no_session_after_revocation:
  assumes "s \<in> set (sessions st)" "s_is_active s" "s_session_id s = sid" "distinct (map s_session_id (sessions st))"
    and "\<forall>s'\<in>set (sessions st). s_refresh_token_family s' = fam \<and> s_is_active s' \<longrightarrow> s_session_id s' = sid"
  shows "\<forall>s'\<in>set (sessions (snd (revoke_session now sid reason st))). s_refresh_token_family s' = fam \<longrightarrow> \<not> s_is_active s'"
  using assms(5)
  by (simp add: revoke_session_effect [OF assms(1-4)] update_many_def) (auto simp: ball_Un)

text \<open>A refresh that overlaps a revocation defeats it: when the session is revoked after the refresh has marked its
  token as used and before it looks for the session, the refresh succeeds, its access token carries no
  session and is accepted although the session is inactive and in the cache, and its refresh token rotates on.\<close>

theorem refresh_overtakes_revocation:
  assumes "jwt_ok lib" "1 \<le> jwt_access_expire_minutes cfg" "1 \<le> jwt_refresh_expire_days cfg" "new_id \<noteq> []"
    and "jwt_decode lib None (Some ''sentora'') True now tok = Some p" "token_of p tid fam u r"
    and "t \<in> set (refresh_tokens st)" "t_token_id t = tid" "\<not> t_used t" "u \<notin> revoked_usernames st"
    and "s \<in> set (sessions st)" "s_is_active s" "s_session_id s = sid" "distinct (map s_session_id (sessions st))"
    and "\<forall>s'\<in>set (sessions st). s_refresh_token_family s' = fam \<and> s_is_active s' \<longrightarrow> s_session_id s' = sid"
  shows "\<exists>access refresh st' q x st''.
    rotate_refresh_token lib cfg (\<lambda>i s. if i = 1 then snd (revoke_session t0 sid reason s) else s) now jti new_id tok None st =
      (Inr (access, refresh), st') \<and>
    (\<forall>s'\<in>set (sessions st'). s_session_id s' = sid \<longrightarrow> \<not> s_is_active s') \<and> sid \<in> revoked_session_ids st' \<and>
    get_current_user lib now access st' = Inr q \<and> p_sub q = u \<and> p_sid q = None \<and>
    rotate_refresh_token lib cfg (\<lambda>_ s. s) now jti' new_id' refresh None st' = (Inr x, st'')"
proof -
  let ?others = "\<lambda>i s. if i = (1 :: nat) then snd (revoke_session t0 sid reason s) else s"
  let ?st1 = "snd (revoke_session t0 sid reason (marked tid st))"
  have m: "s \<in> set (sessions (marked tid st))" "distinct (map s_session_id (sessions (marked tid st)))"
    using assms(11,14) by simp_all
  note eff = revoke_session_effect [OF m(1) assms(12,13) m(2), of t0 reason]
  have closed: "\<forall>s'\<in>set (sessions ?st1). s_session_id s' = sid \<longrightarrow> \<not> s_is_active s'"
    by (simp add: eff(2) update_many_def) (auto simp: ball_Un)
  have "\<exists>access refresh st' q x st''.
    rotate_refresh_token lib cfg ?others now jti new_id tok None st = (Inr (access, refresh), st') \<and>
    sessions st' = sessions ?st1 \<and> revoked_session_ids st' = revoked_session_ids ?st1 \<and>
    get_current_user lib now access st' = Inr q \<and> p_sub q = u \<and> p_sid q = None \<and>
    rotate_refresh_token lib cfg (\<lambda>_ s. s) now jti' new_id' refresh None st' = (Inr x, st'')"
  proof (rule orphan_rotation [OF assms(1-9)])
    show "\<forall>s\<in>set (sessions ?st1). s_refresh_token_family s = fam \<longrightarrow> \<not> s_is_active s"
      using assms(15) by (intro no_session_after_revocation [OF m(1) assms(12,13) m(2)]) simp
    show "u \<notin> revoked_usernames ?st1" using assms(10) by (simp add: eff)
  qed simp_all
  with closed eff(3) show ?thesis by (metis insertI1)
qed

lemma demo_token:
  "jwt_decode demo_lib None (Some ''sentora'') True 1000000 (snd demo_pair) = Some (snd demo_pair)"
  "token_of (snd demo_pair) ''t1'' ''f1'' ''bob'' ''viewer''"
  by (simp_all add: demo_lib_def jwt_accepts_def wire_def demo_pair_eq token_of_def seconds_def)

lemma refresh_overtakes_revocation_witness:
  "\<exists>access refresh st' q. rotate_refresh_token demo_lib demo_settings
       (\<lambda>i s. if i = 1 then snd (revoke_session 1000000 ''s1'' ''logout'' s) else s) 1000000 ''j2'' ''t2'' (snd demo_pair) None demo_in =
     (Inr (access, refresh), st') \<and> get_current_user demo_lib 1000000 access st' = Inr q \<and> p_sub q = ''bob''"
proof -
  obtain s where s: "sessions demo_in = [s]" "s_is_active s" "s_session_id s = ''s1''" by (simp add: demo_in_simps)
  obtain t where t: "refresh_tokens demo_in = [t]" "t_token_id t = ''t1''" "\<not> t_used t" by (simp add: demo_in_simps)
  from s t have "s \<in> set (sessions demo_in)" "t \<in> set (refresh_tokens demo_in)" by simp_all
  from refresh_overtakes_revocation [OF demo_lib_ok _ _ _ demo_token this(2) t(2,3) _ this(1) s(2,3),
      of demo_settings "''t2''" 1000000 "''logout''" "''j2''"] s(1,3)
  show ?thesis by (simp add: demo_settings_def demo_in_simps(4)) blast
qed

text \<open>Expiry of a session ends nothing: once the TTL index has removed the sessions of a family, its refresh token
  still rotates, also after the user has changed the password, and the access token is accepted and
  carries no session by which it could be revoked.\<close>

theorem expired_session_outlives_password_change:
  assumes "jwt_ok lib" "1 \<le> jwt_access_expire_minutes cfg" "1 \<le> jwt_refresh_expire_days cfg" "new_id \<noteq> []"
    and "jwt_decode lib None (Some ''sentora'') True now tok = Some p" "token_of p tid fam u r"
    and "t \<in> set (refresh_tokens st)" "t_token_id t = tid" "t_family_id t = fam" "\<not> t_used t" "t0 \<le> t_expires_at t"
    and "\<forall>s\<in>set (sessions st). s_refresh_token_family s = fam \<longrightarrow> s_expires_at s < t0"
    and "u \<notin> revoked_usernames st" "change_password lib pol False t1 salt q old new (ttl_expire t0 st) = (Inr (), st1)"
  shows "\<exists>access refresh st' q' x st''.
    rotate_refresh_token lib cfg (\<lambda>_ s. s) now jti new_id tok None st1 = (Inr (access, refresh), st') \<and>
    get_current_user lib now access st' = Inr q' \<and> p_sub q' = u \<and> p_sid q' = None \<and>
    rotate_refresh_token lib cfg (\<lambda>_ s. s) now jti' new_id' refresh None st' = (Inr x, st'')"
proof -
  let ?ttl = "ttl_expire t0 st"
  have no: "\<forall>s\<in>set (sessions ?ttl). s_refresh_token_family s \<noteq> fam" and in_ttl: "t \<in> set (refresh_tokens ?ttl)"
    using assms(7,11,12) by (auto simp: ttl_expire_def)
  obtain f where st1: "st1 = log_auth (p_sub q) ''auth.password_changed'' True
      (snd (revoke_all_user_sessions t1 (p_sub q) ''password_changed'' (p_sid q) (update_user (p_sub q) f ?ttl)))"
    using assms(14) by (auto simp: change_password_def change_user_password_def Let_def split: option.splits if_splits)
  have "t \<in> set (refresh_tokens st1)" "\<forall>s\<in>set (sessions st1). s_refresh_token_family s \<noteq> fam" "revoked_usernames st1 = revoked_usernames st"
    using no in_ttl assms(9)
    by (auto simp: st1 log_auth_def revoke_all_user_sessions_def Let_def mark_sessions_revoked_def delete_families_def
        in_update_many ttl_expire_def image_iff split: if_splits)
  then have "\<exists>access refresh st' q x st''.
    rotate_refresh_token lib cfg (\<lambda>_ s. s) now jti new_id tok None st1 = (Inr (access, refresh), st') \<and>
    sessions st' = sessions (marked tid st1) \<and> revoked_session_ids st' = revoked_session_ids (marked tid st1) \<and>
    get_current_user lib now access st' = Inr q \<and> p_sub q = u \<and> p_sid q = None \<and>
    rotate_refresh_token lib cfg (\<lambda>_ s. s) now jti' new_id' refresh None st' = (Inr x, st'')"
    by (intro orphan_rotation [OF assms(1-6) _ assms(8,10)]) (use assms(13) in simp_all)
  then show ?thesis by blast
qed

text \<open>The user's token was last rotated on day 29, the session ended on day 30, the password changes on day 31.\<close>

definition demo_late :: auth_state where
  "demo_late = demo_in\<lparr>refresh_tokens := [fresh_refresh_doc demo_settings (days 29) ''t9'' ''f1'' ''bob'' ''viewer'']\<rparr>"

definition demo_policy :: password_policy where
  "demo_policy = \<lparr>password_min_length = 8, password_history_count = 5, password_check_breached = True\<rparr>"

definition demo_payload :: "string \<Rightarrow> user_role \<Rightarrow> token_payload" where
  "demo_payload name role = \<lparr>p_sub = name, p_role = role_value role, p_exp = None, p_sid = None, p_jti = None, p_tenant_id = None\<rparr>"

lemma find_user_update:
  assumes "\<And>d. d_username (f d) = d_username d"
  shows "find_user x (update_user u f st) = (if x = u then map_option f (find_user u st) else find_user x st)"
proof (cases "x = u")
  case True
  then show ?thesis using assms by (simp add: find_user_def update_user_def find_update_first)
next
  case False
  then show ?thesis using assms by (simp add: find_user_def update_user_def find_update_first_other)
qed

lemma demo_users: "find_user ''bob'' demo_in = Some ((demo_doc ''bob'' Viewer Active)\<lparr>d_last_login_ip := Some ''ip'', d_last_login_at := Some 0\<rparr>)"
  by (simp add: demo_auth_defs)

lemma expired_session_outlives_password_change_witness:
  "\<exists>st1 access refresh st' q'.
    change_password demo_lib demo_policy False (days 31) ''salt'' (demo_payload ''bob'' Viewer) ''pw'' ''new-password''
      (ttl_expire (days 31) demo_late) = (Inr (), st1) \<and>
    rotate_refresh_token demo_lib demo_settings (\<lambda>_ s. s) (days 32) ''j9'' ''t10''
      (refresh_claims demo_settings (days 29) ''t9'' ''f1'' ''bob'' ''viewer'') None st1 = (Inr (access, refresh), st') \<and>
    get_current_user demo_lib (days 32) access st' = Inr q' \<and> p_sid q' = None"
proof -
  let ?tok = "refresh_claims demo_settings (days 29) ''t9'' ''f1'' ''bob'' ''viewer''"
  have tok: "jwt_decode demo_lib None (Some ''sentora'') True (days 32) ?tok = Some (wire ?tok)" "token_of (wire ?tok) ''t9'' ''f1'' ''bob'' ''viewer''"
    by (simp_all add: demo_lib_def jwt_accepts_def refresh_claims_def demo_settings_def days_def seconds_def token_of_def)
  have "find_user ''bob'' (ttl_expire (days 31) demo_late) = find_user ''bob'' demo_in"
    by (simp add: find_user_def ttl_expire_def demo_late_def)
  then obtain st1 where st1: "change_password demo_lib demo_policy False (days 31) ''salt'' (demo_payload ''bob'' Viewer) ''pw'' ''new-password''
      (ttl_expire (days 31) demo_late) = (Inr (), st1)"
    by (simp add: change_password_def get_user_by_username_def demo_users doc_to_user_def demo_doc_def demo_lib_def
        demo_policy_def check_password_history_def demo_payload_def Let_def)
  obtain t where t: "t \<in> set (refresh_tokens demo_late)" "t_token_id t = ''t9''" "t_family_id t = ''f1''" "\<not> t_used t"
    "days 31 \<le> t_expires_at t"
    by (simp add: demo_late_def fresh_refresh_doc_def demo_settings_def days_def seconds_def)
  have "\<forall>s\<in>set (sessions demo_late). s_refresh_token_family s = ''f1'' \<longrightarrow> s_expires_at s < days 31"
    "''bob'' \<notin> revoked_usernames demo_late" "1 \<le> jwt_access_expire_minutes demo_settings" "1 \<le> jwt_refresh_expire_days demo_settings"
    by (simp_all add: demo_late_def demo_in_simps days_def seconds_def demo_settings_def)
  from expired_session_outlives_password_change [OF demo_lib_ok this(3,4) _ tok t this(1,2) st1, of "''t10''" "''j9''"] st1
  show ?thesis by blast
qed

end
