(* ===== verification/AccountTheorems.thy ===== *)
theory AccountTheorems
  imports AuthTheorems
begin

text \<open>The properties of accounts: the privilege hierarchy, the account states, and the lockout.\<close>

section \<open>User management as one kind of operation\<close>

datatype admin_op = SetRole user_role | SetDisabled bool | SetStatus account_status | DeleteUser

definition admin_route ::
  "'tok auth_lib \<Rightarrow> instant \<Rightarrow> token_payload \<Rightarrow> string \<Rightarrow> admin_op \<Rightarrow> auth_state \<Rightarrow> (http_error + unit) \<times> auth_state" where
  "admin_route lib now p username c st =
     (case c of
        SetRole r \<Rightarrow> map_prod (map_sum id (\<lambda>_. ())) id (update_user_role_route lib now p username r st)
      | SetDisabled b \<Rightarrow> map_prod (map_sum id (\<lambda>_. ())) id (update_user_disabled_route lib now p username b st)
      | SetStatus s \<Rightarrow> map_prod (map_sum id (\<lambda>_. ())) id (update_user_status_route lib now p username s st)
      | DeleteUser \<Rightarrow> delete_user_route lib now p username st)"

text \<open>What a successful operation does to the target's document.\<close>

definition admin_change :: "instant \<Rightarrow> admin_op \<Rightarrow> user_doc \<Rightarrow> user_doc" where
  "admin_change now c d =
     (case c of SetRole r \<Rightarrow> d\<lparr>d_role := Some r\<rparr>
      | SetDisabled b \<Rightarrow> d\<lparr>d_disabled := b, d_status := Some (if b then Deactivated else Active)\<rparr>
      | SetStatus s \<Rightarrow> d\<lparr>d_status := Some s, d_disabled := (s \<in> non_active)\<rparr>
      | DeleteUser \<Rightarrow> d\<lparr>d_status := Some Deleted, d_disabled := True, d_deleted_at := Some now\<rparr>)"

definition takes_rights :: "admin_op \<Rightarrow> bool" where
  "takes_rights c = (case c of SetRole _ \<Rightarrow> True | SetDisabled b \<Rightarrow> b | SetStatus s \<Rightarrow> s \<in> non_active | DeleteUser \<Rightarrow> True)"

definition cut_reason :: "admin_op \<Rightarrow> string" where
  "cut_reason c = (case c of SetRole _ \<Rightarrow> ''role_changed'' | SetDisabled _ \<Rightarrow> ''account_disabled''
     | SetStatus s \<Rightarrow> ''status_changed_'' @ status_value s | DeleteUser \<Rightarrow> ''account_deleted'')"

definition admin_action :: "admin_op \<Rightarrow> string" where
  "admin_action c = (case c of SetRole _ \<Rightarrow> ''auth.role_changed''
     | SetDisabled b \<Rightarrow> if b then ''auth.user_disabled'' else ''auth.user_enabled''
     | SetStatus s \<Rightarrow> ''auth.user_'' @ status_value s | DeleteUser \<Rightarrow> ''auth.user_deleted'')"

definition admin_effect :: "instant \<Rightarrow> token_payload \<Rightarrow> string \<Rightarrow> admin_op \<Rightarrow> auth_state \<Rightarrow> auth_state" where
  "admin_effect now p username c st =
     (let st1 = update_user username (admin_change now c) st;
          st2 = (if takes_rights c then cut_off now username (cut_reason c) st1 else st1);
          st3 = (case c of SetRole _ \<Rightarrow> st2 | _ \<Rightarrow> if takes_rights c then mark_user_revoked username st2 else mark_user_restored username st2)
      in log_auth (p_sub p) (admin_action c) True st3)"

text \<open>When it succeeds.\<close>

definition admin_allowed :: "'tok auth_lib \<Rightarrow> token_payload \<Rightarrow> string \<Rightarrow> admin_op \<Rightarrow> auth_state \<Rightarrow> bool" where
  "admin_allowed lib p username c st \<longleftrightarrow>
     p_role p \<in> {role_value Admin, role_value SuperAdmin} \<and> username \<noteq> p_sub p \<and>
     (c = SetRole SuperAdmin \<longrightarrow> p_role p = role_value SuperAdmin) \<and>
     (\<exists>u. get_user_by_username lib username st = Some u \<and> \<not> protected_from p u \<and>
        (\<forall>s. c = SetStatus s \<longrightarrow> s \<in> valid_transitions (u_status u)))"

lemma require_admin: "require_role [Admin] p = (if p_role p \<in> {role_value Admin, role_value SuperAdmin} then Inr p
    else Inl (HTTPException 403 ''Insufficient permissions''))"
  by (simp add: require_role_def)

lemmas admin_route_defs = admin_route_def update_user_role_route_def update_user_disabled_route_def
  update_user_status_route_def delete_user_route_def

text \<open>The four handlers, as one guarded effect; a refusal changes nothing.\<close>

lemma admin_route_allowed:
  "admin_allowed lib p username c st \<Longrightarrow> admin_route lib now p username c st = (Inr (), admin_effect now p username c st)"
  by (cases c)
    (auto simp: admin_route_defs require_admin admin_allowed_def admin_effect_def Let_def
      update_user_role_def update_user_disabled_def update_user_status_def soft_delete_user_def admin_change_def [abs_def]
      cut_reason_def takes_rights_def admin_action_def split: if_splits)

lemma admin_route_refused:
  "\<not> admin_allowed lib p username c st \<Longrightarrow> \<exists>err. admin_route lib now p username c st = (Inl err, st)"
  by (cases c)
    (auto simp: admin_route_defs require_admin admin_allowed_def Let_def split: option.split if_splits)

lemma admin_change_username [simp]: "d_username (admin_change now c d) = d_username d"
  by (cases c) (simp_all add: admin_change_def)

lemma cut_off_users [simp]: "users (cut_off now u r st) = users st" "revoked_usernames (cut_off now u r st) = revoked_usernames st"
  by (simp_all add: cut_off_def revoke_user_tokens_def revoke_all_user_sessions_def delete_families_def mark_sessions_revoked_def Let_def)

lemma mark_user_simps [simp]: "users (mark_user_revoked u st) = users st" "users (mark_user_restored u st) = users st"
  "refresh_tokens (mark_user_revoked u st) = refresh_tokens st" "sessions (mark_user_revoked u st) = sessions st"
  "revoked_session_ids (mark_user_revoked u st) = revoked_session_ids st"
  "revoked_usernames (mark_user_revoked u st) = insert u (revoked_usernames st)"
  "revoked_usernames (mark_user_restored u st) = revoked_usernames st - {u}"
  by (simp_all add: mark_user_revoked_def mark_user_restored_def)

lemma log_auth_simps [simp]: "users (log_auth a b c st) = users st" "refresh_tokens (log_auth a b c st) = refresh_tokens st"
  "sessions (log_auth a b c st) = sessions st" "revoked_session_ids (log_auth a b c st) = revoked_session_ids st"
  "revoked_usernames (log_auth a b c st) = revoked_usernames st"
  by (simp_all add: log_auth_def)

lemma find_user_cong: "users st = users st' \<Longrightarrow> find_user x st = find_user x st'"
  by (simp add: find_user_def)

lemma admin_effect_users:
  "find_user x (admin_effect now p username c st) =
     (if x = username then map_option (admin_change now c) (find_user username st) else find_user x st)"
proof -
  have "users (admin_effect now p username c st) = users (update_user username (admin_change now c) st)"
    by (cases c) (simp_all add: admin_effect_def Let_def)
  then have "find_user x (admin_effect now p username c st) = find_user x (update_user username (admin_change now c) st)"
    by (rule find_user_cong)
  then show ?thesis by (simp add: find_user_update)
qed

section \<open>The privilege hierarchy\<close>

definition admin_run :: "'tok auth_lib \<Rightarrow> token_payload \<Rightarrow> (instant \<times> string \<times> admin_op) list \<Rightarrow> auth_state \<Rightarrow> auth_state" where
  "admin_run lib p cs st = fold (\<lambda>(now, username, c) st. snd (admin_route lib now p username c st)) cs st"

definition doc_role :: "user_doc \<Rightarrow> user_role" where
  "doc_role d = (case d_role d of Some r \<Rightarrow> r | None \<Rightarrow> Viewer)"

lemma get_user_role: "get_user_by_username lib x st = Some u \<Longrightarrow> \<exists>d. find_user x st = Some d \<and> u_role u = doc_role d"
  by (auto simp: get_user_by_username_def doc_to_user_def doc_role_def)

text \<open>What one actor without the highest role cannot change.\<close>

definition guarded :: "token_payload \<Rightarrow> auth_state \<Rightarrow> auth_state \<Rightarrow> bool" where
  "guarded p st st' \<longleftrightarrow> (\<forall>x d. find_user x st = Some d \<and> (doc_role d \<in> {Admin, SuperAdmin} \<or> x = p_sub p) \<longrightarrow> find_user x st' = Some d) \<and>
     (\<forall>x d. find_user x st' = Some d \<and> doc_role d = SuperAdmin \<longrightarrow> find_user x st = Some d)"

lemma admin_route_guarded:
  assumes "p_role p \<noteq> role_value SuperAdmin"
  shows "guarded p st (snd (admin_route lib now p username c st))"
proof (cases "admin_allowed lib p username c st")
  case True
  then obtain d where d: "find_user username st = Some d" "doc_role d \<notin> {Admin, SuperAdmin}" "username \<noteq> p_sub p"
    "c \<noteq> SetRole SuperAdmin"
    using assms by (auto simp: admin_allowed_def protected_from_def dest!: get_user_role)
  moreover have "doc_role (admin_change now c d) \<noteq> SuperAdmin"
    using d by (cases c) (auto simp: admin_change_def doc_role_def)
  ultimately show ?thesis
    by (auto simp: admin_route_allowed [OF True] guarded_def admin_effect_users)
next
  case False
  from admin_route_refused [OF this, of now] obtain err where "admin_route lib now p username c st = (Inl err, st)" ..
  then show ?thesis by (simp add: guarded_def)
qed

lemma guardedD:
  assumes "guarded p st st'"
  shows "find_user x st = Some d \<Longrightarrow> doc_role d \<in> {Admin, SuperAdmin} \<or> x = p_sub p \<Longrightarrow> find_user x st' = Some d"
    and "find_user x st' = Some d \<Longrightarrow> doc_role d = SuperAdmin \<Longrightarrow> find_user x st = Some d"
  using assms unfolding guarded_def by blast+

lemma guarded_trans:
  assumes 1: "guarded p st st'" and 2: "guarded p st' st''"
  shows "guarded p st st''"
  unfolding guarded_def
proof (intro conjI allI impI; elim conjE)
  fix x d
  assume "find_user x st = Some d" and r: "doc_role d \<in> {Admin, SuperAdmin} \<or> x = p_sub p"
  then have "find_user x st' = Some d" by (rule guardedD(1) [OF 1])
  then show "find_user x st'' = Some d" using r by (rule guardedD(1) [OF 2])
next
  fix x d
  assume "find_user x st'' = Some d" and r: "doc_role d = SuperAdmin"
  then have "find_user x st' = Some d" by (rule guardedD(2) [OF 2])
  then show "find_user x st = Some d" using r by (rule guardedD(2) [OF 1])
qed

text \<open>C18. The privilege hierarchy: whoever acts under a role other than super_admin can, with any sequence of role
  changes, disablings, status changes and deletions, change neither an administrator's account nor his
  own, nor make anybody a super_admin; under a role below administrator nothing changes at all.\<close>

theorem privileges_respected:
  assumes "p_role p \<noteq> role_value SuperAdmin"
  shows "(\<forall>x d. find_user x st = Some d \<and> (doc_role d \<in> {Admin, SuperAdmin} \<or> x = p_sub p) \<longrightarrow>
      find_user x (admin_run lib p cs st) = Some d) \<and>
    (\<forall>x d. find_user x (admin_run lib p cs st) = Some d \<and> doc_role d = SuperAdmin \<longrightarrow> find_user x st = Some d) \<and>
    (p_role p \<noteq> role_value Admin \<longrightarrow> admin_run lib p cs st = st)"
proof -
  have "guarded p st (admin_run lib p cs st)"
  proof (induction cs arbitrary: st)
    case (Cons c cs)
    obtain now u op where c: "c = (now, u, op)" by (cases c)
    have "guarded p st (admin_run lib p cs (snd (admin_route lib now p u op st)))"
      by (rule guarded_trans [OF admin_route_guarded [OF assms] Cons.IH])
    then show ?case by (simp add: admin_run_def c)
  qed (simp add: admin_run_def guarded_def)
  moreover have "admin_run lib p cs st = st" if "p_role p \<noteq> role_value Admin"
  proof (induction cs)
    case (Cons c cs)
    obtain now u op where c: "c = (now, u, op)" by (cases c)
    have "\<not> admin_allowed lib p u op st" using that assms by (simp add: admin_allowed_def)
    from admin_route_refused [OF this, of now] obtain err where "admin_route lib now p u op st = (Inl err, st)" ..
    with Cons.IH show ?case by (simp add: admin_run_def c)
  qed (simp add: admin_run_def)
  ultimately show ?thesis unfolding guarded_def by blast
qed

lemma privileges_respected_witness:
  "find_user ''ann'' (admin_run demo_lib (demo_payload ''zoe'' Admin) [(0, ''bob'', SetRole Admin), (1, ''ann'', DeleteUser)] demo_auth) =
     Some (demo_doc ''ann'' Admin Active)"
proof -
  have "find_user ''ann'' demo_auth = Some (demo_doc ''ann'' Admin Active)" "doc_role (demo_doc ''ann'' Admin Active) = Admin"
    by (simp_all add: demo_auth_def find_user_def demo_doc_def doc_role_def)
  moreover have "p_role (demo_payload ''zoe'' Admin) \<noteq> role_value SuperAdmin" by (simp add: demo_payload_def)
  ultimately show ?thesis
    using privileges_respected [of "demo_payload ''zoe'' Admin" demo_auth demo_lib
      "[(0, ''bob'', SetRole Admin), (1, ''ann'', DeleteUser)]"] by blast
qed

section \<open>Taking rights away\<close>

lemma cut_off_effect:
  shows "\<forall>t\<in>set (refresh_tokens (cut_off now u reason st)). t_username t \<noteq> u"
    and "\<forall>s\<in>set (sessions (cut_off now u reason st)). s_username s = u \<longrightarrow> \<not> s_is_active s"
    and "\<forall>s\<in>set (sessions st). s_username s = u \<and> s_is_active s \<longrightarrow> s_session_id s \<in> revoked_session_ids (cut_off now u reason st)"
proof -
  let ?st1 = "snd (revoke_user_tokens u st)"
  have t: "\<forall>t\<in>set (refresh_tokens ?st1). t_username t \<noteq> u" and s: "sessions ?st1 = sessions st"
    by (simp_all add: revoke_user_tokens_def)
  show "\<forall>t\<in>set (refresh_tokens (cut_off now u reason st)). t_username t \<noteq> u"
    using t by (simp add: cut_off_def revoke_all_user_sessions_def Let_def mark_sessions_revoked_def delete_families_def)
  show "\<forall>s\<in>set (sessions (cut_off now u reason st)). s_username s = u \<longrightarrow> \<not> s_is_active s"
    by (auto simp: cut_off_def revoke_all_user_sessions_def Let_def s mark_sessions_revoked_def delete_families_def
        update_many_def filter_empty_conv split: if_splits)
  show "\<forall>s\<in>set (sessions st). s_username s = u \<and> s_is_active s \<longrightarrow> s_session_id s \<in> revoked_session_ids (cut_off now u reason st)"
    by (auto simp: cut_off_def revoke_all_user_sessions_def Let_def s mark_sessions_revoked_def delete_families_def
        filter_empty_conv)
qed

text \<open>C17. Taking rights away is immediate: after a role change, a disabling, a suspension, deactivation or deletion, the
  account has no refresh token and no active session, this worker rejects every access token of a session
  it had, and, except after a mere role change, every access token of the account.\<close>

theorem rights_cut_off:
  assumes "admin_route lib now p username c st = (Inr (), st')" "takes_rights c"
  shows "(\<forall>t\<in>set (refresh_tokens st'). t_username t \<noteq> username) \<and>
    (\<forall>s\<in>set (sessions st'). s_username s = username \<longrightarrow> \<not> s_is_active s) \<and>
    (\<forall>tok t q. verify_token lib t tok = Inr q \<and>
       ((\<forall>r. c \<noteq> SetRole r) \<and> p_sub q = username \<or>
        (\<exists>s\<in>set (sessions st). s_username s = username \<and> s_is_active s \<and> s_session_id s \<noteq> [] \<and> p_sid q = Some (s_session_id s))) \<longrightarrow>
       is_Inl (get_current_user lib t tok st'))"
proof -
  have "admin_allowed lib p username c st"
    using assms(1) admin_route_refused [of lib p username c st now] by (cases "admin_allowed lib p username c st") auto
  then have st': "st' = admin_effect now p username c st" using assms(1) by (simp add: admin_route_allowed)
  let ?st1 = "update_user username (admin_change now c) st"
  let ?cut = "cut_off now username (cut_reason c) ?st1"
  have eff: "refresh_tokens st' = refresh_tokens ?cut" "sessions st' = sessions ?cut"
    "revoked_session_ids st' = revoked_session_ids ?cut" "(\<forall>r. c \<noteq> SetRole r) \<longrightarrow> username \<in> revoked_usernames st'"
    using assms(2) by (cases c; simp add: st' admin_effect_def Let_def)+
  have ids: "s_session_id s \<in> revoked_session_ids st'" if "s \<in> set (sessions st)" "s_username s = username" "s_is_active s" for s
    using that cut_off_effect(3) [of ?st1 username now "cut_reason c"] by (simp add: eff)
  have rej: "is_Inl (get_current_user lib t tok st')"
    if "verify_token lib t tok = Inr q" "(\<forall>r. c \<noteq> SetRole r) \<and> p_sub q = username \<or>
        (\<exists>s\<in>set (sessions st). s_username s = username \<and> s_is_active s \<and> s_session_id s \<noteq> [] \<and> p_sid q = Some (s_session_id s))"
    for t tok q
    using that ids eff(4) by (auto simp: get_current_user_def is_user_revoked_def is_session_revoked_def nonempty_def)
  show ?thesis
    unfolding eff(1,2)
    by (intro conjI cut_off_effect(1,2) allI impI; elim conjE; rule rej)
qed

lemma rights_cut_off_witness:
  "\<exists>st'. admin_route demo_lib 5 (demo_payload ''ann'' Admin) ''bob'' (SetStatus Suspended) demo_in = (Inr (), st') \<and>
     is_Inl (get_current_user demo_lib 6 (fst demo_pair) st')"
proof -
  have "admin_allowed demo_lib (demo_payload ''ann'' Admin) ''bob'' (SetStatus Suspended) demo_in"
    by (simp add: admin_allowed_def demo_payload_def get_user_by_username_def demo_users doc_to_user_def demo_doc_def
        protected_from_def valid_transitions_def non_active_def)
  note r = admin_route_allowed [OF this, of 5]
  have "\<exists>q. verify_token demo_lib 6 (fst demo_pair) = Inr q \<and> p_sub q = ''bob''"
    by (simp add: verify_token_def demo_lib_def demo_pair_eq jwt_accepts_def nonempty_def seconds_def)
  moreover have "takes_rights (SetStatus Suspended)" by (simp add: takes_rights_def non_active_def)
  ultimately show ?thesis using r rights_cut_off [OF r] by blast
qed

section \<open>The account states\<close>

text \<open>Deletion is final only for one of the two routes: the status route refuses every transition of a deleted
  account, but the route that sets the disabled flag makes it active again, with its role and password, and takes it
  out of the cache of revoked users.\<close>

theorem deleted_account_reactivated:
  assumes "get_user_by_username lib username st = Some u" "u_status u = Deleted" "\<not> protected_from p u"
    and "p_role p \<in> {role_value Admin, role_value SuperAdmin}" "username \<noteq> p_sub p"
  shows "(\<exists>err. admin_route lib now p username (SetStatus s) st = (Inl err, st)) \<and>
    (\<exists>st' u'. admin_route lib now p username (SetDisabled False) st = (Inr (), st') \<and>
       get_user_by_username lib username st' = Some u' \<and> \<not> login_blocked u' \<and> u_status u' = Active \<and> u_role u' = u_role u \<and>
       u_hashed_password u' = u_hashed_password u \<and> username \<notin> revoked_usernames st')"
proof -
  have "\<not> admin_allowed lib p username (SetStatus s) st"
    using assms(1,2) by (simp add: admin_allowed_def valid_transitions_def)
  moreover have a: "admin_allowed lib p username (SetDisabled False) st"
    using assms by (simp add: admin_allowed_def)
  obtain d where d: "find_user username st = Some d" "u = doc_to_user lib d"
    using assms(1) by (auto simp: get_user_by_username_def)
  let ?st' = "admin_effect now p username (SetDisabled False) st"
  have "get_user_by_username lib username ?st' = Some (doc_to_user lib (admin_change now (SetDisabled False) d))"
    by (simp add: get_user_by_username_def admin_effect_users d(1))
  moreover have "username \<notin> revoked_usernames ?st'"
    by (simp add: admin_effect_def takes_rights_def Let_def)
  ultimately show ?thesis
    using admin_route_refused [of lib p username "SetStatus s" st now] admin_route_allowed [OF a, of now] d(2)
    by (auto simp: admin_change_def doc_to_user_def login_blocked_def)
qed

lemma deleted_account_reactivated_witness:
  "\<exists>st' u'. admin_route demo_lib 5 (demo_payload ''ann'' Admin) ''eve'' (SetDisabled False) demo_auth = (Inr (), st') \<and>
     get_user_by_username demo_lib ''eve'' st' = Some u' \<and> \<not> login_blocked u'"
proof -
  obtain u where u: "get_user_by_username demo_lib ''eve'' demo_auth = Some u" "u_status u = Deleted" "u_role u = Analyst"
    by (simp add: get_user_by_username_def find_user_def demo_auth_def demo_doc_def doc_to_user_def)
  have "\<not> protected_from (demo_payload ''ann'' Admin) u"
    "p_role (demo_payload ''ann'' Admin) \<in> {role_value Admin, role_value SuperAdmin}" "''eve'' \<noteq> p_sub (demo_payload ''ann'' Admin)"
    using u(3) by (simp_all add: protected_from_def demo_payload_def)
  from deleted_account_reactivated [OF u(1,2) this, of 5 Active] show ?thesis by blast
qed

section \<open>The lockout\<close>

fun attempts :: "'tok auth_lib \<Rightarrow> auth_settings \<Rightarrow> string \<Rightarrow> (instant \<times> string) list \<Rightarrow> auth_state \<Rightarrow> auth_state" where
  "attempts lib cfg username [] st = st"
| "attempts lib cfg username ((now, pw) # tries) st =
     attempts lib cfg username tries (snd (authenticate_user lib cfg (\<lambda>s. s) now username pw st))"

lemma attempts_append: "attempts lib cfg u (xs @ ys) st = attempts lib cfg u ys (attempts lib cfg u xs st)"
  by (induction lib cfg u xs st rule: attempts.induct) simp_all

definition count_failures :: "int \<Rightarrow> user_doc \<Rightarrow> user_doc" where
  "count_failures k d = d\<lparr>d_failed_login_attempts := k\<rparr>"

definition locked_doc :: "int \<Rightarrow> instant \<Rightarrow> user_doc \<Rightarrow> user_doc" where
  "locked_doc k until d = d\<lparr>d_failed_login_attempts := k, d_locked_until := Some until\<rparr>"

text \<open>One wrong password on an account that is not locked.\<close>

lemma wrong_password:
  assumes "find_user u st = Some d" "\<not> locked_at now d" "\<not> password_matches lib pw d"
  shows "fst (authenticate_user lib cfg (\<lambda>s. s) now u pw st) = None"
    and "find_user u (snd (authenticate_user lib cfg (\<lambda>s. s) now u pw st)) =
      Some (if account_lockout_threshold cfg \<le> d_failed_login_attempts d + 1
            then locked_doc (d_failed_login_attempts d + 1) (now + minutes (account_lockout_duration_minutes cfg)) d
            else count_failures (d_failed_login_attempts d + 1) d)"
  using assms
  by (simp_all add: authenticate_user_def record_failure_def Let_def find_user_update locked_doc_def count_failures_def)

lemma right_password:
  assumes "find_user u st = Some d" "\<not> locked_at now d" "password_matches lib pw d"
  shows "\<exists>usr. fst (authenticate_user lib cfg (\<lambda>s. s) now u pw st) = Some usr"
    and "0 < d_failed_login_attempts d \<Longrightarrow> find_user u (snd (authenticate_user lib cfg (\<lambda>s. s) now u pw st)) =
      Some (d\<lparr>d_failed_login_attempts := 0, d_locked_until := None\<rparr>)"
  using assms by (simp_all add: authenticate_user_def find_user_update)

lemma locked_out:
  assumes "find_user u st = Some d" "locked_at now d"
  shows "authenticate_user lib cfg others now u pw st = (None, st)"
  using assms by (simp add: authenticate_user_def)

lemma count_failures_simps [simp]:
  "locked_at now (count_failures k d) = locked_at now d" "password_matches lib pw (count_failures k d) = password_matches lib pw d"
  "d_failed_login_attempts (count_failures k d) = k" "count_failures j (count_failures k d) = count_failures j d"
  "locked_at now (locked_doc k l d) \<longleftrightarrow> now < l" "password_matches lib pw (locked_doc k l d) = password_matches lib pw d"
  "d_failed_login_attempts (locked_doc k l d) = k" "locked_doc j l (count_failures k d) = locked_doc j l d"
  "locked_doc j l (locked_doc k m d) = locked_doc j l d"
  by (simp_all add: locked_at_def password_matches_def count_failures_def locked_doc_def)

lemma not_locked: "d_locked_until d = None \<Longrightarrow> \<not> locked_at now d"
  by (simp add: locked_at_def)

lemma attempts_below:
  assumes "find_user u st = Some d" "d_failed_login_attempts d = 0" "d_locked_until d = None"
    and "\<forall>(t, pw)\<in>set tries. \<not> password_matches lib pw d" "int (length tries) < account_lockout_threshold cfg"
  shows "find_user u (attempts lib cfg u tries st) = Some (count_failures (int (length tries)) d)"
  using assms(4,5)
proof (induction tries rule: rev_induct)
  case Nil
  have "count_failures 0 d = d" using assms(2) by (simp add: count_failures_def)
  with assms(1) show ?case by simp
next
  case (snoc x tries)
  obtain t pw where x: "x = (t, pw)" by (cases x)
  have "find_user u (attempts lib cfg u tries st) = Some (count_failures (int (length tries)) d)"
    using snoc by simp
  from wrong_password(2) [OF this, of t lib pw cfg] snoc.prems x not_locked [OF assms(3)] show ?case
    by (simp add: attempts_append add.commute)
qed



section \<open>Login and passwords\<close>

definition totp_passes :: "'tok auth_lib \<Rightarrow> instant \<Rightarrow> user_doc \<Rightarrow> string option \<Rightarrow> bool" where
  "totp_passes lib now d code \<longleftrightarrow>
     (case (nonempty (map_option (field_decrypt lib) (nonempty (d_totp_secret d))), nonempty code) of
        (Some s, Some c) \<Rightarrow> totp_verify lib now s c | _ \<Rightarrow> False)"

text \<open>C20. Who can log in: exactly the accounts that exist, are not locked, whose password is right, that are not disabled,
  suspended, deactivated or deleted, and whose one-time code is right if they use one. An account that was
  only invited passes.\<close>

theorem login_succeeds_iff:
  "(\<exists>toks st'. login lib cfg others now ids ip agent tenant username password code st = (Inr toks, st')) \<longleftrightarrow>
   (\<exists>d. find_user username st = Some d \<and> \<not> locked_at now d \<and> password_matches lib password d \<and> \<not> d_disabled d \<and>
     d_status d \<in> {None, Some Active, Some Invited} \<and> (d_totp_enabled d \<longrightarrow> totp_passes lib now d code))"
proof (cases "find_user username st")
  case (Some d)
  have s: "u_status (doc_to_user lib d) \<in> {Suspended, Deactivated, Deleted} \<or> d_disabled d \<longleftrightarrow>
      \<not> (\<not> d_disabled d \<and> d_status d \<in> {None, Some Active, Some Invited})"
    by (cases "d_status d"; cases "the (d_status d)") (auto simp: doc_to_user_def)
  have t: "d_totp_enabled d \<and> (nonempty code = None \<or> \<not> (case (nonempty (u_totp_secret (doc_to_user lib d)), code) of
        (Some x, Some c) \<Rightarrow> totp_verify lib now x c | _ \<Rightarrow> False)) \<longleftrightarrow> \<not> (d_totp_enabled d \<longrightarrow> totp_passes lib now d code)"
    by (cases code) (auto simp: totp_passes_def doc_to_user_def nonempty_def split: option.splits)
  show ?thesis
  proof (cases "locked_at now d \<or> \<not> password_matches lib password d")
    case True
    then show ?thesis by (auto simp: login_def authenticate_user_def Some)
  next
    case False
    then obtain st1 where a: "authenticate_user lib cfg others now username password st = (Some (doc_to_user lib d), st1)"
      by (simp add: authenticate_user_def Some)
    have "login_blocked (doc_to_user lib d) \<longleftrightarrow> \<not> (\<not> d_disabled d \<and> d_status d \<in> {None, Some Active, Some Invited})"
      using s by (auto simp: login_blocked_def doc_to_user_def)
    moreover have "u_totp_enabled (doc_to_user lib d) = d_totp_enabled d" by (simp add: doc_to_user_def)
    ultimately show ?thesis
      using False t by (auto simp: login_def a Some split_def Let_def)
  qed
qed (simp add: login_def authenticate_user_def)

lemma login_succeeds_iff_witness:
  "\<exists>toks st'. login demo_lib demo_settings (\<lambda>s. s) 0 demo_ids ''ip'' ''ua'' None ''ivy'' ''pw'' None
     (demo_auth\<lparr>users := [demo_doc ''ivy'' Viewer Invited]\<rparr>) = (Inr toks, st')"
  unfolding login_succeeds_iff
  by (simp add: find_user_def demo_doc_def locked_at_def password_matches_def demo_lib_def non_active_def)

text \<open>The enrolment route has none of these gates: with the password, the secret's current code and no activated
  second factor it issues tokens also to a locked or suspended account (the cache of revoked users still
  rejects the latter's), and a wrong password is answered with an error that no counter records.\<close>

theorem totp_setup_bypasses_gates:
  assumes "find_user username st = Some d" "d_totp_secret d = Some secret" "secret \<noteq> []" "field_decrypt lib secret \<noteq> []"
    and "\<not> d_totp_enabled d"
  shows "(password_matches lib password d \<and> totp_verify lib now (field_decrypt lib secret) code \<longrightarrow>
      (\<exists>toks st'. verify_totp_setup lib cfg False now ids ip agent tenant username password code st = (Inr toks, st'))) \<and>
    (\<not> password_matches lib password d \<longrightarrow>
      verify_totp_setup lib cfg False now ids ip agent tenant username password code st = (Inl (HTTPException 401 ''Invalid password''), st))"
  using assms
  by (auto simp: verify_totp_setup_def get_user_by_username_def doc_to_user_def password_matches_def nonempty_def split_def Let_def)

lemma totp_setup_bypasses_gates_witness:
  "\<exists>toks st'. verify_totp_setup demo_lib demo_settings False 0 demo_ids ''ip'' ''ua'' None ''bob'' ''pw'' ''123456''
     (demo_auth\<lparr>users := [(demo_doc ''bob'' Viewer Suspended)\<lparr>d_totp_secret := Some ''123456'', d_locked_until := Some 99\<rparr>]\<rparr>) = (Inr toks, st')"
proof -
  let ?d = "(demo_doc ''bob'' Viewer Suspended)\<lparr>d_totp_secret := Some ''123456'', d_locked_until := Some 99\<rparr>"
  have d: "find_user ''bob'' (demo_auth\<lparr>users := [?d]\<rparr>) = Some ?d" "d_totp_secret ?d = Some ''123456''" "''123456'' \<noteq> []"
    "field_decrypt demo_lib ''123456'' \<noteq> []" "\<not> d_totp_enabled ?d"
    by (simp_all add: find_user_def demo_doc_def demo_lib_def)
  have "password_matches demo_lib ''pw'' ?d" "totp_verify demo_lib 0 (field_decrypt demo_lib ''123456'') ''123456''"
    by (simp_all add: password_matches_def demo_lib_def demo_doc_def)
  with totp_setup_bypasses_gates [OF d] show ?thesis by blast
qed

text \<open>Changing a password: what is accepted, and what it leaves behind. The new password is compared with the history
  but not with the current one, which may thus be kept; the history holds at most the configured
  number of entries, and only the current session stays active.\<close>

theorem password_change:
  "((\<exists>st'. change_password lib pol False now salt p cur new st = (Inr (), st')) \<longleftrightarrow>
     (\<exists>d. find_user (p_sub p) st = Some d \<and> password_matches lib cur d \<and> password_min_length pol \<le> int (length new) \<and>
       (0 < password_history_count pol \<longrightarrow> \<not> check_password_history lib new (d_password_history d)) \<and>
       (password_check_breached pol \<longrightarrow> \<not> breached lib new))) \<and>
   (\<forall>st'. change_password lib pol False now salt p cur new st = (Inr (), st') \<longrightarrow>
     (\<exists>d h. find_user (p_sub p) st = Some d \<and>
        find_user (p_sub p) st' = Some (d\<lparr>d_hashed_password := pw_hash lib salt new, d_password_history := h, d_password_changed_at := Some now\<rparr>) \<and>
        hd h = (d_hashed_password d, now) \<and> (0 < password_history_count pol \<longrightarrow> length h \<le> nat (password_history_count pol))) \<and>
     (\<forall>s\<in>set (sessions st'). s_username s = p_sub p \<and> s_is_active s \<longrightarrow> nonempty (p_sid p) = Some (s_session_id s)))"
  (is "(?ok \<longleftrightarrow> ?cond) \<and> ?post")
proof (intro conjI allI impI)
  show "?ok \<longleftrightarrow> ?cond"
    by (auto simp: change_password_def get_user_by_username_def doc_to_user_def password_matches_def Let_def
        split: option.splits)
next
  fix st'
  assume ok: "change_password lib pol False now salt p cur new st = (Inr (), st')"
  then obtain d where d: "find_user (p_sub p) st = Some d"
    by (auto simp: change_password_def get_user_by_username_def split: option.splits)
  let ?h = "next_history (password_history_count pol) (d_hashed_password d, now) (d_password_history d)"
  let ?f = "\<lambda>d. d\<lparr>d_hashed_password := pw_hash lib salt new, d_password_history := ?h, d_password_changed_at := Some now\<rparr>"
  let ?st1 = "update_user (p_sub p) ?f st"
  have st': "st' = log_auth (p_sub p) ''auth.password_changed'' True
      (snd (revoke_all_user_sessions now (p_sub p) ''password_changed'' (p_sid p) ?st1))"
    using ok d by (auto simp: change_password_def change_user_password_def get_user_by_username_def doc_to_user_def Let_def
        split: if_splits)
  have "users st' = users ?st1"
    by (simp add: st' revoke_all_user_sessions_def Let_def mark_sessions_revoked_def delete_families_def)
  then have "find_user (p_sub p) st' = Some (?f d)"
    using find_user_update [of ?f "p_sub p" "p_sub p" st] d by (simp add: find_user_cong [of st' ?st1])
  moreover have "hd ?h = (d_hashed_password d, now) \<and> (0 < password_history_count pol \<longrightarrow> length ?h \<le> nat (password_history_count pol))"
    by (auto simp: next_history_def)
  ultimately show "\<exists>d h. find_user (p_sub p) st = Some d \<and>
        find_user (p_sub p) st' = Some (d\<lparr>d_hashed_password := pw_hash lib salt new, d_password_history := h, d_password_changed_at := Some now\<rparr>) \<and>
        hd h = (d_hashed_password d, now) \<and> (0 < password_history_count pol \<longrightarrow> length h \<le> nat (password_history_count pol))"
    using d by blast
  show "\<forall>s\<in>set (sessions st'). s_username s = p_sub p \<and> s_is_active s \<longrightarrow> nonempty (p_sid p) = Some (s_session_id s)"
    by (auto simp: st' revoke_all_user_sessions_def Let_def mark_sessions_revoked_def delete_families_def nonempty_def
        update_many_def filter_empty_conv split: if_splits option.splits)
qed

lemma password_change_witness:
  "\<exists>st'. change_password demo_lib demo_policy False 0 ''salt'' (demo_payload ''bob'' Viewer) ''password'' ''password''
     (demo_auth\<lparr>users := [(demo_doc ''bob'' Viewer Active)\<lparr>d_hashed_password := ''password''\<rparr>]\<rparr>) = (Inr (), st')"
proof -
  have "\<exists>d. find_user (p_sub (demo_payload ''bob'' Viewer))
      (demo_auth\<lparr>users := [(demo_doc ''bob'' Viewer Active)\<lparr>d_hashed_password := ''password''\<rparr>]\<rparr>) = Some d \<and>
      password_matches demo_lib ''password'' d \<and> password_min_length demo_policy \<le> int (length ''password'') \<and>
      (0 < password_history_count demo_policy \<longrightarrow> \<not> check_password_history demo_lib ''password'' (d_password_history d)) \<and>
      (password_check_breached demo_policy \<longrightarrow> \<not> breached demo_lib ''password'')"
    by (simp add: find_user_def demo_payload_def demo_doc_def demo_policy_def password_matches_def demo_lib_def check_password_history_def)
  with password_change show ?thesis by blast
qed

end
