(* ===== verification/RateLimit.thy ===== *)
theory RateLimit
  imports Prelude
begin

text \<open>
  \<open>backend/utils/rate_limit.py\<close> and \<open>backend/middleware/rate_limit.py\<close>: the sliding-window limiter with its lazy and
  periodic cleaning, and the request pipeline that uses one limiter for all paths and one for the login.
  The monotonic clock is an argument; a request carries the time of the check and that of the cleaning.
\<close>

section \<open>RateLimiter\<close>

record limiter =
  lim_max :: int
  lim_window :: instant
  lim_hits :: "string \<Rightarrow> instant list option"
  lim_count :: int

definition new_limiter :: "int \<Rightarrow> int \<Rightarrow> limiter" where
  "new_limiter max_requests window_seconds =
     \<lparr>lim_max = max_requests, lim_window = seconds window_seconds, lim_hits = Map.empty, lim_count = 0\<rparr>"

definition hits_of :: "limiter \<Rightarrow> string \<Rightarrow> instant list" where
  "hits_of l ip = (case lim_hits l ip of Some ts \<Rightarrow> ts | None \<Rightarrow> [])"

definition lim_cleanup :: "instant \<Rightarrow> limiter \<Rightarrow> limiter" where
  "lim_cleanup now l =
     l\<lparr>lim_hits := (\<lambda>ip. case lim_hits l ip of
         Some ts \<Rightarrow> if ts = [] \<or> last ts \<le> now - lim_window l then None else Some ts
       | None \<Rightarrow> None)\<rparr>"

definition is_limited :: "instant \<Rightarrow> instant \<Rightarrow> string \<Rightarrow> limiter \<Rightarrow> bool \<times> limiter" where
  "is_limited now now' ip l =
     (let ts = filter (\<lambda>t. now - lim_window l < t) (hits_of l ip);
          l1 = l\<lparr>lim_hits := (lim_hits l)(ip \<mapsto> ts)\<rparr>
      in if lim_max l \<le> int (length ts) then (True, l1)
         else (let l2 = l1\<lparr>lim_hits := (lim_hits l1)(ip \<mapsto> ts @ [now]), lim_count := lim_count l1 + 1\<rparr>
               in (False, if lim_count l2 mod 200 = 0 then lim_cleanup now' l2 else l2)))"

definition lim_reset :: "limiter \<Rightarrow> limiter" where
  "lim_reset l = l\<lparr>lim_hits := Map.empty\<rparr>"

section \<open>What the limiter implements: a log that forgets nothing\<close>

type_synonym admissions = "(string \<times> instant) list"

definition recent :: "instant \<Rightarrow> instant \<Rightarrow> string \<Rightarrow> admissions \<Rightarrow> instant list" where
  "recent w now ip hist = map snd (filter (\<lambda>(i, t). i = ip \<and> now - w < t) hist)"

definition spec_limited :: "int \<Rightarrow> instant \<Rightarrow> instant \<Rightarrow> string \<Rightarrow> admissions \<Rightarrow> bool \<times> admissions" where
  "spec_limited m w now ip hist =
     (if m \<le> int (length (recent w now ip hist)) then (True, hist) else (False, hist @ [(ip, now)]))"

text \<open>The stored hits agree with the log as far as anybody can still see.\<close>

definition limiter_rel :: "instant \<Rightarrow> limiter \<Rightarrow> admissions \<Rightarrow> bool" where
  "limiter_rel now l hist \<longleftrightarrow>
     (\<forall>ip. filter (\<lambda>t. now - lim_window l < t) (hits_of l ip) = recent (lim_window l) now ip hist \<and>
           sorted (hits_of l ip) \<and> (\<forall>t\<in>set (hits_of l ip). t \<le> now))"

lemma limiter_rel_new: "limiter_rel now (new_limiter m w) []"
  by (simp add: limiter_rel_def hits_of_def new_limiter_def recent_def)

lemma filter_later: "now \<le> now' \<Longrightarrow> filter (\<lambda>t. now' - w < t) (filter (\<lambda>t. now - w < t) xs) = filter (\<lambda>t. now' - w < (t :: int)) xs"
  by (induction xs) auto

lemma recent_later: "now \<le> now' \<Longrightarrow> filter (\<lambda>t. now' - w < t) (recent w now ip hist) = recent w now' ip hist"
  by (induction hist) (auto simp: recent_def)

lemma limiter_rel_later:
  assumes "limiter_rel now l hist" "now \<le> now'"
  shows "limiter_rel now' l hist"
  unfolding limiter_rel_def
proof (intro allI conjI ballI)
  fix ip
  have r: "filter (\<lambda>t. now - lim_window l < t) (hits_of l ip) = recent (lim_window l) now ip hist" "sorted (hits_of l ip)"
    "\<And>t. t \<in> set (hits_of l ip) \<Longrightarrow> t \<le> now"
    using assms(1) by (auto simp: limiter_rel_def)
  show "filter (\<lambda>t. now' - lim_window l < t) (hits_of l ip) = recent (lim_window l) now' ip hist"
    using arg_cong [OF r(1), of "filter (\<lambda>t. now' - lim_window l < t)"]
    unfolding filter_later [OF assms(2)] recent_later [OF assms(2)] .
  show "sorted (hits_of l ip)" by (rule r(2))
  show "t \<le> now'" if "t \<in> set (hits_of l ip)" for t using r(3) [OF that] assms(2) by simp
qed

lemma cleanup_rel:
  assumes "limiter_rel now l hist"
  shows "limiter_rel now (lim_cleanup now l) hist"
proof -
  have "filter (\<lambda>t. now - lim_window l < t) (hits_of (lim_cleanup now l) ip) = filter (\<lambda>t. now - lim_window l < t) (hits_of l ip) \<and>
      (hits_of (lim_cleanup now l) ip = hits_of l ip \<or> hits_of (lim_cleanup now l) ip = [])" for ip
  proof (cases "hits_of l ip = [] \<or> \<not> last (hits_of l ip) \<le> now - lim_window l")
    case True
    then show ?thesis by (auto simp: hits_of_def lim_cleanup_def split: option.splits)
  next
    case False
    have "sorted (hits_of l ip)" using assms by (simp add: limiter_rel_def)
    then have "t \<le> last (hits_of l ip)" if "t \<in> set (hits_of l ip)" for t
      using that False by (metis append_butlast_last_id in_set_conv_decomp sorted_append list.set_intros(1) set_append UnE order_refl empty_iff empty_set set_ConsD)
    with False have "filter (\<lambda>t. now - lim_window l < t) (hits_of l ip) = []" by (fastforce simp: filter_empty_conv)
    moreover have "hits_of (lim_cleanup now l) ip = []"
      using False by (auto simp: hits_of_def lim_cleanup_def split: option.splits)
    ultimately show ?thesis by simp
  qed
  moreover have "lim_window (lim_cleanup now l) = lim_window l" by (simp add: lim_cleanup_def)
  ultimately show ?thesis using assms unfolding limiter_rel_def by (metis sorted0 empty_iff empty_set)
qed

text \<open>One request: the verdict is the log's, and the relation is kept.\<close>

lemma is_limited_refines:
  assumes "limiter_rel now l hist" "now \<le> now'"
  shows "fst (is_limited now now' ip l) = fst (spec_limited (lim_max l) (lim_window l) now ip hist)"
    and "limiter_rel now' (snd (is_limited now now' ip l)) (snd (spec_limited (lim_max l) (lim_window l) now ip hist))"
    and "lim_max (snd (is_limited now now' ip l)) = lim_max l" "lim_window (snd (is_limited now now' ip l)) = lim_window l"
proof -
  let ?w = "lim_window l"
  let ?ts = "filter (\<lambda>t. now - ?w < t) (hits_of l ip)"
  let ?l1 = "l\<lparr>lim_hits := (lim_hits l)(ip \<mapsto> ?ts)\<rparr>"
  let ?l2 = "l\<lparr>lim_hits := (lim_hits l)(ip \<mapsto> ?ts @ [now]), lim_count := lim_count l + 1\<rparr>"
  have ts: "?ts = recent ?w now ip hist" and R: "\<And>i. filter (\<lambda>t. now - ?w < t) (hits_of l i) = recent ?w now i hist"
    "\<And>i. sorted (hits_of l i)" "\<And>i t. t \<in> set (hits_of l i) \<Longrightarrow> t \<le> now"
    using assms(1) by (auto simp: limiter_rel_def)
  show "fst (is_limited now now' ip l) = fst (spec_limited (lim_max l) ?w now ip hist)"
    by (simp add: is_limited_def spec_limited_def Let_def ts)
  have h: "hits_of ?l1 i = (if i = ip then ?ts else hits_of l i)" "hits_of ?l2 i = (if i = ip then ?ts @ [now] else hits_of l i)" for i
    by (simp_all add: hits_of_def)
  have r: "filter (\<lambda>t. now - ?w < t) (recent ?w now ip hist) = recent ?w now ip hist" "sorted (recent ?w now ip hist)"
    "\<And>t. t \<in> set (recent ?w now ip hist) \<Longrightarrow> t \<le> now"
    unfolding ts [symmetric] using R(2) [of ip] R(3) [of _ ip]
    by (auto simp: sorted_filter [where f = id, simplified])
  have 1: "limiter_rel now ?l1 hist"
    unfolding limiter_rel_def h(1) using R r ts by auto
  have add: "recent ?w now i (hist @ [(ip, now)]) = recent ?w now i hist @ (if i = ip \<and> 0 < ?w then [now] else [])" for i
    by (simp add: recent_def)
  have 2: "limiter_rel now ?l2 (hist @ [(ip, now)])"
    unfolding limiter_rel_def h(2) using R r ts by (auto simp: add sorted_append)
  then have 3: "limiter_rel now' (if (lim_count l + 1) mod 200 = 0 then lim_cleanup now' ?l2 else ?l2) (hist @ [(ip, now)])"
    using cleanup_rel [OF limiter_rel_later [OF 2 assms(2)]] limiter_rel_later [OF 2 assms(2)] by simp
  show "limiter_rel now' (snd (is_limited now now' ip l)) (snd (spec_limited (lim_max l) ?w now ip hist))"
    using limiter_rel_later [OF 1 assms(2)] 3 unfolding ts by (simp add: is_limited_def spec_limited_def Let_def ts)
  show "lim_max (snd (is_limited now now' ip l)) = lim_max l" "lim_window (snd (is_limited now now' ip l)) = ?w"
    by (simp_all add: is_limited_def Let_def lim_cleanup_def)
qed

section \<open>Requests over time\<close>

text \<open>A request: the time of the check, that of a cleaning that may follow, the address.\<close>

type_synonym lim_request = "instant \<times> instant \<times> string"

fun lim_run :: "lim_request list \<Rightarrow> limiter \<Rightarrow> bool list \<times> limiter" where
  "lim_run [] l = ([], l)"
| "lim_run ((now, now', ip) # rs) l =
     (let (b, l1) = is_limited now now' ip l; (bs, l2) = lim_run rs l1 in (b # bs, l2))"

fun spec_run :: "int \<Rightarrow> instant \<Rightarrow> lim_request list \<Rightarrow> admissions \<Rightarrow> bool list \<times> admissions" where
  "spec_run m w [] hist = ([], hist)"
| "spec_run m w ((now, now', ip) # rs) hist =
     (let (b, h1) = spec_limited m w now ip hist; (bs, h2) = spec_run m w rs h1 in (b # bs, h2))"

text \<open>The monotonic clock never goes back.\<close>

fun clock_ok :: "instant \<Rightarrow> lim_request list \<Rightarrow> bool" where
  "clock_ok t [] = True"
| "clock_ok t ((now, now', ip) # rs) = (t \<le> now \<and> now \<le> now' \<and> clock_ok now' rs)"

lemma lim_run_refines:
  assumes "limiter_rel t l hist" "clock_ok t rs"
  shows "fst (lim_run rs l) = fst (spec_run (lim_max l) (lim_window l) rs hist)"
  using assms
proof (induction rs arbitrary: t l hist)
  case (Cons r rs)
  obtain now now' ip where [simp]: "r = (now, now', ip)" by (cases r) auto
  have R: "limiter_rel now l hist" and c: "now \<le> now'" "clock_ok now' rs"
    using Cons.prems limiter_rel_later by auto
  note one = is_limited_refines [OF R c(1), of ip]
  show ?case
    using Cons.IH [OF one(2) c(2)] one(1,3,4) by (simp add: split_beta Let_def)
qed simp

text \<open>Of the admissions of the log, at most \<open>m\<close> of one address lie in any window.\<close>

definition in_window :: "instant \<Rightarrow> instant \<Rightarrow> string \<Rightarrow> admissions \<Rightarrow> instant list" where
  "in_window x w ip hist = map snd (filter (\<lambda>(i, t). i = ip \<and> x < t \<and> t \<le> x + w) hist)"

definition windows_ok :: "int \<Rightarrow> instant \<Rightarrow> instant \<Rightarrow> admissions \<Rightarrow> bool" where
  "windows_ok m w now hist \<longleftrightarrow>
     (\<forall>(i, t)\<in>set hist. t \<le> now) \<and> (\<forall>x ip. int (length (in_window x w ip hist)) \<le> max 0 m)"

lemma filter_length_mono: "(\<And>x. x \<in> set xs \<Longrightarrow> P x \<Longrightarrow> Q x) \<Longrightarrow> length (filter P xs) \<le> length (filter Q xs)"
  by (induction xs) auto

lemma in_window_snoc:
  "in_window x w ip (hist @ [(i, t)]) = in_window x w ip hist @ (if i = ip \<and> x < t \<and> t \<le> x + w then [t] else [])"
  by (simp add: in_window_def)

lemma spec_limited_windows:
  assumes "windows_ok m w t hist" "t \<le> now"
  shows "windows_ok m w now (snd (spec_limited m w now ip hist))"
proof (cases "m \<le> int (length (recent w now ip hist))")
  case True
  then show ?thesis using assms by (fastforce simp: spec_limited_def windows_ok_def)
next
  case False
  have old: "\<And>i u. (i, u) \<in> set hist \<Longrightarrow> u \<le> now" "\<And>x i. int (length (in_window x w i hist)) \<le> max 0 m"
    using assms by (fastforce simp: windows_ok_def)+
  have "length (in_window x w ip hist) \<le> length (recent w now ip hist)" if "now \<le> x + w" for x
    unfolding in_window_def recent_def length_map using that by (intro filter_length_mono) auto
  then have "int (length (in_window x w ip hist)) + 1 \<le> max 0 m" if "now \<le> x + w" for x
    using False that by force
  then have "int (length (in_window x w i (hist @ [(ip, now)]))) \<le> max 0 m" for x i
    using old(2) [of x i] by (auto simp: in_window_snoc)
  then show ?thesis using False old(1) by (auto simp: spec_limited_def windows_ok_def)
qed

lemma spec_run_windows:
  assumes "windows_ok m w t hist" "clock_ok t rs"
  shows "\<exists>t'. windows_ok m w t' (snd (spec_run m w rs hist))"
  using assms
proof (induction rs arbitrary: t hist)
  case (Cons r rs)
  obtain now now' ip where [simp]: "r = (now, now', ip)" by (cases r) auto
  have c: "t \<le> now" "now \<le> now'" "clock_ok now' rs" using Cons.prems by auto
  have "windows_ok m w now' (snd (spec_limited m w now ip hist))"
    using spec_limited_windows [OF Cons.prems(1) c(1), of ip] c(2) by (fastforce simp: windows_ok_def)
  from Cons.IH [OF this c(3)] show ?case by (simp add: split_beta Let_def)
qed auto

text \<open>The times at which requests of one address were let through.\<close>

fun let_through :: "string \<Rightarrow> lim_request list \<Rightarrow> bool list \<Rightarrow> instant list" where
  "let_through ip ((now, now', i) # rs) (b # bs) =
     (if i = ip \<and> \<not> b then now # let_through ip rs bs else let_through ip rs bs)"
| "let_through ip _ _ = []"

lemma spec_run_log:
  "map snd (filter (\<lambda>(i, t). i = ip) (snd (spec_run m w rs hist))) =
   map snd (filter (\<lambda>(i, t). i = ip) hist) @ let_through ip rs (fst (spec_run m w rs hist))"
proof (induction rs arbitrary: hist)
  case (Cons r rs)
  then show ?case by (cases r) (simp add: split_beta Let_def spec_limited_def)
qed simp

lemma in_window_alt: "in_window x w ip hist = filter (\<lambda>t. x < t \<and> t \<le> x + w) (map snd (filter (\<lambda>(i, t). i = ip) hist))"
  by (induction hist) (auto simp: in_window_def)

lemma let_through_window:
  assumes "clock_ok t rs"
  shows "int (length (filter (\<lambda>u. x < u \<and> u \<le> x + seconds w) (let_through ip rs (fst (lim_run rs (new_limiter m w)))))) \<le> max 0 m"
proof -
  let ?log = "snd (spec_run m (seconds w) rs [])"
  have "windows_ok m (seconds w) t []" by (simp add: windows_ok_def in_window_def)
  from spec_run_windows [OF this assms] have "int (length (in_window x (seconds w) ip ?log)) \<le> max 0 m"
    by (auto simp: windows_ok_def)
  moreover have "let_through ip rs (fst (lim_run rs (new_limiter m w))) = map snd (filter (\<lambda>(i, t). i = ip) ?log)"
    using lim_run_refines [OF limiter_rel_new assms, of m w] spec_run_log [of ip m "seconds w" rs "[]"]
    by (simp add: new_limiter_def)
  ultimately show ?thesis by (simp add: in_window_alt)
qed

section \<open>The client's address\<close>

definition lstrip :: "string \<Rightarrow> string" where
  "lstrip s = dropWhile (\<lambda>c. c \<in> set '' '' \<or> (9 \<le> (of_char c :: nat) \<and> (of_char c :: nat) \<le> 13) \<or>
     (28 \<le> (of_char c :: nat) \<and> (of_char c :: nat) \<le> 31) \<or> (of_char c :: nat) \<in> {133, 160}) s"

definition strip :: "string \<Rightarrow> string" where
  "strip s = rev (lstrip (rev (lstrip s)))"

text \<open>\<open>trusted\<close> is the membership test of the configured proxy networks.\<close>

definition client_ip :: "(string \<Rightarrow> bool) \<Rightarrow> string option \<Rightarrow> string option \<Rightarrow> string" where
  "client_ip trusted client forwarded =
     (let host = (case client of Some h \<Rightarrow> h | None \<Rightarrow> ''unknown'')
      in if trusted host then
           (case forwarded of
              Some f \<Rightarrow> (let first = strip (takeWhile (\<lambda>c. c \<noteq> CHR '','') f) in if first \<noteq> [] then first else host)
            | None \<Rightarrow> host)
         else host)"

section \<open>RateLimitMiddleware\<close>

definition hex_val :: "char \<Rightarrow> nat option" where
  "hex_val c = (let n = (of_char c :: nat) in
     if 48 \<le> n \<and> n \<le> 57 then Some (n - 48)
     else if 65 \<le> n \<and> n \<le> 70 then Some (n - 55)
     else if 97 \<le> n \<and> n \<le> 102 then Some (n - 87) else None)"

text \<open>\<open>urllib.parse.unquote\<close>, a byte for a character: the rest of the pipeline only looks for ASCII
  characters, which the decoding of the other bytes neither makes nor removes.\<close>

fun unquote :: "string \<Rightarrow> string" where
  "unquote (c # a # b # r) =
     (if c = CHR ''%'' then
        (case (hex_val a, hex_val b) of
           (Some x, Some y) \<Rightarrow> char_of (16 * x + y) # unquote r
         | _ \<Rightarrow> c # unquote (a # b # r))
      else c # unquote (a # b # r))"
| "unquote s = s"

fun collapse_slashes :: "string \<Rightarrow> string" where
  "collapse_slashes (c # d # r) =
     (if c = CHR ''/'' \<and> d = CHR ''/'' then collapse_slashes (d # r) else c # collapse_slashes (d # r))"
| "collapse_slashes s = s"

definition rstrip_slashes :: "string \<Rightarrow> string" where
  "rstrip_slashes s = rev (dropWhile (\<lambda>c. c = CHR ''/'') (rev s))"

definition normal_path :: "string \<Rightarrow> string" where
  "normal_path raw = (let p = rstrip_slashes (collapse_slashes (unquote raw)) in if p = [] then ''/'' else p)"

definition EXEMPT_PATHS :: "string list" where
  "EXEMPT_PATHS = [''/health'', ''/health/ready'', ''/metrics'']"

definition STRICT_PATH :: string where
  "STRICT_PATH = ''/api/v1/auth/login''"

definition STRICT_LIMIT :: int where
  "STRICT_LIMIT = 5"

definition starts_with :: "string \<Rightarrow> string \<Rightarrow> bool" where
  "starts_with p s = (take (length p) s = p)"

definition is_strict :: "string \<Rightarrow> bool" where
  "is_strict path = (path = STRICT_PATH \<or> starts_with (STRICT_PATH @ ''/'') path)"

text \<open>A request: its address, its raw path, and what the clock shows at the check and the cleaning of
  either limiter.\<close>

record http_request =
  hr_ip :: string
  hr_path :: string
  hr_strict :: "instant \<times> instant"
  hr_global :: "instant \<times> instant"

record rate_middleware =
  rm_global :: limiter
  rm_strict :: limiter

definition new_middleware :: "int \<Rightarrow> rate_middleware" where
  "new_middleware rate_limit_per_minute =
     \<lparr>rm_global = new_limiter rate_limit_per_minute 60, rm_strict = new_limiter STRICT_LIMIT 60\<rparr>"

datatype verdict = Forwarded | TooManyRequests

definition global_check :: "http_request \<Rightarrow> rate_middleware \<Rightarrow> verdict \<times> rate_middleware" where
  "global_check r s =
     (let (b, g) = is_limited (fst (hr_global r)) (snd (hr_global r)) (hr_ip r) (rm_global s)
      in (if b then TooManyRequests else Forwarded, s\<lparr>rm_global := g\<rparr>))"

definition dispatch :: "http_request \<Rightarrow> rate_middleware \<Rightarrow> verdict \<times> rate_middleware" where
  "dispatch r s =
     (let path = normal_path (hr_path r)
      in if path \<in> set EXEMPT_PATHS then (Forwarded, s)
         else if is_strict path then
           (let (b, l) = is_limited (fst (hr_strict r)) (snd (hr_strict r)) (hr_ip r) (rm_strict s); s1 = s\<lparr>rm_strict := l\<rparr>
            in if b then (TooManyRequests, s1) else global_check r s1)
         else global_check r s)"

fun dispatch_all :: "http_request list \<Rightarrow> rate_middleware \<Rightarrow> verdict list \<times> rate_middleware" where
  "dispatch_all [] s = ([], s)"
| "dispatch_all (r # rs) s =
     (let (v, s1) = dispatch r s; (vs, s2) = dispatch_all rs s1 in (v # vs, s2))"

definition exempt :: "http_request \<Rightarrow> bool" where
  "exempt r \<longleftrightarrow> normal_path (hr_path r) \<in> set EXEMPT_PATHS"

definition to_login :: "http_request \<Rightarrow> bool" where
  "to_login r \<longleftrightarrow> \<not> exempt r \<and> is_strict (normal_path (hr_path r))"

text \<open>The requests each limiter is asked about.\<close>

definition strict_calls :: "http_request list \<Rightarrow> lim_request list" where
  "strict_calls rs = map (\<lambda>r. (fst (hr_strict r), snd (hr_strict r), hr_ip r)) (filter to_login rs)"

fun global_calls :: "http_request list \<Rightarrow> rate_middleware \<Rightarrow> lim_request list" where
  "global_calls [] s = []"
| "global_calls (r # rs) s =
     (let rest = global_calls rs (snd (dispatch r s))
      in if exempt r \<or> (to_login r \<and> fst (is_limited (fst (hr_strict r)) (snd (hr_strict r)) (hr_ip r) (rm_strict s)))
         then rest else (fst (hr_global r), snd (hr_global r), hr_ip r) # rest)"

text \<open>When the requests of an address that satisfy \<open>P\<close> went through.\<close>

fun forwarded :: "(http_request \<Rightarrow> bool) \<Rightarrow> (http_request \<Rightarrow> instant) \<Rightarrow> string \<Rightarrow> http_request list \<Rightarrow> verdict list \<Rightarrow> instant list" where
  "forwarded P time ip (r # rs) (v # vs) =
     (if P r \<and> hr_ip r = ip \<and> v = Forwarded then time r # forwarded P time ip rs vs else forwarded P time ip rs vs)"
| "forwarded P time ip _ _ = []"

fun requests_ok :: "instant \<Rightarrow> http_request list \<Rightarrow> bool" where
  "requests_ok t [] = True"
| "requests_ok t (r # rs) =
     (t \<le> fst (hr_strict r) \<and> fst (hr_strict r) \<le> snd (hr_strict r) \<and> snd (hr_strict r) \<le> fst (hr_global r) \<and>
      fst (hr_global r) \<le> snd (hr_global r) \<and> requests_ok (snd (hr_global r)) rs)"

lemma clock_ok_mono: "clock_ok t rs \<Longrightarrow> u \<le> t \<Longrightarrow> clock_ok u rs"
  by (cases rs) auto

lemma clock_strict_calls: "requests_ok t rs \<Longrightarrow> clock_ok t (strict_calls rs)"
proof (induction rs arbitrary: t)
  case (Cons r rs)
  then have "clock_ok (snd (hr_global r)) (strict_calls rs)" by simp
  with Cons.prems show ?case by (auto simp: strict_calls_def intro: clock_ok_mono)
qed (simp add: strict_calls_def)

lemma clock_global_calls: "requests_ok t rs \<Longrightarrow> clock_ok t (global_calls rs s)"
proof (induction rs arbitrary: t s)
  case (Cons r rs)
  then have "clock_ok (snd (hr_global r)) (global_calls rs (snd (dispatch r s)))" by simp
  with Cons.prems show ?case by (auto simp: Let_def intro: clock_ok_mono)
qed simp

lemma dispatch_cases:
  "exempt r \<Longrightarrow> dispatch r s = (Forwarded, s)"
  "\<not> exempt r \<Longrightarrow> \<not> to_login r \<Longrightarrow> dispatch r s = global_check r s"
  "to_login r \<Longrightarrow> is_limited (fst (hr_strict r)) (snd (hr_strict r)) (hr_ip r) (rm_strict s) = (b, l) \<Longrightarrow>
     dispatch r s = (if b then (TooManyRequests, s\<lparr>rm_strict := l\<rparr>) else global_check r (s\<lparr>rm_strict := l\<rparr>))"
  by (simp_all add: dispatch_def exempt_def to_login_def)

lemma global_check_parts:
  "rm_strict (snd (global_check r s)) = rm_strict s"
  "rm_global (snd (global_check r s)) = snd (is_limited (fst (hr_global r)) (snd (hr_global r)) (hr_ip r) (rm_global s))"
  "fst (global_check r s) = Forwarded \<longleftrightarrow> \<not> fst (is_limited (fst (hr_global r)) (snd (hr_global r)) (hr_ip r) (rm_global s))"
  by (simp_all add: global_check_def split_beta)

lemma forwarded_logins_le:
  "length (filter P (forwarded to_login (fst \<circ> hr_strict) ip rs (fst (dispatch_all rs s)))) \<le>
   length (filter P (let_through ip (strict_calls rs) (fst (lim_run (strict_calls rs) (rm_strict s)))))"
proof (induction rs arbitrary: s)
  case (Cons r rs)
  show ?case
  proof (cases "to_login r")
    case False
    then have "rm_strict (snd (dispatch r s)) = rm_strict s"
      by (cases "exempt r") (simp_all add: dispatch_cases global_check_parts)
    with False Cons.IH [of "snd (dispatch r s)"] show ?thesis
      by (simp add: strict_calls_def split_beta Let_def)
  next
    case True
    obtain b l where bl: "is_limited (fst (hr_strict r)) (snd (hr_strict r)) (hr_ip r) (rm_strict s) = (b, l)" by fastforce
    have "rm_strict (snd (dispatch r s)) = l" "b \<Longrightarrow> fst (dispatch r s) = TooManyRequests"
      using dispatch_cases(3) [OF True bl] by (simp_all add: global_check_parts)
    with True bl Cons.IH [of "snd (dispatch r s)"] show ?thesis
      by (auto simp: strict_calls_def split_beta Let_def)
  qed
qed simp

lemma forwarded_global_eq:
  "forwarded (\<lambda>r. \<not> exempt r) (fst \<circ> hr_global) ip rs (fst (dispatch_all rs s)) =
   let_through ip (global_calls rs s) (fst (lim_run (global_calls rs s) (rm_global s)))"
proof (induction rs arbitrary: s)
  case (Cons r rs)
  have ex: "\<not> exempt r" if "to_login r" using that by (simp add: to_login_def)
  obtain b l where bl: "is_limited (fst (hr_strict r)) (snd (hr_strict r)) (hr_ip r) (rm_strict s) = (b, l)" by fastforce
  consider "exempt r" | "\<not> exempt r" "\<not> to_login r" | "to_login r" "b" | "to_login r" "\<not> b" by blast
  then show ?case
    by cases (use bl ex Cons.IH [of "snd (dispatch r s)"] in
      \<open>auto simp: dispatch_cases global_check_parts split_beta Let_def\<close>)
qed simp

section \<open>Properties\<close>

text \<open>C21. Dropping old hits at every check and cleaning idle addresses every two hundred admissions is
  invisible: over any sequence of requests on a clock that does not go back, the limiter gives the verdicts of
  a log that keeps every admission and counts those of the address in the last window.\<close>
theorem rate_limiter_refines_log:
  assumes "clock_ok t rs"
  shows "fst (lim_run rs (new_limiter m w)) = fst (spec_run m (seconds w) rs [])"
  using lim_run_refines [OF limiter_rel_new assms, of m w] by (simp add: new_limiter_def)

lemma rate_limiter_refines_log_witness:
  "clock_ok 0 [(0, 0, ''a''), (5, 5, ''a''), (9, 9, ''a''), (9, 9, ''b''), (1000000, 1000000, ''a'')] \<and>
   fst (lim_run [(0, 0, ''a''), (5, 5, ''a''), (9, 9, ''a''), (9, 9, ''b''), (1000000, 1000000, ''a'')] (new_limiter 2 1)) =
     [False, False, True, False, False]"
proof
  show "clock_ok 0 [(0, 0, ''a''), (5, 5, ''a''), (9, 9, ''a''), (9, 9, ''b''), (1000000, 1000000, ''a'')]" by simp
  from rate_limiter_refines_log [OF this, of 2 1]
  show "fst (lim_run [(0, 0, ''a''), (5, 5, ''a''), (9, 9, ''a''), (9, 9, ''b''), (1000000, 1000000, ''a'')] (new_limiter 2 1)) =
     [False, False, True, False, False]"
    by (simp add: spec_limited_def recent_def seconds_def)
qed


definition sample_login :: "instant \<Rightarrow> http_request" where
  "sample_login t = \<lparr>hr_ip = ''a'', hr_path = ''//api/v1/auth/%6Cogin/'', hr_strict = (t, t), hr_global = (t, t)\<rparr>"

lemma sample_login_path: "to_login (sample_login t)" "\<not> exempt (sample_login t)"
  by code_simp+


end
