(* ===== verification/ApiKeys.thy ===== *)
theory ApiKeys
  imports AuthRoutes RateLimit Sha256
begin

text \<open>
  \<open>backend/domains/api_keys\<close>: the stored keys, \<open>repository.py\<close>, \<open>service.py\<close>, and the authenticating
  dependency of \<open>middleware.py\<close> with its limiters per key. The random part of a new key and its identifier
  are arguments; an operation that makes several database calls takes the other workers as arguments.
\<close>

section \<open>entities.py\<close>

definition read_scope_names :: "string list" where
  "read_scope_names = [''agents:read'', ''apps:read'', ''compliance:read'', ''enforcement:read'', ''audit:read'',
     ''sync:read'', ''taxonomy:read'', ''fingerprints:read'', ''dashboard:read'']"

definition AVAILABLE_SCOPES :: "string list" where
  "AVAILABLE_SCOPES = read_scope_names @
     [''sync:trigger'', ''enforcement:write'', ''tags:write'', ''read:all'', ''write:all'']"

definition ends_with :: "string \<Rightarrow> string \<Rightarrow> bool" where
  "ends_with suf s = (length suf \<le> length s \<and> drop (length s - length suf) s = suf)"

definition READ_SCOPES :: "string set" where
  "READ_SCOPES = set (filter (ends_with '':read'') AVAILABLE_SCOPES)"

definition WRITE_SCOPES :: "string set" where
  "WRITE_SCOPES = set (filter (\<lambda>s. s \<notin> READ_SCOPES \<and> s \<noteq> ''read:all'' \<and> s \<noteq> ''write:all'') AVAILABLE_SCOPES)"

fun expand_scopes :: "string list \<Rightarrow> string set" where
  "expand_scopes [] = {}"
| "expand_scopes (s # ss) =
     (if s = ''write:all'' then READ_SCOPES \<union> WRITE_SCOPES
      else if s = ''read:all'' then READ_SCOPES
      else {s}) \<union> expand_scopes ss"

record api_key =
  k_id :: string
  k_tenant_id :: string
  k_name :: string
  k_description :: "string option"
  k_key_prefix :: string
  k_key_hash :: string
  k_scopes :: "string list"
  k_per_minute :: int
  k_per_hour :: int
  k_created_at :: instant
  k_created_by :: string
  k_expires_at :: "instant option"
  k_last_used_at :: "instant option"
  k_last_used_ip :: "string option"
  k_is_active :: bool
  k_revoked_at :: "instant option"
  k_revoked_by :: "string option"
  k_grace_expires_at :: "instant option"
  k_rotated_from_id :: "string option"

record key_state =
  key_docs :: "api_key list"
  key_log :: "auth_event list"

definition log_key :: "string \<Rightarrow> string \<Rightarrow> key_state \<Rightarrow> key_state" where
  "log_key actor action st = st\<lparr>key_log := key_log st @ [AuthEvent actor action True]\<rparr>"

section \<open>repository.py\<close>

definition in_grace :: "instant \<Rightarrow> api_key \<Rightarrow> bool" where
  "in_grace now k = (case k_grace_expires_at k of Some g \<Rightarrow> now < g | None \<Rightarrow> False)"

definition find_by_hash :: "string \<Rightarrow> key_state \<Rightarrow> api_key option" where
  "find_by_hash key_hash st = find (\<lambda>k. k_key_hash k = key_hash) (key_docs st)"

definition find_by_hash_including_grace :: "instant \<Rightarrow> string \<Rightarrow> key_state \<Rightarrow> api_key option" where
  "find_by_hash_including_grace now key_hash st =
     find (\<lambda>k. k_key_hash k = key_hash \<and> (k_is_active k \<or> in_grace now k)) (key_docs st)"

definition find_by_id :: "string \<Rightarrow> key_state \<Rightarrow> api_key option" where
  "find_by_id key_id st = find (\<lambda>k. k_id k = key_id) (key_docs st)"

definition list_by_tenant :: "string \<Rightarrow> key_state \<Rightarrow> api_key list" where
  "list_by_tenant tenant_id st = sort_key (\<lambda>k. - k_created_at k) (filter (\<lambda>k. k_tenant_id k = tenant_id) (key_docs st))"

text \<open>An insertion is refused by the index on the identifier or the unique index on the hash.\<close>

definition key_create :: "api_key \<Rightarrow> key_state \<Rightarrow> key_state option" where
  "key_create k st =
     (if list_ex (\<lambda>d. k_id d = k_id k \<or> k_key_hash d = k_key_hash k) (key_docs st) then None
      else Some (st\<lparr>key_docs := key_docs st @ [k]\<rparr>))"

definition key_update :: "string \<Rightarrow> (api_key \<Rightarrow> api_key) \<Rightarrow> key_state \<Rightarrow> key_state" where
  "key_update key_id f st = st\<lparr>key_docs := update_first (\<lambda>k. k_id k = key_id) f (key_docs st)\<rparr>"

definition key_touch :: "instant \<Rightarrow> string \<Rightarrow> string \<Rightarrow> key_state \<Rightarrow> key_state" where
  "key_touch now key_id ip = key_update key_id (\<lambda>k. k\<lparr>k_last_used_at := Some now, k_last_used_ip := Some ip\<rparr>)"

definition key_delete :: "string \<Rightarrow> key_state \<Rightarrow> key_state" where
  "key_delete key_id st =
     st\<lparr>key_docs := (case find (\<lambda>k. k_id k = key_id) (key_docs st) of Some k \<Rightarrow> remove1 k (key_docs st) | None \<Rightarrow> key_docs st)\<rparr>"

section \<open>service.py\<close>

datatype key_error = APIKeyNotFound | APIKeyError string | APIKeyScopeError "string list" | DuplicateKey

text \<open>\<open>str.encode\<close>: UTF-8.\<close>

definition utf8 :: "string \<Rightarrow> string" where
  "utf8 s = concat (map (\<lambda>c. let n = (of_char c :: nat) in
     if n < 128 then [c] else [char_of (192 + n div 64), char_of (128 + n mod 64)]) s)"

definition hash_key :: "string \<Rightarrow> string" where
  "hash_key key = sha256_hex (utf8 key)"

definition generate_api_key :: "string \<Rightarrow> string \<times> string \<times> string" where
  "generate_api_key random_part =
     (let full_key = ''sentora_sk_live_'' @ random_part in (full_key, take 20 full_key, hash_key full_key))"

definition validate_scopes :: "string list \<Rightarrow> key_error + unit" where
  "validate_scopes scopes =
     (let invalid = sort (remdups (filter (\<lambda>s. \<not> List.member AVAILABLE_SCOPES s) scopes))
      in if invalid \<noteq> [] then Inl (APIKeyScopeError invalid) else Inr ())"

record key_request =
  q_name :: string
  q_description :: "string option"
  q_scopes :: "string list"
  q_per_minute :: int
  q_per_hour :: int
  q_expires_at :: "instant option"

record key_update_request =
  v_name :: "string option"
  v_description :: "string option"
  v_scopes :: "string list option"
  v_per_minute :: "int option"
  v_per_hour :: "int option"
  v_expires_at :: "instant option"

definition create_api_key ::
  "instant \<Rightarrow> string \<Rightarrow> string \<Rightarrow> key_request \<Rightarrow> string \<Rightarrow> string \<Rightarrow> key_state \<Rightarrow> (key_error + api_key \<times> string) \<times> key_state" where
  "create_api_key now oid random_part req tenant_id created_by st =
     (case validate_scopes (q_scopes req) of
        Inl err \<Rightarrow> (Inl err, st)
      | Inr _ \<Rightarrow>
          (let (full_key, prefix, h) = generate_api_key random_part;
               entity = \<lparr>k_id = oid, k_tenant_id = tenant_id, k_name = q_name req, k_description = q_description req,
                 k_key_prefix = prefix, k_key_hash = h, k_scopes = q_scopes req, k_per_minute = q_per_minute req,
                 k_per_hour = q_per_hour req, k_created_at = now, k_created_by = created_by, k_expires_at = q_expires_at req,
                 k_last_used_at = None, k_last_used_ip = None, k_is_active = True, k_revoked_at = None, k_revoked_by = None,
                 k_grace_expires_at = None, k_rotated_from_id = None\<rparr>
           in case key_create entity st of
                None \<Rightarrow> (Inl DuplicateKey, st)
              | Some st1 \<Rightarrow> (Inr (entity, full_key), log_key created_by ''api_key.created'' st1)))"

text \<open>The key with this identifier, as the tenant may see it.\<close>

definition get_api_key :: "string \<Rightarrow> string \<Rightarrow> key_state \<Rightarrow> key_error + api_key" where
  "get_api_key key_id tenant_id st =
     (case find_by_id key_id st of
        None \<Rightarrow> Inl APIKeyNotFound
      | Some k \<Rightarrow> if k_tenant_id k \<noteq> tenant_id then Inl APIKeyNotFound else Inr k)"

definition set_fields :: "key_update_request \<Rightarrow> api_key \<Rightarrow> api_key" where
  "set_fields req k = k\<lparr>
     k_name := (case v_name req of Some x \<Rightarrow> x | None \<Rightarrow> k_name k),
     k_description := (case v_description req of Some x \<Rightarrow> Some x | None \<Rightarrow> k_description k),
     k_scopes := (case v_scopes req of Some x \<Rightarrow> x | None \<Rightarrow> k_scopes k),
     k_per_minute := (case v_per_minute req of Some x \<Rightarrow> x | None \<Rightarrow> k_per_minute k),
     k_per_hour := (case v_per_hour req of Some x \<Rightarrow> x | None \<Rightarrow> k_per_hour k),
     k_expires_at := (case v_expires_at req of Some x \<Rightarrow> Some x | None \<Rightarrow> k_expires_at k)\<rparr>"

definition no_fields :: "key_update_request \<Rightarrow> bool" where
  "no_fields req = (v_name req = None \<and> v_description req = None \<and> v_scopes req = None \<and> v_per_minute req = None \<and>
     v_per_hour req = None \<and> v_expires_at req = None)"

definition update_api_key ::
  "(nat \<Rightarrow> key_state \<Rightarrow> key_state) \<Rightarrow> string \<Rightarrow> key_update_request \<Rightarrow> string \<Rightarrow> string \<Rightarrow> key_state
    \<Rightarrow> (key_error + api_key) \<times> key_state" where
  "update_api_key others key_id req tenant_id updated_by st =
     (case get_api_key key_id tenant_id st of
        Inl err \<Rightarrow> (Inl err, st)
      | Inr k \<Rightarrow>
          if \<not> k_is_active k then (Inl (APIKeyError ''Cannot update a revoked API key''), st)
          else (case (case v_scopes req of Some ss \<Rightarrow> validate_scopes ss | None \<Rightarrow> Inr ()) of
                  Inl err \<Rightarrow> (Inl err, st)
                | Inr _ \<Rightarrow>
                    (let st1 = others 0 st;
                         st2 = (if no_fields req then st1
                                else others 1 (log_key updated_by ''api_key.updated'' (key_update key_id (set_fields req) st1)))
                     in (case find_by_id key_id st2 of None \<Rightarrow> Inl APIKeyNotFound | Some k' \<Rightarrow> Inr k', st2))))"

definition revoke_api_key ::
  "(nat \<Rightarrow> key_state \<Rightarrow> key_state) \<Rightarrow> instant \<Rightarrow> string \<Rightarrow> string \<Rightarrow> string \<Rightarrow> key_state \<Rightarrow> (key_error + unit) \<times> key_state" where
  "revoke_api_key others now key_id tenant_id revoked_by st =
     (case get_api_key key_id tenant_id st of
        Inl err \<Rightarrow> (Inl err, st)
      | Inr _ \<Rightarrow>
          (Inr (), log_key revoked_by ''api_key.revoked''
             (key_update key_id (\<lambda>k. k\<lparr>k_is_active := False, k_revoked_at := Some now, k_revoked_by := Some revoked_by\<rparr>)
               (others 0 st))))"

definition ROTATION_GRACE_MINUTES :: int where
  "ROTATION_GRACE_MINUTES = 5"

definition retire :: "instant \<Rightarrow> string \<Rightarrow> api_key \<Rightarrow> api_key" where
  "retire now rotated_by k = k\<lparr>k_is_active := False, k_revoked_at := Some now, k_revoked_by := Some rotated_by,
     k_grace_expires_at := Some (now + minutes ROTATION_GRACE_MINUTES)\<rparr>"

definition successor :: "instant \<Rightarrow> string \<Rightarrow> string \<Rightarrow> string \<Rightarrow> api_key \<Rightarrow> api_key" where
  "successor now oid random_part rotated_by k =
     (let (_, prefix, h) = generate_api_key random_part
      in \<lparr>k_id = oid, k_tenant_id = k_tenant_id k, k_name = k_name k, k_description = k_description k,
           k_key_prefix = prefix, k_key_hash = h, k_scopes = k_scopes k, k_per_minute = k_per_minute k,
           k_per_hour = k_per_hour k, k_created_at = now, k_created_by = rotated_by, k_expires_at = k_expires_at k,
           k_last_used_at = None, k_last_used_ip = None, k_is_active = True, k_revoked_at = None, k_revoked_by = None,
           k_grace_expires_at = None, k_rotated_from_id = Some (k_id k)\<rparr>)"

definition rotate_api_key ::
  "(nat \<Rightarrow> key_state \<Rightarrow> key_state) \<Rightarrow> instant \<Rightarrow> string \<Rightarrow> string \<Rightarrow> string \<Rightarrow> string \<Rightarrow> string \<Rightarrow> key_state
    \<Rightarrow> (key_error + api_key \<times> string) \<times> key_state" where
  "rotate_api_key others now oid random_part key_id tenant_id rotated_by st =
     (case get_api_key key_id tenant_id st of
        Inl err \<Rightarrow> (Inl err, st)
      | Inr k \<Rightarrow>
          if \<not> k_is_active k then (Inl (APIKeyError ''Cannot rotate a revoked API key''), st)
          else (let st1 = others 1 (key_update key_id (retire now rotated_by) (others 0 st));
                    new = successor now oid random_part rotated_by k
                in case key_create new st1 of
                     None \<Rightarrow> (Inl DuplicateKey, st1)
                   | Some st2 \<Rightarrow> (Inr (new, fst (generate_api_key random_part)), log_key rotated_by ''api_key.rotated'' st2)))"

definition get_current_key_info :: "string \<Rightarrow> key_state \<Rightarrow> key_error + api_key" where
  "get_current_key_info key_id st =
     (case find_by_id key_id st of None \<Rightarrow> Inl APIKeyNotFound | Some k \<Rightarrow> Inr k)"

section \<open>middleware.py: the limiters of the keys\<close>

record key_limiters =
  kl_minute :: "string \<Rightarrow> (limiter \<times> instant) option"
  kl_hour :: "string \<Rightarrow> (limiter \<times> instant) option"
  kl_count :: int

definition LIMITER_TTL_SECONDS :: int where
  "LIMITER_TTL_SECONDS = 3600"

definition LIMITER_CLEANUP_INTERVAL :: int where
  "LIMITER_CLEANUP_INTERVAL = 100"

definition evict :: "instant \<Rightarrow> (string \<Rightarrow> (limiter \<times> instant) option) \<Rightarrow> string \<Rightarrow> (limiter \<times> instant) option" where
  "evict clk store k =
     (case store k of Some (l, ts) \<Rightarrow> if ts < clk - seconds LIMITER_TTL_SECONDS then None else Some (l, ts) | None \<Rightarrow> None)"

definition evict_stale_limiters :: "instant \<Rightarrow> key_limiters \<Rightarrow> key_limiters" where
  "evict_stale_limiters clk ls = ls\<lparr>kl_minute := evict clk (kl_minute ls), kl_hour := evict clk (kl_hour ls)\<rparr>"

definition limiter_for :: "int \<Rightarrow> int \<Rightarrow> (limiter \<times> instant) option \<Rightarrow> limiter" where
  "limiter_for limit window entry =
     (case entry of
        Some (l, _) \<Rightarrow> if lim_max l \<noteq> limit then new_limiter limit window else l
      | None \<Rightarrow> new_limiter limit window)"

definition get_minute_limiter :: "instant \<Rightarrow> string \<Rightarrow> int \<Rightarrow> key_limiters \<Rightarrow> limiter \<times> key_limiters" where
  "get_minute_limiter clk key_id limit ls =
     (let n = kl_count ls + 1; ls1 = ls\<lparr>kl_count := n\<rparr>;
          ls2 = (if n mod LIMITER_CLEANUP_INTERVAL = 0 then evict_stale_limiters clk ls1 else ls1);
          l = limiter_for limit 60 (kl_minute ls2 key_id)
      in (l, ls2\<lparr>kl_minute := (kl_minute ls2)(key_id \<mapsto> (l, clk))\<rparr>))"

definition get_hour_limiter :: "instant \<Rightarrow> string \<Rightarrow> int \<Rightarrow> key_limiters \<Rightarrow> limiter \<times> key_limiters" where
  "get_hour_limiter clk key_id limit ls =
     (let l = limiter_for limit 3600 (kl_hour ls key_id)
      in (l, ls\<lparr>kl_hour := (kl_hour ls)(key_id \<mapsto> (l, clk))\<rparr>))"

text \<open>
  Both limiters are fetched before either is asked; the hour is asked only when the minute allows the
  request. A limiter is shared with its store, so what a check records is seen by the next one.
\<close>

definition key_limited :: "instant \<Rightarrow> string \<Rightarrow> int \<Rightarrow> int \<Rightarrow> key_limiters \<Rightarrow> bool \<times> key_limiters" where
  "key_limited clk key_id per_minute per_hour ls =
     (let (ml, ls1) = get_minute_limiter clk key_id per_minute ls;
          (hl, ls2) = get_hour_limiter clk key_id per_hour ls1;
          (b, ml') = is_limited clk clk key_id ml;
          ls3 = ls2\<lparr>kl_minute := (kl_minute ls2)(key_id \<mapsto> (ml', clk))\<rparr>
      in if b then (True, ls3)
         else (let (c, hl') = is_limited clk clk key_id hl
               in (c, ls3\<lparr>kl_hour := (kl_hour ls3)(key_id \<mapsto> (hl', clk))\<rparr>)))"

section \<open>middleware.py: authentication\<close>

record auth_context =
  x_auth_type :: string
  x_tenant_id :: string
  x_user_id :: "string option"
  x_user_role :: "string option"
  x_api_key_id :: "string option"
  x_api_key_name :: "string option"
  x_scopes :: "string set"

definition extract_api_key :: "string option \<Rightarrow> string option \<Rightarrow> string option" where
  "extract_api_key authorization x_api_key =
     (let a = (case authorization of Some h \<Rightarrow> h | None \<Rightarrow> []); x = (case x_api_key of Some h \<Rightarrow> h | None \<Rightarrow> [])
      in if starts_with ''Bearer sentora_sk_'' a then Some (drop 7 a)
         else if starts_with ''sentora_sk_'' x then Some x else None)"

text \<open>\<open>now\<close> is the time of the query, \<open>now'\<close> that of the checks and of the use, \<open>clk\<close> the monotonic clock;
  \<open>touch_ok\<close> says whether the update of the last use succeeds.\<close>

definition authenticate_api_key ::
  "instant \<Rightarrow> instant \<Rightarrow> instant \<Rightarrow> bool \<Rightarrow> string \<Rightarrow> string \<Rightarrow> key_state \<Rightarrow> key_limiters
    \<Rightarrow> (http_error + auth_context) \<times> key_state \<times> key_limiters" where
  "authenticate_api_key now now' clk touch_ok ip raw_key st ls =
     (case find_by_hash_including_grace now (hash_key raw_key) st of
        None \<Rightarrow> (Inl (HTTPException 401 ''Invalid API key''), st, ls)
      | Some k \<Rightarrow>
          if \<not> k_is_active k \<and> \<not> in_grace now' k then (Inl (HTTPException 401 ''API key revoked''), st, ls)
          else if (case k_expires_at k of Some e \<Rightarrow> e < now' | None \<Rightarrow> False)
          then (Inl (HTTPException 401 ''API key expired''), st, ls)
          else (case key_limited clk (k_id k) (k_per_minute k) (k_per_hour k) ls of
                  (True, ls1) \<Rightarrow> (Inl (HTTPException 429 ''API key rate limit exceeded''), st, ls1)
                | (False, ls1) \<Rightarrow>
                    (Inr \<lparr>x_auth_type = ''api_key'', x_tenant_id = k_tenant_id k, x_user_id = None, x_user_role = None,
                       x_api_key_id = Some (k_id k), x_api_key_name = Some (k_name k), x_scopes = expand_scopes (k_scopes k)\<rparr>,
                     if touch_ok then key_touch now' (k_id k) ip st else st, ls1)))"

text \<open>The tenant that the tenant middleware has found for the request.\<close>

definition request_tenant :: "string option \<Rightarrow> string option \<Rightarrow> string" where
  "request_tenant slug db_name =
     (case nonempty slug of Some t \<Rightarrow> t | None \<Rightarrow> (case db_name of Some d \<Rightarrow> d | None \<Rightarrow> ''default''))"

definition jwt_context :: "string \<Rightarrow> token_payload \<Rightarrow> auth_context" where
  "jwt_context tenant p = \<lparr>x_auth_type = ''jwt'', x_tenant_id = tenant, x_user_id = Some (p_sub p), x_user_role = Some (p_role p),
     x_api_key_id = None, x_api_key_name = None, x_scopes = {}\<rparr>"

definition get_auth_context ::
  "string auth_lib \<Rightarrow> instant \<Rightarrow> instant \<Rightarrow> instant \<Rightarrow> bool \<Rightarrow> string \<Rightarrow> string option \<Rightarrow> string option
    \<Rightarrow> string option \<Rightarrow> string option \<Rightarrow> auth_state \<Rightarrow> key_state \<Rightarrow> key_limiters
    \<Rightarrow> (http_error + auth_context) \<times> key_state \<times> key_limiters" where
  "get_auth_context lib now now' clk touch_ok ip authorization x_api_key slug db_name au st ls =
     (case extract_api_key authorization x_api_key of
        Some raw_key \<Rightarrow> authenticate_api_key now now' clk touch_ok ip raw_key st ls
      | None \<Rightarrow>
          (let h = (case authorization of Some h \<Rightarrow> h | None \<Rightarrow> [])
           in if \<not> starts_with ''Bearer '' h then (Inl (HTTPException 401 ''Authentication required''), st, ls)
              else (case verify_token lib now (drop 7 h) of
                      Inl err \<Rightarrow> (Inl (TokenRejected 401 err), st, ls)
                    | Inr p \<Rightarrow>
                        if is_user_revoked (p_sub p) au then (Inl (HTTPException 401 ''Account has been disabled''), st, ls)
                        else if (case nonempty (p_sid p) of Some sid \<Rightarrow> is_session_revoked sid au | None \<Rightarrow> False)
                        then (Inl (HTTPException 401 ''Session has been revoked''), st, ls)
                        else (Inr (jwt_context (request_tenant slug db_name) p), st, ls))))"

definition require_scope :: "string \<Rightarrow> auth_context \<Rightarrow> http_error + auth_context" where
  "require_scope scope auth =
     (if x_auth_type auth = ''api_key'' \<and> scope \<notin> x_scopes auth
      then Inl (HTTPException 403 (''API key missing required scope: '' @ scope)) else Inr auth)"

definition require_user_auth :: "auth_context \<Rightarrow> http_error + auth_context" where
  "require_user_auth auth =
     (if x_auth_type auth \<noteq> ''jwt''
      then Inl (HTTPException 403 ''This endpoint requires user authentication (JWT). API keys cannot access it.'')
      else Inr auth)"

text \<open>\<open>_require_admin_user\<close> of \<open>router.py\<close>.\<close>

definition require_admin_user :: "auth_context \<Rightarrow> http_error + auth_context" where
  "require_admin_user auth =
     (case require_user_auth auth of
        Inl err \<Rightarrow> Inl err
      | Inr _ \<Rightarrow> if x_user_role auth \<notin> {Some ''admin'', Some ''super_admin''}
                then Inl (HTTPException 403 ''Insufficient permissions'') else Inr auth)"

end
