(* ===== verification/ApiKeyTheorems.thy ===== *)
theory ApiKeyTheorems
  imports ApiKeys AuthTheorems
begin

text \<open>
  What the API keys promise: a revoked key stays out (unless it was revoked while a rotation kept it alive), the
  limits of a key hold whatever the cleaning of idle limiters does, and the two ways to check a JWT agree.
\<close>

section \<open>Revocation\<close>

text \<open>A step of the service, with nobody in between its database calls.\<close>

inductive key_step :: "key_state \<Rightarrow> key_state \<Rightarrow> bool" where
  create: "key_step st (snd (create_api_key now oid r req tenant by' st))"
| update: "key_step st (snd (update_api_key (\<lambda>_ s. s) key req' tenant by' st))"
| revoke: "key_step st (snd (revoke_api_key (\<lambda>_ s. s) now key tenant by' st))"
| rotate: "key_step st (snd (rotate_api_key (\<lambda>_ s. s) now oid r key tenant by' st))"
| used: "key_step st (key_touch now key ip st)"

inductive_cases key_stepE: "key_step st st'"

definition out_of_use :: "string \<Rightarrow> instant \<Rightarrow> api_key \<Rightarrow> bool" where
  "out_of_use h t d \<longleftrightarrow> (k_key_hash d = h \<longrightarrow> \<not> k_is_active d \<and> \<not> in_grace t d)"

definition dead :: "string \<Rightarrow> instant \<Rightarrow> key_state \<Rightarrow> bool" where
  "dead h t st \<longleftrightarrow> (\<exists>d\<in>set (key_docs st). k_key_hash d = h) \<and> (\<forall>d\<in>set (key_docs st). out_of_use h t d)"

lemma key_docs_log [simp]: "key_docs (log_key a b st) = key_docs st"
  by (simp add: log_key_def)

lemma dead_log [simp]: "dead h t (log_key a b st) = dead h t st"
  by (simp add: dead_def)

lemma dead_update:
  assumes "dead h t st" "\<And>d. k_key_hash (f d) = k_key_hash d" "\<And>d. out_of_use h t d \<Longrightarrow> out_of_use h t (f d)"
  shows "dead h t (key_update key f st)"
proof -
  have "h \<in> set (map k_key_hash (update_first (\<lambda>k. k_id k = key) f (key_docs st)))"
    using assms(1) unfolding map_update_first [of k_key_hash, OF assms(2)] by (force simp: dead_def)
  then have "\<exists>d\<in>set (key_docs (key_update key f st)). k_key_hash d = h" by (auto simp: key_update_def)
  moreover have "out_of_use h t d" if "d \<in> set (key_docs (key_update key f st))" for d
  proof -
    from that have "d \<in> set (update_first (\<lambda>k. k_id k = key) f (key_docs st))" by (simp add: key_update_def)
    from in_update_first [OF this] show ?thesis using assms(1,3) by (auto simp: dead_def)
  qed
  ultimately show ?thesis by (simp add: dead_def)
qed

lemma dead_create: "dead h t st \<Longrightarrow> key_create k st = Some st' \<Longrightarrow> dead h t st'"
  by (simp add: dead_def key_create_def list_ex_iff out_of_use_def split: if_splits) force

lemma get_api_key_find: "get_api_key key tenant st = Inr k \<Longrightarrow> find (\<lambda>k. k_id k = key) (key_docs st) = Some k \<and> k_tenant_id k = tenant"
  by (auto simp: get_api_key_def find_by_id_def split: option.splits if_splits)

lemma dead_retire:
  assumes "dead h t st" "get_api_key key tenant st = Inr k" "k_is_active k"
  shows "dead h t (key_update key (retire now by') st)"
proof -
  note f = conjunct1 [OF get_api_key_find [OF assms(2)]]
  have k: "k_key_hash k \<noteq> h" using find_Some_in_set [OF f] assms(1,3) by (auto simp: dead_def out_of_use_def)
  obtain d where d: "d \<in> set (key_docs st)" "k_key_hash d = h" using assms(1) by (auto simp: dead_def)
  then have "d \<in> set (update_first (\<lambda>k. k_id k = key) (retire now by') (key_docs st))"
    using update_found_keeps [OF f d(1)] k by auto
  moreover have "out_of_use h t e" if "e \<in> set (update_first (\<lambda>k. k_id k = key) (retire now by') (key_docs st))" for e
    using in_update_found [OF f that] assms(1) k by (auto simp: dead_def out_of_use_def retire_def)
  ultimately show ?thesis using d(2) by (auto simp: dead_def key_update_def)
qed

lemma dead_step: "key_step st st' \<Longrightarrow> dead h t st \<Longrightarrow> dead h t st'"
proof (induction rule: key_step.induct)
  case (create st now oid r req tenant by')
  then show ?case
    by (auto simp: create_api_key_def Let_def split: sum.splits prod.splits option.splits intro: dead_create)
next
  case (update st key req' tenant by')
  then show ?case
    by (auto simp: update_api_key_def Let_def split: sum.splits intro!: dead_update)
      (auto simp: set_fields_def out_of_use_def in_grace_def)
next
  case (revoke st now key tenant by')
  then show ?case
    by (auto simp: revoke_api_key_def split: sum.splits intro!: dead_update) (auto simp: out_of_use_def in_grace_def)
next
  case (rotate st now oid r key tenant by')
  then show ?case
    by (auto simp: rotate_api_key_def Let_def dead_retire split: sum.splits option.splits)
      (meson dead_create dead_retire)
next
  case (used st now key ip)
  then show ?case
    unfolding key_touch_def by (intro dead_update) (auto simp: out_of_use_def in_grace_def)
qed

interpretation dead_key: lasting key_step "dead h t" for h t
  by unfold_locales (rule dead_step)

lemma dead_rejected:
  assumes "dead h t st" "t \<le> now"
  shows "find_by_hash_including_grace now h st = None"
proof -
  have "\<not> in_grace now d" if "\<not> in_grace t d" for d
    using that assms(2) by (auto simp: in_grace_def split: option.splits)
  then show ?thesis using assms(1)
    by (auto simp: find_by_hash_including_grace_def find_None_iff_all dead_def out_of_use_def)
qed

lemma revoked_dead:
  assumes "get_api_key key tenant st = Inr k" "distinct (map k_key_hash (key_docs st))" "\<not> in_grace t k"
  shows "dead (k_key_hash k) t (snd (revoke_api_key (\<lambda>_ s. s) t key tenant by' st))"
proof -
  let ?f = "\<lambda>k. k\<lparr>k_is_active := False, k_revoked_at := Some t, k_revoked_by := Some by'\<rparr>"
  note f = conjunct1 [OF get_api_key_find [OF assms(1)]]
  have "?f k \<in> set (update_first (\<lambda>k. k_id k = key) ?f (key_docs st))" by (rule found_in_update [OF f])
  moreover have "out_of_use (k_key_hash k) t d" if d: "d \<in> set (update_first (\<lambda>k. k_id k = key) ?f (key_docs st))" for d
  proof (cases "k_key_hash d = k_key_hash k")
    case True
    have "distinct (map k_key_hash (update_first (\<lambda>k. k_id k = key) ?f (key_docs st)))"
      by (subst map_update_first) (simp_all add: assms(2))
    moreover have "k_key_hash d = k_key_hash (?f k)" using True by simp
    ultimately have "d = ?f k"
      using d found_in_update [OF f, of ?f] unfolding distinct_map by (meson inj_onD)
    then show ?thesis using assms(3) by (simp add: out_of_use_def in_grace_def)
  qed (simp add: out_of_use_def)
  ultimately show ?thesis using assms(1)
    by (auto simp: revoke_api_key_def dead_def key_update_def intro!: bexI [of _ "?f k"])
qed

text \<open>A key to try things on.\<close>

definition demo_key :: api_key where
  "demo_key = \<lparr>k_id = ''k1'', k_tenant_id = ''acme'', k_name = ''siem'', k_description = None, k_key_prefix = ''sentora_sk_live_a8f3'',
     k_key_hash = hash_key ''sentora_sk_live_a8f3'', k_scopes = [''read:all''], k_per_minute = 2, k_per_hour = 3, k_created_at = 0,
     k_created_by = ''ann'', k_expires_at = None, k_last_used_at = None, k_last_used_ip = None, k_is_active = True,
     k_revoked_at = None, k_revoked_by = None, k_grace_expires_at = None, k_rotated_from_id = None\<rparr>"

definition demo_keys :: key_state where
  "demo_keys = \<lparr>key_docs = [demo_key], key_log = []\<rparr>"

definition no_limiters :: key_limiters where
  "no_limiters = \<lparr>kl_minute = Map.empty, kl_hour = Map.empty, kl_count = 0\<rparr>"

lemma get_demo_key: "get_api_key ''k1'' ''acme'' demo_keys = Inr demo_key"
  by (simp add: get_api_key_def find_by_id_def demo_keys_def demo_key_def)

text \<open>C24. A revoked API key stays out: unless a rotation had left it a period of grace that still runs, no sequence
  of operations of the key service brings it back, and every later use of it is refused with 401.\<close>
theorem revoked_key_stays_out:
  assumes "get_api_key key tenant st = Inr k" "distinct (map k_key_hash (key_docs st))" "\<not> in_grace t k"
    and "hash_key raw = k_key_hash k" "t \<le> now"
    and "key_step\<^sup>*\<^sup>* (snd (revoke_api_key (\<lambda>_ s. s) t key tenant admin st)) st2"
  shows "authenticate_api_key now now' clk touch_ok ip raw st2 ls = (Inl (HTTPException 401 ''Invalid API key''), st2, ls)"
  using dead_rejected [OF dead_key.keeps [OF assms(6) revoked_dead [OF assms(1-3)]] assms(5)] assms(4)
  by (simp add: authenticate_api_key_def)

lemma revoked_key_stays_out_witness:
  "authenticate_api_key 9 9 9 True ''ip'' ''sentora_sk_live_a8f3''
     (snd (rotate_api_key (\<lambda>_ s. s) 7 ''k2'' ''b'' ''k1'' ''acme'' ''ann'' (snd (revoke_api_key (\<lambda>_ s. s) 5 ''k1'' ''acme'' ''ann'' demo_keys))))
     no_limiters =
   (Inl (HTTPException 401 ''Invalid API key''),
    snd (rotate_api_key (\<lambda>_ s. s) 7 ''k2'' ''b'' ''k1'' ''acme'' ''ann'' (snd (revoke_api_key (\<lambda>_ s. s) 5 ''k1'' ''acme'' ''ann'' demo_keys))),
    no_limiters)"
proof -
  let ?st1 = "snd (revoke_api_key (\<lambda>_ s. s) 5 ''k1'' ''acme'' ''ann'' demo_keys)"
  have key: "distinct (map k_key_hash (key_docs demo_keys))" "\<not> in_grace 5 demo_key" "hash_key ''sentora_sk_live_a8f3'' = k_key_hash demo_key"
    by (simp_all add: demo_keys_def demo_key_def in_grace_def)
  have "key_step\<^sup>*\<^sup>* ?st1 (snd (rotate_api_key (\<lambda>_ s. s) 7 ''k2'' ''b'' ''k1'' ''acme'' ''ann'' ?st1))"
    by (rule r_into_rtranclp, rule key_step.rotate)
  note step = this
  have "(5 :: instant) \<le> 9" by simp
  then show ?thesis by (intro revoked_key_stays_out [OF get_demo_key key _ step])
qed

text \<open>A key with fresh limiters is not limited at once.\<close>

lemma fresh_not_limited:
  assumes "kl_minute ls key = None" "kl_hour ls key = None" "1 \<le> m" "1 \<le> h"
  shows "\<not> fst (key_limited clk key m h ls)"
  using assms by (simp add: key_limited_def get_minute_limiter_def get_hour_limiter_def limiter_for_def is_limited_def
      new_limiter_def hits_of_def evict_stale_limiters_def evict_def Let_def split_beta)

text \<open>The documents after a rotation and a revocation of the same key.\<close>

abbreviation revoked_at :: "instant \<Rightarrow> string \<Rightarrow> api_key \<Rightarrow> api_key" where
  "revoked_at t1 admin k \<equiv> k\<lparr>k_is_active := False, k_revoked_at := Some t1, k_revoked_by := Some admin\<rparr>"

lemma rotated_then_revoked:
  assumes "get_api_key key tenant st = Inr k" "k_is_active k" "distinct (map k_key_hash (key_docs st))"
    and "rotate_api_key (\<lambda>_ s. s) t oid r key tenant admin st = (rotation, st1)"
    and "revoke_api_key (\<lambda>_ s. s) t1 key tenant admin st1 = (res, st2)"
  shows "res = Inr ()" "revoked_at t1 admin (retire t admin k) \<in> set (key_docs st2)" "distinct (map k_key_hash (key_docs st2))"
proof -
  let ?old = "retire t admin k" and ?P = "\<lambda>k. k_id k = key"
  note f = conjunct1 [OF get_api_key_find [OF assms(1)]]
  have id: "k_id k = key" "k_tenant_id k = tenant" using find_Some_in_set [OF f] get_api_key_find [OF assms(1)] by simp_all
  let ?docs = "update_first ?P (retire t admin) (key_docs st)"
  obtain nks where nks: "key_docs st1 = ?docs @ nks" "nks = [] \<or> (\<exists>nk. nks = [nk] \<and> (\<forall>d\<in>set ?docs. k_key_hash d \<noteq> k_key_hash nk))"
    using assms(1,2,4) by (auto simp: rotate_api_key_def Let_def key_create_def key_update_def list_ex_iff split: option.splits if_splits)
  have "find ?P ?docs = Some ?old" using find_update_first [of ?P "retire t admin" "key_docs st"] f by (simp add: retire_def)
  then have g: "find ?P (key_docs st1) = Some ?old" by (simp add: nks(1) find_append)
  then have "get_api_key key tenant st1 = Inr ?old" using id by (simp add: get_api_key_def find_by_id_def retire_def)
  then have rv: "res = Inr ()" "key_docs st2 = update_first ?P (revoked_at t1 admin) (key_docs st1)"
    using assms(5) by (auto simp: revoke_api_key_def key_update_def)
  show "res = Inr ()" by (rule rv)
  show "revoked_at t1 admin ?old \<in> set (key_docs st2)" using found_in_update [OF g, of "revoked_at t1 admin"] by (simp add: rv(2))
  have "map k_key_hash ?docs = map k_key_hash (key_docs st)" by (simp add: map_update_first retire_def)
  moreover have "set (map k_key_hash ?docs) \<inter> set (map k_key_hash nks) = {}" "distinct (map k_key_hash nks)" using nks(2) by auto
  ultimately have "distinct (map k_key_hash (key_docs st1))" using assms(3) by (simp add: nks(1))
  then show "distinct (map k_key_hash (key_docs st2))" unfolding rv(2) by (subst map_update_first) simp_all
qed

text \<open>Revoking a key that a rotation has replaced does not stop it: the key is marked as revoked, but as long as its
  period of grace runs the replaced key still authenticates, with its tenant and its scopes.\<close>
theorem revocation_in_grace_ignored:
  assumes "get_api_key key tenant st = Inr k" "k_is_active k" "distinct (map k_key_hash (key_docs st))"
    and "rotate_api_key (\<lambda>_ s. s) t oid r key tenant admin st = (rotation, st1)"
    and "revoke_api_key (\<lambda>_ s. s) t1 key tenant admin st1 = (res, st2)"
    and "hash_key raw = k_key_hash k" "now < t + minutes 5" "now' < t + minutes 5"
    and "case k_expires_at k of Some e \<Rightarrow> now' \<le> e | None \<Rightarrow> True"
    and "kl_minute ls key = None" "kl_hour ls key = None" "1 \<le> k_per_minute k" "1 \<le> k_per_hour k"
  shows "res = Inr () \<and>
    (\<exists>d\<in>set (key_docs st2). k_key_hash d = k_key_hash k \<and> \<not> k_is_active d \<and> k_revoked_at d = Some t1) \<and>
    (\<exists>ctx st3 ls3. authenticate_api_key now now' clk touch_ok ip raw st2 ls = (Inr ctx, st3, ls3) \<and>
       x_api_key_id ctx = Some key \<and> x_tenant_id ctx = tenant \<and> x_scopes ctx = expand_scopes (k_scopes k))"
proof -
  let ?d = "revoked_at t1 admin (retire t admin k)"
  note r = rotated_then_revoked [OF assms(1-5)]
  have id: "k_id k = key" "k_tenant_id k = tenant"
    using find_Some_in_set [OF conjunct1 [OF get_api_key_find [OF assms(1)]]] get_api_key_find [OF assms(1)] by simp_all
  have d: "k_key_hash ?d = k_key_hash k" "in_grace now ?d" "in_grace now' ?d"
    using assms(7,8) by (simp_all add: in_grace_def retire_def ROTATION_GRACE_MINUTES_def)
  have "find_by_hash_including_grace now (k_key_hash k) st2 = Some ?d"
    unfolding find_by_hash_including_grace_def
  proof (rule find_only)
    show "k_key_hash ?d = k_key_hash k \<and> (k_is_active ?d \<or> in_grace now ?d)" using d by simp
    show "e = ?d" if "e \<in> set (key_docs st2)" "k_key_hash e = k_key_hash k \<and> (k_is_active e \<or> in_grace now e)" for e
      using that r(2,3) d(1) unfolding distinct_map by (metis (no_types, lifting) inj_onD)
  qed (rule r(2))
  moreover have "\<not> fst (key_limited clk key (k_per_minute k) (k_per_hour k) ls)" by (rule fresh_not_limited) (use assms in auto)
  ultimately show ?thesis
    using r(1,2) d(1,3) assms(6,9) id
    by (auto simp: authenticate_api_key_def retire_def split: option.splits prod.splits bool.splits intro!: bexI [OF _ r(2)])
qed

lemma revocation_in_grace_ignored_witness:
  "\<exists>st2 ctx st3 ls3. revoke_api_key (\<lambda>_ s. s) 1 ''k1'' ''acme'' ''ann''
       (snd (rotate_api_key (\<lambda>_ s. s) 0 ''k2'' ''b7'' ''k1'' ''acme'' ''ann'' demo_keys)) = (Inr (), st2) \<and>
     authenticate_api_key 2 2 2 True ''ip'' ''sentora_sk_live_a8f3'' st2 no_limiters = (Inr ctx, st3, ls3) \<and>
     x_scopes ctx = expand_scopes [''read:all'']"
proof -
  obtain x st1 where r: "rotate_api_key (\<lambda>_ s. s) 0 ''k2'' ''b7'' ''k1'' ''acme'' ''ann'' demo_keys = (x, st1)" by fastforce
  obtain res st2 where v: "revoke_api_key (\<lambda>_ s. s) 1 ''k1'' ''acme'' ''ann'' st1 = (res, st2)" by fastforce
  have k: "k_is_active demo_key" "distinct (map k_key_hash (key_docs demo_keys))" "k_expires_at demo_key = None"
    "hash_key ''sentora_sk_live_a8f3'' = k_key_hash demo_key" "1 \<le> k_per_minute demo_key" "1 \<le> k_per_hour demo_key"
    "k_scopes demo_key = [''read:all'']" "kl_minute no_limiters ''k1'' = None" "kl_hour no_limiters ''k1'' = None"
    by (simp_all add: demo_key_def demo_keys_def no_limiters_def)
  have t: "(2 :: instant) < 0 + minutes 5" by (simp add: minutes_def seconds_def)
  have e: "case k_expires_at demo_key of Some e \<Rightarrow> 2 \<le> e | None \<Rightarrow> True" by (simp add: k(3))
  from revocation_in_grace_ignored [OF get_demo_key k(1,2) r v k(4) t t e k(8,9,5,6)]
  show ?thesis using r v k(7) by fastforce
qed

section \<open>Limits\<close>

text \<open>What a stored limiter, or its absence, says about the admissions of its key so far.\<close>

definition entry_rel :: "int \<Rightarrow> int \<Rightarrow> string \<Rightarrow> instant \<Rightarrow> (limiter \<times> instant) option \<Rightarrow> admissions \<Rightarrow> bool" where
  "entry_rel m w key now entry hist \<longleftrightarrow>
     windows_ok m (seconds w) now hist \<and> (\<forall>(i, t)\<in>set hist. i = key) \<and>
     (case entry of
        None \<Rightarrow> recent (seconds w) now key hist = []
      | Some (l, ts) \<Rightarrow> lim_max l = m \<and> lim_window l = seconds w \<and> limiter_rel now l hist \<and> (\<forall>(i, t)\<in>set hist. t \<le> ts))"

lemma entry_rel_None: "entry_rel m w key now None []"
  by (simp add: entry_rel_def windows_ok_def in_window_def recent_def)

lemma recent_other: "\<forall>(i, t)\<in>set hist. i = key \<Longrightarrow> ip \<noteq> key \<Longrightarrow> recent w now ip hist = []"
  by (auto simp: recent_def filter_empty_conv)

lemma entry_rel_later:
  assumes "entry_rel m w key now entry hist" "now \<le> now'"
  shows "entry_rel m w key now' entry hist"
proof -
  have "recent (seconds w) now' key hist = []" if "recent (seconds w) now key hist = []"
    using recent_later [OF assms(2), of "seconds w" key hist] that by simp
  moreover have "windows_ok m (seconds w) now' hist"
    using assms by (fastforce simp: entry_rel_def windows_ok_def)
  ultimately show ?thesis
    using assms limiter_rel_later [OF _ assms(2)] by (auto simp: entry_rel_def split: option.splits)
qed

lemma entry_rel_evict:
  assumes "entry_rel m w key now (store key) hist" "w \<le> LIMITER_TTL_SECONDS"
  shows "entry_rel m w key now (evict now store key) hist"
proof (cases "store key")
  case None
  then show ?thesis using assms by (simp add: evict_def)
next
  case (Some e)
  obtain l ts where e: "e = (l, ts)" by (cases e)
  show ?thesis
  proof (cases "ts < now - seconds LIMITER_TTL_SECONDS")
    case False
    then show ?thesis using assms Some e by (simp add: evict_def)
  next
    case True
    have "seconds w \<le> seconds LIMITER_TTL_SECONDS" using assms(2) by (simp add: seconds_def)
    then have "recent (seconds w) now key hist = []"
      using assms(1) Some e True by (fastforce simp: entry_rel_def recent_def filter_empty_conv)
    then show ?thesis using assms(1) Some e True by (simp add: entry_rel_def evict_def)
  qed
qed

lemma entry_rel_limiter:
  assumes "entry_rel m w key now entry hist"
  shows "limiter_rel now (limiter_for m w entry) hist" "lim_max (limiter_for m w entry) = m"
    "lim_window (limiter_for m w entry) = seconds w"
proof -
  have "limiter_rel now (new_limiter m w) hist" if "entry = None"
  proof -
    have "recent (seconds w) now ip hist = []" for ip
      using assms that recent_other [of hist key ip] by (cases "ip = key") (auto simp: entry_rel_def)
    then show ?thesis by (simp add: limiter_rel_def hits_of_def new_limiter_def)
  qed
  with assms show "limiter_rel now (limiter_for m w entry) hist" "lim_max (limiter_for m w entry) = m"
    "lim_window (limiter_for m w entry) = seconds w"
    by (auto simp: entry_rel_def limiter_for_def new_limiter_def split: option.splits)
qed

text \<open>Fetching the limiter keeps the relation, and so does asking it, with the new admission in the log.\<close>

lemma entry_rel_fetch:
  assumes "entry_rel m w key now entry hist"
  shows "entry_rel m w key now (Some (limiter_for m w entry, now)) hist"
  using entry_rel_limiter [OF assms] assms by (auto simp: entry_rel_def windows_ok_def)

lemma entry_rel_ask:
  assumes "entry_rel m w key now entry hist" "is_limited now now key (limiter_for m w entry) = (b, l)"
  shows "entry_rel m w key now (Some (l, now)) (if b then hist else hist @ [(key, now)])"
proof -
  note l = entry_rel_limiter [OF assms(1)]
  note r = is_limited_refines [OF l(1) order_refl, of key, unfolded assms(2) l(2,3) fst_conv snd_conv]
  have h: "snd (spec_limited m (seconds w) now key hist) = (if b then hist else hist @ [(key, now)])"
    using r(1) by (simp add: spec_limited_def split: if_splits)
  have "windows_ok m (seconds w) now (if b then hist else hist @ [(key, now)])"
    using spec_limited_windows [of m "seconds w" now hist now key] assms(1) by (simp add: h entry_rel_def)
  then show ?thesis
    using r(2-4) assms(1) by (auto simp: h entry_rel_def windows_ok_def)
qed

text \<open>Both limiters of a key.\<close>

definition limits_rel :: "int \<Rightarrow> int \<Rightarrow> string \<Rightarrow> instant \<Rightarrow> key_limiters \<Rightarrow> admissions \<Rightarrow> admissions \<Rightarrow> bool" where
  "limits_rel m h key now ls mh hh \<longleftrightarrow>
     entry_rel m 60 key now (kl_minute ls key) mh \<and> entry_rel h 3600 key now (kl_hour ls key) hh"

lemma limits_rel_evict:
  "limits_rel m h key now ls mh hh \<Longrightarrow> limits_rel m h key now (evict_stale_limiters now ls) mh hh"
  by (simp add: limits_rel_def evict_stale_limiters_def entry_rel_evict LIMITER_TTL_SECONDS_def)

definition swept :: "instant \<Rightarrow> key_limiters \<Rightarrow> key_limiters" where
  "swept now ls = (let ls1 = ls\<lparr>kl_count := kl_count ls + 1\<rparr>
     in if (kl_count ls + 1) mod LIMITER_CLEANUP_INTERVAL = 0 then evict_stale_limiters now ls1 else ls1)"

lemma limits_rel_swept: "limits_rel m h key now ls mh hh \<Longrightarrow> limits_rel m h key now (swept now ls) mh hh"
  using limits_rel_evict [of m h key now "ls\<lparr>kl_count := kl_count ls + 1\<rparr>" mh hh]
  by (simp add: swept_def limits_rel_def Let_def)

lemma key_limited_swept:
  "key_limited now key m h ls =
    (let s = swept now ls; (b, ml) = is_limited now now key (limiter_for m 60 (kl_minute s key));
         hl0 = limiter_for h 3600 (kl_hour s key); (c, hl) = is_limited now now key hl0;
         s1 = s\<lparr>kl_minute := (kl_minute s)(key \<mapsto> (ml, now))\<rparr>
     in if b then (True, s1\<lparr>kl_hour := (kl_hour s)(key \<mapsto> (hl0, now))\<rparr>)
        else (c, s1\<lparr>kl_hour := (kl_hour s)(key \<mapsto> (hl, now))\<rparr>))"
  by (simp add: key_limited_def get_minute_limiter_def get_hour_limiter_def swept_def Let_def split_beta)

lemma key_limited_other:
  "key \<noteq> key' \<Longrightarrow> kl_minute (snd (key_limited now key' m h ls)) key = kl_minute (swept now ls) key"
  "key \<noteq> key' \<Longrightarrow> kl_hour (snd (key_limited now key' m h ls)) key = kl_hour (swept now ls) key"
  by (auto simp: key_limited_swept Let_def split_beta)

text \<open>One check: the logs grow by what was admitted.\<close>

lemma key_limited_rel:
  assumes "limits_rel m h key now ls mh hh"
  shows "\<exists>mh' hh'. limits_rel m h key now (snd (key_limited now key m h ls)) mh' hh' \<and>
    mh' \<in> {mh, mh @ [(key, now)]} \<and> hh' \<in> {hh, hh @ [(key, now)]} \<and>
    (\<not> fst (key_limited now key m h ls) \<longrightarrow> mh' = mh @ [(key, now)] \<and> hh' = hh @ [(key, now)])"
proof -
  let ?s = "swept now ls"
  have R: "entry_rel m 60 key now (kl_minute ?s key) mh" "entry_rel h 3600 key now (kl_hour ?s key) hh"
    using limits_rel_swept [OF assms] by (simp_all add: limits_rel_def)
  obtain b ml where b: "is_limited now now key (limiter_for m 60 (kl_minute ?s key)) = (b, ml)" by fastforce
  obtain c hl where c: "is_limited now now key (limiter_for h 3600 (kl_hour ?s key)) = (c, hl)" by fastforce
  note M = entry_rel_ask [OF R(1) b] and H = entry_rel_ask [OF R(2) c] and F = entry_rel_fetch [OF R(2)]
  show ?thesis
  proof (cases b)
    case True
    then show ?thesis using M F by (intro exI [of _ mh] exI [of _ hh]) (simp add: key_limited_swept Let_def b limits_rel_def)
  next
    case False
    then show ?thesis using M H
      by (intro exI [of _ "mh @ [(key, now)]"] exI [of _ "if c then hh else hh @ [(key, now)]"])
        (simp add: key_limited_swept Let_def b c limits_rel_def)
  qed
qed

lemma key_limited_rel_other:
  assumes "limits_rel m h key now ls mh hh" "key \<noteq> key'"
  shows "limits_rel m h key now (snd (key_limited now key' m' h' ls)) mh hh"
  using limits_rel_swept [OF assms(1)] by (simp add: limits_rel_def key_limited_other [OF assms(2)])

text \<open>Uses of keys over time. Each sees the collection as the service has left it by then.\<close>

record key_use =
  ku_now :: instant
  ku_now' :: instant
  ku_clk :: instant
  ku_touch_ok :: bool
  ku_ip :: string
  ku_raw :: string
  ku_keys :: key_state

definition use_key :: "key_use \<Rightarrow> key_limiters \<Rightarrow> (http_error + auth_context) \<times> key_limiters" where
  "use_key u ls = (let (r, _, ls') = authenticate_api_key (ku_now u) (ku_now' u) (ku_clk u) (ku_touch_ok u) (ku_ip u) (ku_raw u)
     (ku_keys u) ls in (r, ls'))"

fun use_keys :: "key_use list \<Rightarrow> key_limiters \<Rightarrow> (http_error + auth_context) list" where
  "use_keys [] ls = []"
| "use_keys (u # us) ls = fst (use_key u ls) # use_keys us (snd (use_key u ls))"

definition served :: "string \<Rightarrow> (http_error + auth_context) \<Rightarrow> bool" where
  "served key r = (case r of Inl _ \<Rightarrow> False | Inr ctx \<Rightarrow> x_api_key_id ctx = Some key)"

fun serving_times :: "string \<Rightarrow> key_use list \<Rightarrow> (http_error + auth_context) list \<Rightarrow> instant list" where
  "serving_times key (u # us) (r # rs) =
     (if served key r then ku_clk u # serving_times key us rs else serving_times key us rs)"
| "serving_times key _ _ = []"

fun uses_in_order :: "instant \<Rightarrow> key_use list \<Rightarrow> bool" where
  "uses_in_order t [] = True"
| "uses_in_order t (u # us) = (t \<le> ku_clk u \<and> uses_in_order (ku_clk u) us)"

definition limits_are :: "string \<Rightarrow> int \<Rightarrow> int \<Rightarrow> key_use \<Rightarrow> bool" where
  "limits_are key m h u \<longleftrightarrow> (\<forall>k\<in>set (key_docs (ku_keys u)). k_id k = key \<longrightarrow> k_per_minute k = m \<and> k_per_hour k = h)"

lemma use_key_limited:
  obtains "snd (use_key u ls) = ls" "is_Inl (fst (use_key u ls))"
  | k where "k \<in> set (key_docs (ku_keys u))" "snd (use_key u ls) = snd (key_limited (ku_clk u) (k_id k) (k_per_minute k) (k_per_hour k) ls)"
      "served (k_id k) (fst (use_key u ls)) \<longleftrightarrow> \<not> fst (key_limited (ku_clk u) (k_id k) (k_per_minute k) (k_per_hour k) ls)"
      "\<And>key. key \<noteq> k_id k \<Longrightarrow> \<not> served key (fst (use_key u ls))"
proof (cases "find_by_hash_including_grace (ku_now u) (hash_key (ku_raw u)) (ku_keys u)")
  case None
  then show ?thesis using that(1) by (simp add: use_key_def authenticate_api_key_def)
next
  case (Some k)
  then have "k \<in> set (key_docs (ku_keys u))"
    using find_Some_in_set by (fastforce simp: find_by_hash_including_grace_def)
  with Some that show ?thesis
    by (cases "key_limited (ku_clk u) (k_id k) (k_per_minute k) (k_per_hour k) ls")
      (fastforce simp: use_key_def authenticate_api_key_def served_def split: if_splits bool.splits)
qed

lemma use_key_rel:
  assumes "limits_rel m h key (ku_clk u) ls mh hh" "limits_are key m h u"
  obtains mh' hh' where "limits_rel m h key (ku_clk u) (snd (use_key u ls)) mh' hh'"
    "mh' \<in> {mh, mh @ [(key, ku_clk u)]}" "hh' \<in> {hh, hh @ [(key, ku_clk u)]}"
    "served key (fst (use_key u ls)) \<Longrightarrow> mh' = mh @ [(key, ku_clk u)] \<and> hh' = hh @ [(key, ku_clk u)]"
proof (rule use_key_limited [of u ls])
  assume "snd (use_key u ls) = ls" "is_Inl (fst (use_key u ls))"
  then show thesis using that [of mh hh] assms(1) by (auto simp: served_def)
next
  fix k
  assume k: "k \<in> set (key_docs (ku_keys u))" "snd (use_key u ls) = snd (key_limited (ku_clk u) (k_id k) (k_per_minute k) (k_per_hour k) ls)"
      "served (k_id k) (fst (use_key u ls)) \<longleftrightarrow> \<not> fst (key_limited (ku_clk u) (k_id k) (k_per_minute k) (k_per_hour k) ls)"
      "\<And>key. key \<noteq> k_id k \<Longrightarrow> \<not> served key (fst (use_key u ls))"
  show thesis
  proof (cases "k_id k = key")
    case False
    then show ?thesis using that [of mh hh] key_limited_rel_other [OF assms(1), of "k_id k"] k by auto
  next
    case True
    then have "k_per_minute k = m" "k_per_hour k = h" using assms(2) k(1) by (auto simp: limits_are_def)
    then show ?thesis using that key_limited_rel [OF assms(1)] k(2,3) True by metis
  qed
qed

lemma limits_rel_later: "limits_rel m h key now ls mh hh \<Longrightarrow> now \<le> now' \<Longrightarrow> limits_rel m h key now' ls mh hh"
  by (auto simp: limits_rel_def intro: entry_rel_later)

lemma use_keys_logged:
  assumes "limits_rel m h key t ls mh hh" "uses_in_order t us" "\<forall>u\<in>set us. limits_are key m h u"
  shows "\<exists>t' mh' hh' ls'. limits_rel m h key t' ls' mh' hh' \<and>
    (\<forall>P. length (filter P (map snd mh)) + length (filter P (serving_times key us (use_keys us ls))) \<le> length (filter P (map snd mh')) \<and>
         length (filter P (map snd hh)) + length (filter P (serving_times key us (use_keys us ls))) \<le> length (filter P (map snd hh')))"
  using assms
proof (induction us arbitrary: t ls mh hh)
  case Nil
  then show ?case by auto
next
  case (Cons u us)
  have R: "limits_rel m h key (ku_clk u) ls mh hh" using Cons.prems limits_rel_later by auto
  obtain mh1 hh1 where R1: "limits_rel m h key (ku_clk u) (snd (use_key u ls)) mh1 hh1"
    "mh1 \<in> {mh, mh @ [(key, ku_clk u)]}" "hh1 \<in> {hh, hh @ [(key, ku_clk u)]}"
    "served key (fst (use_key u ls)) \<Longrightarrow> mh1 = mh @ [(key, ku_clk u)] \<and> hh1 = hh @ [(key, ku_clk u)]"
    using use_key_rel [OF R] Cons.prems(3) by (metis list.set_intros(1))
  obtain t' mh' hh' ls' where R2: "limits_rel m h key t' ls' mh' hh'"
    "\<And>P. length (filter P (map snd mh1)) + length (filter P (serving_times key us (use_keys us (snd (use_key u ls))))) \<le> length (filter P (map snd mh'))"
    "\<And>P. length (filter P (map snd hh1)) + length (filter P (serving_times key us (use_keys us (snd (use_key u ls))))) \<le> length (filter P (map snd hh'))"
    using Cons.IH [OF R1(1)] Cons.prems by auto
  have "length (filter P (map snd mh)) + length (filter P (serving_times key (u # us) (use_keys (u # us) ls))) \<le> length (filter P (map snd mh'))"
    "length (filter P (map snd hh)) + length (filter P (serving_times key (u # us) (use_keys (u # us) ls))) \<le> length (filter P (map snd hh'))" for P
    using R2(2,3) [of P] R1(2-4) by (cases "served key (fst (use_key u ls))"; cases "P (ku_clk u)"; auto)+
  with R2(1) show ?case by blast
qed

lemma log_in_window:
  assumes "entry_rel m w key now entry hist"
  shows "int (length (filter (\<lambda>u. x < u \<and> u \<le> x + seconds w) (map snd hist))) \<le> max 0 m"
proof -
  have "filter (\<lambda>(i, t). i = key) hist = hist" using assms by (auto simp: entry_rel_def intro: filter_True)
  then have "in_window x (seconds w) key hist = filter (\<lambda>u. x < u \<and> u \<le> x + seconds w) (map snd hist)" by (simp add: in_window_alt)
  moreover have "int (length (in_window x (seconds w) key hist)) \<le> max 0 m" using assms by (simp add: entry_rel_def windows_ok_def)
  ultimately show ?thesis by simp
qed

text \<open>C23. The limits of an API key hold: as long as its document keeps its limits, at most \<open>rate_limit_per_minute\<close> of its uses
  are served in any minute and at most \<open>rate_limit_per_hour\<close> in any hour, whatever other keys are used in
  between, whatever the key service does to other keys, and although idle limiters are thrown away.\<close>
theorem key_limits_hold:
  assumes "uses_in_order t us" "\<forall>u\<in>set us. limits_are key m h u"
  shows "int (length (filter (\<lambda>u. x < u \<and> u \<le> x + seconds 60) (serving_times key us (use_keys us no_limiters)))) \<le> max 0 m \<and>
    int (length (filter (\<lambda>u. x < u \<and> u \<le> x + seconds 3600) (serving_times key us (use_keys us no_limiters)))) \<le> max 0 h"
proof -
  have "limits_rel m h key t no_limiters [] []" by (simp add: limits_rel_def no_limiters_def entry_rel_None)
  from use_keys_logged [OF this assms] obtain t' mh hh ls where L: "limits_rel m h key t' ls mh hh"
    "\<And>P. length (filter P (serving_times key us (use_keys us no_limiters))) \<le> length (filter P (map snd mh))"
    "\<And>P. length (filter P (serving_times key us (use_keys us no_limiters))) \<le> length (filter P (map snd hh))" by auto
  have "int (length (filter (\<lambda>u. x < u \<and> u \<le> x + seconds 60) (map snd mh))) \<le> max 0 m"
    "int (length (filter (\<lambda>u. x < u \<and> u \<le> x + seconds 3600) (map snd hh))) \<le> max 0 h"
    using L(1) log_in_window by (auto simp: limits_rel_def)
  with L(2) [of "\<lambda>u. x < u \<and> u \<le> x + seconds 60"] L(3) [of "\<lambda>u. x < u \<and> u \<le> x + seconds 3600"] show ?thesis by linarith
qed

definition demo_use :: "instant \<Rightarrow> key_use" where
  "demo_use t = \<lparr>ku_now = t, ku_now' = t, ku_clk = t, ku_touch_ok = True, ku_ip = ''ip'', ku_raw = ''sentora_sk_live_a8f3'', ku_keys = demo_keys\<rparr>"

lemma key_limits_hold_witness:
  "serving_times ''k1'' [demo_use 1, demo_use 2, demo_use 3] (use_keys [demo_use 1, demo_use 2, demo_use 3] no_limiters) = [1, 2] \<and>
   int (length (filter (\<lambda>u. 0 < u \<and> u \<le> 0 + seconds 60)
     (serving_times ''k1'' [demo_use 1, demo_use 2, demo_use 3] (use_keys [demo_use 1, demo_use 2, demo_use 3] no_limiters)))) \<le> 2"
proof -
  let ?us = "[demo_use 1, demo_use 2, demo_use 3]"
  have "serving_times ''k1'' ?us (use_keys ?us no_limiters) = [1, 2]"
    by (simp add: use_key_def demo_use_def authenticate_api_key_def find_by_hash_including_grace_def demo_keys_def demo_key_def
        key_limited_swept swept_def LIMITER_CLEANUP_INTERVAL_def no_limiters_def limiter_for_def new_limiter_def is_limited_def
        hits_of_def served_def seconds_def)
  moreover have "uses_in_order 0 ?us" "\<forall>u\<in>set ?us. limits_are ''k1'' 2 3 u"
    by (simp_all add: demo_use_def limits_are_def demo_keys_def demo_key_def)
  note key_limits_hold [OF this, of 0]
  ultimately show ?thesis by simp
qed

section \<open>Two ways to check a token, and scopes\<close>

text \<open>The API-key dependency checks a JWT itself instead of calling the dependency of the other routes; on a header
  that carries no API key the two copies agree on every request: the same refusals, and on success the payload's user
  and role.\<close>
theorem jwt_checks_agree:
  assumes "\<not> starts_with ''sentora_sk_'' tok" "case x_api_key of Some h \<Rightarrow> \<not> starts_with ''sentora_sk_'' h | None \<Rightarrow> True"
  shows "get_auth_context lib now now' clk touch_ok ip (Some (''Bearer '' @ tok)) x_api_key slug db_name au st ls =
    (case get_current_user lib now tok au of
       Inl err \<Rightarrow> Inl err
     | Inr p \<Rightarrow> Inr (jwt_context (request_tenant slug db_name) p), st, ls)"
proof -
  have "extract_api_key (Some (''Bearer '' @ tok)) x_api_key = None"
    using assms by (auto simp: extract_api_key_def starts_with_def Let_def split: option.splits)
  then show ?thesis
    by (auto simp: get_auth_context_def get_current_user_def starts_with_def Let_def split: sum.splits option.splits)
qed

definition one_token_lib :: "string auth_lib" where
  "one_token_lib = \<lparr>jwt_encode = (\<lambda>_. ''good''),
     jwt_decode = (\<lambda>aud iss ve now tok. if tok = ''good'' \<and> now < 9 then Some (fst demo_pair) else None),
     pw_verify = (\<lambda>p h. p = h), pw_hash = (\<lambda>_ p. p), totp_verify = (\<lambda>_ s code. s = code),
     field_encrypt = id, field_decrypt = id, breached = (\<lambda>_. False)\<rparr>"

lemma jwt_checks_agree_witness:
  "get_auth_context one_token_lib 1 1 1 True ''ip'' (Some ''Bearer good'') None None None demo_auth demo_keys no_limiters =
     (Inr (jwt_context ''default'' \<lparr>p_sub = ''bob'', p_role = ''viewer'', p_exp = Some 900000000, p_sid = Some ''s1'', p_jti = Some ''j1'',
        p_tenant_id = None\<rparr>), demo_keys, no_limiters)"
proof -
  have "\<not> starts_with ''sentora_sk_'' ''good''" "case None of Some h \<Rightarrow> \<not> starts_with ''sentora_sk_'' h | None \<Rightarrow> True"
    by (simp_all add: starts_with_def)
  note jwt_checks_agree [OF this, of one_token_lib 1 1 1 True "''ip''" None None demo_auth demo_keys no_limiters]
  then show ?thesis
    by (simp add: get_current_user_def verify_token_def one_token_lib_def demo_pair_eq nonempty_def is_user_revoked_def
        is_session_revoked_def demo_auth_def request_tenant_def)
qed

text \<open>Whether a list of granted scopes covers a scope.\<close>

definition grants :: "string list \<Rightarrow> string \<Rightarrow> bool" where
  "grants scopes s \<longleftrightarrow> (s \<in> set scopes \<and> s \<noteq> ''read:all'' \<and> s \<noteq> ''write:all'') \<or>
     (''write:all'' \<in> set scopes \<and> s \<in> set AVAILABLE_SCOPES - {''read:all'', ''write:all''}) \<or>
     (''read:all'' \<in> set scopes \<and> s \<in> set read_scope_names)"

lemma scope_sets:
  "READ_SCOPES = set read_scope_names" "READ_SCOPES \<union> WRITE_SCOPES = set AVAILABLE_SCOPES - {''read:all'', ''write:all''}"
  by code_simp+

lemma groups_differ: "''write:all'' \<noteq> ''read:all''"
  by simp

lemma one_more_scope:
  "w \<noteq> r \<Longrightarrow> ((if a = w then P else if a = r then Q else s = a) \<or> (s \<in> S \<and> s \<noteq> r \<and> s \<noteq> w) \<or> (w \<in> S \<and> P) \<or> (r \<in> S \<and> Q)) =
    ((s = a \<or> s \<in> S) \<and> s \<noteq> r \<and> s \<noteq> w \<or> (w = a \<or> w \<in> S) \<and> P \<or> (r = a \<or> r \<in> S) \<and> Q)"
  by auto

lemma expand_scopes_grants: "s \<in> expand_scopes scopes \<longleftrightarrow> grants scopes s"
proof (induction scopes)
  case (Cons a scopes)
  have "s \<in> expand_scopes (a # scopes) \<longleftrightarrow>
    (if a = ''write:all'' then s \<in> set AVAILABLE_SCOPES - {''read:all'', ''write:all''}
     else if a = ''read:all'' then s \<in> set read_scope_names else s = a) \<or> grants scopes s"
    unfolding Cons.IH [symmetric] scope_sets(2) [symmetric] scope_sets(1) [symmetric] expand_scopes.simps Un_iff by simp
  then show ?case unfolding grants_def set_simps(2) insert_iff by (simp only: one_more_scope [OF groups_differ])
qed (simp add: grants_def)

text \<open>C25. What a key may do is what it was granted: a scope is let through for a key exactly when its list names the scope, or
  names a group that contains it; in particular a key without \<open>write:all\<close> and without the scope itself never passes
  the check of a write scope. No key passes where a user is required.\<close>
theorem scope_check_exact:
  assumes "authenticate_api_key now now' clk touch_ok ip raw st ls = (Inr ctx, st', ls')"
  shows "\<exists>k\<in>set (key_docs st). k_key_hash k = hash_key raw \<and> x_tenant_id ctx = k_tenant_id k \<and>
    (\<forall>s. require_scope s ctx = Inr ctx \<longleftrightarrow> grants (k_scopes k) s) \<and>
    (\<forall>s. s \<in> WRITE_SCOPES \<longrightarrow> s \<notin> set (k_scopes k) \<longrightarrow> ''write:all'' \<notin> set (k_scopes k) \<longrightarrow> is_Inl (require_scope s ctx)) \<and>
    is_Inl (require_user_auth ctx)"
proof -
  obtain k where k: "find_by_hash_including_grace now (hash_key raw) st = Some k" "x_scopes ctx = expand_scopes (k_scopes k)"
    "x_auth_type ctx = ''api_key''" "x_tenant_id ctx = k_tenant_id k"
    using assms by (auto simp: authenticate_api_key_def split: option.splits if_splits prod.splits bool.splits)
  have "\<not> grants (k_scopes k) s" if "s \<in> WRITE_SCOPES" "s \<notin> set (k_scopes k)" "''write:all'' \<notin> set (k_scopes k)" for s
  proof -
    have "s \<notin> set read_scope_names" using that(1) by (simp add: WRITE_SCOPES_def scope_sets(1))
    with that(2,3) show ?thesis unfolding grants_def by blast
  qed
  moreover have "k \<in> set (key_docs st)" "k_key_hash k = hash_key raw"
    using find_Some_in_set [OF k(1) [unfolded find_by_hash_including_grace_def]] by auto
  ultimately show ?thesis
    using k(2-4) by (intro bexI [of _ k]) (auto simp: require_scope_def require_user_auth_def expand_scopes_grants)
qed

lemma scope_check_exact_witness:
  "\<exists>ctx st' ls'. authenticate_api_key 1 1 1 True ''ip'' ''sentora_sk_live_a8f3'' demo_keys no_limiters = (Inr ctx, st', ls') \<and>
     require_scope ''audit:read'' ctx = Inr ctx \<and> is_Inl (require_scope ''tags:write'' ctx)"
proof -
  obtain ctx st' ls' where a: "authenticate_api_key 1 1 1 True ''ip'' ''sentora_sk_live_a8f3'' demo_keys no_limiters = (Inr ctx, st', ls')"
    by (simp add: authenticate_api_key_def find_by_hash_including_grace_def demo_keys_def demo_key_def
        key_limited_swept swept_def LIMITER_CLEANUP_INTERVAL_def no_limiters_def limiter_for_def new_limiter_def is_limited_def
        hits_of_def)
  have "grants [''read:all''] ''audit:read''" "''tags:write'' \<in> WRITE_SCOPES" by code_simp+
  with scope_check_exact [OF a] a show ?thesis
    by (intro exI [of _ ctx] exI [of _ st'] exI [of _ ls']) (auto simp: demo_keys_def demo_key_def)
qed

end
