(* ===== verification/Double.thy ===== *)
theory Double
  imports Complex_Main Prelude
begin

text \<open>
  The floating point arithmetic of the compliance percentages. A double is a mantissa and a power of two; every
  operation rounds its exact result to 53 significant bits, ties to even (IEEE 754 in the normal range, which
  percentages never leave). Dividing two Python integers rounds once.
\<close>

datatype double = Dbl (mant: int) (expn: int)

definition dval :: "double \<Rightarrow> rat" where
  "dval x = of_int (mant x) * 2 powi expn x"

function ilog2 :: "int \<Rightarrow> int" where
  "ilog2 n = (if n < 2 then 0 else 1 + ilog2 (n div 2))"
  by auto

termination by (relation "measure nat") auto

declare ilog2.simps [simp del]

text \<open>\<open>n / d\<close> to the nearest integer, ties to even.\<close>

definition rdiv :: "int \<Rightarrow> int \<Rightarrow> int" where
  "rdiv n d = (let q = n div d; r = n mod d
     in if 2 * r < d then q else if d < 2 * r then q + 1 else if even q then q else q + 1)"

text \<open>\<open>n / d * 2 ^ (- e)\<close>, as numerator and denominator.\<close>

definition scaled :: "int \<Rightarrow> int \<Rightarrow> int \<Rightarrow> int \<times> int" where
  "scaled n d e = (if e \<le> 0 then (n * 2 ^ nat (- e), d) else (n, d * 2 ^ nat e))"

definition round_pos :: "int \<Rightarrow> int \<Rightarrow> double" where
  "round_pos n d =
     (let e0 = ilog2 n - ilog2 d - 52;
          e = (if 2 ^ 52 * snd (scaled n d e0) \<le> fst (scaled n d e0) then e0 else e0 - 1);
          (a, b) = scaled n d e
      in Dbl (rdiv a b) e)"

text \<open>The double nearest to \<open>n / d\<close>, for a positive \<open>d\<close>.\<close>

definition nearest :: "int \<Rightarrow> int \<Rightarrow> double" where
  "nearest n d = (if n = 0 then Dbl 0 0 else if 0 < n then round_pos n d
     else case round_pos (- n) d of Dbl m e \<Rightarrow> Dbl (- m) e)"

definition dmul :: "double \<Rightarrow> double \<Rightarrow> double" where
  "dmul x y = (let m = mant x * mant y; e = expn x + expn y
     in if e \<le> 0 then nearest m (2 ^ nat (- e)) else nearest (m * 2 ^ nat e) 1)"

text \<open>Comparisons are exact, also between an integer and a double.\<close>

definition dle :: "double \<Rightarrow> double \<Rightarrow> bool" where
  "dle x y = (if expn y \<le> expn x then mant x * 2 ^ nat (expn x - expn y) \<le> mant y
     else mant x \<le> mant y * 2 ^ nat (expn y - expn x))"

abbreviation dlt :: "double \<Rightarrow> double \<Rightarrow> bool" where
  "dlt x y \<equiv> \<not> dle y x"

abbreviation dint :: "int \<Rightarrow> double" where
  "dint i \<equiv> Dbl i 0"

text \<open>\<open>a / b * 100\<close> on integers.\<close>

definition percent :: "int \<Rightarrow> int \<Rightarrow> double" where
  "percent a b = dmul (nearest a b) (dint 100)"

text \<open>The format \<open>.1f\<close>: the exact value, rounded to one decimal.\<close>

definition fixed1 :: "double \<Rightarrow> string" where
  "fixed1 x = (let (n, d) = scaled \<bar>mant x\<bar> 1 (- expn x); m = rdiv (n * 10) d
     in (if mant x < 0 then ''-'' else []) @ int_str (m div 10) @ ''.'' @ int_str (m mod 10))"

section \<open>What the operations mean\<close>

lemma dle_iff: "dle x y \<longleftrightarrow> dval x \<le> dval y"
proof -
  have p: "(2 :: rat) powi e > 0" for e by simp
  have shift: "of_int m * (2 :: rat) powi e = of_int (m * 2 ^ nat (e - f)) * 2 powi f" if "f \<le> e" for m e f
    using that by (simp add: power_int_def [of 2 "e - f"] flip: power_int_add)
      (metis diff_add_cancel power_int_add zero_neq_numeral mult.commute power_int_def diff_ge_0_iff_ge power_int_of_nat)
  show ?thesis
  proof (cases "expn y \<le> expn x")
    case True
    then show ?thesis unfolding dle_def dval_def shift [OF True, of "mant x"] using p [of "expn y"]
      unfolding mult_le_cancel_right_pos [OF p] of_int_le_iff by simp
  next
    case False
    then have "expn x \<le> expn y" by simp
    then show ?thesis unfolding dle_def dval_def shift [OF \<open>expn x \<le> expn y\<close>, of "mant y"] using False
      unfolding mult_le_cancel_right_pos [OF p] of_int_le_iff by simp
  qed
qed

lemma dval_int [simp]: "dval (dint i) = of_int i"
  by (simp add: dval_def)

lemma percent_0 [simp]: "percent 0 b = dint 0"
  by (simp add: percent_def dmul_def nearest_def)

lemmas double_defs = percent_def dmul_def nearest_def round_pos_def scaled_def rdiv_def ilog2.simps dle_def Let_def

lemma percent_test: "\<not> dle (percent 7 100) (dint 7)" "\<not> dle (dint 29) (percent 29 100)" "dle (percent 9 10) (dint 90)" "dle (dint 90) (percent 9 10)"
  by (simp_all add: double_defs)

end
