(* ===== verification/Eol.thy ===== *)
theory Eol
  imports Fleet Double Hasher "HOL-Library.AList" "HOL-Library.Product_Lexorder"
begin

text \<open>
  End-of-life data: the entities (\<open>domains/eol/entities.py\<close>), the collections of \<open>repository.py\<close> and the
  matching engine \<open>matching.py\<close>, which maps application names to products of endoflife.date and versions to
  release cycles. A dict is the list of its items in insertion order; dates are year, month and day.
\<close>

section \<open>Entities and collections\<close>

type_synonym date = "nat \<times> nat \<times> nat"

text \<open>A release cycle as it is stored (its dates are ISO texts), and as it is loaded for matching.\<close>

record stored_cycle =
  sc_cycle :: string
  sc_release_date :: "string option"
  sc_support_end :: "string option"
  sc_eol_date :: "string option"
  sc_lts :: bool
  sc_latest_version :: pyval
  sc_latest_version_date :: "string option"
  sc_is_eol :: bool
  sc_is_security_only :: bool

record eol_cycle =
  cy_cycle :: string
  cy_release_date :: "date option"
  cy_support_end :: "date option"
  cy_eol_date :: "date option"
  cy_lts :: bool
  cy_latest_version :: pyval
  cy_latest_version_date :: "date option"
  cy_is_eol :: bool
  cy_is_security_only :: bool

record eol_product =
  ep_product_id :: string
  ep_name :: "string option"
  ep_cycles :: "stored_cycle list"
  ep_last_synced :: instant

datatype match_source = Cpe | Fuzzy | Manual

record app_eol_match =
  em_product_id :: string
  em_source :: match_source
  em_confidence :: double

record app_summary =
  su_name :: string
  su_display_name :: "string option"
  su_category :: "string option"
  su_eol_match :: "app_eol_match option"

record eol_match =
  mt_product_id :: string
  mt_cycle :: string
  mt_source :: match_source
  mt_confidence :: double
  mt_is_eol :: bool
  mt_eol_date :: "date option"
  mt_is_security_only :: bool
  mt_support_end :: "date option"

text \<open>A library entry: its source, its upstream identifier and the patterns of its markers.\<close>

record cpe_entry =
  ce_source :: string
  ce_upstream_id :: string
  ce_patterns :: "string list"

record eol_db =
  ed_products :: "eol_product list"
  ed_summaries :: "app_summary list"
  ed_mappings :: "(string \<times> string) list" \<comment> \<open>\<open>eol_name_mappings\<close>: prefix and product\<close>
  ed_library :: "cpe_entry list"

section \<open>Strings\<close>

definition starts_with :: "string \<Rightarrow> string \<Rightarrow> bool" where
  "starts_with p s = (take (length p) s = p)"

definition contains :: "string \<Rightarrow> string \<Rightarrow> bool" where
  "contains p s = list_ex (\<lambda>n. starts_with p (drop n s)) [0..<Suc (length s)]"

definition blank :: "char \<Rightarrow> bool" where
  "blank c = (let n = (of_char c :: nat) in (9 \<le> n \<and> n \<le> 13) \<or> (28 \<le> n \<and> n \<le> 32) \<or> n = 133 \<or> n = 160)"

definition trim :: "string \<Rightarrow> string" where
  "trim s = rev (dropWhile blank (rev (dropWhile blank s)))"

text \<open>\<open>str.split()\<close>: the non-empty pieces between blanks.\<close>

definition split_ws :: "string \<Rightarrow> string list" where
  "split_ws s = filter (\<lambda>w. w \<noteq> []) (split_on (CHR '' '') (map (\<lambda>c. if blank c then CHR '' '' else c) s))"

definition replace_char :: "char \<Rightarrow> char \<Rightarrow> string \<Rightarrow> string" where
  "replace_char a b s = map (\<lambda>c. if c = a then b else c) s"

section \<open>Dates\<close>

definition days_from_civil :: "nat \<Rightarrow> nat \<Rightarrow> nat \<Rightarrow> int" where
  "days_from_civil y m d =
     (let y' = (if m \<le> 2 then int y - 1 else int y); era = y' div 400; yoe = y' mod 400;
          doy = (153 * (if m > 2 then int m - 3 else int m + 9) + 2) div 5 + int d - 1
      in era * 146097 + (yoe * 365 + yoe div 4 - yoe div 100 + doy) - 719468)"

definition civil_from_days :: "int \<Rightarrow> date" where
  "civil_from_days n =
     (let z = n + 719468; era = z div 146097; doe = z mod 146097;
          yoe = (doe - doe div 1460 + doe div 36524 - doe div 146096) div 365;
          doy = doe - (365 * yoe + yoe div 4 - yoe div 100); mp = (5 * doy + 2) div 153;
          d = doy - (153 * mp + 2) div 5 + 1; m = (if mp < 10 then mp + 3 else mp - 9)
      in (nat (yoe + era * 400 + (if m \<le> 2 then 1 else 0)), nat m, nat d))"

definition valid_date :: "date \<Rightarrow> bool" where
  "valid_date = (\<lambda>(y, m, d). 1 \<le> y \<and> y \<le> 9999 \<and> 1 \<le> m \<and> m \<le> 12 \<and> 1 \<le> d \<and> d \<le> days_in_month y m)"

definition date_iso :: "date \<Rightarrow> string" where
  "date_iso = (\<lambda>(y, m, d). zpad 4 (nat_str y) @ ''-'' @ two m @ ''-'' @ two d)"

text \<open>\<open>date.fromisoformat\<close> (Python 3.12): calendar dates and ISO weeks, with or without separators.\<close>

definition digits :: "nat \<Rightarrow> string \<Rightarrow> (nat \<times> string) option" where
  "digits n s = (if length (take n s) = n \<and> list_all is_digit (take n s) then Some (str_nat (take n s), drop n s) else None)"

definition real_date :: "date \<Rightarrow> date option" where
  "real_date d = (if valid_date d then Some d else None)"

definition iso_week :: "nat \<Rightarrow> nat \<Rightarrow> nat \<Rightarrow> date option" where
  "iso_week y w d =
     (let first = days_from_civil y 1 1; wd = (first + 3) mod 7;
          leap = (y mod 4 = 0 \<and> (y mod 100 \<noteq> 0 \<or> y mod 400 = 0));
          monday = first - wd + (if 3 < wd then 7 else 0)
      in if y = 0 \<or> w = 0 \<or> 53 < w \<or> (w = 53 \<and> \<not> (wd = 3 \<or> (wd = 2 \<and> leap))) \<or> d = 0 \<or> 7 < d then None
         else real_date (civil_from_days (monday + (int w - 1) * 7 + int d - 1)))"

definition date_from_iso :: "string \<Rightarrow> date option" where
  "date_from_iso s =
     (if length s \<noteq> 7 \<and> length s \<noteq> 8 \<and> length s \<noteq> 10 then None
      else case digits 4 s of None \<Rightarrow> None
      | Some (y, r) \<Rightarrow>
          (let sep = (r \<noteq> [] \<and> hd r = CHR ''-''); r1 = (if sep then tl r else r)
           in if r1 \<noteq> [] \<and> hd r1 = CHR ''W''
              then (case digits 2 (tl r1) of None \<Rightarrow> None
                | Some (w, r2) \<Rightarrow> if r2 = [] then iso_week y w 1 else if sep \<and> hd r2 \<noteq> CHR ''-'' then None
                    else (case digits 1 (if sep then tl r2 else r2) of Some (d, _) \<Rightarrow> iso_week y w d | None \<Rightarrow> None))
              else (case digits 2 r1 of None \<Rightarrow> None
                | Some (m, r2) \<Rightarrow> if sep \<and> (r2 = [] \<or> hd r2 \<noteq> CHR ''-'') then None
                    else (case digits 2 (if sep then tl r2 else r2) of Some (d, _) \<Rightarrow> real_date (y, m, d) | None \<Rightarrow> None))))"

section \<open>Loading and storing (repository.py)\<close>

text \<open>\<open>_parse_date\<close> on what is stored, a text or null.\<close>

definition parse_stored_date :: "string option \<Rightarrow> date option" where
  "parse_stored_date v = (case v of Some s \<Rightarrow> date_from_iso s | None \<Rightarrow> None)"

definition past :: "date \<Rightarrow> date option \<Rightarrow> bool" where
  "past today d = (case d of Some d \<Rightarrow> d < today | None \<Rightarrow> False)"

definition load_cycle :: "date \<Rightarrow> stored_cycle \<Rightarrow> eol_cycle" where
  "load_cycle today c =
     (let eol_date = parse_stored_date (sc_eol_date c); support_end = parse_stored_date (sc_support_end c)
      in \<lparr>cy_cycle = sc_cycle c, cy_release_date = parse_stored_date (sc_release_date c), cy_support_end = support_end,
          cy_eol_date = eol_date, cy_lts = sc_lts c, cy_latest_version = sc_latest_version c,
          cy_latest_version_date = parse_stored_date (sc_latest_version_date c), cy_is_eol = past today eol_date,
          cy_is_security_only = (past today support_end \<and> \<not> past today eol_date)\<rparr>)"

definition get_all_products_with_cycles :: "date \<Rightarrow> eol_product list \<Rightarrow> (string \<times> eol_cycle list) list" where
  "get_all_products_with_cycles today ps =
     foldl (\<lambda>m p. AList.update (ep_product_id p) (map (load_cycle today) (ep_cycles p)) m) [] ps"

definition upsert_product :: "string \<Rightarrow> string \<Rightarrow> stored_cycle list \<Rightarrow> instant \<Rightarrow> eol_product list \<Rightarrow> eol_product list \<times> bool" where
  "upsert_product pid name cycles now ps =
     (let doc = \<lparr>ep_product_id = pid, ep_name = Some name, ep_cycles = cycles, ep_last_synced = now\<rparr>
      in if list_ex (\<lambda>p. ep_product_id p = pid) ps
         then (update_first (\<lambda>p. ep_product_id p = pid) (\<lambda>_. doc) ps, False) else (ps @ [doc], True))"

definition confirm_match :: "string \<Rightarrow> string \<Rightarrow> app_summary list \<Rightarrow> app_summary list \<times> bool" where
  "confirm_match nname pid ss =
     (let hit = (\<lambda>s. su_name s = nname \<and> (case su_eol_match s of Some e \<Rightarrow> em_product_id e = pid | None \<Rightarrow> False));
          up = (\<lambda>s. s\<lparr>su_eol_match := map_option (\<lambda>e. e\<lparr>em_source := Manual, em_confidence := Dbl 1 0\<rparr>) (su_eol_match s)\<rparr>)
      in (update_first hit up ss, case find hit ss of Some s \<Rightarrow> up s \<noteq> s | None \<Rightarrow> False))"

definition dismiss_match :: "string \<Rightarrow> app_summary list \<Rightarrow> app_summary list \<times> bool" where
  "dismiss_match nname ss =
     (update_first (\<lambda>s. su_name s = nname) (\<lambda>s. s\<lparr>su_eol_match := None\<rparr>) ss,
      case find (\<lambda>s. su_name s = nname) ss of Some s \<Rightarrow> su_eol_match s \<noteq> None | None \<Rightarrow> False)"

text \<open>Name mappings: the prefix is the key of the collection (a unique index).\<close>

definition upsert_name_mapping :: "string \<Rightarrow> string \<Rightarrow> (string \<times> string) list \<Rightarrow> (string \<times> string) list \<times> bool" where
  "upsert_name_mapping prefix pid ms = (AList.update prefix pid ms, prefix \<notin> fst ` set ms)"

definition delete_name_mapping :: "string \<Rightarrow> (string \<times> string) list \<Rightarrow> (string \<times> string) list \<times> bool" where
  "delete_name_mapping prefix ms = (AList.delete prefix ms, prefix \<in> fst ` set ms)"

definition get_all_name_mappings_dict :: "(string \<times> string) list \<Rightarrow> (string \<times> string) list" where
  "get_all_name_mappings_dict ms = foldl (\<lambda>m (k, v). AList.update k v m) [] ms"

section \<open>Versions\<close>

text \<open>The longest text of the form \<open>digits(.digits)*\<close> at the head, for a text that starts with a digit.\<close>

fun version_run :: "string \<Rightarrow> string" where
  "version_run [] = []"
| "version_run (c # s) =
     (if is_digit c then c # version_run s
      else if c = CHR ''.'' \<and> s \<noteq> [] \<and> is_digit (hd s) then c # version_run s else [])"

definition version_search :: "string \<Rightarrow> string option" where
  "version_search s = (let t = dropWhile (\<lambda>c. \<not> is_digit c) s in if t = [] then None else Some (version_run t))"

definition cycle_named :: "eol_cycle list \<Rightarrow> string \<Rightarrow> eol_cycle option" where
  "cycle_named cycles name = find (\<lambda>c. cy_cycle c = name) (rev cycles)"

fun try_prefixes :: "eol_cycle list \<Rightarrow> string list \<Rightarrow> nat \<Rightarrow> eol_cycle option" where
  "try_prefixes cycles parts 0 = None"
| "try_prefixes cycles parts (Suc i) =
     (case cycle_named cycles (join ''.'' (take (Suc i) parts)) of Some c \<Rightarrow> Some c | None \<Rightarrow> try_prefixes cycles parts i)"

definition extract_cycle_match :: "string \<Rightarrow> eol_cycle list \<Rightarrow> eol_cycle option" where
  "extract_cycle_match version_string cycles =
     (if version_string = [] \<or> cycles = [] then None
      else case version_search version_string of
        None \<Rightarrow> None
      | Some v \<Rightarrow>
          (let parts = split_on (CHR ''.'') v
           in case try_prefixes cycles parts (length parts) of
                Some c \<Rightarrow> Some c
              | None \<Rightarrow> if 1 \<le> length parts \<and> length (parts ! 0) = 4 then cycle_named cycles (parts ! 0) else None))"

definition compute_eol_match :: "string \<Rightarrow> string \<Rightarrow> eol_cycle list \<Rightarrow> match_source \<Rightarrow> double \<Rightarrow> date \<Rightarrow> eol_match option" where
  "compute_eol_match pid version_string cycles source confidence today =
     (case extract_cycle_match version_string cycles of
        None \<Rightarrow> None
      | Some c \<Rightarrow> Some
          \<lparr>mt_product_id = pid, mt_cycle = cy_cycle c, mt_source = source, mt_confidence = confidence,
           mt_is_eol = past today (cy_eol_date c), mt_eol_date = cy_eol_date c,
           mt_is_security_only = (past today (cy_support_end c) \<and> \<not> past today (cy_eol_date c)),
           mt_support_end = cy_support_end c\<rparr>)"

section \<open>Names\<close>

definition CPE_TO_EOL_MAP :: "(string \<times> string) list" where
  "CPE_TO_EOL_MAP =
    [(''google:chrome'', ''chrome''), (''mozilla:firefox'', ''firefox''), (''mozilla:firefox_esr'', ''firefox''),
     (''microsoft:edge'', ''microsoft-edge''), (''apple:safari'', ''safari''), (''opera:opera_browser'', ''opera''),
     (''microsoft:windows_10'', ''windows''), (''microsoft:windows_11'', ''windows''),
     (''microsoft:windows_server_2016'', ''windows-server''), (''microsoft:windows_server_2019'', ''windows-server''),
     (''microsoft:windows_server_2022'', ''windows-server''), (''apple:macos'', ''macos''),
     (''canonical:ubuntu_linux'', ''ubuntu''), (''redhat:enterprise_linux'', ''rhel''),
     (''centos:centos'', ''centos''), (''debian:debian_linux'', ''debian''), (''fedoraproject:fedora'', ''fedora''),
     (''suse:linux_enterprise_server'', ''sles''), (''microsoft:office'', ''office''),
     (''microsoft:365_apps'', ''office''), (''microsoft:outlook'', ''office''), (''microsoft:word'', ''office''),
     (''microsoft:excel'', ''office''), (''microsoft:powerpoint'', ''office''),
     (''libreoffice:libreoffice'', ''libreoffice''), (''python_software_foundation:python'', ''python''),
     (''oracle:java_se'', ''oracle-jdk''), (''oracle:jre'', ''oracle-jdk''), (''oracle:openjdk'', ''openjdk''),
     (''nodejs:node.js'', ''nodejs''), (''php:php'', ''php''), (''ruby-lang:ruby'', ''ruby''), (''golang:go'', ''go''),
     (''rust-lang:rust'', ''rust''), (''microsoft:.net'', ''dotnet''), (''microsoft:.net_framework'', ''dotnetfx''),
     (''microsoft:.net_core'', ''dotnet''), (''mysql:mysql'', ''mysql''), (''postgresql:postgresql'', ''postgresql''),
     (''mongodb:mongodb'', ''mongodb''), (''microsoft:sql_server'', ''mssqlserver''),
     (''oracle:database_server'', ''oracle-database''), (''mariadb:mariadb'', ''mariadb''),
     (''redis:redis'', ''redis''), (''adobe:acrobat_reader'', ''adobe-acrobat''),
     (''adobe:acrobat'', ''adobe-acrobat''), (''adobe:acrobat_reader_dc'', ''adobe-acrobat''),
     (''adobe:creative_cloud'', ''adobe-creative-cloud''), (''adobe:photoshop'', ''photoshop''),
     (''docker:docker'', ''docker-engine''), (''vmware:esxi'', ''esxi''), (''vmware:vcenter_server'', ''vcenter''),
     (''hashicorp:terraform'', ''terraform''), (''kubernetes:kubernetes'', ''kubernetes''),
     (''cisco:ios'', ''cisco-ios''), (''fortinet:fortios'', ''fortios''), (''paloaltonetworks:pan-os'', ''pan-os''),
     (''openssh:openssh'', ''openssh''), (''openssl:openssl'', ''openssl''),
     (''microsoft:visual_studio_code'', ''visual-studio-code''), (''microsoft:visual_studio'', ''visual-studio''),
     (''jetbrains:intellij_idea'', ''intellij-idea''), (''git:git'', ''git''), (''zoom:zoom'', ''zoom''),
     (''microsoft:teams'', ''microsoft-teams''), (''slack:slack'', ''slack''), (''7-zip:7-zip'', ''7-zip''),
     (''videolan:vlc_media_player'', ''vlc''), (''wireshark:wireshark'', ''wireshark''),
     (''filezilla:filezilla_client'', ''filezilla''), (''notepad-plus-plus:notepad'' @ [CHR 0x5C, CHR ''+'', CHR 0x5C, CHR ''+''], ''notepad-plus-plus''),
     (''apple:iphone_os'', ''ios''), (''google:android'', ''android''), (''elastic:elasticsearch'', ''elasticsearch''),
     (''elastic:kibana'', ''kibana''), (''grafana:grafana'', ''grafana''), (''apache:http_server'', ''apache''),
     (''nginx:nginx'', ''nginx''), (''torvalds:linux_kernel'', ''linux'')]"

definition cpe_to_eol_product :: "string \<Rightarrow> string \<Rightarrow> string option" where
  "cpe_to_eol_product vendor product = map_of CPE_TO_EOL_MAP (lower vendor @ '':'' @ lower product)"

definition NAME_TO_EOL_MAP :: "(string \<times> string) list" where
  "NAME_TO_EOL_MAP =
    [(''google chrome'', ''chrome''), (''microsoft edge'', ''microsoft-edge''), (''mozilla firefox'', ''firefox''),
     (''mozilla firefox esr'', ''firefox''), (''python launcher'', ''python''), (''node.js'', ''nodejs''),
     (''go programming language'', ''go''), (''microsoft 365'', ''office''), (''microsoft office'', ''office''),
     (''microsoft visual studio code'', ''visual-studio-code''), (''microsoft visual studio'', ''visual-studio''),
     (''microsoft .net'', ''dotnet''), (''microsoft .net framework'', ''dotnetfx''),
     (''microsoft .net runtime'', ''dotnet''), (''microsoft asp.net'', ''dotnet''),
     (''microsoft windows desktop runtime'', ''dotnet''), (''microsoft teams'', ''microsoft-teams''),
     (''microsoft sql server'', ''mssqlserver''), (''adobe acrobat'', ''adobe-acrobat''),
     (''adobe acrobat reader'', ''adobe-acrobat''), (''adobe creative cloud'', ''adobe-creative-cloud''),
     (''java'', ''oracle-jdk''), (''oracle java'', ''oracle-jdk''), (''amazon corretto'', ''amazon-corretto''),
     (''eclipse temurin'', ''eclipse-temurin''), (''docker'', ''docker-engine''), (''ansible'', ''ansible-core''),
     (''vlc media player'', ''vlc''), (''notepad++'', ''notepad-plus-plus''), (''vmware tools'', ''vmware-tools''),
     (''vmware workstation'', ''vmware-workstation'')]"

definition NOISE_WORDS :: "string list" where
  "NOISE_WORDS =
    [''the'', ''for'', ''and'', ''with'', ''pro'', ''professional'', ''enterprise'', ''standard'', ''edition'',
     ''version'', ''update'', ''x64'', ''x86'', ''64-bit'', ''32-bit'', ''amd64'', ''arm64'', ''portable'',
     ''installer'', ''setup'', ''microsoft'', ''google'', ''apple'', ''adobe'', ''oracle'', ''ibm'', ''dell'',
     ''hp'', ''intel'', ''nvidia'', ''vmware'', ''cisco'', ''red'', ''hat'']"

text \<open>\<open>re.sub\<close> of dotted numbers and of parenthesised text.\<close>

function strip_versions :: "string \<Rightarrow> string" where
  "strip_versions [] = []"
| "strip_versions (c # s) =
     (if is_digit c
      then (let v = c # version_run s; rest = strip_versions (drop (length (version_run s)) s)
            in if CHR ''.'' \<in> set v then rest else v @ rest)
      else c # strip_versions s)"
  by pat_completeness auto

termination by (relation "measure length") (auto simp: less_Suc_eq_le)

function strip_parens :: "string \<Rightarrow> string" where
  "strip_parens [] = []"
| "strip_parens (c # s) =
     (if c = CHR ''('' \<and> CHR '')'' \<in> set s
      then strip_parens (drop 1 (dropWhile (\<lambda>d. d \<noteq> CHR '')'') s)) else c # strip_parens s)"
  by pat_completeness auto

termination
  by (relation "measure length") (auto simp: less_Suc_eq_le intro: le_trans [OF diff_le_self length_dropWhile_le])

definition normalize_for_fuzzy :: "string \<Rightarrow> string" where
  "normalize_for_fuzzy name =
     join '' '' (filter (\<lambda>t. t \<notin> set NOISE_WORDS \<and> 1 < length t)
       (split_ws (lower (strip_parens (strip_versions name)))))"

definition longer_prefix :: "string \<Rightarrow> string list \<Rightarrow> string option \<times> nat \<Rightarrow> string \<times> string \<Rightarrow> string option \<times> nat" where
  "longer_prefix nname pids b kv =
     (if snd b < length (fst kv) \<and> starts_with (fst kv) nname \<and> snd kv \<in> set pids then (Some (snd kv), length (fst kv)) else b)"

definition slug_prefix :: "string \<Rightarrow> string \<Rightarrow> bool" where
  "slug_prefix slug nname = (nname = slug \<or> starts_with (slug @ '' '') nname \<or> starts_with (slug @ ''-'') nname)"

definition longer_slug :: "string \<Rightarrow> string option \<times> nat \<Rightarrow> string \<Rightarrow> string option \<times> nat" where
  "longer_slug nname b slug =
     (if 4 \<le> length slug \<and> snd b < length slug \<and> slug_prefix slug nname then (Some slug, length slug) else b)"

definition merged_mappings :: "(string \<times> string) list \<Rightarrow> (string \<times> string) list" where
  "merged_mappings user_mappings = foldl (\<lambda>m (k, v). AList.update k v m) NAME_TO_EOL_MAP user_mappings"

definition direct_name_match :: "string \<Rightarrow> string list \<Rightarrow> (string \<times> string) list \<Rightarrow> string option" where
  "direct_name_match nname pids user_mappings =
     (let merged = merged_mappings user_mappings;
          longest = foldl (longer_prefix nname pids) (None, 0) merged
      in case map_of merged nname of
           Some pid \<Rightarrow> if pid \<in> set pids then Some pid
             else (case fst longest of Some (c # cs) \<Rightarrow> Some (c # cs) | _ \<Rightarrow> fst (foldl (longer_slug nname) longest pids))
         | None \<Rightarrow> (case fst longest of Some (c # cs) \<Rightarrow> Some (c # cs) | _ \<Rightarrow> fst (foldl (longer_slug nname) longest pids)))"

section \<open>Fuzzy matching\<close>

definition keep_better :: "string \<Rightarrow> double \<Rightarrow> string option \<times> double \<Rightarrow> string option \<times> double" where
  "keep_better pid score b = (if dlt (snd b) score then (Some pid, score) else b)"

definition token_score :: "string list \<Rightarrow> string list \<Rightarrow> double" where
  "token_score app_tokens product_tokens =
     (let overlap = filter (\<lambda>t. t \<in> set app_tokens) product_tokens;
          score = nearest (int (length overlap)) (max (int (length product_tokens)) 1)
      in if dlt (nearest 65 100) score then nearest 65 100 else score)"

definition fuzzy_step :: "string \<Rightarrow> string option \<times> double \<Rightarrow> string \<times> string \<Rightarrow> string option \<times> double" where
  "fuzzy_step normalized_app b kv =
     (let (product_id, product_name) = kv;
          app_tokens = remdups (split_ws normalized_app);
          slug_clean = lower (replace_char (CHR ''_'') (CHR '' '') (replace_char (CHR ''-'') (CHR '' '') product_id));
          product_tokens = remdups (split_ws (normalize_for_fuzzy product_name))
      in if length slug_clean \<le> 3
         then (if slug_clean \<in> set app_tokens then keep_better product_id (nearest 65 100) b else b)
         else if contains slug_clean normalized_app \<or> contains normalized_app slug_clean
         then keep_better product_id (nearest 7 10) b
         else if product_tokens = [] then b
         else if set app_tokens \<inter> set product_tokens = {} then b
         else keep_better product_id (token_score app_tokens product_tokens) b)"

definition fuzzy_match_product :: "string \<Rightarrow> (string \<times> string) list \<Rightarrow> (string \<times> double) option" where
  "fuzzy_match_product app_name eol_products =
     (let normalized_app = normalize_for_fuzzy app_name
      in if normalized_app = [] \<or> split_ws normalized_app = [] then None
         else case foldl (fuzzy_step normalized_app) (None, Dbl 0 0) eol_products of
           (Some (c # cs), score) \<Rightarrow> if dle (nearest 4 10) score then Some (c # cs, score) else None
         | _ \<Rightarrow> None)"

section \<open>The matching run\<close>

definition strip_stars :: "string \<Rightarrow> string" where
  "strip_stars s = rev (dropWhile (\<lambda>c. c = CHR ''*'') (rev (dropWhile (\<lambda>c. c = CHR ''*'') s)))"

definition load_cpe_entry :: "(string \<times> string \<times> string) list \<Rightarrow> cpe_entry \<Rightarrow> (string \<times> string \<times> string) list" where
  "load_cpe_entry m e =
     (let vendor = takeWhile (\<lambda>c. c \<noteq> CHR '':'') (ce_upstream_id e); product = drop (Suc (length vendor)) (ce_upstream_id e)
      in if CHR '':'' \<notin> set (ce_upstream_id e) \<or> vendor = [] \<or> product = [] then m
         else foldl (\<lambda>m p. let pattern = strip_stars (lower p)
                in if 2 < length pattern then AList.update pattern (vendor, product) m else m) m (ce_patterns e))"

definition load_cpe_map :: "cpe_entry list \<Rightarrow> (string \<times> string \<times> string) list" where
  "load_cpe_map es = foldl load_cpe_entry [] (filter (\<lambda>e. ce_source e = ''nist_cpe'') es)"

definition load_product_names :: "eol_product list \<Rightarrow> (string \<times> string) list" where
  "load_product_names ps = foldl (\<lambda>m p. AList.update (ep_product_id p)
     (case ep_name p of Some n \<Rightarrow> n | None \<Rightarrow> ep_product_id p) m) [] ps"

definition cpe_match :: "string \<Rightarrow> string list \<Rightarrow> (string \<times> string \<times> string) list \<Rightarrow> string option" where
  "cpe_match nname pids cpes =
     (case List.map_filter (\<lambda>(pattern, vendor, product). if contains pattern nname \<or> contains nname pattern
         then (case cpe_to_eol_product vendor product of
           Some pid \<Rightarrow> if pid \<noteq> [] \<and> pid \<in> set pids then Some pid else None | None \<Rightarrow> None) else None) cpes of
        pid # _ \<Rightarrow> Some pid | [] \<Rightarrow> None)"

text \<open>The three layers, for one application.\<close>

definition match_app ::
  "string list \<Rightarrow> (string \<times> string) list \<Rightarrow> (string \<times> string) list \<Rightarrow> (string \<times> string \<times> string) list \<Rightarrow> string \<Rightarrow> string \<Rightarrow> app_eol_match option" where
  "match_app pids user_mappings product_names cpes nname display_name =
     (case direct_name_match nname pids user_mappings of
        Some (c # cs) \<Rightarrow> Some \<lparr>em_product_id = c # cs, em_source = Cpe, em_confidence = nearest 95 100\<rparr>
      | _ \<Rightarrow>
        (case cpe_match nname pids cpes of
           Some pid \<Rightarrow> Some \<lparr>em_product_id = pid, em_source = Cpe, em_confidence = nearest 9 10\<rparr>
         | None \<Rightarrow>
           (case fuzzy_match_product display_name product_names of
              Some (pid, confidence) \<Rightarrow>
                if pid \<in> set pids then Some \<lparr>em_product_id = pid, em_source = Fuzzy, em_confidence = confidence\<rparr> else None
            | None \<Rightarrow> None)))"

definition display_of :: "app_summary \<Rightarrow> string" where
  "display_of s = (case su_display_name s of Some n \<Rightarrow> n | None \<Rightarrow> su_name s)"

text \<open>The loop over the summaries; each match is written to the first summary of that name.\<close>

fun match_loop :: "(string \<Rightarrow> string \<Rightarrow> app_eol_match option) \<Rightarrow> app_summary list \<Rightarrow> app_summary list \<Rightarrow> app_summary list \<times> nat" where
  "match_loop f [] ss = (ss, 0)"
| "match_loop f (s # todo) ss =
     (let e = f (su_name s) (display_of s);
          (ss', n) = match_loop f todo (update_first (\<lambda>x. su_name x = su_name s) (\<lambda>x. x\<lparr>su_eol_match := e\<rparr>) ss)
      in (ss', n + (if e = None then 0 else 1)))"

definition run_eol_matching :: "string list \<Rightarrow> bool \<Rightarrow> string list \<Rightarrow> eol_db \<Rightarrow> eol_db \<times> nat" where
  "run_eol_matching pids delta_only changed db =
     (let f = match_app pids (get_all_name_mappings_dict (ed_mappings db)) (load_product_names (ed_products db)) (load_cpe_map (ed_library db));
          picked = (if delta_only \<and> changed \<noteq> [] then filter (\<lambda>s. su_name s \<in> set changed) (ed_summaries db) else ed_summaries db);
          (ss, n) = match_loop f picked (ed_summaries db)
      in (db\<lparr>ed_summaries := ss\<rparr>, n))"

definition run_eol_matching_for_apps :: "date \<Rightarrow> bool \<Rightarrow> string list \<Rightarrow> eol_db \<Rightarrow> eol_db \<times> nat" where
  "run_eol_matching_for_apps today delta_only changed db =
     (case get_all_products_with_cycles today (ed_products db) of
        [] \<Rightarrow> (db, 0)
      | ps \<Rightarrow> run_eol_matching (map fst ps) delta_only changed db)"

end
