(* ===== verification/EolSync.thy ===== *)
theory EolSync
  imports Eol
begin

text \<open>
  \<open>domains/eol/service.py\<close>: parsing of the releases of endoflife.date and the synchronisation of the products. The
  HTTP answers are parameters, as is the text of an HTTP error; progress messages to WebSocket clients and the pauses
  between requests are left out. A product identifier that is not a string is kept as its text.
\<close>

section \<open>JSON values as Python reads them\<close>

definition py_truthy :: "pyval \<Rightarrow> bool" where
  "py_truthy v = (case v of PNone \<Rightarrow> False | PBool b \<Rightarrow> b | PInt i \<Rightarrow> i \<noteq> 0 | PStr s \<Rightarrow> s \<noteq> [] | PList vs \<Rightarrow> vs \<noteq> []
     | PDict kvs \<Rightarrow> kvs \<noteq> [] | PFloat r \<Rightarrow> \<not> list_all (\<lambda>c. c \<in> set ''-0.'') r | _ \<Rightarrow> True)"

definition py_type :: "pyval \<Rightarrow> string" where
  "py_type v = (case v of PNone \<Rightarrow> ''NoneType'' | PBool _ \<Rightarrow> ''bool'' | PInt _ \<Rightarrow> ''int'' | PFloat _ \<Rightarrow> ''float'' | PStr _ \<Rightarrow> ''str''
     | PDatetime _ \<Rightarrow> ''datetime'' | POther _ \<Rightarrow> ''object'' | PList _ \<Rightarrow> ''list'' | PDict _ \<Rightarrow> ''dict'')"

definition no_attribute :: "pyval \<Rightarrow> string \<Rightarrow> string" where
  "no_attribute v a = sq (py_type v) @ '' object has no attribute '' @ sq a"

text \<open>\<open>repr\<close> and \<open>str\<close>.\<close>

definition repr_char :: "char \<Rightarrow> char \<Rightarrow> string" where
  "repr_char q c = (let n = (of_char c :: nat) in
     if c = q \<or> n = 92 then [CHR 0x5C, c] else if n = 10 then [CHR 0x5C, CHR ''n''] else if n = 13 then [CHR 0x5C, CHR ''r'']
     else if n = 9 then [CHR 0x5C, CHR ''t'']
     else if n < 32 \<or> (127 \<le> n \<and> n \<le> 160) \<or> n = 173 then CHR 0x5C # ''x'' @ [hex_low (n div 16), hex_low (n mod 16)] else [c])"

definition repr_str :: "string \<Rightarrow> string" where
  "repr_str s = (let q = (if CHR 0x27 \<in> set s \<and> CHR 0x22 \<notin> set s then CHR 0x22 else CHR 0x27) in q # concat (map (repr_char q) s) @ [q])"

fun py_repr :: "pyval \<Rightarrow> string" where
  "py_repr PNone = ''None''"
| "py_repr (PBool b) = (if b then ''True'' else ''False'')"
| "py_repr (PInt i) = int_str i"
| "py_repr (PFloat r) = r"
| "py_repr (PStr s) = repr_str s"
| "py_repr (PDatetime t) = datetime_str t"
| "py_repr (POther s) = s"
| "py_repr (PList vs) = ''['' @ join '', '' (map py_repr vs) @ '']''"
| "py_repr (PDict kvs) = ''{'' @ join '', '' (map (\<lambda>kv. repr_str (fst kv) @ '': '' @ py_repr (snd kv)) kvs) @ ''}''"

definition py_str :: "pyval \<Rightarrow> string" where
  "py_str v = (case v of PStr s \<Rightarrow> s | _ \<Rightarrow> py_repr v)"

definition dict_get :: "(string \<times> pyval) list \<Rightarrow> string \<Rightarrow> pyval \<Rightarrow> pyval" where
  "dict_get kvs k d = (case map_of kvs k of Some v \<Rightarrow> v | None \<Rightarrow> d)"

text \<open>\<open>for x in v\<close>.\<close>

definition py_iter :: "pyval \<Rightarrow> string + pyval list" where
  "py_iter v = (case v of PList vs \<Rightarrow> Inr vs | PDict kvs \<Rightarrow> Inr (map (PStr \<circ> fst) kvs) | PStr s \<Rightarrow> Inr (map (\<lambda>c. PStr [c]) s)
     | _ \<Rightarrow> Inl (sq (py_type v) @ '' object is not iterable''))"

section \<open>Releases\<close>

definition parse_date_field :: "pyval \<Rightarrow> date option" where
  "parse_date_field v = (case v of PStr s \<Rightarrow> date_from_iso s | _ \<Rightarrow> None)"

definition parse_release :: "date \<Rightarrow> (string \<times> pyval) list \<Rightarrow> stored_cycle option" where
  "parse_release today raw =
     (let cycle_name = py_str (dict_get raw ''name'' (dict_get raw ''cycle'' (PStr [])));
          eol_date = parse_date_field (dict_get raw ''eolFrom'' (dict_get raw ''eol'' PNone));
          support_end = parse_date_field (dict_get raw ''eoasFrom'' (dict_get raw ''support'' PNone));
          release_date = parse_date_field (dict_get raw ''releaseDate'' (dict_get raw ''date'' PNone));
          latest = dict_get raw ''latest'' (PDict []);
          (latest_version, latest_date) = (case latest of
             PDict l \<Rightarrow> (dict_get l ''name'' (dict_get l ''version'' PNone), parse_date_field (dict_get l ''date'' PNone))
           | _ \<Rightarrow> (if py_truthy latest then PStr (py_str latest) else PNone, None));
          is_eol = py_truthy (dict_get raw ''isEol'' (PBool (past today eol_date)));
          is_eoas = py_truthy (dict_get raw ''isEoas'' (PBool (past today support_end \<and> \<not> past today eol_date)))
      in if cycle_name = [] then None
         else Some \<lparr>sc_cycle = cycle_name, sc_release_date = map_option date_iso release_date,
           sc_support_end = map_option date_iso support_end, sc_eol_date = map_option date_iso eol_date,
           sc_lts = py_truthy (dict_get raw ''isLts'' (dict_get raw ''lts'' (PBool False))), sc_latest_version = latest_version,
           sc_latest_version_date = map_option date_iso latest_date, sc_is_eol = is_eol, sc_is_security_only = is_eoas\<rparr>)"

fun parse_cycles :: "date \<Rightarrow> pyval list \<Rightarrow> string + stored_cycle list" where
  "parse_cycles today [] = Inr []"
| "parse_cycles today (PDict raw # rs) =
     (case parse_cycles today rs of Inl err \<Rightarrow> Inl err
      | Inr cs \<Rightarrow> Inr (case parse_release today raw of Some c \<Rightarrow> c # cs | None \<Rightarrow> cs))"
| "parse_cycles today (v # rs) = Inl (no_attribute v ''get'')"

section \<open>Synchronisation\<close>

datatype http = HttpFail string | Response nat "string + pyval" \<comment> \<open>status, and the parsed body or a decoding error\<close>

record eol_api =
  api_list :: http
  api_fetch :: "nat \<Rightarrow> nat \<Rightarrow> http" \<comment> \<open>position in the product list, and attempt\<close>
  api_status_error :: "nat \<Rightarrow> string" \<comment> \<open>the text of the error of \<open>raise_for_status\<close>\<close>

text \<open>\<open>resp.raise_for_status(); resp.json()\<close>\<close>

definition checked_json :: "(nat \<Rightarrow> string) \<Rightarrow> http \<Rightarrow> string + pyval" where
  "checked_json msg r = (case r of HttpFail err \<Rightarrow> Inl err
     | Response st body \<Rightarrow> if 200 \<le> st \<and> st < 300 then body else Inl (msg st))"

definition product_items :: "pyval \<Rightarrow> string + pyval list" where
  "product_items raw = (case raw of
       PDict kvs \<Rightarrow> (case map_of kvs ''result'' of None \<Rightarrow> Inr []
         | Some v \<Rightarrow> (case py_iter v of Inl _ \<Rightarrow> Inl (''object of type '' @ sq (py_type v) @ '' has no len()'') | Inr vs \<Rightarrow> Inr vs))
     | PList vs \<Rightarrow> Inr vs | _ \<Rightarrow> Inr [])"

definition product_ident :: "pyval \<Rightarrow> string + (pyval \<times> pyval)" where
  "product_ident info = (case info of
       PStr s \<Rightarrow> Inr (PStr s, PStr s)
     | PDict kvs \<Rightarrow> (let pid = dict_get kvs ''name'' (dict_get kvs ''id'' (PStr []))
         in Inr (pid, dict_get kvs ''label'' (dict_get kvs ''name'' pid)))
     | _ \<Rightarrow> Inl (no_attribute info ''get''))"

text \<open>The answer for one product: skipped (404), failed, or its name and cycles.\<close>

datatype fetched = Skipped | Failed string | Got pyval "stored_cycle list"

definition parse_product :: "date \<Rightarrow> pyval \<Rightarrow> pyval \<Rightarrow> string + (pyval \<times> stored_cycle list)" where
  "parse_product today product_name raw =
     (let extract = (\<lambda>name v. case py_iter v of Inl err \<Rightarrow> Inl err
            | Inr rs \<Rightarrow> (case parse_cycles today rs of Inl err \<Rightarrow> Inl err | Inr cs \<Rightarrow> Inr (name, cs)))
      in case raw of
           PDict kvs \<Rightarrow> (case map_of kvs ''result'' of
              Some (PDict d) \<Rightarrow> extract (dict_get d ''label'' product_name) (dict_get d ''releases'' (PList []))
            | Some v \<Rightarrow> Inl (no_attribute v ''get'')
            | None \<Rightarrow> extract product_name (dict_get kvs ''releases'' (PList [])))
         | PList rs \<Rightarrow> extract product_name (PList rs)
         | v \<Rightarrow> Inl (no_attribute v ''get''))"

definition fetch_product :: "eol_api \<Rightarrow> date \<Rightarrow> nat \<Rightarrow> pyval \<Rightarrow> fetched" where
  "fetch_product api today i product_name =
     (let r = (case api_fetch api i 0 of Response st b \<Rightarrow> if st = 429 then api_fetch api i 1 else Response st b | r \<Rightarrow> r)
      in case r of
           HttpFail err \<Rightarrow> Failed err
         | Response st body \<Rightarrow> if st = 404 then Skipped
             else (case checked_json (api_status_error api) r of
                 Inl err \<Rightarrow> Failed err
               | Inr raw \<Rightarrow> (case parse_product today product_name raw of Inl err \<Rightarrow> Failed err | Inr (name, cs) \<Rightarrow> Got name cs)))"

record sync_acc =
  y_products :: "eol_product list"
  y_synced :: nat
  y_failed :: nat
  y_errors :: "string list"

definition sync_product :: "eol_api \<Rightarrow> date \<Rightarrow> instant \<Rightarrow> nat \<Rightarrow> pyval \<Rightarrow> pyval \<Rightarrow> sync_acc \<Rightarrow> sync_acc" where
  "sync_product api today now i product_id product_name acc =
     (case fetch_product api today i product_name of
        Skipped \<Rightarrow> acc
      | Failed err \<Rightarrow> acc\<lparr>y_failed := Suc (y_failed acc),
          y_errors := y_errors acc @ (if y_failed acc < 10 then [py_str product_id @ '': '' @ err] else [])\<rparr>
      | Got name cs \<Rightarrow> acc\<lparr>y_products := fst (upsert_product (py_str product_id) (py_str name) cs now (y_products acc)),
          y_synced := Suc (y_synced acc)\<rparr>)"

text \<open>The loop over the product list. An entry that is neither a text nor a dict raises outside of the loop's handler;
  what was written stays.\<close>

fun sync_loop :: "eol_api \<Rightarrow> date \<Rightarrow> instant \<Rightarrow> nat \<Rightarrow> pyval list \<Rightarrow> sync_acc \<Rightarrow> sync_acc \<times> string option" where
  "sync_loop api today now i [] acc = (acc, None)"
| "sync_loop api today now i (info # rest) acc =
     (case product_ident info of
        Inl err \<Rightarrow> (acc, Some err)
      | Inr (pid, name) \<Rightarrow> sync_loop api today now (Suc i) rest
          (if py_truthy pid then sync_product api today now i pid name acc else acc))"

record sync_summary =
  z_status :: string
  z_synced :: nat
  z_failed :: nat
  z_total :: nat
  z_errors :: "string list"

definition do_sync :: "eol_api \<Rightarrow> date \<Rightarrow> instant \<Rightarrow> eol_product list \<Rightarrow> eol_product list \<times> (string + sync_summary)" where
  "do_sync api today now products =
     (case checked_json (api_status_error api) (api_list api) of
        Inl err \<Rightarrow> (products, Inr \<lparr>z_status = (if products \<noteq> [] then ''partial'' else ''failed''),
          z_synced = 0, z_failed = 0, z_total = 0, z_errors = []\<rparr>)
      | Inr raw \<Rightarrow>
        (case product_items raw of
           Inl err \<Rightarrow> (products, Inl err)
         | Inr items \<Rightarrow>
           (let (acc, raised) = sync_loop api today now 0 items \<lparr>y_products = products, y_synced = 0, y_failed = 0, y_errors = []\<rparr>
            in (y_products acc, case raised of Some err \<Rightarrow> Inl err
                | None \<Rightarrow> Inr \<lparr>z_status = ''completed'', z_synced = y_synced acc, z_failed = y_failed acc,
                    z_total = length items, z_errors = y_errors acc\<rparr>))))"

section \<open>The run and its record\<close>

datatype run_status = Running | Completed | RunFailed

record ingestion_run =
  ir_status :: run_status
  ir_created :: nat
  ir_updated :: nat
  ir_skipped :: nat
  ir_errors :: "string list"

record eol_service =
  es_running :: bool
  es_status :: string
  es_runs :: "ingestion_run list"
  es_products :: "eol_product list"

text \<open>The faults of the library database: on the insertion of the run, on its update at the end, and on the update
  after a failure (which is swallowed).\<close>

record library_faults =
  lf_insert :: "string option"
  lf_update :: "string option"
  lf_update_failed :: bool

definition new_run :: ingestion_run where
  "new_run = \<lparr>ir_status = Running, ir_created = 0, ir_updated = 0, ir_skipped = 0, ir_errors = []\<rparr>"

datatype sync_outcome = AlreadyRunning | Summary sync_summary | SyncFailed string | Escaped string

definition fail_sync :: "bool \<Rightarrow> string \<Rightarrow> eol_service \<Rightarrow> ingestion_run list \<Rightarrow> eol_service \<times> sync_outcome" where
  "fail_sync lost err s runs =
     (s\<lparr>es_running := False, es_status := ''failed'',
        es_runs := runs @ [if lost then new_run else new_run\<lparr>ir_status := RunFailed, ir_errors := [err]\<rparr>]\<rparr>, SyncFailed err)"

definition sync_eol_data :: "eol_api \<Rightarrow> library_faults \<Rightarrow> date \<Rightarrow> instant \<Rightarrow> eol_service \<Rightarrow> eol_service \<times> sync_outcome" where
  "sync_eol_data api lf today now s =
     (if es_running s then (s, AlreadyRunning)
      else case lf_insert lf of
        Some err \<Rightarrow> (s\<lparr>es_running := True\<rparr>, Escaped err)
      | None \<Rightarrow>
        (let (products, r) = do_sync api today now (es_products s); s1 = s\<lparr>es_products := products\<rparr>
         in case r of
              Inl err \<Rightarrow> fail_sync (lf_update_failed lf) err s1 (es_runs s)
            | Inr z \<Rightarrow>
              (case lf_update lf of
                 Some err \<Rightarrow> fail_sync (lf_update_failed lf) err s1 (es_runs s)
               | None \<Rightarrow> (s1\<lparr>es_running := False, es_status := ''completed'',
                   es_runs := es_runs s @ [\<lparr>ir_status = Completed, ir_created = z_synced z, ir_updated = z_synced z,
                     ir_skipped = z_failed z, ir_errors = take 20 (z_errors z)\<rparr>]\<rparr>, Summary z))))"

end
