(* ===== verification/EolTheorems.thy ===== *)
theory EolTheorems
  imports EolSync
begin

text \<open>
  What the end-of-life data and its matching guarantee: versions find the cycle of their longest prefix, ISO dates
  survive being stored, a full matching run is a function of the data it reads, and where it falls short: reviews are
  overwritten, a failing library database blocks the synchronisation for good, and the flags of the API are ignored.
\<close>

section \<open>Versions and cycles\<close>

lemma split_on_not_Nil [simp]: "split_on x s \<noteq> []"
  by (induction s) (auto split: list.splits)

lemma try_prefixes_Some:
  "try_prefixes cs parts n = Some c \<longleftrightarrow>
     (\<exists>k. 1 \<le> k \<and> k \<le> n \<and> cycle_named cs (join ''.'' (take k parts)) = Some c \<and>
        (\<forall>j. k < j \<and> j \<le> n \<longrightarrow> cycle_named cs (join ''.'' (take j parts)) = None))"
proof (induction n)
  case (Suc n)
  show ?case
  proof (cases "cycle_named cs (join ''.'' (take (Suc n) parts))")
    case None
    have "(\<exists>k. 1 \<le> k \<and> k \<le> n \<and> cycle_named cs (join ''.'' (take k parts)) = Some c \<and>
        (\<forall>j. k < j \<and> j \<le> n \<longrightarrow> cycle_named cs (join ''.'' (take j parts)) = None)) \<longleftrightarrow>
      (\<exists>k. 1 \<le> k \<and> k \<le> Suc n \<and> cycle_named cs (join ''.'' (take k parts)) = Some c \<and>
        (\<forall>j. k < j \<and> j \<le> Suc n \<longrightarrow> cycle_named cs (join ''.'' (take j parts)) = None))"
      using None by (metis le_Suc_eq option.distinct(1))
    then show ?thesis using None Suc.IH by simp
  next
    case (Some d)
    have "\<exists>j. k < j \<and> j \<le> Suc n \<and> cycle_named cs (join ''.'' (take j parts)) \<noteq> None" if "k \<le> n" for k
      using Some that by (intro exI [of _ "Suc n"]) auto
    then show ?thesis using Some by (auto simp: le_Suc_eq)
  qed
qed simp

lemma try_prefixes_None:
  "try_prefixes cs parts n = None \<longleftrightarrow> (\<forall>k. 1 \<le> k \<and> k \<le> n \<longrightarrow> cycle_named cs (join ''.'' (take k parts)) = None)"
  by (induction n) (auto simp: le_Suc_eq split: option.splits)

lemma year_fallback_is_dead:
  "try_prefixes cs (p # ps) (length (p # ps)) = None \<Longrightarrow> cycle_named cs p = None"
  unfolding try_prefixes_None by (drule spec [of _ 1]) simp

lemma search_empty [simp]: "version_search [] = None" "cycle_named [] name = None"
  by (simp_all add: version_search_def cycle_named_def)

text \<open>C39. The cycle found for a version is the one named by the longest prefix of its numeric part, cut at dots, that names
  a cycle at all; the fallback for years at the end of \<open>extract_cycle_match\<close> never decides anything.\<close>

theorem cycle_of_longest_prefix:
  "extract_cycle_match v cs = Some c \<longleftrightarrow>
     (\<exists>w k. version_search v = Some w \<and> 1 \<le> k \<and> k \<le> length (split_on (CHR ''.'') w) \<and>
        cycle_named cs (join ''.'' (take k (split_on (CHR ''.'') w))) = Some c \<and>
        (\<forall>j. k < j \<and> j \<le> length (split_on (CHR ''.'') w) \<longrightarrow>
           cycle_named cs (join ''.'' (take j (split_on (CHR ''.'') w))) = None))"
proof (cases "v = [] \<or> cs = [] \<or> version_search v = None")
  case True
  then show ?thesis by (auto simp: extract_cycle_match_def)
next
  case False
  then obtain w where w: "version_search v = Some w" and ne: "v \<noteq> []" "cs \<noteq> []" by auto
  obtain p ps where parts: "split_on (CHR ''.'') w = p # ps" by (metis list.exhaust split_on_not_Nil)
  have "extract_cycle_match v cs = try_prefixes cs (p # ps) (length (p # ps))"
    using w ne parts year_fallback_is_dead [of cs p ps] by (auto simp: extract_cycle_match_def Let_def split: option.splits)
  then show ?thesis using w parts by (simp add: try_prefixes_Some del: try_prefixes.simps)
qed

definition demo_cycle :: "string \<Rightarrow> eol_cycle" where
  "demo_cycle name = \<lparr>cy_cycle = name, cy_release_date = None, cy_support_end = None, cy_eol_date = None, cy_lts = False,
     cy_latest_version = PNone, cy_latest_version_date = None, cy_is_eol = False, cy_is_security_only = False\<rparr>"

lemma cycle_of_longest_prefix_witness:
  "extract_cycle_match ''v3.8.19'' [demo_cycle ''3'', demo_cycle ''3.8''] = Some (demo_cycle ''3.8'')"
proof -
  have parts: "version_search ''v3.8.19'' = Some ''3.8.19''" "split_on (CHR ''.'') ''3.8.19'' = [''3'', ''8'', ''19'']" by code_simp+
  have "j = 3" if "2 < j \<and> j \<le> length [''3'', ''8'', ''19'']" for j :: nat using that by simp
  then show ?thesis unfolding cycle_of_longest_prefix
    by (intro exI [of _ "''3.8.19''"] exI [of _ "2::nat"])
      (auto simp: parts cycle_named_def demo_cycle_def)
qed

section \<open>Dates\<close>

lemma digits_append:
  assumes "length a = n" "\<forall>c\<in>set a. is_digit c"
  shows "digits n (a @ r) = Some (str_nat a, r)"
  using assms by (auto simp: digits_def list_all_iff)

lemma days_in_month_le: "days_in_month y m \<le> 31"
  by (simp add: days_in_month_def)

lemma date_iso_roundtrip_aux: "valid_date d \<Longrightarrow> date_from_iso (date_iso d) = Some d"
proof -
  assume v: "valid_date d"
  obtain y m k where d: "d = (y, m, k)" by (metis prod_cases3)
  have b: "y \<le> 9999" "m \<le> 12" "k \<le> 31" using v d days_in_month_le [of y m] by (auto simp: valid_date_def)
  let ?y = "zpad 4 (nat_str y)"
  have len: "length ?y = 4" "length (two m) = 2" "length (two k) = 2"
    using b by (simp_all add: two_def length_zpad length_nat_str_le max_absorb1)
  have dig: "\<forall>c\<in>set ?y. is_digit c" "\<forall>c\<in>set (two m). is_digit c" "\<forall>c\<in>set (two k). is_digit c"
    unfolding two_def by (rule zpad_digits; auto dest: nat_str_digits)+
  have val: "str_nat ?y = y" "str_nat (two m) = m" "str_nat (two k) = k" by (simp_all add: two_def)
  have shape: "date_iso d = ?y @ CHR ''-'' # two m @ CHR ''-'' # two k @ []" by (simp add: d date_iso_def)
  have len10: "length (date_iso d) = 10" using len by (simp add: shape)
  have h: "digits 4 (date_iso d) = Some (y, CHR ''-'' # two m @ CHR ''-'' # two k)"
    using digits_append [OF len(1) dig(1)] val by (simp add: shape)
  have hd: "two m @ CHR ''-'' # two k \<noteq> []" "hd (two m @ CHR ''-'' # two k) \<noteq> CHR ''W''"
    using len(2) dig(2) by (cases "two m"; auto simp: is_digit_def)+
  have m2: "digits 2 (two m @ CHR ''-'' # two k) = Some (m, CHR ''-'' # two k)"
    using digits_append [OF len(2) dig(2)] val by simp
  have k2: "digits 2 (two k) = Some (k, [])" using digits_append [OF len(3) dig(3), of "[]"] val by simp
  show ?thesis using len10 h hd m2 k2 v by (simp add: date_from_iso_def d real_date_def)
qed

text \<open>A date survives being stored: reading the ISO text of a valid date gives the date back.\<close>

theorem date_iso_roundtrip: "valid_date d \<Longrightarrow> date_from_iso (date_iso d) = Some d"
  by (rule date_iso_roundtrip_aux)

lemma date_iso_roundtrip_witness: "date_from_iso (date_iso (2024, 2, 29)) = Some (2024, 2, 29)"
  by (rule date_iso_roundtrip) code_simp

section \<open>The matching run\<close>

text \<open>A summary without its match: what the run reads of it.\<close>

definition unmatched :: "app_summary \<Rightarrow> app_summary" where
  "unmatched s = s\<lparr>su_eol_match := None\<rparr>"

definition rematch :: "(string \<Rightarrow> string \<Rightarrow> app_eol_match option) \<Rightarrow> app_summary \<Rightarrow> app_summary" where
  "rematch f s = s\<lparr>su_eol_match := f (su_name s) (display_of s)\<rparr>"

lemma unmatched_unmatched: "s\<lparr>su_eol_match := e\<rparr> = (unmatched s)\<lparr>su_eol_match := e\<rparr>"
  by (simp add: unmatched_def)

lemma unmatched_names: "su_name s = su_name (unmatched s)" "display_of s = display_of (unmatched s)"
  by (simp_all add: unmatched_def display_of_def split: option.split)

lemma rematch_unmatched: "rematch f s = rematch f (unmatched s)"
  by (simp add: rematch_def unmatched_def display_of_def split: option.split)

lemma unmatched_reads:
  assumes "unmatched s = unmatched t"
  shows "su_name s = su_name t" "display_of s = display_of t" "rematch f s = rematch f t"
  by (metis assms unmatched_names rematch_unmatched)+

lemma rematch_twice [simp]: "rematch f (rematch f s) = rematch f s" "su_name (rematch f s) = su_name s"
  "unmatched (rematch f s) = unmatched s"
  by (simp_all add: rematch_def display_of_def unmatched_def split: option.split)

lemma match_loop_result:
  assumes "distinct (map su_name ss)" "unmatched ` set todo \<subseteq> unmatched ` set ss"
  shows "fst (match_loop f todo ss) = map (\<lambda>s. if su_name s \<in> su_name ` set todo then rematch f s else s) ss"
  using assms
proof (induction todo arbitrary: ss)
  case (Cons t todo)
  let ?g = "\<lambda>s. if su_name s = su_name t then rematch f s else s"
  have same: "display_of s = display_of t" if "s \<in> set ss" "su_name s = su_name t" for s
  proof -
    from Cons.prems(2) obtain s' where s': "s' \<in> set ss" "unmatched s' = unmatched t" by auto
    have "s = s'" using Cons.prems(1) that s'(1) unmatched_reads(1) [OF s'(2)] by (simp add: distinct_map inj_on_def)
    then show ?thesis using unmatched_reads(2) [OF s'(2)] by simp
  qed
  have "update_first (\<lambda>x. su_name x = su_name t) (\<lambda>x. x\<lparr>su_eol_match := f (su_name t) (display_of t)\<rparr>) ss = map ?g ss"
    using update_first_unique [where k = su_name and a = "su_name t" and P = "\<lambda>x. su_name x = su_name t", OF Cons.prems(1)]
    by (auto simp: update_many_def rematch_def same intro!: map_cong)
  then have step: "fst (match_loop f (t # todo) ss) = fst (match_loop f todo (map ?g ss))"
    by (simp add: Let_def split_def)
  have names: "map su_name (map ?g ss) = map su_name ss" by simp
  have cores: "unmatched ` set (map ?g ss) = unmatched ` set ss"
    unfolding set_map image_image by (rule image_cong) simp_all
  have "fst (match_loop f todo (map ?g ss)) =
      map (\<lambda>s. if su_name s \<in> su_name ` set todo then rematch f s else s) (map ?g ss)"
    using Cons.prems by (intro Cons.IH) (simp_all only: names cores, simp)
  then show ?case unfolding step by (simp add: comp_def)
qed simp

lemma match_loop_matched:
  "snd (match_loop f todo ss) = length (filter (\<lambda>s. f (su_name s) (display_of s) \<noteq> None) todo)"
  by (induction todo arbitrary: ss) (simp_all add: Let_def split_def)

definition matcher :: "string list \<Rightarrow> eol_db \<Rightarrow> string \<Rightarrow> string \<Rightarrow> app_eol_match option" where
  "matcher pids db = match_app pids (get_all_name_mappings_dict (ed_mappings db)) (load_product_names (ed_products db))
     (load_cpe_map (ed_library db))"

lemma full_run:
  assumes "distinct (map su_name (ed_summaries db))"
  shows "run_eol_matching pids False changed db =
    (db\<lparr>ed_summaries := map (rematch (matcher pids db)) (ed_summaries db)\<rparr>,
     length (filter (\<lambda>s. matcher pids db (su_name s) (display_of s) \<noteq> None) (ed_summaries db)))"
  using match_loop_result [OF assms subset_refl, of "matcher pids db"]
  by (simp add: run_eol_matching_def Let_def split_def match_loop_matched matcher_def [symmetric] cong: map_cong)

text \<open>A full matching run replaces the match of every application by what the three layers give for its names now, and
  counts the applications that have one; nothing of the earlier matches is read.\<close>

theorem full_run_recomputes:
  "distinct (map su_name (ed_summaries db)) \<Longrightarrow>
     map su_eol_match (ed_summaries (fst (run_eol_matching pids False changed db))) =
       map (\<lambda>s. matcher pids db (su_name s) (display_of s)) (ed_summaries db) \<and>
     snd (run_eol_matching pids False changed db) =
       length (filter (\<lambda>s. su_eol_match s \<noteq> None) (ed_summaries (fst (run_eol_matching pids False changed db))))"
  by (simp add: full_run rematch_def comp_def filter_map)

lemma review_keeps_unmatched:
  "map unmatched (fst (confirm_match n p ss)) = map unmatched ss"
  "map unmatched (fst (dismiss_match n ss)) = map unmatched ss"
  by (simp_all add: confirm_match_def dismiss_match_def Let_def map_update_first unmatched_def)

lemma rematch_reads_unmatched:
  assumes "map unmatched ss = map unmatched ts"
  shows "map su_name ss = map su_name ts" "map (rematch f) ss = map (rematch f) ts"
  using assms by (metis (no_types) map_map comp_def unmatched_names(1) rematch_unmatched map_eq_conv)+

text \<open>Reviewing a match has no lasting effect: the next full matching run leaves the summaries as if it had been neither
  confirmed nor dismissed. A confirmed match falls back to what the engine finds, a dismissed one returns.\<close>

theorem reviews_do_not_survive:
  "distinct (map su_name (ed_summaries db)) \<Longrightarrow>
     fst (run_eol_matching pids False changed (db\<lparr>ed_summaries := fst (confirm_match n p (ed_summaries db))\<rparr>)) =
       fst (run_eol_matching pids False changed db) \<and>
     fst (run_eol_matching pids False changed (db\<lparr>ed_summaries := fst (dismiss_match n (ed_summaries db))\<rparr>)) =
       fst (run_eol_matching pids False changed db)"
proof -
  assume d: "distinct (map su_name (ed_summaries db))"
  have "fst (run_eol_matching pids False changed (db\<lparr>ed_summaries := ss\<rparr>)) = fst (run_eol_matching pids False changed db)"
    if "map unmatched ss = map unmatched (ed_summaries db)" for ss
  proof -
    have "matcher pids (db\<lparr>ed_summaries := ss\<rparr>) = matcher pids db" by (simp add: matcher_def)
    then show ?thesis using rematch_reads_unmatched [OF that] d by (simp add: full_run)
  qed
  then show ?thesis by (simp add: review_keeps_unmatched)
qed

definition demo_eol_db :: eol_db where
  "demo_eol_db = \<lparr>ed_products = [\<lparr>ep_product_id = ''vlc'', ep_name = Some ''VLC'', ep_cycles = [], ep_last_synced = 0\<rparr>],
     ed_summaries = [\<lparr>su_name = ''my vlc build'', su_display_name = Some ''My VLC build'', su_category = None,
       su_eol_match = Some \<lparr>em_product_id = ''vlc'', em_source = Fuzzy, em_confidence = nearest 65 100\<rparr>\<rparr>],
     ed_mappings = [], ed_library = []\<rparr>"

lemma reviews_do_not_survive_witness:
  "map su_eol_match (ed_summaries (fst (run_eol_matching [''vlc''] False []
       (demo_eol_db\<lparr>ed_summaries := fst (confirm_match ''my vlc build'' ''vlc'' (ed_summaries demo_eol_db))\<rparr>)))) =
     [Some \<lparr>em_product_id = ''vlc'', em_source = Fuzzy, em_confidence = nearest 65 100\<rparr>]"
proof -
  have "distinct (map su_name (ed_summaries demo_eol_db))" by (simp add: demo_eol_db_def)
  note run = conjunct1 [OF reviews_do_not_survive [OF this, of "[''vlc'']" "[]" "''my vlc build''" "''vlc''"]]
  show ?thesis unfolding run by code_simp
qed

section \<open>Names\<close>

text \<open>What \<open>direct_name_match\<close> keeps while it goes through the mappings.\<close>

lemma longest_prefix_kept:
  assumes "foldl (longer_prefix nname pids) b m = (r, n)"
  shows "snd b \<le> n \<and> (n = snd b \<longrightarrow> r = fst b \<or> snd b = n) \<and>
    (\<forall>(k, p)\<in>set m. starts_with k nname \<and> p \<in> set pids \<longrightarrow> length k \<le> n) \<and>
    ((r, n) = b \<or> (\<exists>(k, p)\<in>set m. starts_with k nname \<and> p \<in> set pids \<and> length k = n \<and> snd b < n \<and> r = Some p))"
  using assms
proof (induction m arbitrary: b)
  case (Cons kv m)
  have step: "foldl (longer_prefix nname pids) (longer_prefix nname pids b kv) m = (r, n)" using Cons.prems by simp
  note IH = Cons.IH [OF step]
  show ?case using IH by (cases kv) (auto simp: longer_prefix_def split: if_splits)
qed auto

text \<open>When no mapping is exact, the product of a name is the one whose mapped prefix is the longest among those that begin
  the name and lead to a known product.\<close>

theorem longest_prefix_wins:
  "map_of (merged_mappings um) nname = None \<Longrightarrow>
     (k, p) \<in> set (merged_mappings um) \<Longrightarrow> k \<noteq> [] \<Longrightarrow> starts_with k nname \<Longrightarrow> p \<in> set pids \<Longrightarrow> [] \<notin> set pids \<Longrightarrow>
     \<exists>k' p'. (k', p') \<in> set (merged_mappings um) \<and> starts_with k' nname \<and> p' \<in> set pids \<and> length k \<le> length k' \<and>
       direct_name_match nname pids um = Some p'"
proof -
  assume none: "map_of (merged_mappings um) nname = None" and kp: "(k, p) \<in> set (merged_mappings um)" "k \<noteq> []"
    "starts_with k nname" "p \<in> set pids" and nonempty: "[] \<notin> set pids"
  obtain r n where run: "foldl (longer_prefix nname pids) (None, 0) (merged_mappings um) = (r, n)" by (cases "foldl (longer_prefix nname pids) (None, 0) (merged_mappings um)")
  note kept = longest_prefix_kept [OF run]
  have "length k \<le> n" using kept kp by auto
  then obtain k' p' where k': "(k', p') \<in> set (merged_mappings um)" "starts_with k' nname" "p' \<in> set pids" "length k' = n" "r = Some p'"
    using kept kp(2) by auto
  have "p' \<noteq> []" using k'(3) nonempty by auto
  then show ?thesis using k' none run \<open>length k \<le> n\<close> by (auto simp: direct_name_match_def Let_def neq_Nil_conv)
qed

lemma longest_prefix_wins_witness:
  "\<exists>k' p'. (k', p') \<in> set (merged_mappings []) \<and> starts_with k' ''microsoft .net framework 4.8'' \<and>
     p' \<in> set [''dotnet'', ''dotnetfx''] \<and> length ''microsoft .net framework'' \<le> length k' \<and>
     direct_name_match ''microsoft .net framework 4.8'' [''dotnet'', ''dotnetfx''] [] = Some p'"
  by (rule longest_prefix_wins [of "[]" "''microsoft .net framework 4.8''" "''microsoft .net framework''" "''dotnetfx''"]) code_simp+

text \<open>The prefixes of the built-in mappings end anywhere: where the Oracle JDK is a known product, every application whose name
  starts with the four letters of Java is taken for it, with the confidence that compliance checks accept.\<close>

theorem java_prefix_captures:
  "match_app [''oracle-jdk''] [] product_names cpes (''java'' @ rest) display_name =
     Some \<lparr>em_product_id = ''oracle-jdk'', em_source = Cpe, em_confidence = nearest 95 100\<rparr>"
proof -
  have java: "starts_with ''java'' (''java'' @ rest)" by (simp add: starts_with_def)
  have keys: "(k, ''oracle-jdk'') \<in> set NAME_TO_EOL_MAP \<Longrightarrow> k = ''java'' \<or> k = ''oracle java''" for k
    by (auto simp: NAME_TO_EOL_MAP_def)
  show ?thesis
  proof (cases "map_of (merged_mappings []) (''java'' @ rest)")
    case None
    have "(''java'', ''oracle-jdk'') \<in> set (merged_mappings [])" by code_simp
    from longest_prefix_wins [OF None this _ java, of "[''oracle-jdk'']"]
    have "direct_name_match (''java'' @ rest) [''oracle-jdk''] [] = Some ''oracle-jdk''" by auto
    then show ?thesis by (simp add: match_app_def)
  next
    case (Some p)
    then have "(''java'' @ rest, p) \<in> set NAME_TO_EOL_MAP" by (simp add: merged_mappings_def map_of_SomeD)
    then have "rest = [] \<and> p = ''oracle-jdk''" by (auto simp: NAME_TO_EOL_MAP_def)
    then show ?thesis using Some by (simp add: match_app_def direct_name_match_def Let_def)
  qed
qed

section \<open>Synchronisation\<close>

lemma date_from_iso_valid: "date_from_iso s = Some d \<Longrightarrow> valid_date d"
  by (auto simp: date_from_iso_def iso_week_def real_date_def Let_def split: option.splits if_splits prod.splits)

lemma parse_date_field_stored: "parse_stored_date (map_option date_iso (parse_date_field v)) = parse_date_field v"
  by (auto simp: parse_stored_date_def parse_date_field_def date_iso_roundtrip_aux date_from_iso_valid split: pyval.split option.split)

text \<open>A release is loaded for the checks with the dates the API gave, and it counts as ended only by its date: the flag
  \<open>isEol\<close> of the API, stored beside it, plays no part.\<close>

theorem loaded_cycle_ignores_flag:
  "parse_release today raw = Some c \<Longrightarrow>
     cy_eol_date (load_cycle now c) = parse_date_field (dict_get raw ''eolFrom'' (dict_get raw ''eol'' PNone)) \<and>
     cy_is_eol (load_cycle now c) = past now (parse_date_field (dict_get raw ''eolFrom'' (dict_get raw ''eol'' PNone)))"
  by (auto simp: parse_release_def load_cycle_def Let_def parse_date_field_stored split: prod.splits if_splits)

lemma loaded_cycle_ignores_flag_witness:
  "sc_is_eol (the (parse_release (2025, 1, 1) [(''name'', PStr ''2.7''), (''isEol'', PBool True), (''eol'', PBool True)])) \<and>
     \<not> cy_is_eol (load_cycle (2025, 1, 1) (the (parse_release (2025, 1, 1)
         [(''name'', PStr ''2.7''), (''isEol'', PBool True), (''eol'', PBool True)])))"
proof -
  let ?raw = "[(''name'', PStr ''2.7''), (''isEol'', PBool True), (''eol'', PBool True)]"
  obtain c where c: "parse_release (2025, 1, 1) ?raw = Some c" "sc_is_eol c"
    by (simp add: parse_release_def dict_get_def py_str_def parse_date_field_def py_truthy_def)
  have "parse_date_field (dict_get ?raw ''eolFrom'' (dict_get ?raw ''eol'' PNone)) = None"
    by (simp add: dict_get_def parse_date_field_def)
  then show ?thesis using loaded_cycle_ignores_flag [OF c(1), of "(2025, 1, 1)"] c by (simp add: past_def)
qed

definition product_ids :: "eol_product list \<Rightarrow> string list" where
  "product_ids = map ep_product_id"

lemma upsert_product_ids:
  "distinct (product_ids ps) \<Longrightarrow> distinct (product_ids (fst (upsert_product pid name cs now ps)))"
proof -
  have "map ep_product_id (update_first (\<lambda>p. ep_product_id p = pid) (\<lambda>_. doc) ps) = map ep_product_id ps"
    if "ep_product_id doc = pid" for doc
    using that by (induction ps) auto
  then show "distinct (product_ids ps) \<Longrightarrow> ?thesis"
    by (auto simp: upsert_product_def product_ids_def Let_def list_ex_iff)
qed

definition sync_inv :: "nat \<Rightarrow> sync_acc \<Rightarrow> bool" where
  "sync_inv i acc = (y_synced acc + y_failed acc \<le> i \<and> length (y_errors acc) = min 10 (y_failed acc) \<and>
     distinct (product_ids (y_products acc)))"

lemma sync_product_inv: "sync_inv i acc \<Longrightarrow> sync_inv (Suc i) (sync_product api today now k pid name acc)"
  by (auto simp: sync_inv_def sync_product_def upsert_product_ids split: fetched.split)

lemma sync_inv_later: "sync_inv i acc \<Longrightarrow> i \<le> j \<Longrightarrow> sync_inv j acc"
  by (simp add: sync_inv_def)

lemma sync_loop_inv:
  "sync_inv i acc \<Longrightarrow> sync_inv (i + length items) (fst (sync_loop api today now k items acc))"
proof (induction items arbitrary: i k acc)
  case (Cons info items)
  have "sync_inv (Suc i) (if b then sync_product api today now k pid name acc else acc)" for b pid name
    using Cons.prems sync_inv_later [OF Cons.prems, of "Suc i"] by (simp add: sync_product_inv)
  moreover have "sync_inv (i + length (info # items)) acc" using Cons.prems by (rule sync_inv_later) simp
  ultimately show ?case using Cons.IH [of "Suc i"] by (auto split: sum.split)
qed simp

text \<open>A synchronisation keeps one document per product, whatever the API answers; what it reports adds up: no product is
  counted twice, and it names the first ten failures.\<close>

theorem sync_accounts:
  "distinct (product_ids products) \<Longrightarrow> do_sync api today now products = (products', r) \<Longrightarrow>
     distinct (product_ids products') \<and>
     (case r of Inl _ \<Rightarrow> True | Inr z \<Rightarrow> z_synced z + z_failed z \<le> z_total z \<and> length (z_errors z) = min 10 (z_failed z))"
proof -
  assume d: "distinct (product_ids products)" and run: "do_sync api today now products = (products', r)"
  have "sync_inv 0 \<lparr>y_products = products, y_synced = 0, y_failed = 0, y_errors = []\<rparr>" using d by (simp add: sync_inv_def)
  note inv = sync_loop_inv [OF this, of _ api today now 0]
  show ?thesis using d run inv
    by (auto simp: do_sync_def sync_inv_def Let_def split: sum.splits prod.splits option.splits) (metis fst_conv)+
qed

definition demo_api :: eol_api where
  "demo_api = \<lparr>api_list = Response 200 (Inr (PDict [(''result'', PList [PStr ''python'', PStr ''nope''])])),
     api_fetch = (\<lambda>i _. if i = 0 then Response 200 (Inr (PDict [(''releases'', PList [PDict [(''name'', PStr ''3.12'')]])])) else HttpFail ''timeout''),
     api_status_error = (\<lambda>_. ''status'')\<rparr>"

lemma sync_accounts_witness:
  "\<exists>ps z. do_sync demo_api (2025, 1, 1) 0 [] = (ps, Inr z) \<and> distinct (product_ids ps) \<and> z_synced z + z_failed z \<le> z_total z \<and>
     length (z_errors z) = min 10 (z_failed z) \<and> z_failed z = 1"
proof -
  obtain ps z where run: "do_sync demo_api (2025, 1, 1) 0 [] = (ps, Inr z)" and one: "z_failed z = 1"
    by (simp add: do_sync_def demo_api_def checked_json_def product_items_def py_iter_def product_ident_def py_truthy_def
        sync_product_def fetch_product_def parse_product_def dict_get_def parse_release_def py_str_def Let_def split_def
        upsert_product_def)
  show ?thesis using sync_accounts [OF _ run] run one by (auto simp: product_ids_def)
qed

text \<open>A sequence of synchronisations.\<close>

fun later_syncs :: "(eol_api \<times> library_faults \<times> date \<times> instant) list \<Rightarrow> eol_service \<Rightarrow> eol_service \<times> sync_outcome list" where
  "later_syncs [] s = (s, [])"
| "later_syncs ((api, lf, today, now) # calls) s =
     (let (s', r) = sync_eol_data api lf today now s; (s'', rs) = later_syncs calls s' in (s'', r # rs))"

lemma later_syncs_running: "es_running s \<Longrightarrow> later_syncs calls s = (s, replicate (length calls) AlreadyRunning)"
  by (induction calls) (auto simp: sync_eol_data_def)

text \<open>When the run cannot be recorded at the start of a synchronisation, the flag that it runs is never taken back: every
  later call, however many, answers that one is already running and does nothing.\<close>

theorem failed_insert_blocks_sync:
  "\<not> es_running s \<Longrightarrow> lf_insert lf = Some err \<Longrightarrow>
     later_syncs ((api, lf, today, now) # calls) s =
       (s\<lparr>es_running := True\<rparr>, Escaped err # replicate (length calls) AlreadyRunning)"
  by (simp add: sync_eol_data_def later_syncs_running)

definition idle_service :: eol_service where
  "idle_service = \<lparr>es_running = False, es_status = ''idle'', es_runs = [], es_products = []\<rparr>"

definition no_faults :: library_faults where
  "no_faults = \<lparr>lf_insert = None, lf_update = None, lf_update_failed = False\<rparr>"

lemma failed_insert_blocks_sync_witness:
  "snd (later_syncs [(demo_api, no_faults\<lparr>lf_insert := Some ''down''\<rparr>, (2025, 1, 1), 0), (demo_api, no_faults, (2025, 1, 2), 0)]
     idle_service) = [Escaped ''down'', AlreadyRunning]"
  by (subst failed_insert_blocks_sync [where err = "''down''"]) (simp_all add: idle_service_def no_faults_def)

text \<open>A synchronisation that could not reach the API and has nothing cached returns the status \<open>failed\<close>, but its run is
  recorded, and announced, as completed.\<close>

theorem unreachable_api_recorded_completed:
  "\<not> es_running s \<Longrightarrow> lf_insert lf = None \<Longrightarrow> lf_update lf = None \<Longrightarrow> es_products s = [] \<Longrightarrow> api_list api = HttpFail err \<Longrightarrow>
     \<exists>z. snd (sync_eol_data api lf today now s) = Summary z \<and> z_status z = ''failed'' \<and>
       es_status (fst (sync_eol_data api lf today now s)) = ''completed'' \<and>
       ir_status (last (es_runs (fst (sync_eol_data api lf today now s)))) = Completed"
  by (simp add: sync_eol_data_def do_sync_def checked_json_def)

lemma unreachable_api_recorded_completed_witness:
  "ir_status (last (es_runs (fst (sync_eol_data (demo_api\<lparr>api_list := HttpFail ''timeout''\<rparr>) no_faults (2025, 1, 1) 0 idle_service)))) = Completed"
  using unreachable_api_recorded_completed [of idle_service no_faults "demo_api\<lparr>api_list := HttpFail ''timeout''\<rparr>" "''timeout''" "(2025, 1, 1)" 0]
  by (auto simp: idle_service_def no_faults_def demo_api_def)

end
