(* ===== verification/Compliance.thy ===== *)
theory Compliance
  imports Enforcement EolSync
begin

text \<open>
  \<open>domains/compliance\<close>: the controls and results (\<open>entities.py\<close>), the collections that the checks read, and
  the eleven check executors of \<open>checks/\<close>. A run sees the collections as they are when it starts. Parameters of
  a control are JSON values; one that does not have the type the check annotates is an error result
  (\<open>BadParameter\<close>). Groups of an aggregation come in the order of their first document.
\<close>

section \<open>Entities\<close>

datatype check_type = ProhibitedApp | RequiredApp | UnclassifiedThreshold | AgentVersion | AgentOnline | AppVersion
  | SyncFreshness | ClassificationCoverage | DeltaDetection | CustomAppPresence | EolSoftware

definition check_type_value :: "check_type \<Rightarrow> string" where
  "check_type_value t = (case t of ProhibitedApp \<Rightarrow> ''prohibited_app_check'' | RequiredApp \<Rightarrow> ''required_app_check''
     | UnclassifiedThreshold \<Rightarrow> ''unclassified_threshold_check'' | AgentVersion \<Rightarrow> ''agent_version_check''
     | AgentOnline \<Rightarrow> ''agent_online_check'' | AppVersion \<Rightarrow> ''app_version_check'' | SyncFreshness \<Rightarrow> ''sync_freshness_check''
     | ClassificationCoverage \<Rightarrow> ''classification_coverage_check'' | DeltaDetection \<Rightarrow> ''delta_detection_check''
     | CustomAppPresence \<Rightarrow> ''custom_app_presence_check'' | EolSoftware \<Rightarrow> ''eol_software_check'')"

definition all_check_types :: "check_type list" where
  "all_check_types = [ProhibitedApp, RequiredApp, AgentVersion, AgentOnline, AppVersion, SyncFreshness, ClassificationCoverage,
     UnclassifiedThreshold, DeltaDetection, CustomAppPresence, EolSoftware]"

datatype control_status = CPass | CFail | CWarning | CError | CNotApplicable

record compliance_violation =
  cv_agent_id :: string
  cv_hostname :: string
  cv_detail :: string
  cv_app_name :: "string option"
  cv_app_version :: "string option"
  cv_remediation :: string

text \<open>The identity that a control gives its result.\<close>

record control_meta =
  m_control_id :: string
  m_framework_id :: string
  m_name :: string
  m_category :: string
  m_severity :: severity

record check_result =
  c_control_id :: string
  c_framework_id :: string
  c_status :: control_status
  c_checked_at :: instant
  c_total :: int
  c_compliant :: int
  c_non_compliant :: int
  c_violations :: "compliance_violation list"
  c_evidence :: string
  c_severity :: severity
  c_category :: string
  c_control_name :: string

text \<open>What a check can raise.\<close>

datatype check_exn = Raised check_error | AttributeError string | OverflowError string | BadParameter string

definition on_ok :: "'e + 'a \<Rightarrow> ('a \<Rightarrow> 'e + 'b) \<Rightarrow> 'e + 'b" where
  "on_ok r f = (case r of Inl err \<Rightarrow> Inl err | Inr x \<Rightarrow> f x)"

lemma on_ok_simps [simp]: "on_ok (Inl err) f = Inl err" "on_ok (Inr x) f = f x"
  by (simp_all add: on_ok_def)

lemma on_ok_Inr: "on_ok r f = Inr y \<longleftrightarrow> (\<exists>x. r = Inr x \<and> f x = Inr y)"
  by (cases r) simp_all

definition mk_result ::
  "control_meta \<Rightarrow> instant \<Rightarrow> control_status \<Rightarrow> int \<Rightarrow> int \<Rightarrow> int \<Rightarrow> compliance_violation list \<Rightarrow> string \<Rightarrow> check_result" where
  "mk_result m now st total_n ok bad vs evidence =
     \<lparr>c_control_id = m_control_id m, c_framework_id = m_framework_id m, c_status = st, c_checked_at = now, c_total = total_n,
      c_compliant = ok, c_non_compliant = bad, c_violations = vs, c_evidence = evidence, c_severity = m_severity m,
      c_category = m_category m, c_control_name = m_name m\<rparr>"

definition not_applicable_result :: "control_meta \<Rightarrow> instant \<Rightarrow> string \<Rightarrow> check_result" where
  "not_applicable_result m now evidence = mk_result m now CNotApplicable 0 0 0 [] evidence"

definition no_agents :: string where
  "no_agents = ''No agents in scope''"

section \<open>What the checks read\<close>

record endpoint = agent +
  ag_version :: "string option"
  ag_last_active :: "pyval option"

record installed_app =
  ia_agent_id :: string
  ia_name :: string
  ia_version :: "string option"
  ia_risk_level :: "string option"
  ia_last_synced_at :: "pyval option"

record sync_run =
  sr_status :: string
  sr_completed_at :: "pyval option"

record comp_db =
  cd_agents :: "endpoint list"
  cd_apps :: "installed_app list"
  cd_summaries :: "app_summary list"
  cd_sync_runs :: "sync_run list"
  cd_classified :: "string list" \<comment> \<open>the agents that have a classification result\<close>
  cd_eol_products :: "eol_product list"
  cd_today :: date

definition in_scope :: "scope_query \<Rightarrow> comp_db \<Rightarrow> endpoint list" where
  "in_scope q db = filter (selects q) (cd_agents db)"

section \<open>Values\<close>

definition strings_of :: "pyval list \<Rightarrow> string list option" where
  "strings_of vs = (if list_all (\<lambda>v. case v of PStr _ \<Rightarrow> True | _ \<Rightarrow> False) vs
     then Some (map (\<lambda>v. case v of PStr s \<Rightarrow> s | _ \<Rightarrow> []) vs) else None)"

type_synonym params = "(string \<times> pyval) list"

definition get_param :: "string \<Rightarrow> pyval \<Rightarrow> params \<Rightarrow> pyval" where
  "get_param k d ps = (case map_of ps k of Some v \<Rightarrow> v | None \<Rightarrow> d)"

definition get_int :: "string \<Rightarrow> int \<Rightarrow> params \<Rightarrow> check_exn + int" where
  "get_int k d ps = (case get_param k (PInt d) ps of PInt i \<Rightarrow> Inr i | PBool b \<Rightarrow> Inr (of_bool b) | _ \<Rightarrow> Inl (BadParameter k))"

text \<open>A decimal literal, as \<open>repr\<close> prints a finite float, and the double nearest to it.\<close>

definition parse_decimal :: "string \<Rightarrow> double option" where
  "parse_decimal s =
     (let neg = (case s of c # _ \<Rightarrow> c = CHR ''-'' | [] \<Rightarrow> False); body = (if neg then tl s else s);
          mantissa = takeWhile (\<lambda>c. c \<noteq> CHR ''e'') body; ex = dropWhile (\<lambda>c. c \<noteq> CHR ''e'') body;
          whole = takeWhile (\<lambda>c. c \<noteq> CHR ''.'') mantissa; frac = drop 1 (dropWhile (\<lambda>c. c \<noteq> CHR ''.'') mantissa);
          exneg = (case ex of _ # c # _ \<Rightarrow> c = CHR ''-'' | _ \<Rightarrow> False);
          exdigits = (case ex of _ # c # r \<Rightarrow> if c = CHR ''-'' \<or> c = CHR ''+'' then r else c # r | _ \<Rightarrow> []);
          e = (if exneg then - int (str_nat exdigits) else int (str_nat exdigits)) - int (length frac);
          n = int (str_nat (whole @ frac)) * (if neg then -1 else 1)
      in if whole \<noteq> [] \<and> list_all is_digit (whole @ frac @ exdigits)
         then Some (if 0 \<le> e then nearest (n * 10 ^ nat e) 1 else nearest n (10 ^ nat (- e))) else None)"

definition get_number :: "string \<Rightarrow> pyval \<Rightarrow> params \<Rightarrow> check_exn + double \<times> string" where
  "get_number k d ps =
     (case get_param k d ps of
        PInt i \<Rightarrow> Inr (dint i, int_str i)
      | PBool b \<Rightarrow> Inr (dint (of_bool b), if b then ''True'' else ''False'')
      | PFloat r \<Rightarrow> (case parse_decimal r of Some x \<Rightarrow> Inr (x, r) | None \<Rightarrow> Inl (BadParameter k))
      | _ \<Rightarrow> Inl (BadParameter k))"

text \<open>Strings: case-insensitive search for a text, and for a pattern in which \<open>*\<close> stands for anything on the line.\<close>

fun matches_here :: "string \<Rightarrow> string \<Rightarrow> bool" where
  "matches_here [] s = True"
| "matches_here (c # p) [] = False"
| "matches_here (c # p) (d # s) = (lower_char c = lower_char d \<and> matches_here p s)"

definition text_search :: "string \<Rightarrow> string \<Rightarrow> bool" where
  "text_search p s = list_ex (matches_here p) (map (\<lambda>n. drop n s) [0..<Suc (length s)])"

function star_here :: "string \<Rightarrow> string \<Rightarrow> bool" where
  "star_here [] s = True"
| "star_here (c # p) s =
     (if c = CHR ''*'' then star_here p s \<or> (case s of [] \<Rightarrow> False | d # t \<Rightarrow> (of_char d :: nat) \<noteq> 10 \<and> star_here (c # p) t)
      else (case s of [] \<Rightarrow> False | d # t \<Rightarrow> lower_char c = lower_char d \<and> star_here p t))"
  by pat_completeness auto

termination by (relation "measure (\<lambda>(p, s). length p + length s)") auto

definition star_search :: "string \<Rightarrow> string \<Rightarrow> bool" where
  "star_search p s = list_ex (star_here p) (map (\<lambda>n. drop n s) [0..<Suc (length s)])"

text \<open>Dates: the instant of a stored datetime (a naive one is in UTC). A datetime and a string never compare in
  a MongoDB query.\<close>

definition instant_of :: "datetime \<Rightarrow> instant" where
  "instant_of t = seconds (days_from_civil (dt_year t) (dt_month t) (dt_day t) * 86400 + int (dt_hour t) * 3600 +
     int (dt_minute t) * 60 + int (dt_second t) - (case dt_offset t of Some z \<Rightarrow> z * 60 | None \<Rightarrow> 0)) + int (dt_micro t)"

definition date_before :: "instant \<Rightarrow> pyval option \<Rightarrow> bool" where
  "date_before cutoff v = (case v of Some (PDatetime t) \<Rightarrow> instant_of t < cutoff | _ \<Rightarrow> False)"

definition date_from :: "instant \<Rightarrow> pyval option \<Rightarrow> bool" where
  "date_from cutoff v = (case v of Some (PDatetime t) \<Rightarrow> cutoff \<le> instant_of t | _ \<Rightarrow> False)"

text \<open>\<open>now - timedelta(...)\<close>: a datetime lies in the years 1 to 9999.\<close>

definition minus_delta :: "instant \<Rightarrow> int \<Rightarrow> check_exn + instant" where
  "minus_delta now delta =
     (if \<bar>delta\<bar> \<ge> seconds (1000000000 * 86400) then Inl (OverflowError ''timedelta'')
      else if now - delta < seconds (days_from_civil 1 1 1 * 86400) \<or> seconds (days_from_civil 10000 1 1 * 86400) \<le> now - delta
      then Inl (OverflowError ''date value out of range'')
      else Inr (now - delta))"

lemma epoch_test: "instant_of epoch0 = seconds (days_from_civil 1900 1 1 * 86400)" "days_from_civil 1970 1 1 = 0" "days_from_civil 2000 3 1 = 11017"
  by (simp_all add: instant_of_def epoch0_def days_from_civil_def)

end
