(* ===== verification/ComplianceChecks.thy ===== *)
theory ComplianceChecks
  imports Compliance
begin

text \<open>
  \<open>domains/compliance/checks\<close>: the executors, and \<open>extract_cycle_match\<close> of \<open>domains/eol/matching.py\<close>.
\<close>

type_synonym executor = "comp_db \<Rightarrow> instant \<Rightarrow> control_meta \<Rightarrow> params \<Rightarrow> scope_query \<Rightarrow> check_exn + check_result"

section \<open>Shared steps\<close>

abbreviation nstr :: "nat \<Rightarrow> string" where
  "nstr n \<equiv> int_str (int n)"

definition source_id :: "endpoint \<Rightarrow> check_error + string" where
  "source_id a = (case ag_source_id a of Some i \<Rightarrow> Inr i | None \<Rightarrow> Inl (KeyError ''source_id''))"

text \<open>The scan over the agents: \<open>find a i\<close> are the findings on agent \<open>a\<close> with the identifier \<open>i\<close>.\<close>

definition scan :: "(endpoint \<Rightarrow> string \<Rightarrow> compliance_violation list) \<Rightarrow> endpoint list \<Rightarrow> check_exn + compliance_violation list" where
  "scan f as = (case collect (\<lambda>a. case source_id a of Inl err \<Rightarrow> Inl err | Inr i \<Rightarrow> Inr (f a i)) as of
     Inl err \<Rightarrow> Inl (Raised err) | Inr vs \<Rightarrow> Inr vs)"

text \<open>The scan that reads the identifier only of an agent with a finding.\<close>

definition scan_bad :: "(endpoint \<Rightarrow> bool) \<Rightarrow> (endpoint \<Rightarrow> string \<Rightarrow> compliance_violation) \<Rightarrow> endpoint list
    \<Rightarrow> check_exn + compliance_violation list" where
  "scan_bad bad f as = (case collect (\<lambda>a. if bad a
       then (case source_id a of Inl err \<Rightarrow> Inl err | Inr i \<Rightarrow> Inr [f a i]) else Inr []) as of
     Inl err \<Rightarrow> Inl (Raised err) | Inr vs \<Rightarrow> Inr vs)"

definition named_agents :: "compliance_violation list \<Rightarrow> nat" where
  "named_agents vs = length (remdups (map cv_agent_id vs))"

definition verdict_of :: "nat \<Rightarrow> control_status" where
  "verdict_of bad = (if bad = 0 then CPass else CFail)"

definition violation :: "string \<Rightarrow> string \<Rightarrow> string \<Rightarrow> string option \<Rightarrow> string option \<Rightarrow> string \<Rightarrow> compliance_violation" where
  "violation i host detail app version remedy =
     \<lparr>cv_agent_id = i, cv_hostname = host, cv_detail = detail, cv_app_name = app, cv_app_version = version, cv_remediation = remedy\<rparr>"

text \<open>A parameter that is a list of texts.\<close>

definition strings_param :: "string \<Rightarrow> params \<Rightarrow> check_exn + string list" where
  "strings_param k ps = (let v = get_param k (PList []) ps
     in if \<not> py_truthy v then Inr []
        else case v of PList vs \<Rightarrow> (case strings_of vs of Some xs \<Rightarrow> Inr xs | None \<Rightarrow> Inl (BadParameter k)) | _ \<Rightarrow> Inl (BadParameter k))"

section \<open>prohibited_app.py\<close>

definition prohibited_names :: "comp_db \<Rightarrow> string list" where
  "prohibited_names db = map ia_name (take 10000 (filter (\<lambda>x. ia_risk_level x = Some ''prohibited'') (cd_apps db)))"

definition prohibited_on :: "string list \<Rightarrow> endpoint \<Rightarrow> string \<Rightarrow> compliance_violation list" where
  "prohibited_on names a i = map (\<lambda>app. violation i (host_of a) (''Prohibited application '' @ sq app @ '' installed'') (Some app) None
       (''Uninstall '' @ sq app @ '' from endpoint '' @ host_of a))
     (filter (\<lambda>app. lower app \<in> set (map lower names)) (installed_apps a))"

definition prohibited_app_check :: executor where
  "prohibited_app_check db now m ps q =
     (let n = length (in_scope q db); names = prohibited_names db
      in if n = 0 then Inr (not_applicable_result m now no_agents)
         else if names = [] then Inr (mk_result m now CPass (int n) (int n) 0 []
           (nstr n @ ''/'' @ nstr n @ '' endpoints free of prohibited software.''))
         else on_ok (scan (prohibited_on names) (filter (\<lambda>a. ag_installed a \<noteq> None) (in_scope q db)))
           (\<lambda>vs. let capped = cut_at MAX_VIOLATIONS vs; bad = named_agents vs
             in Inr (mk_result m now (verdict_of bad) (int n) (int n - int bad) (int bad) capped
               (int_str (int n - int bad) @ ''/'' @ nstr n @ '' endpoints free of prohibited software. '' @ nstr (length capped) @
                '' violation(s) found on '' @ nstr bad @ '' endpoint(s).''))))"

section \<open>required_app.py\<close>

definition required_on :: "string list \<Rightarrow> endpoint \<Rightarrow> string \<Rightarrow> compliance_violation list" where
  "required_on required a i = map (\<lambda>app. violation i (host_of a) (''Required application '' @ sq app @ '' not found'') (Some app) None
       (''Install '' @ sq app @ '' on endpoint '' @ host_of a))
     (filter (\<lambda>app. \<not> list_ex (text_search app) (installed_apps a)) required)"

definition required_app_check :: executor where
  "required_app_check db now m ps q =
     on_ok (strings_param ''required_apps'' ps) (\<lambda>required.
       let n = length (in_scope q db)
       in if required = [] then Inr (not_applicable_result m now ''No required applications configured'')
          else if n = 0 then Inr (not_applicable_result m now no_agents)
          else on_ok (scan (required_on required) (in_scope q db))
            (\<lambda>vs. let capped = cut_at MAX_VIOLATIONS vs; bad = named_agents vs
              in Inr (mk_result m now (verdict_of bad) (int n) (int n - int bad) (int bad) capped
                (int_str (int n - int bad) @ ''/'' @ nstr n @ '' endpoints have all '' @ nstr (length required) @
                 '' required application(s). '' @ nstr (length capped) @ '' missing installation(s) across '' @ nstr bad @
                 '' endpoint(s).''))))"

section \<open>custom_app_presence.py\<close>

definition custom_on :: "string \<Rightarrow> bool \<Rightarrow> endpoint \<Rightarrow> string \<Rightarrow> compliance_violation list" where
  "custom_on p must_exist a i =
     (let found = filter (star_search p) (installed_apps a)
      in if must_exist \<and> found = [] then [violation i (host_of a) (''Required application matching '' @ sq p @ '' not found'')
             (Some p) None (''Install an application matching '' @ sq p @ '' on '' @ host_of a)]
         else if \<not> must_exist then map (\<lambda>app. violation i (host_of a)
             (''Disallowed application '' @ sq app @ '' found (matches pattern '' @ sq p @ '')'') (Some app) None
             (''Remove '' @ sq app @ '' from '' @ host_of a)) found
         else [])"

definition custom_app_presence_check :: executor where
  "custom_app_presence_check db now m ps q =
     (let must_exist = py_truthy (get_param ''must_exist'' (PBool True) ps); pv = get_param ''app_pattern'' (PStr []) ps;
          n = length (in_scope q db)
      in if \<not> py_truthy pv then Inr (not_applicable_result m now
             ''No app_pattern configured - configure this control in Compliance > Settings to specify the application to check'')
         else if n = 0 then Inr (not_applicable_result m now no_agents)
         else case pv of
           PStr p \<Rightarrow> on_ok (scan (custom_on p must_exist) (in_scope q db))
             (\<lambda>vs. let bad = named_agents vs
               in Inr (mk_result m now (verdict_of bad) (int n) (int n - int bad) (int bad) (cut_at MAX_VIOLATIONS vs)
                 (int_str (int n - int bad) @ ''/'' @ nstr n @ '' endpoints: '' @ sq p @ '' is '' @
                  (if must_exist then ''present'' else ''absent'') @ ''. '' @ nstr bad @ '' non-compliant endpoint(s).'')))
         | _ \<Rightarrow> Inl (BadParameter ''app_pattern''))"

section \<open>agent_version.py\<close>

text \<open>\<open>int(segment)\<close>: surrounding blanks, a sign, digits with single underscores between them.\<close>

fun digit_groups :: "string \<Rightarrow> bool" where
  "digit_groups [] = False"
| "digit_groups [c] = is_digit c"
| "digit_groups (c # d # s) = (is_digit c \<and> (if d = CHR ''_'' then digit_groups s else digit_groups (d # s)))"

definition py_int :: "string \<Rightarrow> int option" where
  "py_int s =
     (let t = trim s; sign = (case t of c # _ \<Rightarrow> c = CHR ''-'' \<or> c = CHR ''+'' | [] \<Rightarrow> False); body = (if sign then tl t else t);
          n = int (str_nat (filter is_digit body))
      in if digit_groups body then Some (if sign \<and> hd t = CHR ''-'' then - n else n) else None)"

definition version_tuple :: "string \<Rightarrow> int list" where
  "version_tuple v = map (\<lambda>seg. case py_int seg of Some n \<Rightarrow> n | None \<Rightarrow> 0) (split_on (CHR ''.'') v)"

text \<open>The keys of a grouping, in the order of their first document, and the one with most documents.\<close>

definition group_keys :: "'k list \<Rightarrow> 'k list" where
  "group_keys ks = rev (remdups (rev ks))"

definition occurrences :: "'k list \<Rightarrow> 'k \<Rightarrow> nat" where
  "occurrences ks k = length (filter (\<lambda>x. x = k) ks)"

definition most_common :: "'k list \<Rightarrow> 'k option" where
  "most_common ks = (case sort_key (\<lambda>k. - int (occurrences ks k)) (group_keys ks) of [] \<Rightarrow> None | k # _ \<Rightarrow> Some k)"

definition outdated :: "string \<Rightarrow> endpoint \<Rightarrow> bool" where
  "outdated min_v a = (case ag_version a of Some v \<Rightarrow> v \<noteq> [] \<and> version_tuple v < version_tuple min_v | None \<Rightarrow> False)"

definition outdated_violation :: "string \<Rightarrow> endpoint \<Rightarrow> string \<Rightarrow> compliance_violation" where
  "outdated_violation min_v a i =
     (let v = (case ag_version a of Some v \<Rightarrow> v | None \<Rightarrow> [])
      in violation i (host_of a) (''Agent version '' @ v @ '' is below minimum '' @ min_v) None None
        (''Update agent on '' @ host_of a @ '' from '' @ v @ '' to '' @ min_v @ '' or later''))"

definition baseline_version :: "params \<Rightarrow> endpoint list \<Rightarrow> check_exn + string option" where
  "baseline_version ps as =
     (let v = get_param ''min_version'' PNone ps
      in if py_truthy v then (case v of PStr s \<Rightarrow> Inr (Some s) | _ \<Rightarrow> Inl (BadParameter ''min_version''))
         else Inr (case most_common (map ag_version as) of Some (Some s) \<Rightarrow> if s = [] then None else Some s | _ \<Rightarrow> None))"

definition agent_version_check :: executor where
  "agent_version_check db now m ps q =
     (let as = in_scope q db; n = length as
      in if n = 0 then Inr (not_applicable_result m now no_agents)
         else on_ok (baseline_version ps as) (\<lambda>base. case base of
             None \<Rightarrow> Inr (mk_result m now CWarning (int n) 0 0 [] ''Could not determine baseline agent version'')
           | Some min_v \<Rightarrow> on_ok (scan_bad (outdated min_v) (outdated_violation min_v) as)
               (\<lambda>vs. let bad = length vs
                 in Inr (mk_result m now (verdict_of bad) (int n) (int n - int bad) (int bad) (cut_at MAX_VIOLATIONS vs)
                   (int_str (int n - int bad) @ ''/'' @ nstr n @ '' agents at version '' @ min_v @ '' or later. '' @ nstr bad @
                    '' agent(s) outdated.'')))))"

section \<open>agent_online.py\<close>

definition stale_violation :: "int \<Rightarrow> endpoint \<Rightarrow> string \<Rightarrow> compliance_violation" where
  "stale_violation days_n a i =
     (let seen = (case ag_last_active a of Some (PDatetime t) \<Rightarrow> isoformat t | _ \<Rightarrow> ''never'')
      in violation i (host_of a) (''Agent offline since '' @ seen @ '' (>'' @ int_str days_n @ '' days)'') None None
        (''Investigate endpoint '' @ host_of a @ '' - last check-in '' @ seen))"

definition agent_online_check :: executor where
  "agent_online_check db now m ps q =
     on_ok (get_int ''max_offline_days'' 7 ps) (\<lambda>days_n.
       on_ok (minus_delta now (seconds (86400 * days_n))) (\<lambda>cutoff.
         let as = in_scope q db; n = length as
         in if n = 0 then Inr (not_applicable_result m now no_agents)
            else on_ok (scan_bad (\<lambda>a. date_before cutoff (ag_last_active a)) (stale_violation days_n) as)
              (\<lambda>vs. let bad = length vs
                in Inr (mk_result m now (verdict_of bad) (int n) (int n - int bad) (int bad) (cut_at MAX_VIOLATIONS vs)
                  (int_str (int n - int bad) @ ''/'' @ nstr n @ '' agents active within '' @ int_str days_n @ '' days. '' @ nstr bad @
                   '' agent(s) stale.'')))))"

section \<open>sync_freshness.py\<close>

text \<open>The order in which MongoDB sorts values of different types.\<close>

definition bson_key :: "pyval option \<Rightarrow> nat \<times> string \<times> int" where
  "bson_key v = (case v of None \<Rightarrow> (0, [], 0) | Some PNone \<Rightarrow> (0, [], 0) | Some (PInt i) \<Rightarrow> (1, [], i) | Some (PFloat r) \<Rightarrow> (1, r, 0)
     | Some (PStr s) \<Rightarrow> (2, s, 0) | Some (PDict _) \<Rightarrow> (3, [], 0) | Some (PList _) \<Rightarrow> (4, [], 0) | Some (POther s) \<Rightarrow> (5, s, 0)
     | Some (PBool b) \<Rightarrow> (6, [], of_bool b) | Some (PDatetime t) \<Rightarrow> (7, [], instant_of t))"

definition latest_completed :: "comp_db \<Rightarrow> sync_run option" where
  "latest_completed db =
     (let rs = filter (\<lambda>r. sr_status r = ''completed'') (cd_sync_runs db)
      in find (\<lambda>r. list_all (\<lambda>r'. bson_key (sr_completed_at r') \<le> bson_key (sr_completed_at r)) rs) rs)"

definition ensure_utc :: "pyval option \<Rightarrow> check_exn + datetime" where
  "ensure_utc v = (case v of
       None \<Rightarrow> Inl (Raised (KeyError ''completed_at''))
     | Some (PDatetime t) \<Rightarrow> Inr (case dt_offset t of None \<Rightarrow> t\<lparr>dt_offset := Some 0\<rparr> | Some _ \<Rightarrow> t)
     | Some w \<Rightarrow> Inl (AttributeError (no_attribute w ''tzinfo'')))"

definition hours_of :: "int \<Rightarrow> double" where
  "hours_of us = (let s = nearest us 1000000
     in if 0 \<le> expn s then nearest (mant s * 2 ^ nat (expn s)) 3600 else nearest (mant s) (3600 * 2 ^ nat (- expn s)))"

definition system_violation :: "string \<Rightarrow> string \<Rightarrow> compliance_violation" where
  "system_violation detail remedy = violation ''system'' ''sentora'' detail None None remedy"

definition sync_freshness_check :: executor where
  "sync_freshness_check db now m ps q =
     on_ok (get_int ''max_hours_since_sync'' 24 ps) (\<lambda>h.
       on_ok (minus_delta now (seconds (3600 * h))) (\<lambda>cutoff.
         case latest_completed db of
           None \<Rightarrow> Inr (mk_result m now CFail 1 0 1
             [system_violation ''No successful data sync has ever completed'' ''Trigger a full data sync from the Sync page'']
             ''No completed sync runs found - data inventory not populated'')
         | Some r \<Rightarrow> on_ok (ensure_utc (sr_completed_at r)) (\<lambda>t.
             if cutoff \<le> instant_of t then Inr (mk_result m now CPass 1 1 0 []
               (''Last sync completed at '' @ isoformat t @ '' (within '' @ int_str h @ ''h window). '' @
                nstr (length (in_scope q db)) @ '' agents in inventory.''))
             else let age = fixed1 (hours_of (now - instant_of t))
               in Inr (mk_result m now CFail 1 0 1
                 [system_violation (''Data is '' @ age @ ''h old (threshold: '' @ int_str h @ ''h)'')
                   ''Trigger a data sync to refresh the inventory'']
                 (''Last sync completed '' @ age @ ''h ago at '' @ isoformat t @ '' - exceeds '' @ int_str h @ ''h threshold'')))))"

section \<open>unclassified_threshold.py and classification_coverage.py\<close>

definition classified_apps :: "comp_db \<Rightarrow> string list" where
  "classified_apps db = map su_name (filter (\<lambda>s. su_category s \<notin> {None, Some []}) (cd_summaries db))"

definition unclassified_count :: "string list \<Rightarrow> endpoint \<Rightarrow> nat" where
  "unclassified_count known a = length (filter (\<lambda>app. app \<notin> set known) (installed_apps a))"

definition unclassified_pct :: "string list \<Rightarrow> endpoint \<Rightarrow> double" where
  "unclassified_pct known a = percent (int (unclassified_count known a)) (int (length (installed_apps a)))"

definition too_unclassified :: "double \<Rightarrow> string list \<Rightarrow> endpoint \<Rightarrow> bool" where
  "too_unclassified limit known a = (installed_apps a \<noteq> [] \<and> \<not> dle (unclassified_pct known a) limit)"

definition unclassified_violation :: "string \<Rightarrow> string list \<Rightarrow> endpoint \<Rightarrow> string \<Rightarrow> compliance_violation" where
  "unclassified_violation limit known a i = violation i (host_of a)
     (nstr (unclassified_count known a) @ ''/'' @ nstr (length (installed_apps a)) @ '' apps unclassified ('' @
      fixed1 (unclassified_pct known a) @ ''%, threshold '' @ limit @ ''%)'') None None
     ''Review and classify unrecognised applications on this endpoint''"

definition unclassified_threshold_check :: executor where
  "unclassified_threshold_check db now m ps q =
     (let as = in_scope q db; n = length as; known = classified_apps db
      in if n = 0 then Inr (not_applicable_result m now no_agents)
         else on_ok (get_number ''max_unclassified_percent'' (PInt 10) ps) (\<lambda>(limit, shown).
           on_ok (scan_bad (too_unclassified limit known) (unclassified_violation shown known) as)
             (\<lambda>vs. let bad = named_agents vs
               in Inr (mk_result m now (verdict_of bad) (int n) (int n - int bad) (int bad) (cut_at MAX_VIOLATIONS vs)
                 (int_str (int n - int bad) @ ''/'' @ nstr n @ '' endpoints below '' @ shown @ ''% unclassified app threshold. '' @
                  nstr bad @ '' endpoint(s) exceed threshold.'')))))"

definition source_ids :: "endpoint list \<Rightarrow> check_exn + string list" where
  "source_ids as = (case collect (\<lambda>a. case source_id a of Inl err \<Rightarrow> Inl err | Inr i \<Rightarrow> Inr [i]) as of
     Inl err \<Rightarrow> Inl (Raised err) | Inr ids \<Rightarrow> Inr ids)"

definition classification_coverage_check :: executor where
  "classification_coverage_check db now m ps q =
     (let as = in_scope q db; n = int (length as)
      in if n = 0 then Inr (not_applicable_result m now no_agents)
         else on_ok (source_ids as) (\<lambda>ids.
           on_ok (get_number ''min_classified_percent'' (PInt 90) ps) (\<lambda>(limit, shown).
             let k = int (length (filter (\<lambda>i. i \<in> set ids) (cd_classified db))); pct = percent k n;
                 st = (if dle limit pct then CPass else if dle (dmul limit (nearest 8 10)) pct then CWarning else CFail);
                 vs = (if 0 < n - k then [violation ''aggregate'' ''fleet-wide'' (int_str (n - k) @ '' agent(s) lack classification results ('' @
                     fixed1 pct @ ''% coverage, minimum '' @ shown @ ''%)'') None None
                     ''Run a classification sweep to classify unprocessed agents''] else [])
             in Inr (mk_result m now st n k (n - k) vs (int_str k @ ''/'' @ int_str n @ '' agents classified ('' @ fixed1 pct @
               ''% coverage, threshold '' @ shown @ ''%)'')))))"

section \<open>app_version.py\<close>

definition version_text :: "string option \<Rightarrow> string" where
  "version_text v = (case v of Some s \<Rightarrow> s | None \<Rightarrow> ''None'')"

text \<open>The host names found for the agents named; an agent that is not found keeps the empty name.\<close>

definition host_name :: "comp_db \<Rightarrow> string \<Rightarrow> string" where
  "host_name db i = (case find (\<lambda>a. ag_source_id a = Some i) (rev (cd_agents db)) of Some a \<Rightarrow> host_of a | None \<Rightarrow> [])"

definition version_groups :: "installed_app list \<Rightarrow> (string \<times> string option) list" where
  "version_groups apps = (let ks = map (\<lambda>x. (ia_name x, ia_version x)) apps
     in sort_key (\<lambda>k. (fst k, - int (occurrences ks k))) (group_keys ks))"

definition app_outdated :: "comp_db \<Rightarrow> installed_app list \<Rightarrow> string \<Rightarrow> compliance_violation list" where
  "app_outdated db apps app =
     (case map snd (filter (\<lambda>k. fst k = app) (version_groups apps)) of
        [] \<Rightarrow> []
      | std # others \<Rightarrow> concat (map (\<lambda>v. map (\<lambda>x. violation (ia_agent_id x) (host_name db (ia_agent_id x))
            (sq app @ '' version '' @ version_text v @ '' installed, fleet standard is '' @ version_text std) (Some app) v
            (''Update '' @ sq app @ '' to version '' @ version_text std))
          (filter (\<lambda>x. ia_name x = app \<and> ia_version x = v) apps)) others))"

definition app_version_check :: executor where
  "app_version_check db now m ps q =
     (let as = in_scope q db; n = length as
      in if n = 0 then Inr (not_applicable_result m now no_agents)
         else on_ok (source_ids as) (\<lambda>ids.
           on_ok (get_number ''max_outdated_percent'' (PInt 20) ps) (\<lambda>(limit, _).
             let apps = filter (\<lambda>x. ia_agent_id x \<in> set ids) (cd_apps db);
                 vs = concat (map (app_outdated db apps) (group_keys (map fst (version_groups apps))));
                 bad = named_agents vs; pct = percent (int bad) (int n);
                 st = (if bad = 0 then CPass else if dle pct limit then CWarning else CFail)
             in Inr (mk_result m now st (int n) (int n - int bad) (int bad) (cut_at MAX_VIOLATIONS vs)
               (int_str (int n - int bad) @ ''/'' @ nstr n @ '' endpoints running current app versions. '' @ nstr bad @
                '' endpoint(s) with outdated software ('' @ fixed1 pct @ ''%).'')))))"

section \<open>delta_detection.py\<close>

definition delta_violations :: "comp_db \<Rightarrow> installed_app list \<Rightarrow> string \<Rightarrow> compliance_violation list" where
  "delta_violations db apps i = map (\<lambda>x. violation i (host_name db i)
       (''New application detected: '' @ sq (ia_name x) @ '' v'' @ version_text (ia_version x)) (Some (ia_name x)) (ia_version x)
       (''Review and classify '' @ sq (ia_name x) @ '' on '' @ host_name db i))
     (take 10 (filter (\<lambda>x. ia_agent_id x = i) apps))"

definition delta_detection_check :: executor where
  "delta_detection_check db now m ps q =
     on_ok (get_int ''lookback_hours'' 24 ps) (\<lambda>h.
       on_ok (minus_delta now (seconds (3600 * h))) (\<lambda>cutoff.
         let as = in_scope q db; n = length as
         in if n = 0 then Inr (not_applicable_result m now no_agents)
            else on_ok (if q = QAll then Inr [] else source_ids as) (\<lambda>ids.
              let apps = filter (\<lambda>x. date_from cutoff (ia_last_synced_at x) \<and> (ids \<noteq> [] \<longrightarrow> ia_agent_id x \<in> set ids)) (cd_apps db);
                  ks = map ia_agent_id apps;
                  std = take 100 (sort_key (\<lambda>k. - int (occurrences ks k)) (group_keys ks)); bad = length std
              in Inr (mk_result m now (if apps = [] then CPass else CWarning) (int n) (int n - int bad) (int bad)
                (cut_at MAX_VIOLATIONS (concat (map (delta_violations db apps) std)))
                (nstr (length apps) @ '' new application(s) detected across '' @ nstr bad @ '' endpoint(s) in the last '' @ int_str h @
                 ''h. '' @ int_str (int n - int bad) @ ''/'' @ nstr n @ '' endpoints unchanged.'')))))"

section \<open>eol_software.py\<close>

text \<open>The applications that are mapped to a known product with enough confidence: product and display name.\<close>

definition mapped_apps :: "double \<Rightarrow> string list \<Rightarrow> (string \<times> eol_cycle list) list \<Rightarrow> app_summary list \<Rightarrow> (string \<times> string \<times> string) list" where
  "mapped_apps min_confidence excluded cycles ss =
     foldl (\<lambda>m s. case su_eol_match s of
         Some e \<Rightarrow> if dle min_confidence (em_confidence e) \<and> em_source e \<in> {Cpe, Manual} \<and> em_product_id e \<notin> set excluded \<and>
             em_product_id e \<in> set (map fst cycles)
           then AList.update (su_name s) (em_product_id e, display_of s) m else m
       | None \<Rightarrow> m) [] ss"

definition date_text :: "date option \<Rightarrow> string" where
  "date_text d = (case d of Some x \<Rightarrow> date_iso x | None \<Rightarrow> ''unknown'')"

datatype eol_kind = Ended | SecurityOnly

text \<open>The finding on one installation (agent, application, version).\<close>

definition eol_finding ::
  "bool \<Rightarrow> comp_db \<Rightarrow> (string \<times> eol_cycle list) list \<Rightarrow> (string \<times> string \<times> string) list \<Rightarrow> installed_app
     \<Rightarrow> (eol_kind \<times> string \<times> compliance_violation) option" where
  "eol_finding flag_security_only db cycles mapped x =
     (case map_of mapped (ia_name x) of
        None \<Rightarrow> None
      | Some (pid, display) \<Rightarrow>
        (let version = (case ia_version x of Some v \<Rightarrow> if v = [] then ''unknown'' else v | None \<Rightarrow> ''unknown'')
         in case extract_cycle_match version (case map_of cycles pid of Some cs \<Rightarrow> cs | None \<Rightarrow> []) of
              None \<Rightarrow> None
            | Some c \<Rightarrow>
                if \<not> cy_is_eol c \<and> \<not> (flag_security_only \<and> cy_is_security_only c) then None
                else if cy_is_eol c then Some (Ended, ia_name x, violation (ia_agent_id x) (host_name db (ia_agent_id x))
                  (sq display @ '' version '' @ version @ '' is End-of-Life since '' @ date_text (cy_eol_date c) @
                   ''. No security patches are available.'') (Some display) (Some version)
                  (''Upgrade '' @ display @ '' to a supported version. Current version '' @ version @ '' reached End-of-Life on '' @
                   date_text (cy_eol_date c) @ ''. See https://endoflife.date/'' @ pid @ '' for supported versions.''))
                else Some (SecurityOnly, ia_name x, violation (ia_agent_id x) (host_name db (ia_agent_id x))
                  (sq display @ '' version '' @ version @ '' is in security-only support since '' @ date_text (cy_support_end c) @
                   ''. Active support has ended.'') (Some display) (Some version)
                  (''Consider upgrading '' @ display @ '' to a fully supported version. Active support ended on '' @
                   date_text (cy_support_end c) @ ''. See https://endoflife.date/'' @ pid @ '' for current versions.''))))"

text \<open>The first installation of each pair of agent and application.\<close>

fun first_per :: "('a \<Rightarrow> 'k) \<Rightarrow> 'k list \<Rightarrow> 'a list \<Rightarrow> 'a list" where
  "first_per k seen [] = []"
| "first_per k seen (x # xs) = (if k x \<in> set seen then first_per k seen xs else x # first_per k (k x # seen) xs)"

definition apps_of_kind :: "eol_kind \<Rightarrow> (eol_kind \<times> string \<times> compliance_violation) list \<Rightarrow> nat" where
  "apps_of_kind kind fs = length (remdups (map (\<lambda>f. fst (snd f)) (filter (\<lambda>f. fst f = kind) fs)))"

definition eol_verdict ::
  "comp_db \<Rightarrow> instant \<Rightarrow> control_meta \<Rightarrow> nat \<Rightarrow> bool \<Rightarrow> (string \<times> eol_cycle list) list \<Rightarrow> (string \<times> string \<times> string) list \<Rightarrow> string list \<Rightarrow> check_result" where
  "eol_verdict db now m n flag cycles mapped ids =
     (let picked = first_per (\<lambda>x. (ia_agent_id x, ia_name x)) []
            (filter (\<lambda>x. ia_agent_id x \<in> set ids \<and> ia_name x \<in> set (map fst mapped)) (cd_apps db));
          fs = List.map_filter (eol_finding flag db cycles mapped) picked;
          vs = map (\<lambda>f. snd (snd f)) fs; bad = named_agents vs; sec = apps_of_kind SecurityOnly fs
      in mk_result m now (verdict_of bad) (int n) (int n - int bad) (int bad) (cut_at MAX_VIOLATIONS vs)
           (nstr bad @ ''/'' @ nstr n @ '' endpoints have End-of-Life software. '' @ nstr (apps_of_kind Ended fs) @
            '' EOL application(s) detected.'' @
            (if flag \<and> 0 < sec then '' '' @ nstr sec @ '' application(s) in security-only support.'' else [])))"

definition eol_software_check :: executor where
  "eol_software_check db now m ps q =
     (let flag = py_truthy (get_param ''flag_security_only'' (PBool True) ps); as = in_scope q db; n = length as
      in if n = 0 then Inr (not_applicable_result m now no_agents)
         else on_ok (get_number ''min_match_confidence'' (PFloat ''0.8'') ps) (\<lambda>(min_confidence, _).
           on_ok (strings_param ''exclude_products'' ps) (\<lambda>excluded.
             on_ok (source_ids as) (\<lambda>ids.
               let cycles = get_all_products_with_cycles (cd_today db) (cd_eol_products db);
                   mapped = mapped_apps min_confidence excluded cycles (cd_summaries db)
               in if mapped = [] then Inr (mk_result m now CPass (int n) (int n) 0 []
                    (''No End-of-Life software detected across '' @ nstr n @ '' endpoints.''))
                  else Inr (eol_verdict db now m n flag cycles mapped ids)))))"

section \<open>registry.py\<close>

definition get_executor :: "string \<Rightarrow> executor option" where
  "get_executor t = map_of
     [(check_type_value ProhibitedApp, prohibited_app_check), (check_type_value RequiredApp, required_app_check),
      (check_type_value AgentVersion, agent_version_check), (check_type_value AgentOnline, agent_online_check),
      (check_type_value AppVersion, app_version_check), (check_type_value SyncFreshness, sync_freshness_check),
      (check_type_value ClassificationCoverage, classification_coverage_check),
      (check_type_value UnclassifiedThreshold, unclassified_threshold_check),
      (check_type_value DeltaDetection, delta_detection_check), (check_type_value CustomAppPresence, custom_app_presence_check),
      (check_type_value EolSoftware, eol_software_check)] t"

definition is_valid_check_type :: "string \<Rightarrow> bool" where
  "is_valid_check_type t = (get_executor t \<noteq> None)"

end
