(* ===== verification/ComplianceEngine.thy ===== *)
theory ComplianceEngine
  imports ComplianceChecks EnforcementService
begin

text \<open>
  \<open>domains/compliance\<close>: the registry of controls (its contents are an argument, theory \<open>Frameworks\<close> has the ones
  that are shipped), the tenant's configuration, the engine that resolves the active controls and runs each distinct
  check once, and the commands. Checks of a run read the same data and the same clock. The audit entries of the commands
  and the durations are left out; webhooks are the list of events dispatched, the events of a Python set in the order of
  first occurrence.
\<close>

section \<open>Controls and configuration\<close>

record control_definition =
  d_id :: string
  d_framework_id :: string
  d_name :: string
  d_description :: string
  d_category :: string
  d_severity :: severity
  d_check_type :: string
  d_parameters :: params
  d_scope_tags :: "string list"
  d_scope_groups :: "string list"
  d_remediation :: string

record custom_control = control_definition +
  d_created_at :: instant
  d_created_by :: string

type_synonym registry = "(string \<times> control_definition list) list"

definition get_all_framework_ids :: "registry \<Rightarrow> string list" where
  "get_all_framework_ids reg = map fst reg"

definition get_framework_controls :: "registry \<Rightarrow> string \<Rightarrow> control_definition list" where
  "get_framework_controls reg fw = (case map_of reg fw of Some cs \<Rightarrow> cs | None \<Rightarrow> [])"

definition get_control :: "registry \<Rightarrow> string \<Rightarrow> control_definition option" where
  "get_control reg cid = find (\<lambda>d. d_id d = cid) (rev (concat (map snd reg)))"

definition is_valid_framework :: "registry \<Rightarrow> string \<Rightarrow> bool" where
  "is_valid_framework reg fw = (fw \<in> set (map fst reg))"

record framework_config =
  f_id :: string
  f_enabled :: bool
  f_updated_at :: instant
  f_updated_by :: string

text \<open>A configuration as it is read: an absent override is \<open>None\<close>, absent parameters are the empty dict.\<close>

record control_config =
  g_control_id :: string
  g_framework_id :: string
  g_enabled :: bool
  g_disable_reason :: "string option"
  g_severity :: "severity option"
  g_parameters :: params
  g_scope_tags :: "string list option"
  g_scope_groups :: "string list option"
  g_updated_at :: instant
  g_updated_by :: string

record schedule =
  h_run_after_sync :: bool
  h_cron :: "string option"
  h_enabled :: bool
  h_updated :: "(instant \<times> string) option"

datatype compliance_event =
    CheckDone string nat nat nat nat nat nat \<comment> \<open>run, evaluated, passed, failed, warning, new, resolved\<close>
  | ViolationNew string string string string nat string \<comment> \<open>framework, control, name, severity, agents, summary\<close>
  | ViolationResolved string nat
  | ScoreDegraded string int int

record compliance_state =
  cs_frameworks :: "framework_config list"
  cs_configs :: "control_config list"
  cs_customs :: "custom_control list"
  cs_results :: "(string \<times> check_result) list"
  cs_schedule :: "schedule option"
  cs_webhooks :: "compliance_event list"
  cs_data :: comp_db

section \<open>repository.py\<close>

definition set_framework_enabled :: "instant \<Rightarrow> string \<Rightarrow> bool \<Rightarrow> string \<Rightarrow> compliance_state \<Rightarrow> compliance_state" where
  "set_framework_enabled now fw enabled actor st =
     (let doc = \<lparr>f_id = fw, f_enabled = enabled, f_updated_at = now, f_updated_by = actor\<rparr>
      in st\<lparr>cs_frameworks := (if list_ex (\<lambda>f. f_id f = fw) (cs_frameworks st)
            then update_first (\<lambda>f. f_id f = fw) (\<lambda>_. doc) (cs_frameworks st) else cs_frameworks st @ [doc])\<rparr>)"

definition get_all_framework_configs :: "compliance_state \<Rightarrow> (string \<times> bool) list" where
  "get_all_framework_configs st = foldl (\<lambda>m f. AList.update (f_id f) (f_enabled f) m) [] (cs_frameworks st)"

text \<open>\<open>if framework_id\<close>: the empty text counts as none.\<close>

definition chosen :: "string option \<Rightarrow> string option" where
  "chosen fw = (if fw = Some [] then None else fw)"

definition get_all_control_configs :: "string option \<Rightarrow> compliance_state \<Rightarrow> control_config list" where
  "get_all_control_configs fw st = (case chosen fw of None \<Rightarrow> cs_configs st | Some f \<Rightarrow> filter (\<lambda>g. g_framework_id g = f) (cs_configs st))"

definition upsert_control_config :: "control_config \<Rightarrow> compliance_state \<Rightarrow> compliance_state" where
  "upsert_control_config g st =
     (let hit = (\<lambda>x. g_control_id x = g_control_id g \<and> g_framework_id x = g_framework_id g)
      in st\<lparr>cs_configs := (if list_ex hit (cs_configs st) then update_first hit (\<lambda>_. g) (cs_configs st) else cs_configs st @ [g])\<rparr>)"

definition get_custom_control :: "string \<Rightarrow> compliance_state \<Rightarrow> custom_control option" where
  "get_custom_control cid st = find (\<lambda>c. d_id c = cid) (cs_customs st)"

definition list_custom_controls :: "string \<Rightarrow> compliance_state \<Rightarrow> custom_control list" where
  "list_custom_controls fw st = (if fw = [] then cs_customs st else filter (\<lambda>c. d_framework_id c = fw) (cs_customs st))"

definition insert_custom_control :: "custom_control \<Rightarrow> compliance_state \<Rightarrow> compliance_state" where
  "insert_custom_control c st = st\<lparr>cs_customs := cs_customs st @ [c]\<rparr>"

definition store_check_results :: "string \<Rightarrow> check_result list \<Rightarrow> compliance_state \<Rightarrow> compliance_state" where
  "store_check_results run_id rs st = (if rs = [] then st else st\<lparr>cs_results := cs_results st @ map (\<lambda>r. (run_id, r)) rs\<rparr>)"

text \<open>\<open>$group\<close> with \<open>$first\<close>: the first document of each control.\<close>

fun first_per_control :: "check_result list \<Rightarrow> check_result list" where
  "first_per_control [] = []"
| "first_per_control (r # rs) = r # filter (\<lambda>x. c_control_id x \<noteq> c_control_id r) (first_per_control rs)"

definition newest_per_control :: "string option \<Rightarrow> compliance_state \<Rightarrow> check_result list" where
  "newest_per_control fw st = first_per_control (sort_key (\<lambda>r. - c_checked_at r)
     (case chosen fw of None \<Rightarrow> map snd (cs_results st) | Some f \<Rightarrow> filter (\<lambda>r. c_framework_id r = f) (map snd (cs_results st))))"

definition latest_results :: "string option \<Rightarrow> compliance_state \<Rightarrow> check_result list" where
  "latest_results fw st = sort_key (\<lambda>r. (c_framework_id r, c_category r, c_control_id r)) (newest_per_control fw st)"

definition get_control_history :: "string \<Rightarrow> nat \<Rightarrow> compliance_state \<Rightarrow> check_result list" where
  "get_control_history cid limit st =
     take limit (sort_key (\<lambda>r. - c_checked_at r) (filter (\<lambda>r. c_control_id r = cid) (map snd (cs_results st))))"

definition get_current_control_violations ::
  "string option \<Rightarrow> severity option \<Rightarrow> nat \<Rightarrow> nat \<Rightarrow> compliance_state \<Rightarrow> (check_result \<times> compliance_violation) list \<times> nat" where
  "get_current_control_violations fw sev page page_size st =
     (let rows = concat (map (\<lambda>r. map (Pair r) (c_violations r))
            (filter (\<lambda>r. c_status r \<in> {CFail, CWarning} \<and> (case sev of None \<Rightarrow> True | Some s \<Rightarrow> c_severity r = s)) (newest_per_control fw st)))
      in (take page_size (drop ((page - 1) * page_size)
            (sort_key (\<lambda>(r, _). (severity_value (c_severity r), - c_checked_at r)) rows)), length rows))"

definition get_schedule :: "compliance_state \<Rightarrow> schedule" where
  "get_schedule st = (case cs_schedule st of Some h \<Rightarrow> h | None \<Rightarrow> \<lparr>h_run_after_sync = True, h_cron = None, h_enabled = True, h_updated = None\<rparr>)"

section \<open>engine.py: the active controls\<close>

record resolved_control =
  rc_meta :: control_meta
  rc_check_type :: string
  rc_parameters :: params
  rc_scope_tags :: "string list"
  rc_scope_groups :: "string list"

definition config_key :: "string \<Rightarrow> string \<Rightarrow> string" where
  "config_key fw cid = fw @ '':'' @ cid"

definition config_for :: "control_config list \<Rightarrow> string \<Rightarrow> string \<Rightarrow> control_config option" where
  "config_for gs fw cid = find (\<lambda>g. config_key (g_framework_id g) (g_control_id g) = config_key fw cid) (rev gs)"

definition merge_params :: "params \<Rightarrow> params \<Rightarrow> params" where
  "merge_params base over = foldl (\<lambda>m (k, v). AList.update k v m) base over"

definition resolve_control :: "control_config list \<Rightarrow> string \<Rightarrow> 'z control_definition_scheme \<Rightarrow> resolved_control option" where
  "resolve_control gs fw d =
     (case config_for gs fw (d_id d) of
        None \<Rightarrow> Some \<lparr>rc_meta = \<lparr>m_control_id = d_id d, m_framework_id = fw, m_name = d_name d, m_category = d_category d,
            m_severity = d_severity d\<rparr>, rc_check_type = d_check_type d, rc_parameters = d_parameters d,
          rc_scope_tags = d_scope_tags d, rc_scope_groups = d_scope_groups d\<rparr>
      | Some g \<Rightarrow>
          if \<not> g_enabled g then None
          else Some \<lparr>rc_meta = \<lparr>m_control_id = d_id d, m_framework_id = fw, m_name = d_name d, m_category = d_category d,
              m_severity = (case g_severity g of Some s \<Rightarrow> s | None \<Rightarrow> d_severity d)\<rparr>,
            rc_check_type = d_check_type d, rc_parameters = merge_params (d_parameters d) (g_parameters g),
            rc_scope_tags = (case g_scope_tags g of Some ts \<Rightarrow> ts | None \<Rightarrow> d_scope_tags d),
            rc_scope_groups = (case g_scope_groups g of Some gs \<Rightarrow> gs | None \<Rightarrow> d_scope_groups d)\<rparr>)"

definition resolve_framework :: "registry \<Rightarrow> control_config list \<Rightarrow> compliance_state \<Rightarrow> string \<Rightarrow> resolved_control list" where
  "resolve_framework reg gs st fw =
     (if map_of (get_all_framework_configs st) fw = Some True
      then List.map_filter (resolve_control gs fw) (get_framework_controls reg fw) @
           List.map_filter (resolve_control gs fw) (list_custom_controls fw st)
      else [])"

definition resolve_active_controls :: "registry \<Rightarrow> string option \<Rightarrow> compliance_state \<Rightarrow> resolved_control list" where
  "resolve_active_controls reg fw st =
     concat (map (resolve_framework reg (get_all_control_configs fw st) st)
       (case chosen fw of Some f \<Rightarrow> [f] | None \<Rightarrow> get_all_framework_ids reg))"

section \<open>engine.py: the run\<close>

fun scope_doc :: "scope_query \<Rightarrow> pyval" where
  "scope_doc QAll = PDict []"
| "scope_doc (QTagsIn ts) = PDict [(''tags'', PDict [(''$in'', PList (map PStr ts))])]"
| "scope_doc (QGroupIn gs) = PDict [(''group_name'', PDict [(''$in'', PList (map PStr gs))])]"
| "scope_doc (QAnd qs) = PDict [(''$and'', PList (map scope_doc qs))]"

definition cache_text :: "string \<Rightarrow> params \<Rightarrow> scope_query \<Rightarrow> string" where
  "cache_text t ps q = dumps (PDict [(''t'', PStr t), (''p'', PDict ps), (''s'', scope_doc q)])"

definition cache_key :: "string \<Rightarrow> params \<Rightarrow> scope_query \<Rightarrow> string" where
  "cache_key t ps q = take 16 (sha256_hex (cache_text t ps q))"

definition scope_of :: "resolved_control \<Rightarrow> scope_query" where
  "scope_of c = build_agent_scope_filter (rc_scope_tags c) (rc_scope_groups c)"

definition key_of :: "resolved_control \<Rightarrow> string" where
  "key_of c = cache_key (rc_check_type c) (rc_parameters c) (scope_of c)"

definition remap_result :: "check_result \<Rightarrow> control_meta \<Rightarrow> check_result" where
  "remap_result r m = r\<lparr>c_control_id := m_control_id m, c_framework_id := m_framework_id m, c_severity := m_severity m,
     c_category := m_category m, c_control_name := m_name m\<rparr>"

definition exn_text :: "check_exn \<Rightarrow> string" where
  "exn_text err = (case err of Raised (KeyError k) \<Rightarrow> sq k | AttributeError s \<Rightarrow> s | OverflowError s \<Rightarrow> s | BadParameter k \<Rightarrow> k)"

definition error_result :: "control_meta \<Rightarrow> instant \<Rightarrow> check_exn \<Rightarrow> check_result" where
  "error_result m now err = mk_result m now CError 0 0 0 [] (''Check execution error: '' @ exn_text err)"

definition known_controls :: "resolved_control list \<Rightarrow> resolved_control list" where
  "known_controls cs = filter (\<lambda>c. get_executor (rc_check_type c) \<noteq> None) cs"

text \<open>The groups of controls with the same key, in the order of their first members.\<close>

fun group_by_key :: "('a \<Rightarrow> 'k) \<Rightarrow> 'a list \<Rightarrow> ('k \<times> 'a list) list \<Rightarrow> ('k \<times> 'a list) list" where
  "group_by_key f [] m = m"
| "group_by_key f (x # xs) m =
     group_by_key f xs (case map_of m (f x) of Some ys \<Rightarrow> AList.update (f x) (ys @ [x]) m | None \<Rightarrow> m @ [(f x, [x])])"

definition run_primary :: "comp_db \<Rightarrow> instant \<Rightarrow> resolved_control \<Rightarrow> check_result" where
  "run_primary db now c =
     (case get_executor (rc_check_type c) of
        None \<Rightarrow> error_result (rc_meta c) now (AttributeError [])
      | Some ex \<Rightarrow> (case ex db now (rc_meta c) (rc_parameters c) (scope_of c) of
          Inl err \<Rightarrow> error_result (rc_meta c) now err | Inr r \<Rightarrow> r))"

definition run_group :: "comp_db \<Rightarrow> instant \<Rightarrow> resolved_control list \<Rightarrow> check_result list" where
  "run_group db now cs = (case cs of [] \<Rightarrow> []
     | c # dups \<Rightarrow> run_primary db now c # map (\<lambda>d. remap_result (run_primary db now c) (rc_meta d)) dups)"

definition run_controls :: "comp_db \<Rightarrow> instant \<Rightarrow> resolved_control list \<Rightarrow> check_result list" where
  "run_controls db now cs = concat (map (\<lambda>(k, g). run_group db now g) (group_by_key key_of (known_controls cs) []))"

definition run_compliance_checks :: "registry \<Rightarrow> instant \<Rightarrow> string \<Rightarrow> string option \<Rightarrow> compliance_state \<Rightarrow> check_result list \<times> compliance_state" where
  "run_compliance_checks reg now run_id fw st =
     (let cs = resolve_active_controls reg fw st
      in if cs = [] then ([], st)
         else let rs = run_controls (cs_data st) now cs in (rs, store_check_results run_id rs st))"

section \<open>commands.py\<close>

datatype compliance_error = FrameworkNotFound string | ControlNotFound string | InvalidCheckType string
  | CustomControlExists string | InvalidSeverity string | InvalidCron string

definition enable_framework :: "registry \<Rightarrow> instant \<Rightarrow> string \<Rightarrow> string \<Rightarrow> compliance_state \<Rightarrow> compliance_error + compliance_state" where
  "enable_framework reg now fw actor st =
     (if \<not> is_valid_framework reg fw then Inl (FrameworkNotFound fw) else Inr (set_framework_enabled now fw True actor st))"

definition disable_framework :: "registry \<Rightarrow> instant \<Rightarrow> string \<Rightarrow> string \<Rightarrow> compliance_state \<Rightarrow> compliance_error + compliance_state" where
  "disable_framework reg now fw actor st =
     (if \<not> is_valid_framework reg fw then Inl (FrameworkNotFound fw) else Inr (set_framework_enabled now fw False actor st))"

record config_request =
  w_enabled :: "bool option"
  w_disable_reason :: "string option"
  w_severity :: "string option"
  w_parameters :: "params option"
  w_scope_tags :: "string list option"
  w_scope_groups :: "string list option"

definition configure_control ::
  "registry \<Rightarrow> instant \<Rightarrow> string \<Rightarrow> string \<Rightarrow> config_request \<Rightarrow> compliance_state \<Rightarrow> compliance_error + control_config \<times> compliance_state" where
  "configure_control reg now actor cid w st =
     (case (case get_control reg cid of Some d \<Rightarrow> Some (d_framework_id d)
            | None \<Rightarrow> map_option d_framework_id (get_custom_control cid st)) of
        None \<Rightarrow> Inl (ControlNotFound cid)
      | Some fw \<Rightarrow>
        (case (case w_severity w of None \<Rightarrow> Inr None
               | Some s \<Rightarrow> (case parse_severity s of Some v \<Rightarrow> Inr (Some v) | None \<Rightarrow> Inl (InvalidSeverity s))) of
           Inl err \<Rightarrow> Inl err
         | Inr sev \<Rightarrow>
             (let g = \<lparr>g_control_id = cid, g_framework_id = fw, g_enabled = (case w_enabled w of Some b \<Rightarrow> b | None \<Rightarrow> True),
                    g_disable_reason = w_disable_reason w, g_severity = sev,
                    g_parameters = (case w_parameters w of Some ps \<Rightarrow> ps | None \<Rightarrow> []), g_scope_tags = w_scope_tags w,
                    g_scope_groups = w_scope_groups w, g_updated_at = now, g_updated_by = actor\<rparr>
              in Inr (g, upsert_control_config g st))))"

definition create_custom_control ::
  "registry \<Rightarrow> instant \<Rightarrow> string \<Rightarrow> string \<Rightarrow> control_definition \<Rightarrow> compliance_state \<Rightarrow> compliance_error + custom_control \<times> compliance_state" where
  "create_custom_control reg now actor severity_text d st =
     (if \<not> is_valid_framework reg (d_framework_id d) then Inl (FrameworkNotFound (d_framework_id d))
      else if \<not> is_valid_check_type (d_check_type d) then Inl (InvalidCheckType (d_check_type d))
      else if get_control reg (d_id d) \<noteq> None \<or> get_custom_control (d_id d) st \<noteq> None then Inl (CustomControlExists (d_id d))
      else case parse_severity severity_text of
          None \<Rightarrow> Inl (InvalidSeverity severity_text)
        | Some s \<Rightarrow> (let c = control_definition.extend (d\<lparr>d_severity := s\<rparr>) (custom_control.fields now actor)
             in Inr (c, insert_custom_control c st)))"

definition failing_keys :: "check_result list \<Rightarrow> string list" where
  "failing_keys rs = remdups (concat (map (\<lambda>r. map (\<lambda>v. violation_key (c_control_id r) (cv_agent_id v)) (c_violations r))
     (filter (\<lambda>r. c_status r = CFail) rs)))"

definition add_score :: "(string \<times> nat \<times> nat) list \<Rightarrow> check_result \<Rightarrow> (string \<times> nat \<times> nat) list" where
  "add_score m r = (let (p, t) = (case map_of m (c_framework_id r) of Some pt \<Rightarrow> pt | None \<Rightarrow> (0, 0))
     in AList.update (c_framework_id r) (if c_status r = CPass then Suc p else p, Suc t) m)"

definition scores :: "check_result list \<Rightarrow> (string \<times> nat \<times> nat) list" where
  "scores rs = foldl add_score [] rs"

text \<open>\<open>int(p / t * 100)\<close>\<close>

definition score_int :: "nat \<Rightarrow> nat \<Rightarrow> int" where
  "score_int p t = (let x = percent (int p) (int t) in if 0 \<le> expn x then mant x * 2 ^ nat (expn x) else mant x div 2 ^ nat (- expn x))"

definition SCORE_THRESHOLD :: int where
  "SCORE_THRESHOLD = 80"

definition new_event :: "check_result list \<Rightarrow> string list \<Rightarrow> string \<Rightarrow> compliance_event" where
  "new_event rs keys cid =
     (let n = length (filter (\<lambda>k. key_rule k = cid) keys)
      in case find (\<lambda>r. c_control_id r = cid) rs of
           Some r \<Rightarrow> ViolationNew (c_framework_id r) cid (c_control_name r) (severity_value (c_severity r)) n (c_evidence r)
         | None \<Rightarrow> ViolationNew [] cid cid ''medium'' n [])"

definition degraded_event :: "(string \<times> nat \<times> nat) list \<Rightarrow> string \<times> nat \<times> nat \<Rightarrow> compliance_event option" where
  "degraded_event prev_scores cur =
     (let (fw, p, t) = cur; cur_score = score_int p t;
          prev_score = (case map_of prev_scores fw of Some (pp, pt) \<Rightarrow> if pt = 0 then 100 else score_int pp pt | None \<Rightarrow> 100)
      in if t \<noteq> 0 \<and> cur_score < SCORE_THRESHOLD \<and> SCORE_THRESHOLD \<le> prev_score then Some (ScoreDegraded fw prev_score cur_score) else None)"

definition dispatch_compliance_webhooks ::
  "check_result list \<Rightarrow> string \<Rightarrow> string list \<Rightarrow> string list \<Rightarrow> (string \<times> nat \<times> nat) list \<Rightarrow> compliance_event list" where
  "dispatch_compliance_webhooks rs run_id new resolved prev_scores =
     (let n = (\<lambda>s. length (filter (\<lambda>r. c_status r = s) rs))
      in [CheckDone run_id (length rs) (n CPass) (n CFail) (n CWarning) (length new) (length resolved)] @
         map (new_event rs new) (remdups (map key_rule new)) @
         map (\<lambda>cid. ViolationResolved cid (length (filter (\<lambda>k. key_rule k = cid) resolved))) (remdups (map key_rule resolved)) @
         List.map_filter (degraded_event prev_scores) (scores rs))"

definition trigger_compliance_run ::
  "registry \<Rightarrow> instant \<Rightarrow> string \<Rightarrow> string option \<Rightarrow> compliance_state \<Rightarrow> check_result list \<times> compliance_state" where
  "trigger_compliance_run reg now run_id fw st =
     (let prev = latest_results fw st; prev_keys = failing_keys prev; (rs, st1) = run_compliance_checks reg now run_id fw st;
          new_keys = failing_keys rs; new = filter (\<lambda>k. k \<notin> set prev_keys) new_keys;
          resolved = filter (\<lambda>k. k \<notin> set new_keys) prev_keys
      in (rs, st1\<lparr>cs_webhooks := cs_webhooks st1 @ dispatch_compliance_webhooks rs run_id new resolved (scores prev)\<rparr>))"

text \<open>The pattern \<open>^(\*|[0-9,\-\/]+)(\s+(\*|[0-9,\-\/]+)){4}$\<close> on the stripped text: five fields between blanks (a \<open>$\<close> before a
  final newline cannot occur there).\<close>

definition cron_field :: "string \<Rightarrow> bool" where
  "cron_field f = (f = ''*'' \<or> (f \<noteq> [] \<and> list_all (\<lambda>c. is_digit c \<or> c \<in> set '',-/'') f))"

definition valid_cron :: "string \<Rightarrow> bool" where
  "valid_cron s = (length (split_ws s) = 5 \<and> list_all cron_field (split_ws s))"

definition update_schedule ::
  "instant \<Rightarrow> string \<Rightarrow> bool option \<Rightarrow> string option \<Rightarrow> bool option \<Rightarrow> compliance_state \<Rightarrow> compliance_error + schedule \<times> compliance_state" where
  "update_schedule now actor run_after cron enabled st =
     (if (case cron of Some s \<Rightarrow> \<not> valid_cron s | None \<Rightarrow> False) then Inl (InvalidCron (the cron))
      else let cur = get_schedule st;
               h = \<lparr>h_run_after_sync = (case run_after of Some b \<Rightarrow> b | None \<Rightarrow> h_run_after_sync cur),
                    h_cron = (case cron of Some s \<Rightarrow> Some s | None \<Rightarrow> h_cron cur),
                    h_enabled = (case enabled of Some b \<Rightarrow> b | None \<Rightarrow> h_enabled cur), h_updated = Some (now, actor)\<rparr>
           in Inr (h, st\<lparr>cs_schedule := Some h\<rparr>))"

end
