(* ===== verification/ComplianceRuns.thy ===== *)
theory ComplianceRuns
  imports ComplianceEngine "HOL-Library.Multiset"
begin

text \<open>
  Running equal checks once is as good as running every check: the checks read their parameters only through values that
  survive the serialisation in the cache key, and they use the identity of the control only to label the result. The
  argument is a locale of runs that may be copied, with the engine as its interpretation.
\<close>

section \<open>Runs that may be copied\<close>

lemma update_group:
  "map_of m k = Some ys \<Longrightarrow> distinct (map fst m) \<Longrightarrow>
     mset (concat (map snd (AList.update k (ys @ [x]) m))) = add_mset x (mset (concat (map snd m)))"
  by (induction m) auto

lemma group_by_key_inv:
  assumes "distinct (map fst m)" "\<And>k ys. (k, ys) \<in> set m \<Longrightarrow> ys \<noteq> [] \<and> (\<forall>y\<in>set ys. f y = k)"
  shows "mset (concat (map snd (group_by_key f xs m))) = mset (concat (map snd m)) + mset xs"
    and "(k, ys) \<in> set (group_by_key f xs m) \<Longrightarrow> ys \<noteq> [] \<and> (\<forall>y\<in>set ys. f y = k)"
proof -
  have "mset (concat (map snd (group_by_key f xs m))) = mset (concat (map snd m)) + mset xs \<and>
    (\<forall>k ys. (k, ys) \<in> set (group_by_key f xs m) \<longrightarrow> ys \<noteq> [] \<and> (\<forall>y\<in>set ys. f y = k))"
    using assms
  proof (induction xs arbitrary: m)
    case (Cons x xs)
    show ?case
    proof (cases "map_of m (f x)")
      case None
      then have d: "distinct (map fst (m @ [(f x, [x])]))" using Cons.prems(1) by (simp add: map_of_eq_None_iff)
      have inv: "zs \<noteq> [] \<and> (\<forall>y\<in>set zs. f y = k)" if "(k, zs) \<in> set (m @ [(f x, [x])])" for k zs
        using that Cons.prems(2) [of k zs] by auto
      from Cons.IH [OF d inv] None show ?thesis by simp
    next
      case (Some ys)
      let ?m = "AList.update (f x) (ys @ [x]) m"
      have d: "distinct (map fst ?m)" using Cons.prems(1) by (simp add: distinct_update)
      have inv: "zs \<noteq> [] \<and> (\<forall>y\<in>set zs. f y = k)" if "(k, zs) \<in> set ?m" for k zs
      proof -
        from that d have "map_of ?m k = Some zs" by simp
        then show ?thesis using Cons.prems(2) [of k zs] Cons.prems(2) [OF map_of_SomeD [OF Some]]
          by (auto simp: update_conv' split: if_splits dest: map_of_SomeD)
      qed
      from Cons.IH [OF d inv] Some update_group [OF Some Cons.prems(1), of x] show ?thesis by simp
    qed
  qed auto
  then show "mset (concat (map snd (group_by_key f xs m))) = mset (concat (map snd m)) + mset xs"
    and "(k, ys) \<in> set (group_by_key f xs m) \<Longrightarrow> ys \<noteq> [] \<and> (\<forall>y\<in>set ys. f y = k)" by blast+
qed

locale copied_runs =
  fixes key :: "'a \<Rightarrow> 'k"
    and run :: "'a \<Rightarrow> 'r"
    and copy :: "'r \<Rightarrow> 'a \<Rightarrow> 'r"
  assumes copies: "key x = key y \<Longrightarrow> copy (run x) y = run y"
begin

lemma group_run:
  assumes "ys \<noteq> []" "\<And>y. y \<in> set ys \<Longrightarrow> key y = key (hd ys)"
  shows "run (hd ys) # map (copy (run (hd ys))) (tl ys) = map run ys"
proof (cases ys)
  case (Cons y zs)
  have "copy (run y) z = run z" if "z \<in> set zs" for z using copies [of y z] assms(2) [of z] that Cons by simp
  then show ?thesis using Cons by simp
qed (use assms(1) in simp)

text \<open>Whatever the list is grouped by, as long as it separates what the key separates.\<close>

lemma groups_run:
  assumes "\<And>x y. x \<in> set xs \<Longrightarrow> y \<in> set xs \<Longrightarrow> f x = f y \<Longrightarrow> key x = key y"
  shows "mset (concat (map (\<lambda>g. run (hd (snd g)) # map (copy (run (hd (snd g)))) (tl (snd g))) (group_by_key f xs []))) =
    mset (map run xs)"
proof -
  let ?G = "group_by_key f xs []"
  have all: "mset (concat (map snd ?G)) = mset xs" using group_by_key_inv(1) [of "[]" f xs] by simp
  have "run (hd (snd g)) # map (copy (run (hd (snd g)))) (tl (snd g)) = map run (snd g)" if g: "g \<in> set ?G" for g
  proof (rule group_run)
    have inv: "snd g \<noteq> [] \<and> (\<forall>y\<in>set (snd g). f y = fst g)" using group_by_key_inv(2) [of "[]" f "fst g" "snd g" xs] g by simp
    have sub: "set (snd g) \<subseteq> set xs" using g arg_cong [OF all, of set_mset] by auto
    show "snd g \<noteq> []" using inv by simp
    show "key y = key (hd (snd g))" if "y \<in> set (snd g)" for y
      using assms [of y "hd (snd g)"] inv sub that by (metis hd_in_set subsetD)
  qed
  then have "concat (map (\<lambda>g. run (hd (snd g)) # map (copy (run (hd (snd g)))) (tl (snd g))) ?G) = map run (concat (map snd ?G))"
    by (simp add: map_concat comp_def cong: map_cong)
  then show ?thesis using all by (metis mset_map)
qed

end

section \<open>What a check reads of its parameters\<close>

fun obs :: "pyval \<Rightarrow> pyval" where
  "obs (PList vs) = (case strings_of vs of Some xs \<Rightarrow> PList vs | None \<Rightarrow> PList [PNone])"
| "obs (PDict kvs) = (if kvs = [] then PDict [] else PDict [([], PNone)])"
| "obs v = v"

lemma obs_truthy: "py_truthy (obs v) = py_truthy v"
proof (cases v)
  case (PList vs)
  have "strings_of vs = None \<Longrightarrow> vs \<noteq> []" by (auto simp: strings_of_def)
  then show ?thesis using PList by (simp add: py_truthy_def split: option.split)
qed (simp_all add: py_truthy_def)

lemma strings_of_other [simp]: "strings_of [PNone] = None"
  by (simp add: strings_of_def)

definition same_reads :: "params \<Rightarrow> params \<Rightarrow> bool" where
  "same_reads ps ps' = (\<forall>k d. obs (get_param k d ps) = obs (get_param k d ps'))"

lemma reads_truthy: "same_reads ps ps' \<Longrightarrow> py_truthy (get_param k d ps) = py_truthy (get_param k d ps')"
  by (metis obs_truthy same_reads_def)

lemma int_obs: "get_int k d ps =
    (case obs (get_param k (PInt d) ps) of PInt i \<Rightarrow> Inr i | PBool b \<Rightarrow> Inr (of_bool b) | _ \<Rightarrow> Inl (BadParameter k))"
  by (cases "get_param k (PInt d) ps") (simp_all add: get_int_def split: option.split)

lemma number_obs: "get_number k d ps =
    (case obs (get_param k d ps) of
        PInt i \<Rightarrow> Inr (dint i, int_str i)
      | PBool b \<Rightarrow> Inr (dint (of_bool b), if b then ''True'' else ''False'')
      | PFloat r \<Rightarrow> (case parse_decimal r of Some x \<Rightarrow> Inr (x, r) | None \<Rightarrow> Inl (BadParameter k))
      | _ \<Rightarrow> Inl (BadParameter k))"
  by (cases "get_param k d ps") (simp_all add: get_number_def split: option.split)

lemma strings_obs: "strings_param k ps =
    (if \<not> py_truthy (obs (get_param k (PList []) ps)) then Inr []
     else case obs (get_param k (PList []) ps) of
         PList vs \<Rightarrow> (case strings_of vs of Some xs \<Rightarrow> Inr xs | None \<Rightarrow> Inl (BadParameter k)) | _ \<Rightarrow> Inl (BadParameter k))"
  unfolding obs_truthy by (cases "get_param k (PList []) ps") (simp_all add: strings_param_def Let_def split: option.split)

lemma baseline_obs: "baseline_version ps as =
    (let v = obs (get_param ''min_version'' PNone ps)
     in if py_truthy v then (case v of PStr s \<Rightarrow> Inr (Some s) | _ \<Rightarrow> Inl (BadParameter ''min_version''))
        else Inr (case most_common (map ag_version as) of Some (Some s) \<Rightarrow> if s = [] then None else Some s | _ \<Rightarrow> None))"
  unfolding Let_def obs_truthy
  by (cases "get_param ''min_version'' PNone ps") (simp_all add: baseline_version_def Let_def split: option.split)

lemma reads_all:
  assumes "same_reads ps ps'"
  shows "get_int k i ps = get_int k i ps'" "get_number k d ps = get_number k d ps'" "strings_param k ps = strings_param k ps'"
    "baseline_version ps as = baseline_version ps' as" "py_truthy (get_param k d ps) = py_truthy (get_param k d ps')"
  using assms reads_truthy [OF assms] by (simp_all add: int_obs number_obs strings_obs baseline_obs same_reads_def)

section \<open>Checks label their results\<close>

abbreviation relabel :: "control_meta \<Rightarrow> check_exn + check_result \<Rightarrow> check_exn + check_result" where
  "relabel m \<equiv> map_sum id (\<lambda>r. remap_result r m)"

lemma relabel_steps:
  "remap_result (mk_result m now st n ok bad vs ev) m' = mk_result m' now st n ok bad vs ev"
  "remap_result (not_applicable_result m now ev) m' = not_applicable_result m' now ev"
  "remap_result (error_result m now err) m' = error_result m' now err"
  "relabel m' (on_ok r f) = on_ok r (\<lambda>x. relabel m' (f x))"
  by (simp_all add: remap_result_def mk_result_def not_applicable_result_def error_result_def on_ok_def split: sum.split)

lemma relabel_if: "relabel m (if b then x else y) = (if b then relabel m x else relabel m y)"
  by simp

definition copies_to :: "executor \<Rightarrow> bool" where
  "copies_to ex = (\<forall>db now m m' ps ps' q. same_reads ps ps' \<longrightarrow> relabel m' (ex db now m ps q) = ex db now m' ps' q)"

named_theorems check_defs \<open>the executors\<close>

declare prohibited_app_check_def [check_defs] required_app_check_def [check_defs]
  agent_version_check_def [check_defs] agent_online_check_def [check_defs] app_version_check_def [check_defs]
  sync_freshness_check_def [check_defs] classification_coverage_check_def [check_defs]
  unclassified_threshold_check_def [check_defs] delta_detection_check_def [check_defs] eol_software_check_def [check_defs] eol_verdict_def [check_defs]

lemma executor_copies:
  "copies_to prohibited_app_check" "copies_to required_app_check" "copies_to agent_version_check" "copies_to agent_online_check"
  "copies_to app_version_check" "copies_to sync_freshness_check" "copies_to classification_coverage_check"
  "copies_to unclassified_threshold_check" "copies_to delta_detection_check" "copies_to eol_software_check"
  unfolding copies_to_def check_defs
  by (auto simp: Let_def relabel_steps relabel_if split_def option.case_distrib [of "relabel _"] reads_all cong: option.case_cong if_cong)

lemma custom_other:
  assumes "\<nexists>p. get_param ''app_pattern'' (PStr []) ps = PStr p"
  shows "custom_app_presence_check db now m ps q =
    (if \<not> py_truthy (get_param ''app_pattern'' (PStr []) ps) then Inr (not_applicable_result m now
       ''No app_pattern configured - configure this control in Compliance > Settings to specify the application to check'')
     else if in_scope q db = [] then Inr (not_applicable_result m now no_agents) else Inl (BadParameter ''app_pattern''))"
  using assms by (cases "get_param ''app_pattern'' (PStr []) ps") (simp_all add: custom_app_presence_check_def Let_def)

lemma custom_copies: "copies_to custom_app_presence_check"
proof -
  have "relabel m' (custom_app_presence_check db now m ps q) = custom_app_presence_check db now m' ps' q"
    if s: "same_reads ps ps'" for db now m m' ps ps' q
  proof -
    let ?v = "get_param ''app_pattern'' (PStr []) ps" and ?w = "get_param ''app_pattern'' (PStr []) ps'"
    have o: "obs ?v = obs ?w" using s by (simp add: same_reads_def)
    note t = reads_truthy [OF s, of "''app_pattern''" "PStr []"] reads_truthy [OF s, of "''must_exist''" "PBool True"]
    show ?thesis
    proof (cases "\<exists>p. ?v = PStr p")
      case True
      then obtain p where v: "?v = PStr p" by blast
      then have w: "?w = PStr p" using o by (cases ?w) (auto split: option.splits if_splits)
      show ?thesis using t by (simp add: custom_app_presence_check_def Let_def v w relabel_steps)
    next
      case False
      then have "\<nexists>p. ?w = PStr p" using o by (cases ?v) (auto split: option.splits if_splits)
      then show ?thesis using t by (simp add: custom_other False relabel_steps)
    qed
  qed
  then show ?thesis by (simp add: copies_to_def)
qed

lemma get_executor_copies: "get_executor t = Some ex \<Longrightarrow> copies_to ex"
  by (auto simp: get_executor_def executor_copies custom_copies split: if_splits dest: map_of_SomeD)

section \<open>The engine as an interpretation\<close>

text \<open>What a run depends on beyond the identity of the control; parameters count by what is read of them.\<close>

definition essence :: "resolved_control \<Rightarrow> string \<times> (string \<Rightarrow> pyval \<Rightarrow> pyval) \<times> scope_query" where
  "essence c = (rc_check_type c, \<lambda>k d. obs (get_param k d (rc_parameters c)), scope_of c)"

lemma run_primary_copies:
  assumes "essence c = essence d"
  shows "remap_result (run_primary db now c) (rc_meta d) = run_primary db now d"
proof -
  have same: "rc_check_type c = rc_check_type d" "scope_of c = scope_of d" "same_reads (rc_parameters c) (rc_parameters d)"
    using assms by (simp_all add: essence_def same_reads_def fun_eq_iff)
  show ?thesis
  proof (cases "get_executor (rc_check_type d)")
    case None
    then show ?thesis using same by (simp add: run_primary_def relabel_steps)
  next
    case (Some ex)
    from get_executor_copies [OF this] same(3)
    have "relabel (rc_meta d) (ex db now (rc_meta c) (rc_parameters c) (scope_of d)) = ex db now (rc_meta d) (rc_parameters d) (scope_of d)"
      by (simp add: copies_to_def)
    then show ?thesis using Some same
      by (cases "ex db now (rc_meta c) (rc_parameters c) (scope_of d)")
        (auto simp: run_primary_def relabel_steps dest: sym)
  qed
qed

interpretation engine: copied_runs essence "run_primary db now" "\<lambda>r c. remap_result r (rc_meta c)" for db now
  by unfold_locales (rule run_primary_copies)

end
