(* ===== verification/ComplianceTheorems.thy ===== *)
theory ComplianceTheorems
  imports ComplianceRuns
begin

text \<open>
  What the compliance checks guarantee: running equal checks once changes nothing short of a digest collision, the
  figures of every result add up, the checks decide what they say; and which of them cannot fail on imported data.
\<close>

section \<open>The cache key\<close>

text \<open>Values as JSON has them: no datetimes or other objects, and no key twice in a dict.\<close>

fun json_val :: "pyval \<Rightarrow> bool" where
  "json_val (PFloat r) = float_repr r"
| "json_val (PDatetime t) = False"
| "json_val (POther s) = False"
| "json_val (PList vs) = list_all json_val vs"
| "json_val (PDict kvs) = (distinct (map fst kvs) \<and> list_all (\<lambda>kv. json_val (snd kv)) kvs)"
| "json_val v = True"

lemma json_wf: "json_val v \<Longrightarrow> wf_val v"
  by (induction v rule: json_val.induct) (auto simp: list_all_iff)

lemma strings_of_Cons: "strings_of (v # vs) = (case v of PStr s \<Rightarrow> map_option ((#) s) (strings_of vs) | _ \<Rightarrow> None)"
  by (cases v) (simp_all add: strings_of_def)

lemma strings_of_Some: "strings_of vs = Some xs \<Longrightarrow> vs = map PStr xs"
proof (induction vs arbitrary: xs)
  case (Cons v vs)
  then show ?case by (cases v) (auto simp: strings_of_Cons)
qed (simp add: strings_of_def)

lemma strings_of_canon: "list_all json_val vs \<Longrightarrow> strings_of (map canon vs) = strings_of vs"
proof (induction vs)
  case (Cons v vs)
  then show ?case by (cases v) (simp_all add: strings_of_Cons)
qed simp

lemma canon_eq_obs:
  assumes "json_val v" "json_val w" "canon v = canon w"
  shows "obs v = obs w"
proof (cases v)
  case (PList vs)
  then obtain ws where w: "w = PList ws" using assms by (cases w) auto
  have eq: "strings_of vs = strings_of ws"
    using strings_of_canon [of vs] strings_of_canon [of ws] assms by (simp add: PList w)
  show ?thesis
  proof (cases "strings_of vs")
    case None
    then show ?thesis using eq by (simp add: PList w)
  next
    case (Some xs)
    then have "vs = ws" using eq strings_of_Some [of vs xs] strings_of_Some [of ws xs] by simp
    then show ?thesis by (simp add: PList w)
  qed
next
  case (PDict kvs)
  then obtain lvs where w: "w = PDict lvs" using assms by (cases w) auto
  have "sort_key fst (map (map_prod id canon) kvs) = sort_key fst (map (map_prod id canon) lvs)"
    using assms(3) by (simp add: PDict w)
  then have "length kvs = length lvs" by (metis length_map length_sort)
  then show ?thesis by (auto simp: PDict w)
next
  case PNone
  then show ?thesis using assms by (cases w) simp_all
next
  case (PBool b)
  then show ?thesis using assms by (cases w) simp_all
next
  case (PInt i)
  then show ?thesis using assms by (cases w) simp_all
next
  case (PFloat r)
  then show ?thesis using assms by (cases w) simp_all
next
  case (PStr s)
  then show ?thesis using assms by (cases w) simp_all
qed (use assms in simp_all)

lemma canon_eq_same_reads:
  assumes "json_val (PDict ps)" "json_val (PDict ps')" "canon (PDict ps) = canon (PDict ps')"
  shows "same_reads ps ps'"
proof -
  have "obs (get_param k d ps) = obs (get_param k d ps')" for k d
  proof -
    have "map_option canon (map_of ps k) = map_option canon (map_of ps' k)"
      using canon_dict_eqD [OF assms(3)] assms(1,2) by simp
    moreover have "json_val v" if "map_of ps k = Some v \<or> map_of ps' k = Some v" for v
      using that assms(1,2) by (auto simp: list_all_iff dest!: map_of_SomeD)
    ultimately show ?thesis
      by (cases "map_of ps k"; cases "map_of ps' k") (auto simp: get_param_def intro: canon_eq_obs)
  qed
  then show ?thesis by (simp add: same_reads_def)
qed

lemma canon_scope_doc: "canon (scope_doc q) = scope_doc q"
  by (induction q rule: scope_doc.induct) (simp_all add: comp_def cong: map_cong)

lemma scope_doc_json: "json_val (scope_doc q)"
  by (induction q rule: scope_doc.induct) (simp_all add: list_all_iff)

lemma scope_doc_build:
  assumes "scope_doc (build_agent_scope_filter ts gs) = scope_doc (build_agent_scope_filter us hs)"
  shows "build_agent_scope_filter ts gs = build_agent_scope_filter us hs"
  using assms by (cases "ts = []"; cases "gs = []"; cases "us = []"; cases "hs = []")
    (simp_all add: build_agent_scope_filter_def inj_map_eq_map inj_def)

definition text_of :: "resolved_control \<Rightarrow> string" where
  "text_of c = cache_text (rc_check_type c) (rc_parameters c) (scope_of c)"

lemma same_text_same_essence:
  assumes "json_val (PDict (rc_parameters c))" "json_val (PDict (rc_parameters d))" "text_of c = text_of d"
  shows "essence c = essence d"
proof -
  let ?doc = "\<lambda>c. [(''t'', PStr (rc_check_type c)), (''p'', PDict (rc_parameters c)), (''s'', scope_doc (scope_of c))]"
  have wf: "wf_val (PDict (?doc c))" "wf_val (PDict (?doc d))"
    using json_wf [OF assms(1)] json_wf [OF assms(2)] json_wf [OF scope_doc_json] by simp_all
  have "canon (PDict (?doc c)) = canon (PDict (?doc d))"
    using assms(3) unfolding text_of_def cache_text_def dumps_eq_iff [OF wf] .
  then have "map_option canon (map_of (?doc c) k) = map_option canon (map_of (?doc d) k)" for k
    by (rule canon_dict_eqD) simp_all
  from this [of "''t''"] this [of "''p''"] this [of "''s''"]
  have "rc_check_type c = rc_check_type d" "canon (PDict (rc_parameters c)) = canon (PDict (rc_parameters d))"
    "scope_doc (scope_of c) = scope_doc (scope_of d)" by (simp_all add: canon_scope_doc del: canon.simps(9) scope_doc.simps)
  then show ?thesis using canon_eq_same_reads [OF assms(1,2)] scope_doc_build
    by (simp add: essence_def same_reads_def fun_eq_iff scope_of_def)
qed

text \<open>C36. A compliance run yields for every active control the result of running its check by itself, although checks with the
  same type, parameters and scope are run once and copied, provided no two different texts under the cache key share their
  truncated digest. The order of the parameters plays no part.\<close>

theorem deduplication_transparent:
  "(\<forall>c\<in>set cs. json_val (PDict (rc_parameters c))) \<Longrightarrow>
     (\<forall>c\<in>set cs. \<forall>d\<in>set cs. key_of c = key_of d \<longrightarrow> text_of c = text_of d) \<Longrightarrow>
     mset (run_controls db now cs) = mset (map (run_primary db now) (known_controls cs))"
proof -
  assume json: "\<forall>c\<in>set cs. json_val (PDict (rc_parameters c))"
    and free: "\<forall>c\<in>set cs. \<forall>d\<in>set cs. key_of c = key_of d \<longrightarrow> text_of c = text_of d"
  have "essence c = essence d" if "c \<in> set (known_controls cs)" "d \<in> set (known_controls cs)" "key_of c = key_of d" for c d
    using that json free by (intro same_text_same_essence) (auto simp: known_controls_def)
  note runs = engine.groups_run [where f = key_of and xs = "known_controls cs" and db = db and now = now, OF this]
  let ?G = "group_by_key key_of (known_controls cs) []"
  have "run_group db now (snd g) = run_primary db now (hd (snd g)) # map (\<lambda>d. remap_result (run_primary db now (hd (snd g))) (rc_meta d)) (tl (snd g))"
    if "g \<in> set ?G" for g
  proof -
    have "snd g \<noteq> []" using group_by_key_inv(2) [of "[]" key_of "fst g" "snd g" "known_controls cs"] that by simp
    then show ?thesis by (cases "snd g") (simp_all add: run_group_def)
  qed
  then have groups: "map (\<lambda>g. run_group db now (snd g)) ?G =
      map (\<lambda>g. run_primary db now (hd (snd g)) # map (\<lambda>d. remap_result (run_primary db now (hd (snd g))) (rc_meta d)) (tl (snd g))) ?G"
    by (rule map_cong [OF refl])
  have "run_controls db now cs = concat (map (\<lambda>g. run_group db now (snd g)) ?G)" by (simp only: run_controls_def split_def)
  then show ?thesis unfolding groups by (rule ssubst) (rule runs)
qed

section \<open>The figures of a result\<close>

definition result_ok :: "check_result \<Rightarrow> bool" where
  "result_ok r = (0 \<le> c_compliant r \<and> 0 \<le> c_non_compliant r \<and> c_compliant r + c_non_compliant r \<le> c_total r \<and>
     length (c_violations r) \<le> MAX_VIOLATIONS \<and> (c_status r = CFail \<longrightarrow> 0 < c_non_compliant r) \<and>
     (c_status r = CPass \<longrightarrow> c_non_compliant r = 0 \<and> c_violations r = []))"

lemma result_ok_simps [simp]:
  "result_ok (not_applicable_result m now ev)"
  "bad \<le> n \<Longrightarrow> (bad = 0 \<Longrightarrow> vs = []) \<Longrightarrow> result_ok (mk_result m now (verdict_of bad) (int n) (int n - int bad) (int bad) (cut_at MAX_VIOLATIONS vs) ev)"
  "0 \<le> n \<Longrightarrow> result_ok (mk_result m now CPass n n 0 [] ev)"
  "0 \<le> n \<Longrightarrow> result_ok (mk_result m now CWarning n 0 0 [] ev)"
  "result_ok (mk_result m now CFail 1 0 1 [v] ev)"
  by (auto simp: result_ok_def not_applicable_result_def mk_result_def verdict_of_def cut_at_take MAX_VIOLATIONS_def)

lemma collect_InrD: "collect g as = Inr vs \<Longrightarrow> vs = concat (map (\<lambda>a. projr (g a)) as) \<and> (\<forall>a\<in>set as. \<exists>ys. g a = Inr ys)"
  by (induction as arbitrary: vs) (auto split: sum.splits)

lemma length_named: "set (map cv_agent_id vs) \<subseteq> set ids \<Longrightarrow> named_agents vs \<le> length ids"
  unfolding named_agents_def by (metis card_length card_mono finite_set le_trans length_remdups_card_conv)

lemma named_agents_0 [simp]: "named_agents vs = 0 \<longleftrightarrow> vs = []"
  by (simp add: named_agents_def)

lemma scan_known:
  assumes "\<forall>a\<in>set as. ag_source_id a \<noteq> None"
  shows "scan f as = Inr (concat (map (\<lambda>a. f a (the (ag_source_id a))) as))"
proof -
  have "collect (\<lambda>a. case source_id a of Inl err \<Rightarrow> Inl err | Inr i \<Rightarrow> Inr (f a i)) as = Inr (concat (map (\<lambda>a. f a (the (ag_source_id a))) as))"
    by (rule collect_Inr) (use assms in \<open>auto simp: source_id_def\<close>)
  then show ?thesis by (simp add: scan_def)
qed

lemma scan_Inr:
  "scan f as = Inr vs \<longleftrightarrow> (\<forall>a\<in>set as. ag_source_id a \<noteq> None) \<and> vs = concat (map (\<lambda>a. f a (the (ag_source_id a))) as)"
proof
  assume s: "scan f as = Inr vs"
  then have c: "collect (\<lambda>a. case source_id a of Inl err \<Rightarrow> Inl err | Inr i \<Rightarrow> Inr (f a i)) as = Inr vs"
    by (auto simp: scan_def split: sum.splits)
  have known: "\<forall>a\<in>set as. ag_source_id a \<noteq> None"
    using collect_InrD [OF c] by (auto simp: source_id_def split: option.splits sum.splits)
  with scan_known [OF known, of f] s show "(\<forall>a\<in>set as. ag_source_id a \<noteq> None) \<and> vs = concat (map (\<lambda>a. f a (the (ag_source_id a))) as)"
    by simp
qed (simp add: scan_known)

lemma scan_named:
  assumes "scan f as = Inr vs" "\<And>a i v. v \<in> set (f a i) \<Longrightarrow> cv_agent_id v = i"
  shows "named_agents vs \<le> length as"
proof -
  have "set (map cv_agent_id vs) \<subseteq> set (map (\<lambda>a. the (ag_source_id a)) as)"
    using assms(1) by (auto simp: scan_Inr dest!: assms(2))
  from length_named [OF this] show ?thesis by simp
qed

lemma scan_bad_length: "scan_bad bad f as = Inr vs \<Longrightarrow> length vs \<le> length as"
proof -
  have "collect (\<lambda>a. if bad a then (case source_id a of Inl err \<Rightarrow> Inl err | Inr i \<Rightarrow> Inr [f a i]) else Inr []) as = Inr ws \<Longrightarrow>
    length ws \<le> length as" for ws
    by (induction as arbitrary: ws) (fastforce split: sum.splits if_splits)+
  then show "scan_bad bad f as = Inr vs \<Longrightarrow> ?thesis" by (auto simp: scan_bad_def split: sum.splits)
qed

lemma scan_bad_ids: "scan_bad bad f as = Inr vs \<Longrightarrow> named_agents vs \<le> length as"
proof -
  have "named_agents vs \<le> length vs" by (simp add: named_agents_def) (metis length_map length_remdups_leq)
  then show "scan_bad bad f as = Inr vs \<Longrightarrow> ?thesis" using scan_bad_length le_trans by blast
qed

lemma source_ids_length: "source_ids as = Inr ids \<Longrightarrow> length ids = length as"
proof -
  have "collect (\<lambda>a. case source_id a of Inl err \<Rightarrow> Inl err | Inr i \<Rightarrow> Inr [i]) as = Inr ws \<Longrightarrow> length ws = length as" for ws
    by (induction as arbitrary: ws) (auto split: sum.splits)
  then show "source_ids as = Inr ids \<Longrightarrow> ?thesis" by (auto simp: source_ids_def split: sum.splits)
qed

lemma agent_of_violation [simp]: "cv_agent_id (violation i h d app v r) = i"
  by (simp add: violation_def)

lemma on_names:
  "v \<in> set (prohibited_on names a i) \<Longrightarrow> cv_agent_id v = i" "v \<in> set (required_on names a i) \<Longrightarrow> cv_agent_id v = i"
  "v \<in> set (custom_on p e a i) \<Longrightarrow> cv_agent_id v = i"
  by (auto simp: prohibited_on_def required_on_def custom_on_def Let_def split: if_splits)

lemma scan_named_le:
  "scan (prohibited_on names) (filter P as) = Inr vs \<Longrightarrow> named_agents vs \<le> length as"
  "scan (required_on names) as = Inr vs \<Longrightarrow> named_agents vs \<le> length as"
  "scan (custom_on p e) as = Inr vs \<Longrightarrow> named_agents vs \<le> length as"
  by (rule order_trans [OF scan_named length_filter_le], assumption, erule on_names(1))
    (rule scan_named, assumption, erule on_names)+

lemma named_result_ok:
  assumes "n = int (length as)" "bad = named_agents vs" "named_agents vs \<le> length as"
  shows "result_ok (mk_result m now (verdict_of bad) n (n - int bad) (int bad) (cut_at MAX_VIOLATIONS vs) ev)"
  unfolding assms(1,2) by (rule result_ok_simps(2)) (use assms(3) in simp_all)

lemma length_result_ok:
  assumes "n = int (length as)" "bad = length vs" "length vs \<le> length as"
  shows "result_ok (mk_result m now (verdict_of bad) n (n - int bad) (int bad) (cut_at MAX_VIOLATIONS vs) ev)"
  unfolding assms(1,2) by (rule result_ok_simps(2)) (use assms(3) in simp_all)

lemma prohibited_ok: "prohibited_app_check db now m ps q = Inr r \<Longrightarrow> result_ok r"
  by (auto simp: prohibited_app_check_def Let_def on_ok_Inr split: if_splits intro!: named_result_ok scan_named_le(1))

lemma required_ok: "required_app_check db now m ps q = Inr r \<Longrightarrow> result_ok r"
  by (auto simp: required_app_check_def Let_def on_ok_Inr split: if_splits intro!: named_result_ok scan_named_le(2))

lemma agent_version_ok: "agent_version_check db now m ps q = Inr r \<Longrightarrow> result_ok r"
  by (auto simp: agent_version_check_def Let_def on_ok_Inr split: if_splits option.splits intro!: length_result_ok scan_bad_length)

lemma agent_online_ok: "agent_online_check db now m ps q = Inr r \<Longrightarrow> result_ok r"
  by (auto simp: agent_online_check_def Let_def on_ok_Inr split: if_splits intro!: length_result_ok scan_bad_length)

lemma unclassified_ok: "unclassified_threshold_check db now m ps q = Inr r \<Longrightarrow> result_ok r"
  by (auto simp: unclassified_threshold_check_def Let_def on_ok_Inr split: if_splits intro!: named_result_ok scan_bad_ids)

lemma sync_freshness_ok: "sync_freshness_check db now m ps q = Inr r \<Longrightarrow> result_ok r"
  using result_ok_simps(3) [of 1] by (auto simp: sync_freshness_check_def Let_def on_ok_Inr split: if_splits option.splits)

lemma custom_ok: "custom_app_presence_check db now m ps q = Inr r \<Longrightarrow> result_ok r"
  by (auto simp: custom_app_presence_check_def Let_def on_ok_Inr split: if_splits pyval.splits intro!: named_result_ok scan_named_le(3))

lemma named_subset: "set (map cv_agent_id vs) \<subseteq> set ids \<Longrightarrow> source_ids as = Inr ids \<Longrightarrow> named_agents vs \<le> length as"
  using length_named [of vs ids] source_ids_length [of as ids] by simp

lemma app_version_ok:
  assumes "app_version_check db now m ps q = Inr r"
  shows "result_ok r"
proof -
  have ids: "named_agents (concat (map (app_outdated db (filter (\<lambda>x. ia_agent_id x \<in> set ids) (cd_apps db))) keys)) \<le> length as"
    if "source_ids as = Inr ids" for ids as keys
    by (rule named_subset [OF _ that]) (auto simp: app_outdated_def split: list.splits)
  have ok: "result_ok (mk_result m now (if bad = 0 then CPass else if b then CWarning else CFail) (int n) (int n - int bad) (int bad)
      (cut_at MAX_VIOLATIONS vs) ev)" if "bad \<le> n" "bad = 0 \<Longrightarrow> vs = []" for bad n b vs ev
    using that by (auto simp: result_ok_def mk_result_def cut_at_take)
  show ?thesis
  proof (cases "in_scope q db = []")
    case True
    then show ?thesis using assms by (auto simp: app_version_check_def)
  next
    case False
    let ?apps = "\<lambda>ids. filter (\<lambda>x. ia_agent_id x \<in> set ids) (cd_apps db)"
    let ?vs = "\<lambda>ids. concat (map (app_outdated db (?apps ids)) (group_keys (map fst (version_groups (?apps ids)))))"
    from assms False obtain ids b ev where i: "source_ids (in_scope q db) = Inr ids"
      and r: "r = mk_result m now (if named_agents (?vs ids) = 0 then CPass else if b then CWarning else CFail) (int (length (in_scope q db)))
        (int (length (in_scope q db)) - int (named_agents (?vs ids))) (int (named_agents (?vs ids))) (cut_at MAX_VIOLATIONS (?vs ids)) ev"
      unfolding app_version_check_def Let_def on_ok_Inr split_def by (auto simp: on_ok_Inr simp del: named_agents_0)
    show ?thesis unfolding r by (rule ok) (use ids [OF i] in auto)
  qed
qed

lemma map_filter_set: "y \<in> set (List.map_filter f xs) \<longleftrightarrow> (\<exists>x\<in>set xs. f x = Some y)"
  by (induction xs) (auto split: option.splits)

lemma first_per_subset: "set (first_per k seen xs) \<subseteq> set xs"
  by (induction xs arbitrary: seen) auto

lemma eol_finding_agent: "eol_finding flag db cy mp x = Some f \<Longrightarrow> cv_agent_id (snd (snd f)) = ia_agent_id x"
  unfolding eol_finding_def Let_def by (simp split: option.split_asm prod.split_asm if_split_asm; auto)

lemma eol_verdict_ok: "source_ids as = Inr ids \<Longrightarrow> result_ok (eol_verdict db now m (length as) flag cy mp ids)"
  unfolding eol_verdict_def Let_def
  by (rule named_result_ok [OF refl refl], erule named_subset [rotated])
    (auto simp: map_filter_set dest!: eol_finding_agent subsetD [OF first_per_subset])

lemma eol_ok: "eol_software_check db now m ps q = Inr r \<Longrightarrow> result_ok r"
  by (auto simp: eol_software_check_def Let_def on_ok_Inr eol_verdict_ok split: if_splits prod.splits)


section \<open>What single checks decide\<close>

lemma concat_Nil_iff: "concat (map f xs) = [] \<longleftrightarrow> (\<forall>x\<in>set xs. f x = [])"
  by (induction xs) auto

text \<open>The check for required applications passes exactly when every endpoint in scope has, for every required name, an
  installed application whose name contains it, and it counts the endpoints where one is missing.\<close>

theorem required_apps_decided:
  "(\<forall>a\<in>set (in_scope q db). ag_source_id a \<noteq> None) \<Longrightarrow> in_scope q db \<noteq> [] \<Longrightarrow>
     strings_param ''required_apps'' ps = Inr (app # apps) \<Longrightarrow>
     \<exists>r. required_app_check db now m ps q = Inr r \<and>
       c_status r = (if \<forall>a\<in>set (in_scope q db). \<forall>x\<in>set (app # apps). \<exists>y\<in>set (installed_apps a). text_search x y then CPass else CFail) \<and>
       c_non_compliant r = int (card {i. \<exists>a\<in>set (in_scope q db). ag_source_id a = Some i \<and>
         (\<exists>x\<in>set (app # apps). \<forall>y\<in>set (installed_apps a). \<not> text_search x y)})"
proof -
  assume known: "\<forall>a\<in>set (in_scope q db). ag_source_id a \<noteq> None" and ne: "in_scope q db \<noteq> []"
    and ps: "strings_param ''required_apps'' ps = Inr (app # apps)"
  let ?vs = "concat (map (\<lambda>a. required_on (app # apps) a (the (ag_source_id a))) (in_scope q db))"
  have none: "required_on xs a i = [] \<longleftrightarrow> (\<forall>x\<in>set xs. \<exists>y\<in>set (installed_apps a). text_search x y)" for xs a i
    by (auto simp: required_on_def filter_empty_conv list_ex_iff)
  have "set (map cv_agent_id ?vs) = {i. \<exists>a\<in>set (in_scope q db). ag_source_id a = Some i \<and>
      (\<exists>x\<in>set (app # apps). \<forall>y\<in>set (installed_apps a). \<not> text_search x y)}"
  proof -
    have ids: "cv_agent_id ` set (required_on xs a i) = (if \<exists>x\<in>set xs. \<forall>y\<in>set (installed_apps a). \<not> text_search x y then {i} else {})" for xs a i
      by (auto simp: required_on_def list_ex_iff image_iff)
    have "set (map cv_agent_id ?vs) = (\<Union>a\<in>set (in_scope q db). cv_agent_id ` set (required_on (app # apps) a (the (ag_source_id a))))"
      by auto
    then show ?thesis using known unfolding ids by (auto split: if_splits; force)
  qed
  then have bad: "named_agents ?vs = card {i. \<exists>a\<in>set (in_scope q db). ag_source_id a = Some i \<and>
      (\<exists>x\<in>set (app # apps). \<forall>y\<in>set (installed_apps a). \<not> text_search x y)}"
    unfolding named_agents_def by (simp only: length_remdups_card_conv)
  have pass: "named_agents ?vs = 0 \<longleftrightarrow> (\<forall>a\<in>set (in_scope q db). \<forall>x\<in>set (app # apps). \<exists>y\<in>set (installed_apps a). text_search x y)"
    unfolding named_agents_0 concat_Nil_iff none ..
  let ?r = "\<lambda>ev. mk_result m now (verdict_of (named_agents ?vs)) (int (length (in_scope q db)))
      (int (length (in_scope q db)) - int (named_agents ?vs)) (int (named_agents ?vs)) (cut_at MAX_VIOLATIONS ?vs) ev"
  have "\<exists>ev. required_app_check db now m ps q = Inr (?r ev)"
    using ne unfolding required_app_check_def ps scan_known [OF known] Let_def on_ok_simps
    by (simp only: list.distinct(2) length_0_conv if_False) (rule exI, rule refl)
  then obtain ev where run: "required_app_check db now m ps q = Inr (?r ev)" by blast
  show ?thesis
    by (rule exI [of _ "?r ev"]) (simp only: run bad [symmetric] verdict_of_def pass simp_thms mk_result_def check_result.simps)
qed

section \<open>Data as the importers store it\<close>

text \<open>The importers write times as texts: \<open>last_active\<close> of an agent, \<open>last_synced_at\<close> of an installation, \<open>completed_at\<close> of a
  run.\<close>

definition text_time :: "pyval option \<Rightarrow> bool" where
  "text_time v = (v = None \<or> v = Some PNone \<or> (\<exists>s. v = Some (PStr s)))"

definition imported :: "comp_db \<Rightarrow> bool" where
  "imported db = ((\<forall>a\<in>set (cd_agents db). text_time (ag_last_active a)) \<and>
     (\<forall>x\<in>set (cd_apps db). text_time (ia_last_synced_at x)) \<and> (\<forall>r\<in>set (cd_sync_runs db). text_time (sr_completed_at r)))"

lemma text_time_compare: "text_time v \<Longrightarrow> \<not> date_before c v" "text_time v \<Longrightarrow> \<not> date_from c v"
  by (auto simp: text_time_def date_before_def date_from_def)

lemma in_scope_sub: "a \<in> set (in_scope q db) \<Longrightarrow> a \<in> set (cd_agents db)"
  by (simp add: in_scope_def)

lemma online_blind:
  assumes "imported db" "agent_online_check db now m ps q = Inr r"
  shows "c_status r \<noteq> CFail"
proof -
  have "scan_bad (\<lambda>a. date_before c (ag_last_active a)) f (in_scope q db) = Inr []" for c f
  proof -
    have "collect (\<lambda>a. if date_before c (ag_last_active a) then (case source_id a of Inl err \<Rightarrow> Inl err | Inr i \<Rightarrow> Inr [f a i]) else Inr [])
        (in_scope q db) = Inr (concat (map (\<lambda>_. []) (in_scope q db)))"
      by (rule collect_Inr) (use assms(1) in \<open>auto simp: imported_def text_time_compare dest: in_scope_sub\<close>)
    then show ?thesis by (simp add: scan_bad_def)
  qed
  then show ?thesis using assms(2)
    by (auto simp: agent_online_check_def Let_def on_ok_Inr mk_result_def not_applicable_result_def verdict_of_def split: if_splits)
qed

lemma delta_blind:
  assumes "imported db" "delta_detection_check db now m ps q = Inr r"
  shows "c_status r \<noteq> CWarning"
proof -
  have "filter (\<lambda>x. date_from c (ia_last_synced_at x) \<and> P x) (cd_apps db) = []" for c P
    using assms(1) by (auto simp: imported_def text_time_compare filter_empty_conv)
  then show ?thesis using assms(2)
    by (auto simp: delta_detection_check_def Let_def on_ok_Inr mk_result_def not_applicable_result_def split: if_splits)
qed

lemma latest_completed_sub: "latest_completed db = Some r \<Longrightarrow> r \<in> set (cd_sync_runs db)"
  by (auto simp: latest_completed_def Let_def dest: find_Some_in_set)

lemma exists_greatest:
  assumes "xs \<noteq> []"
  shows "\<exists>x\<in>set xs. \<forall>y\<in>set xs. f y \<le> (f x :: 'k :: linorder)"
proof -
  have "Max (f ` set xs) \<in> f ` set xs" using assms by (intro Max_in) auto
  then obtain x where "x \<in> set xs" "f x = Max (f ` set xs)" by auto
  then show ?thesis by (metis Max_ge List.finite_set finite_imageI imageI)
qed

lemma latest_completed_exists:
  assumes "r \<in> set (cd_sync_runs db)" "sr_status r = ''completed''"
  shows "latest_completed db \<noteq> None"
proof -
  let ?rs = "filter (\<lambda>r. sr_status r = ''completed'') (cd_sync_runs db)"
  have "?rs \<noteq> []" using assms by (auto simp: filter_empty_conv)
  from exists_greatest [OF this, of "\<lambda>r. bson_key (sr_completed_at r)"] show ?thesis
    by (auto simp: latest_completed_def Let_def find_None_iff list_all_iff)
qed

lemma freshness_broken:
  assumes "imported db" "r \<in> set (cd_sync_runs db)" "sr_status r = ''completed''"
  shows "\<exists>err. sync_freshness_check db now m ps q = Inl err"
proof -
  obtain l where l: "latest_completed db = Some l" using latest_completed_exists [OF assms(2,3)] by auto
  have "text_time (sr_completed_at l)" using assms(1) latest_completed_sub [OF l] by (simp add: imported_def)
  then have "\<exists>err. ensure_utc (sr_completed_at l) = Inl err" by (auto simp: text_time_def ensure_utc_def)
  then show ?thesis by (auto simp: sync_freshness_check_def l on_ok_def split: sum.split)
qed

text \<open>On data as the importers store it, three of the checks are blind: the check for agents that went offline never fails,
  the one for new applications never warns, and the one for fresh data ends in an error as soon as a synchronisation has ever
  completed, so no run of the engine gives it another status.\<close>

theorem checks_blind_on_imports:
  "imported db \<Longrightarrow> r \<in> set (cd_sync_runs db) \<Longrightarrow> sr_status r = ''completed'' \<Longrightarrow>
     (rc_check_type c = check_type_value AgentOnline \<longrightarrow> c_status (run_primary db now c) \<noteq> CFail) \<and>
     (rc_check_type c = check_type_value DeltaDetection \<longrightarrow> c_status (run_primary db now c) \<noteq> CWarning) \<and>
     (rc_check_type c = check_type_value SyncFreshness \<longrightarrow> c_status (run_primary db now c) = CError)"
proof -
  assume i: "imported db" and r: "r \<in> set (cd_sync_runs db)" "sr_status r = ''completed''"
  have ex: "get_executor (check_type_value AgentOnline) = Some agent_online_check"
    "get_executor (check_type_value DeltaDetection) = Some delta_detection_check"
    "get_executor (check_type_value SyncFreshness) = Some sync_freshness_check"
    by (simp_all add: get_executor_def check_type_value_def)
  have err: "c_status (error_result m now e) = CError" for m e by (simp add: error_result_def mk_result_def)
  obtain e where "sync_freshness_check db now (rc_meta c) (rc_parameters c) (scope_of c) = Inl e"
    using freshness_broken [OF i r] by blast
  then show ?thesis using online_blind [OF i] delta_blind [OF i]
    by (auto simp: run_primary_def ex err split: sum.split)
qed

end
