(* ===== verification/ComplianceEngineTheorems.thy ===== *)
theory ComplianceEngineTheorems
  imports ComplianceTheorems
begin

text \<open>
  What the compliance engine and its commands guarantee: results only for active controls, disabling takes effect at the next
  run, matches nobody reviewed never reach the check for ended software; and where the commands fall short. The last
  section evaluates the checks on a small fleet.
\<close>

section \<open>Results belong to active controls\<close>

lemma run_primary_labelled: "remap_result (run_primary db now c) (rc_meta c) = run_primary db now c"
  by (rule run_primary_copies) (rule refl)

lemma run_controls_labels:
  assumes "r \<in> set (run_controls db now cs)"
  shows "\<exists>c\<in>set cs. remap_result r (rc_meta c) = r"
proof -
  obtain g where g: "g \<in> set (group_by_key key_of (known_controls cs) [])" "r \<in> set (run_group db now (snd g))"
    using assms by (auto simp: run_controls_def)
  have all: "mset (concat (map snd (group_by_key key_of (known_controls cs) []))) = mset (known_controls cs)"
    using group_by_key_inv(1) [of "[]" key_of "known_controls cs"] by simp
  have sub: "set (snd g) \<subseteq> set cs" using g(1) arg_cong [OF all, of set_mset] by (auto simp: known_controls_def)
  have twice: "remap_result (remap_result s m) m = remap_result s m" for s m by (simp add: remap_result_def)
  have "\<exists>c\<in>set (snd g). remap_result r (rc_meta c) = r"
  proof (cases "snd g")
    case (Cons a dups)
    from g(2) Cons consider "r = run_primary db now a" | d where "d \<in> set dups" "r = remap_result (run_primary db now a) (rc_meta d)"
      by (auto simp: run_group_def)
    then show ?thesis
    proof cases
      case 1
      then show ?thesis using Cons run_primary_labelled by (intro bexI [of _ a]) auto
    next
      case 2
      then show ?thesis using Cons twice by (intro bexI [of _ d]) auto
    qed
  qed (use g(2) in \<open>simp add: run_group_def\<close>)
  then show ?thesis using sub by blast
qed

lemma resolve_control_labels:
  "resolve_control gs fw d = Some c \<Longrightarrow> m_framework_id (rc_meta c) = fw \<and> m_control_id (rc_meta c) = d_id d \<and>
     (case config_for gs fw (d_id d) of Some g \<Rightarrow> g_enabled g | None \<Rightarrow> True)"
  by (cases "config_for gs fw (d_id d)") (auto simp: resolve_control_def split: if_split_asm)

lemma in_map_filter: "y \<in> set (List.map_filter f xs) \<longleftrightarrow> (\<exists>x\<in>set xs. f x = Some y)"
  by (rule map_filter_set)

lemma active_control_origin:
  assumes "c \<in> set (resolve_active_controls reg fw st)"
  shows "map_of (get_all_framework_configs st) (m_framework_id (rc_meta c)) = Some True \<and>
    (case config_for (get_all_control_configs fw st) (m_framework_id (rc_meta c)) (m_control_id (rc_meta c)) of
       Some g \<Rightarrow> g_enabled g | None \<Rightarrow> True)"
proof -
  from assms obtain f where "c \<in> set (resolve_framework reg (get_all_control_configs fw st) st f)"
    by (auto simp: resolve_active_controls_def)
  then have en: "map_of (get_all_framework_configs st) f = Some True"
    and src: "(\<exists>d\<in>set (get_framework_controls reg f). resolve_control (get_all_control_configs fw st) f d = Some c) \<or>
      (\<exists>d\<in>set (list_custom_controls f st). resolve_control (get_all_control_configs fw st) f d = Some c)"
    by (auto simp: resolve_framework_def in_map_filter split: if_splits)
  have "m_framework_id (rc_meta c) = f \<and>
      (case config_for (get_all_control_configs fw st) f (m_control_id (rc_meta c)) of Some g \<Rightarrow> g_enabled g | None \<Rightarrow> True)"
    using src by (auto dest!: resolve_control_labels)
  then show ?thesis using en by simp
qed

lemma run_result_active:
  assumes "r \<in> set (fst (run_compliance_checks reg now run_id fw st))"
  shows "\<exists>c\<in>set (resolve_active_controls reg fw st). c_framework_id r = m_framework_id (rc_meta c) \<and> c_control_id r = m_control_id (rc_meta c)"
proof -
  from assms have "r \<in> set (run_controls (cs_data st) now (resolve_active_controls reg fw st))"
    by (auto simp: run_compliance_checks_def Let_def split: if_splits)
  from run_controls_labels [OF this] obtain c where c: "c \<in> set (resolve_active_controls reg fw st)" "remap_result r (rc_meta c) = r" by blast
  have "c_framework_id (remap_result r (rc_meta c)) = m_framework_id (rc_meta c)" "c_control_id (remap_result r (rc_meta c)) = m_control_id (rc_meta c)"
    by (simp_all add: remap_result_def)
  then show ?thesis using c by auto
qed

lemma framework_configs_lookup:
  assumes "distinct (map f_id fs)"
  shows "map_of (foldl (\<lambda>m f. AList.update (f_id f) (f_enabled f) m) m0 fs) k =
    (case find (\<lambda>f. f_id f = k) fs of Some f \<Rightarrow> Some (f_enabled f) | None \<Rightarrow> map_of m0 k)"
  using assms
proof (induction fs arbitrary: m0)
  case (Cons f fs)
  have "find (\<lambda>x. f_id x = f_id f) fs = None" using Cons.prems by (auto simp: find_None_iff_all) (metis image_eqI)
  then show ?case using Cons by (auto simp: update_conv' split: option.splits)
qed simp

text \<open>A framework that was disabled is not evaluated: until it is enabled again no run, of all frameworks or of this one,
  has a result for it.\<close>

theorem disabled_framework_not_evaluated:
  "distinct (map f_id (cs_frameworks st)) \<Longrightarrow> disable_framework reg now fw actor st = Inr st1 \<Longrightarrow>
     cs_frameworks st2 = cs_frameworks st1 \<Longrightarrow> r \<in> set (fst (run_compliance_checks reg later run_id only st2)) \<Longrightarrow>
     c_framework_id r \<noteq> fw"
proof
  assume d: "distinct (map f_id (cs_frameworks st))" and off: "disable_framework reg now fw actor st = Inr st1"
    and same: "cs_frameworks st2 = cs_frameworks st1" and r: "r \<in> set (fst (run_compliance_checks reg later run_id only st2))"
    and fw: "c_framework_id r = fw"
  have st1: "st1 = set_framework_enabled now fw False actor st" using off by (simp add: disable_framework_def split: if_splits)
  let ?doc = "\<lparr>f_id = fw, f_enabled = False, f_updated_at = now, f_updated_by = actor\<rparr>"
  have ids: "map f_id (update_first (\<lambda>f. f_id f = fw) (\<lambda>_. ?doc) fs) = map f_id fs" for fs by (induction fs) auto
  have "distinct (map f_id (cs_frameworks st1))"
    using d by (auto simp: st1 set_framework_enabled_def Let_def ids list_ex_iff)
  moreover have "find (\<lambda>f. f_id f = fw) (cs_frameworks st1) = Some ?doc"
  proof (cases "list_ex (\<lambda>f. f_id f = fw) (cs_frameworks st)")
    case True
    have "list_ex (\<lambda>f. f_id f = fw) fs \<Longrightarrow> find (\<lambda>f. f_id f = fw) (update_first (\<lambda>f. f_id f = fw) (\<lambda>_. ?doc) fs) = Some ?doc" for fs
      by (induction fs) auto
    with True show ?thesis by (simp add: st1 set_framework_enabled_def Let_def)
  next
    case False
    then have "find (\<lambda>f. f_id f = fw) (cs_frameworks st) = None" by (auto simp: find_None_iff_all list_ex_iff)
    with False show ?thesis by (simp add: st1 set_framework_enabled_def Let_def find_append)
  qed
  ultimately have "map_of (get_all_framework_configs st2) fw = Some False"
    using framework_configs_lookup [of "cs_frameworks st2" "[]" fw] same by (simp add: get_all_framework_configs_def)
  then show False using run_result_active [OF r] active_control_origin fw by fastforce
qed

section \<open>Violations of controls that are not run\<close>

lemma resolved_event:
  assumes "k \<in> set resolved"
  shows "ViolationResolved (key_rule k) (length (filter (\<lambda>k'. key_rule k' = key_rule k) resolved)) \<in>
    set (dispatch_compliance_webhooks rs run_id new resolved prev)"
  using assms by (auto simp: dispatch_compliance_webhooks_def Let_def)

lemma failing_keys_iff: "k \<in> set (failing_keys rs) \<longleftrightarrow> (\<exists>r\<in>set rs. c_status r = CFail \<and> (\<exists>v\<in>set (c_violations r). k = violation_key (c_control_id r) (cv_agent_id v)))"
  by (auto simp: failing_keys_def)

text \<open>Violations of a control that is no longer run, because it or its framework was disabled, are announced as resolved at
  every run: its last stored result counts as the state before the run, and nothing ever replaces it.\<close>

theorem inactive_control_resolved_every_run:
  "old \<in> set (latest_results fw st) \<Longrightarrow> c_status old = CFail \<Longrightarrow> c_violations old \<noteq> [] \<Longrightarrow> CHR '':'' \<notin> set (c_control_id old) \<Longrightarrow>
     (\<forall>c\<in>set (resolve_active_controls reg fw st). m_control_id (rc_meta c) \<noteq> c_control_id old \<and> CHR '':'' \<notin> set (m_control_id (rc_meta c))) \<Longrightarrow>
     \<exists>n. ViolationResolved (c_control_id old) n \<in> set (drop (length (cs_webhooks st)) (cs_webhooks (snd (trigger_compliance_run reg now run_id fw st)))) \<and>
       cs_frameworks (snd (trigger_compliance_run reg now run_id fw st)) = cs_frameworks st \<and>
       (\<forall>r\<in>set (fst (trigger_compliance_run reg now run_id fw st)). c_control_id r \<noteq> c_control_id old)"
proof -
  assume old: "old \<in> set (latest_results fw st)" "c_status old = CFail" "c_violations old \<noteq> []" "CHR '':'' \<notin> set (c_control_id old)"
    and inactive: "\<forall>c\<in>set (resolve_active_controls reg fw st). m_control_id (rc_meta c) \<noteq> c_control_id old \<and> CHR '':'' \<notin> set (m_control_id (rc_meta c))"
  obtain rs st1 where run: "run_compliance_checks reg now run_id fw st = (rs, st1)" by force
  have others: "c_control_id r \<noteq> c_control_id old \<and> CHR '':'' \<notin> set (c_control_id r)" if "r \<in> set rs" for r
    using run_result_active [of r reg now run_id fw st] that run inactive by fastforce
  have hooks: "cs_webhooks st1 = cs_webhooks st" "cs_frameworks st1 = cs_frameworks st"
    using run by (auto simp: run_compliance_checks_def Let_def store_check_results_def split: if_splits)
  obtain v where v: "v \<in> set (c_violations old)" using old(3) by (cases "c_violations old") auto
  let ?k = "violation_key (c_control_id old) (cv_agent_id v)"
  let ?resolved = "filter (\<lambda>k. k \<notin> set (failing_keys rs)) (failing_keys (latest_results fw st))"
  have "?k \<notin> set (failing_keys rs)"
  proof
    assume "?k \<in> set (failing_keys rs)"
    then obtain r and w :: compliance_violation where r: "r \<in> set rs" and "?k = violation_key (c_control_id r) (cv_agent_id w)"
      unfolding failing_keys_iff by blast
    then have "key_rule (violation_key (c_control_id old) (cv_agent_id v)) = key_rule (violation_key (c_control_id r) (cv_agent_id w))" by simp
    then show False using others [OF r] old(4) by (simp add: key_rule_key)
  qed
  then have "?k \<in> set ?resolved" using old v by (auto simp: failing_keys_iff)
  note event = resolved_event [OF this, of rs run_id "filter (\<lambda>k. k \<notin> set (failing_keys (latest_results fw st))) (failing_keys rs)" "scores (latest_results fw st)"]
  show ?thesis
    using event others hooks by (intro exI [of _ "length (filter (\<lambda>k'. key_rule k' = key_rule ?k) ?resolved)"])
      (simp add: trigger_compliance_run_def Let_def run key_rule_key [OF old(4)])
qed

section \<open>Configuring a control\<close>

lemma config_stored: "g \<in> set (cs_configs (upsert_control_config g st))"
proof -
  have "list_ex P xs \<Longrightarrow> g \<in> set (update_first P (\<lambda>_. g) xs)" for P and xs :: "control_config list"
    by (induction xs) auto
  then show ?thesis by (simp add: upsert_control_config_def Let_def)
qed

text \<open>A request that configures a control without saying whether it is enabled enables it, and drops every override that it
  does not repeat: a control that was disabled with a justification is active again, and the justification is gone.\<close>

theorem configuring_resets_control:
  "configure_control reg now actor cid w st = Inr (g, st') \<Longrightarrow> w_enabled w = None \<Longrightarrow>
     g_enabled g \<and> g_disable_reason g = w_disable_reason w \<and> (w_severity w = None \<longrightarrow> g_severity g = None) \<and>
     (w_parameters w = None \<longrightarrow> g_parameters g = []) \<and> g_scope_tags g = w_scope_tags w \<and> g_scope_groups g = w_scope_groups w \<and>
     g \<in> set (cs_configs st')"
  by (auto simp: configure_control_def Let_def config_stored split: option.splits sum.splits)

section \<open>Unreviewed matches\<close>

definition without_fuzzy :: "app_summary \<Rightarrow> app_summary" where
  "without_fuzzy s = (case su_eol_match s of Some e \<Rightarrow> if em_source e = Fuzzy then s\<lparr>su_eol_match := None\<rparr> else s | None \<Rightarrow> s)"

lemma mapped_apps_fuzzy: "mapped_apps mc ex cy (map without_fuzzy ss) = mapped_apps mc ex cy ss"
proof -
  have step: "(case su_eol_match (without_fuzzy s) of
         Some e \<Rightarrow> if dle mc (em_confidence e) \<and> em_source e \<in> {Cpe, Manual} \<and> em_product_id e \<notin> set ex \<and> em_product_id e \<in> set (map fst cy)
           then AList.update (su_name (without_fuzzy s)) (em_product_id e, display_of (without_fuzzy s)) m else m | None \<Rightarrow> m) =
      (case su_eol_match s of
         Some e \<Rightarrow> if dle mc (em_confidence e) \<and> em_source e \<in> {Cpe, Manual} \<and> em_product_id e \<notin> set ex \<and> em_product_id e \<in> set (map fst cy)
           then AList.update (su_name s) (em_product_id e, display_of s) m else m | None \<Rightarrow> m)" for s m
  proof (cases "su_eol_match s")
    case (Some e)
    then show ?thesis by (cases "em_source e") (simp_all add: without_fuzzy_def)
  qed (simp add: without_fuzzy_def)
  show ?thesis unfolding mapped_apps_def foldl_map step ..
qed

text \<open>A match that was found by resemblance of names alone, and that nobody confirmed, has no influence on the check for ended
  software: the result is the same as if the application had no match.\<close>

theorem fuzzy_matches_not_counted:
  "eol_software_check (db\<lparr>cd_summaries := map without_fuzzy (cd_summaries db)\<rparr>) now m ps q = eol_software_check db now m ps q"
proof -
  let ?db = "db\<lparr>cd_summaries := map without_fuzzy (cd_summaries db)\<rparr>"
  have host: "host_name ?db = host_name db" by (rule ext) (simp add: host_name_def)
  have parts: "cd_apps ?db = cd_apps db" "cd_today ?db = cd_today db" "cd_eol_products ?db = cd_eol_products db"
    "in_scope q ?db = in_scope q db" "cd_summaries ?db = map without_fuzzy (cd_summaries db)" by (simp_all add: in_scope_def)
  have finding: "eol_finding flag ?db cy mp = eol_finding flag db cy mp" for flag cy mp unfolding eol_finding_def host ..
  show ?thesis unfolding eol_software_check_def eol_verdict_def parts finding mapped_apps_fuzzy ..
qed

section \<open>A small fleet\<close>

definition demo_agent :: "string \<Rightarrow> string \<Rightarrow> string list \<Rightarrow> endpoint" where
  "demo_agent i h apps = \<lparr>ag_source_id = Some i, ag_hostname = Some h, ag_installed = Some apps, ag_group_name = None, ag_tags = None,
     ag_version = Some [], ag_last_active = Some (PStr ''2020-01-01T00:00:00Z'')\<rparr>"

definition demo_fleet :: comp_db where
  "demo_fleet = \<lparr>cd_agents = [demo_agent ''a1'' ''pc1'' [''Falcon Sensor''], demo_agent ''a2'' ''pc2'' [''Notes'']], cd_apps = [],
     cd_summaries = [], cd_sync_runs = [\<lparr>sr_status = ''completed'', sr_completed_at = Some (PStr ''2025-01-01T00:00:00Z'')\<rparr>],
     cd_classified = [], cd_eol_products = [], cd_today = (2025, 1, 1)\<rparr>"

definition demo_meta :: "string \<Rightarrow> string \<Rightarrow> control_meta" where
  "demo_meta fw cid = \<lparr>m_control_id = cid, m_framework_id = fw, m_name = cid, m_category = [], m_severity = High\<rparr>"

definition demo_control :: "string \<Rightarrow> string \<Rightarrow> check_type \<Rightarrow> params \<Rightarrow> resolved_control" where
  "demo_control fw cid t ps = \<lparr>rc_meta = demo_meta fw cid, rc_check_type = check_type_value t, rc_parameters = ps, rc_scope_tags = [],
     rc_scope_groups = []\<rparr>"

definition sensor :: params where
  "sensor = [(''required_apps'', PList [PStr ''falcon''])]"

lemma deduplication_transparent_witness:
  "length (run_controls demo_fleet 0 [demo_control ''soc2'' ''A'' RequiredApp sensor, demo_control ''hipaa'' ''B'' RequiredApp sensor]) = 2"
proof -
  let ?cs = "[demo_control ''soc2'' ''A'' RequiredApp sensor, demo_control ''hipaa'' ''B'' RequiredApp sensor]"
  have "mset (run_controls demo_fleet 0 ?cs) = mset (map (run_primary demo_fleet 0) (known_controls ?cs))"
    by (rule deduplication_transparent)
      (simp_all add: demo_control_def sensor_def text_of_def scope_of_def)
  from arg_cong [OF this, of size] show ?thesis
    by (simp add: known_controls_def demo_control_def get_executor_def check_type_value_def)
qed

lemma required_apps_decided_witness:
  "\<exists>r. required_app_check demo_fleet 0 (demo_meta ''soc2'' ''A'') sensor QAll = Inr r \<and> c_status r = CFail \<and>
     c_non_compliant r = int (card {''a2''})"
proof -
  have ps: "strings_param ''required_apps'' sensor = Inr (''falcon'' # [])" by code_simp
  have found: "text_search ''falcon'' ''Falcon Sensor''" "\<not> text_search ''falcon'' ''Notes''" by code_simp+
  have ags: "set (in_scope QAll demo_fleet) = {demo_agent ''a1'' ''pc1'' [''Falcon Sensor''], demo_agent ''a2'' ''pc2'' [''Notes'']}"
    by (simp add: in_scope_def demo_fleet_def)
  have set: "{i. \<exists>a\<in>set (in_scope QAll demo_fleet). ag_source_id a = Some i \<and>
      (\<exists>x\<in>set (''falcon'' # []). \<forall>y\<in>set (installed_apps a). \<not> text_search x y)} = {''a2''}"
    unfolding ags by (auto simp: demo_agent_def installed_apps_def found)
  obtain r where "required_app_check demo_fleet 0 (demo_meta ''soc2'' ''A'') sensor QAll = Inr r"
    "c_status r = (if \<forall>a\<in>set (in_scope QAll demo_fleet). \<forall>x\<in>set (''falcon'' # []). \<exists>y\<in>set (installed_apps a). text_search x y then CPass else CFail)"
    "c_non_compliant r = int (card {''a2''})"
    using required_apps_decided [of QAll demo_fleet, OF _ _ ps, of 0 "demo_meta ''soc2'' ''A''"] unfolding set
    by (auto simp: in_scope_def demo_fleet_def demo_agent_def)
  then show ?thesis unfolding ags by (auto simp: demo_agent_def installed_apps_def found)
qed


lemma checks_blind_on_imports_witness:
  "c_status (run_primary demo_fleet 0 (demo_control ''soc2'' ''A'' SyncFreshness [])) = CError \<and>
     c_status (run_primary demo_fleet 0 (demo_control ''soc2'' ''A'' AgentOnline [])) \<noteq> CFail"
proof -
  have i: "imported demo_fleet" by (simp add: imported_def demo_fleet_def demo_agent_def text_time_def)
  have r: "\<lparr>sr_status = ''completed'', sr_completed_at = Some (PStr ''2025-01-01T00:00:00Z'')\<rparr> \<in> set (cd_sync_runs demo_fleet)"
    by (simp add: demo_fleet_def)
  show ?thesis
    using checks_blind_on_imports [OF i r, of "demo_control ''soc2'' ''A'' SyncFreshness []" 0]
      checks_blind_on_imports [OF i r, of "demo_control ''soc2'' ''A'' AgentOnline []" 0]
    by (simp add: demo_control_def)
qed

definition demo_state :: compliance_state where
  "demo_state = \<lparr>cs_frameworks = [], cs_configs = [],
     cs_customs = [\<lparr>d_id = ''custom-x'', d_framework_id = ''hipaa'', d_name = ''x'', d_description = [], d_category = [], d_severity = High,
       d_check_type = check_type_value ProhibitedApp, d_parameters = [], d_scope_tags = [], d_scope_groups = [], d_remediation = [],
       d_created_at = 0, d_created_by = ''bob''\<rparr>],
     cs_results = [(''r0'', mk_result (demo_meta ''soc2'' ''A'') 0 CFail 1 0 1 [violation ''a1'' ''pc1'' [] None None []] [])],
     cs_schedule = None, cs_webhooks = [], cs_data = demo_fleet\<rparr>"

lemma disabled_framework_not_evaluated_witness:
  "\<exists>r st1. disable_framework [(''soc2'', []), (''hipaa'', [])] 1 ''soc2'' ''bob''
       (demo_state\<lparr>cs_frameworks := [\<lparr>f_id = ''hipaa'', f_enabled = True, f_updated_at = 0, f_updated_by = ''bob''\<rparr>]\<rparr>) = Inr st1 \<and>
     r \<in> set (fst (run_compliance_checks [(''soc2'', []), (''hipaa'', [])] 2 ''r1'' None st1)) \<and> c_framework_id r \<noteq> ''soc2''"
proof -
  let ?reg = "[(''soc2'', []), (''hipaa'', [])] :: registry"
  let ?st = "demo_state\<lparr>cs_frameworks := [\<lparr>f_id = ''hipaa'', f_enabled = True, f_updated_at = 0, f_updated_by = ''bob''\<rparr>]\<rparr>"
  obtain st1 where st1: "disable_framework ?reg 1 ''soc2'' ''bob'' ?st = Inr st1"
    "st1 = set_framework_enabled 1 ''soc2'' False ''bob'' ?st" by (simp add: disable_framework_def is_valid_framework_def)
  obtain c where c: "resolve_active_controls ?reg None st1 = [c]" "known_controls [c] = [c]"
    by (simp add: st1(2) demo_state_def set_framework_enabled_def resolve_active_controls_def resolve_framework_def chosen_def
        get_all_framework_ids_def get_all_framework_configs_def get_framework_controls_def list_custom_controls_def
        resolve_control_def config_for_def get_all_control_configs_def known_controls_def get_executor_def check_type_value_def)
  have "run_controls (cs_data st1) 2 [c] = [run_primary (cs_data st1) 2 c]" by (simp add: run_controls_def c(2) run_group_def)
  then have r: "run_primary (cs_data st1) 2 c \<in> set (fst (run_compliance_checks ?reg 2 ''r1'' None st1))"
    by (simp add: run_compliance_checks_def c(1) Let_def)
  have "c_framework_id (run_primary (cs_data st1) 2 c) \<noteq> ''soc2''"
    by (rule disabled_framework_not_evaluated [OF _ st1(1) refl r]) simp
  then show ?thesis using st1(1) r by blast
qed

lemma inactive_control_resolved_every_run_witness:
  "\<exists>n. ViolationResolved ''A'' n \<in> set (cs_webhooks (snd (trigger_compliance_run [] 5 ''r1'' None demo_state)))"
proof -
  let ?old = "mk_result (demo_meta ''soc2'' ''A'') 0 CFail 1 0 1 [violation ''a1'' ''pc1'' [] None None []] []"
  have old: "?old \<in> set (latest_results None demo_state)"
    by (simp add: latest_results_def newest_per_control_def chosen_def demo_state_def)
  have none: "resolve_active_controls [] None demo_state = []" by (simp add: resolve_active_controls_def chosen_def get_all_framework_ids_def)
  have "c_control_id ?old = ''A''" "c_status ?old = CFail" "c_violations ?old \<noteq> []" "cs_webhooks demo_state = []"
    by (simp_all add: mk_result_def demo_meta_def demo_state_def)
  then show ?thesis using inactive_control_resolved_every_run [OF old, of "[]" 5 "''r1''"] by (auto simp: none)
qed

lemma configuring_resets_control_witness:
  "\<exists>g st'. configure_control [] 7 ''bob'' ''custom-x'' \<lparr>w_enabled = None, w_disable_reason = None, w_severity = Some ''low'', w_parameters = None,
       w_scope_tags = None, w_scope_groups = None\<rparr> demo_state = Inr (g, st') \<and> g_enabled g"
proof -
  let ?w = "\<lparr>w_enabled = None, w_disable_reason = None, w_severity = Some ''low'', w_parameters = None, w_scope_tags = None, w_scope_groups = None\<rparr>"
  have sev: "parse_severity ''low'' = Some Low" by code_simp
  obtain g st' where "configure_control [] 7 ''bob'' ''custom-x'' ?w demo_state = Inr (g, st')"
    by (simp add: configure_control_def get_control_def get_custom_control_def demo_state_def sev Let_def)
  with configuring_resets_control [OF this] show ?thesis by auto
qed

end
