(* ===== verification/Floats.thy ===== *)
theory Floats
  imports Double
begin

text \<open>
  The floating point operations of the scores: sums, quotients, Python's \<open>sum\<close> and \<open>round\<close>, and how far their
  results are from the exact ones. Every operation is exact up to the factor \<open>2 ^ -53\<close>.
\<close>

section \<open>Operations\<close>

text \<open>The double nearest to \<open>m * 2 ^ e\<close>.\<close>

definition dround :: "int \<Rightarrow> int \<Rightarrow> double" where
  "dround m e = (if e \<le> 0 then nearest m (2 ^ nat (- e)) else nearest (m * 2 ^ nat e) 1)"

definition dneg :: "double \<Rightarrow> double" where
  "dneg x = Dbl (- mant x) (expn x)"

definition dadd :: "double \<Rightarrow> double \<Rightarrow> double" where
  "dadd x y = (let e = min (expn x) (expn y)
     in dround (mant x * 2 ^ nat (expn x - e) + mant y * 2 ^ nat (expn y - e)) e)"

definition dsub :: "double \<Rightarrow> double \<Rightarrow> double" where
  "dsub x y = dadd x (dneg y)"

text \<open>\<open>x / y\<close> for a \<open>y\<close> that is not zero.\<close>

definition ddiv :: "double \<Rightarrow> double \<Rightarrow> double" where
  "ddiv x y = (let n = mant x * sgn (mant y); d = \<bar>mant y\<bar>; e = expn x - expn y
     in if e \<le> 0 then nearest n (d * 2 ^ nat (- e)) else nearest (n * 2 ^ nat e) d)"

definition deq :: "double \<Rightarrow> double \<Rightarrow> bool" where
  "deq x y = (dle x y \<and> dle y x)"

definition dabs :: "double \<Rightarrow> double" where
  "dabs x = Dbl \<bar>mant x\<bar> (expn x)"

definition dmin :: "double \<Rightarrow> double \<Rightarrow> double" where
  "dmin x y = (if dlt y x then y else x)"

text \<open>\<open>sum\<close> of a list of floats, as Python 3.12 computes it: the running sum together with the compensation of its
  rounding errors (Neumaier).\<close>

definition sum_step :: "double \<times> double \<Rightarrow> double \<Rightarrow> double \<times> double" where
  "sum_step s x = (let (f, c) = s; t = dadd f x
     in (t, dadd c (if dle (dabs x) (dabs f) then dadd (dsub f t) x else dadd (dsub x t) f)))"

definition py_sum :: "double list \<Rightarrow> double" where
  "py_sum xs = (let (f, c) = foldl sum_step (dint 0, dint 0) xs in if mant c = 0 then f else dadd f c)"

text \<open>The sum as a loop with \<open>+=\<close> computes it.\<close>

definition plain_sum :: "double list \<Rightarrow> double" where
  "plain_sum xs = foldl dadd (dint 0) xs"

text \<open>\<open>round(x, k)\<close>: the exact value to \<open>k\<close> decimals, ties to even, and the double nearest to that.\<close>

definition to_decimals :: "nat \<Rightarrow> double \<Rightarrow> int" where
  "to_decimals k x = (let (n, d) = scaled \<bar>mant x\<bar> 1 (- expn x); m = rdiv (n * 10 ^ k) d in if mant x < 0 then - m else m)"

definition py_round :: "nat \<Rightarrow> double \<Rightarrow> double" where
  "py_round k x = nearest (to_decimals k x) (10 ^ k)"

text \<open>The format \<open>.2f\<close>.\<close>

definition fixed2 :: "double \<Rightarrow> string" where
  "fixed2 x = (let m = \<bar>to_decimals 2 x\<bar>
     in (if mant x < 0 then ''-'' else []) @ int_str (m div 100) @ ''.'' @ int_str (m div 10 mod 10) @ int_str (m mod 10))"

section \<open>Accuracy\<close>

abbreviation ulp :: rat where
  "ulp \<equiv> 1 / 2 ^ 53"

lemma powi2_pos [simp]: "0 < (2 :: rat) powi e"
  by simp

lemma powi2_not_neg [simp]: "\<not> (2 :: rat) powi e < 0"
  by (simp add: not_less)

lemma powi2_nat: "0 \<le> e \<Longrightarrow> (2 :: rat) powi e = 2 ^ nat e"
  by (simp add: power_int_def)

lemma powi2_neg: "e \<le> 0 \<Longrightarrow> (2 :: rat) powi e = 1 / 2 ^ nat (- e)"
  by (cases "e = 0") (simp_all add: power_int_def inverse_eq_divide power_one_over)

lemma rdiv_bound: "0 < d \<Longrightarrow> \<bar>of_int (rdiv n d) - of_int n / of_int d\<bar> \<le> (1 / 2 :: rat)"
proof -
  assume d: "0 < d"
  have n: "of_int n / of_int d = (of_int (n div d) :: rat) + of_int (n mod d) / of_int d"
    using d by (simp add: field_simps flip: of_int_mult of_int_add)
  have r: "0 \<le> n mod d" "n mod d < d" using d by simp_all
  have "2 * r \<le> d \<Longrightarrow> (of_int r :: rat) / of_int d \<le> 1 / 2" for r
  proof -
    assume "2 * r \<le> d"
    then have "(2 :: rat) * of_int r \<le> of_int d" by (metis of_int_le_iff of_int_mult of_int_numeral)
    then show ?thesis using d by (simp add: field_simps)
  qed
  note le = this
  have "d \<le> 2 * r \<Longrightarrow> 1 / 2 \<le> (of_int r :: rat) / of_int d" for r
  proof -
    assume "d \<le> 2 * r"
    then have "(of_int d :: rat) \<le> 2 * of_int r" by (metis of_int_le_iff of_int_mult of_int_numeral)
    then show ?thesis using d by (simp add: field_simps)
  qed
  note ge = this
  have "0 \<le> (of_int (n mod d) :: rat) / of_int d" "(of_int (n mod d) :: rat) / of_int d \<le> 1"
    using r d by (simp_all add: divide_le_eq less_imp_le)
  then show ?thesis using le [of "n mod d"] ge [of "n mod d"] unfolding n rdiv_def Let_def by (auto simp: abs_le_iff)
qed

lemma scaled_quotient:
  assumes "0 < d" "scaled n d e = (a, b)"
  shows "0 < b" "(of_int a :: rat) / of_int b = of_int n / of_int d * 2 powi (- e)"
  using assms by (auto simp: scaled_def powi2_nat powi2_neg split: if_splits)

lemma ilog2_bounds: "0 < n \<Longrightarrow> 2 ^ nat (ilog2 n) \<le> n \<and> n < 2 * 2 ^ nat (ilog2 n) \<and> 0 \<le> ilog2 n"
proof (induction n rule: ilog2.induct)
  case (1 n)
  show ?case
  proof (cases "n < 2")
    case False
    then have step: "ilog2 n = 1 + ilog2 (n div 2)" using ilog2.simps [of n] by simp
    have h: "2 ^ nat (ilog2 (n div 2)) \<le> n div 2" "n div 2 < 2 * 2 ^ nat (ilog2 (n div 2))" "0 \<le> ilog2 (n div 2)"
      using 1 False by auto
    then have "nat (ilog2 n) = Suc (nat (ilog2 (n div 2)))" by (simp add: step nat_add_distrib)
    moreover have "2 * P \<le> n \<and> n < 4 * P" if "P \<le> n div 2" "n div 2 < 2 * P" for P :: int using that by linarith
    ultimately show ?thesis using h by (simp add: step)
  next
    case True
    then have "ilog2 n = 0" using ilog2.simps [of n] by simp
    then show ?thesis using True 1(2) by simp
  qed
qed

lemma round_pos_exponent:
  assumes "0 < n" "0 < d"
  defines "e0 \<equiv> ilog2 n - ilog2 d - 52"
  defines "e \<equiv> (if 2 ^ 52 * snd (scaled n d e0) \<le> fst (scaled n d e0) then e0 else e0 - 1)"
  shows "2 ^ 52 \<le> (of_int n :: rat) / of_int d * 2 powi (- e)"
proof (cases "2 ^ 52 * snd (scaled n d e0) \<le> fst (scaled n d e0)")
  case True
  obtain a b where ab: "scaled n d e0 = (a, b)" by force
  note q = scaled_quotient [OF assms(2) ab]
  have "2 ^ 52 * b \<le> a" using True by (simp add: ab)
  then have "(2 ^ 52 :: rat) * of_int b \<le> of_int a" by (metis of_int_le_iff of_int_mult of_int_numeral of_int_power)
  then have "(2 ^ 52 :: rat) \<le> of_int a / of_int b" using q(1) by (simp add: pos_le_divide_eq)
  then show ?thesis using True q(2) by (simp add: e_def)
next
  case False
  let ?ln = "nat (ilog2 n)" and ?ld = "nat (ilog2 d)"
  have n: "(2 :: rat) ^ ?ln \<le> of_int n" using ilog2_bounds [OF assms(1)] by (metis of_int_le_iff of_int_numeral of_int_power)
  have d: "(of_int d :: rat) \<le> 2 * 2 ^ ?ld"
    using ilog2_bounds [OF assms(2)] by (metis less_imp_le of_int_le_iff of_int_numeral of_int_power of_int_mult)
  have pw: "(2 :: rat) ^ ?ln = 2 powi ilog2 n" "(2 :: rat) ^ ?ld = 2 powi ilog2 d"
    using ilog2_bounds [OF assms(1)] ilog2_bounds [OF assms(2)] by (simp_all add: powi2_nat)
  have "2 powi ilog2 n / (2 * 2 powi ilog2 d) \<le> (of_int n :: rat) / of_int d"
    using n d assms(1,2) unfolding pw by (intro frac_le) auto
  then have "2 powi ilog2 n / (2 * 2 powi ilog2 d) * 2 powi (1 - e0) \<le> (of_int n :: rat) / of_int d * 2 powi (1 - e0)"
    by (intro mult_right_mono) auto
  moreover have "2 powi ilog2 n / (2 * 2 powi ilog2 d) * 2 powi (1 - e0) = (2 powi 52 :: rat)"
  proof -
    have "(2 :: rat) powi (1 - e0) = 2 * (2 powi ilog2 d / 2 powi ilog2 n * 2 powi 52)"
      unfolding e0_def by (simp add: power_int_diff power_int_add field_simps)
    then show ?thesis by simp
  qed
  moreover have "(2 :: rat) powi 52 = 2 ^ 52" by (simp add: power_int_def)
  ultimately show ?thesis using False by (simp add: e_def)
qed

text \<open>The relative error of one rounding.\<close>

lemma round_pos_error:
  assumes "0 < n" "0 < d"
  shows "\<bar>dval (round_pos n d) - of_int n / of_int d\<bar> \<le> of_int n / of_int d * ulp"
proof -
  define e0 where "e0 = ilog2 n - ilog2 d - 52"
  define e where "e = (if 2 ^ 52 * snd (scaled n d e0) \<le> fst (scaled n d e0) then e0 else e0 - 1)"
  obtain a b where ab: "scaled n d e = (a, b)" by force
  note q = scaled_quotient [OF assms(2) ab]
  let ?v = "of_int n / of_int d :: rat"
  have big: "2 ^ 52 \<le> ?v * 2 powi (- e)" using round_pos_exponent [OF assms] unfolding e_def e0_def .
  have val: "dval (round_pos n d) = of_int (rdiv a b) * 2 powi e"
    unfolding round_pos_def e0_def [symmetric] e_def [symmetric] Let_def ab by (simp add: dval_def)
  have v: "?v = of_int a / of_int b * 2 powi e" unfolding q(2) by (simp add: power_int_minus)
  have "\<bar>dval (round_pos n d) - ?v\<bar> = \<bar>of_int (rdiv a b) - of_int a / of_int b\<bar> * 2 powi e"
    unfolding val v left_diff_distrib [symmetric] abs_mult by simp
  also have "\<dots> \<le> 1 / 2 * 2 powi e" by (intro mult_right_mono rdiv_bound q(1)) simp
  also have "\<dots> \<le> ?v * ulp"
  proof -
    have "?v * 2 powi (- e) * 2 powi e = ?v" by (simp add: power_int_minus)
    with mult_right_mono [OF big, of "2 powi e"] have "2 ^ 52 * 2 powi e \<le> ?v" by (simp only: powi2_pos less_imp_le)
    then show ?thesis by simp
  qed
  finally show ?thesis .
qed

theorem nearest_error: "0 < d \<Longrightarrow> \<bar>dval (nearest n d) - of_int n / of_int d\<bar> \<le> \<bar>of_int n / of_int d\<bar> * ulp"
proof -
  assume d: "0 < d"
  consider "n = 0" | "0 < n" | "n < 0" by linarith
  then show ?thesis
  proof cases
    case 3
    obtain m e where me: "round_pos (- n) d = Dbl m e" by (cases "round_pos (- n) d")
    have "\<bar>dval (Dbl m e) - of_int (- n) / of_int d\<bar> \<le> of_int (- n) / of_int d * ulp"
      using round_pos_error [of "- n" d] 3 d by (simp add: me)
    moreover have "\<bar>of_int n / of_int d :: rat\<bar> = of_int (- n) / of_int d" using 3 d by simp
    ultimately show ?thesis using 3 d by (simp add: nearest_def me dval_def abs_minus_commute)
  next
    case 2
    then show ?thesis using round_pos_error [OF 2 d] d by (simp add: nearest_def)
  qed (simp add: nearest_def dval_def)
qed

text \<open>Close to an exact value: up to a number of roundings, each by the factor \<open>1 + ulp\<close> or \<open>1 - ulp\<close>.\<close>

lemma dround_error: "\<bar>dval (dround m e) - of_int m * 2 powi e\<bar> \<le> \<bar>of_int m * 2 powi e\<bar> * ulp"
proof (cases "e \<le> 0")
  case True
  then show ?thesis using nearest_error [of "2 ^ nat (- e)" m] by (simp add: dround_def powi2_neg)
next
  case False
  then show ?thesis using nearest_error [of 1 "m * 2 ^ nat e"] by (simp add: dround_def powi2_nat)
qed

lemma dval_shift: "e \<le> expn x \<Longrightarrow> of_int (mant x * 2 ^ nat (expn x - e)) * (2 :: rat) powi e = dval x"
  by (simp add: dval_def mult.assoc flip: powi2_nat power_int_add)

lemma dadd_error: "\<bar>dval (dadd x y) - (dval x + dval y)\<bar> \<le> \<bar>dval x + dval y\<bar> * ulp"
proof -
  let ?e = "min (expn x) (expn y)"
  let ?m = "mant x * 2 ^ nat (expn x - ?e) + mant y * 2 ^ nat (expn y - ?e)"
  have "of_int ?m * 2 powi ?e = dval x + dval y"
    unfolding of_int_add distrib_right by (simp only: dval_shift min.cobounded1 min.cobounded2)
  then show ?thesis using dround_error [of ?m ?e] by (simp only: dadd_def Let_def)
qed

lemma dval_dneg [simp]: "dval (dneg x) = - dval x"
  by (simp add: dval_def dneg_def)

lemma dsub_error: "\<bar>dval (dsub x y) - (dval x - dval y)\<bar> \<le> \<bar>dval x - dval y\<bar> * ulp"
  using dadd_error [of x "dneg y"] by (simp add: dsub_def)

lemma dval_dabs [simp]: "dval (dabs x) = \<bar>dval x\<bar>"
  by (simp add: dval_def dabs_def abs_mult)

lemma dlt_iff: "dlt x y \<longleftrightarrow> dval x < dval y"
  by (simp add: dle_iff not_le)

lemma deq_iff: "deq x y \<longleftrightarrow> dval x = dval y"
  by (auto simp: deq_def dle_iff)

lemma dval_dmin [simp]: "dval (dmin x y) = min (dval x) (dval y)"
  by (simp add: dmin_def dlt_iff min_def)

lemma dval_0_iff: "dval x = 0 \<longleftrightarrow> mant x = 0"
  by (simp add: dval_def)

lemma dval_pos_iff: "0 < dval x \<longleftrightarrow> 0 < mant x"
  by (simp add: dval_def zero_less_mult_iff)

lemma ddiv_error:
  assumes "dval y \<noteq> 0"
  shows "\<bar>dval (ddiv x y) - dval x / dval y\<bar> \<le> \<bar>dval x / dval y\<bar> * ulp"
proof -
  have m: "mant y \<noteq> 0" using assms by (simp add: dval_0_iff)
  let ?n = "mant x * sgn (mant y)" and ?d = "\<bar>mant y\<bar>" and ?e = "expn x - expn y"
  have "of_int ?n / of_int ?d = (of_int (mant x) / of_int (mant y) :: rat)" using m by (simp add: sgn_if abs_if)
  moreover have "(2 :: rat) powi ?e = 2 powi expn x / 2 powi expn y" by (simp add: power_int_diff)
  ultimately have v: "of_int ?n / of_int ?d * 2 powi ?e = dval x / dval y" by (simp add: dval_def)
  show ?thesis
  proof (cases "?e \<le> 0")
    case True
    then have "of_int ?n / of_int (?d * 2 ^ nat (- ?e)) = dval x / dval y" unfolding v [symmetric] powi2_neg [OF True] by simp
    moreover have "0 < ?d * 2 ^ nat (- ?e)" using m by simp
    ultimately show ?thesis using nearest_error [of "?d * 2 ^ nat (- ?e)" ?n] True by (simp only: ddiv_def Let_def if_True)
  next
    case False
    then have "of_int (?n * 2 ^ nat ?e) / of_int ?d = dval x / dval y" unfolding v [symmetric] by (simp add: powi2_nat)
    moreover have "0 < ?d" using m by simp
    ultimately show ?thesis using nearest_error [of ?d "?n * 2 ^ nat ?e"] False by (simp only: ddiv_def Let_def if_False)
  qed
qed

lemma to_decimals_error: "\<bar>of_int (to_decimals k x) - dval x * 10 ^ k\<bar> \<le> 1 / 2"
proof -
  obtain n d where nd: "scaled \<bar>mant x\<bar> 1 (- expn x) = (n, d)" by force
  note q = scaled_quotient [OF zero_less_one nd]
  have "of_int (n * 10 ^ k) / of_int d = \<bar>dval x\<bar> * 10 ^ k" using q(2) by (simp add: dval_def abs_mult flip: mult.assoc times_divide_eq_left)
  with rdiv_bound [OF q(1), of "n * 10 ^ k"] have b: "\<bar>of_int (rdiv (n * 10 ^ k) d) - \<bar>dval x\<bar> * 10 ^ k\<bar> \<le> 1 / 2" by simp
  show ?thesis
  proof (cases "mant x < 0")
    case True
    then have "\<bar>dval x\<bar> = - dval x" by (simp add: dval_def mult_nonpos_nonneg)
    then have "\<bar>- of_int (rdiv (n * 10 ^ k) d) - dval x * 10 ^ k\<bar> \<le> 1 / 2" using b by (simp only: abs_le_iff) (simp add: algebra_simps)
    then show ?thesis unfolding to_decimals_def nd Let_def prod.case using True by simp
  next
    case False
    then have "\<bar>dval x\<bar> = dval x" by (simp add: dval_def)
    then show ?thesis unfolding to_decimals_def nd Let_def prod.case using b False by simp
  qed
qed

section \<open>Sums\<close>

lemma plain_sum_simps [simp]: "plain_sum [] = dint 0" "plain_sum (xs @ [x]) = dadd (plain_sum xs) x"
  by (simp_all add: plain_sum_def)

abbreviation exact_sum :: "double list \<Rightarrow> rat" where
  "exact_sum xs \<equiv> sum_list (map dval xs)"

lemma exact_sum_nonneg: "\<forall>x\<in>set xs. 0 \<le> dval x \<Longrightarrow> 0 \<le> exact_sum xs"
  by (intro sum_list_nonneg) auto

lemma abs_range: "\<bar>y - v\<bar> \<le> w \<Longrightarrow> y \<le> v + w \<and> v - w \<le> y" for v w y :: rat
  by linarith

lemma dadd_range:
  assumes "0 \<le> dval x + dval y"
  shows "dval (dadd x y) \<le> dval x + dval y + ulp * (dval x + dval y)" "dval x + dval y - ulp * (dval x + dval y) \<le> dval (dadd x y)"
proof -
  have "\<bar>dval x + dval y\<bar> * ulp = ulp * (dval x + dval y)" using assms by simp
  with dadd_error [of x y] have e: "\<bar>dval (dadd x y) - (dval x + dval y)\<bar> \<le> ulp * (dval x + dval y)" by simp
  show "dval (dadd x y) \<le> dval x + dval y + ulp * (dval x + dval y)" "dval x + dval y - ulp * (dval x + dval y) \<le> dval (dadd x y)"
    using abs_range [OF e] by blast+
qed

text \<open>Up to \<open>2 ^ 20\<close> summands, the plain sum is exact up to two roundings for each of them.\<close>

lemma small_product: "n \<le> 2 ^ 20 \<Longrightarrow> 0 \<le> s \<Longrightarrow> ulp * (of_nat n * s) \<le> s / 2 ^ 33"
proof -
  assume "n \<le> 2 ^ 20" and s: "0 \<le> s"
  then have "(of_nat n :: rat) \<le> of_nat (2 ^ 20)" by (simp only: of_nat_le_iff)
  then have "of_nat n * s \<le> 2 ^ 20 * s" using s by (intro mult_right_mono) simp_all
  then have "ulp * (of_nat n * s) \<le> ulp * (2 ^ 20 * s)" by (intro mult_left_mono) simp_all
  also have "\<dots> = s / 2 ^ 33" by simp
  finally show ?thesis .
qed

lemma plain_step:
  fixes u :: rat
  assumes u: "0 < u" "u \<le> 1" and pos: "0 \<le> S" "0 \<le> x" "0 \<le> n" and small: "u * (n * S) \<le> S / 8"
    and N: "N \<le> S + 2 * (u * (n * S))" "S - 2 * (u * (n * S)) \<le> N"
    and y: "y \<le> N + x + u * (N + x)" "N + x - u * (N + x) \<le> y"
  shows "y \<le> S + x + 2 * (u * ((n + 1) * (S + x)))" "S + x - 2 * (u * ((n + 1) * (S + x))) \<le> y"
proof -
  have "u * N \<le> u * (S + 2 * (S / 8))" using N(1) small u by (intro mult_left_mono) simp_all
  moreover have "0 \<le> u * S" "0 \<le> u * x" "0 \<le> u * (n * x)" using u pos by simp_all
  ultimately show "y \<le> S + x + 2 * (u * ((n + 1) * (S + x)))" "S + x - 2 * (u * ((n + 1) * (S + x))) \<le> y"
    using N y by (simp_all add: algebra_simps)
qed

lemma plain_sum_error:
  "length xs \<le> 2 ^ 20 \<Longrightarrow> \<forall>x\<in>set xs. 0 \<le> dval x \<Longrightarrow>
     dval (plain_sum xs) \<le> exact_sum xs + 2 * (ulp * (of_nat (length xs) * exact_sum xs)) \<and>
     exact_sum xs - 2 * (ulp * (of_nat (length xs) * exact_sum xs)) \<le> dval (plain_sum xs)"
proof (induction xs rule: rev_induct)
  case (snoc x xs)
  have x: "0 \<le> dval x" and xs: "length xs \<le> 2 ^ 20" "\<forall>x\<in>set xs. 0 \<le> dval x" using snoc.prems by simp_all
  have S: "0 \<le> exact_sum xs" by (rule exact_sum_nonneg [OF xs(2)])
  have small: "ulp * (of_nat (length xs) * exact_sum xs) \<le> exact_sum xs / 8"
    using small_product [OF xs(1) S] S by simp
  note N = snoc.IH [OF xs, THEN conjunct1] snoc.IH [OF xs, THEN conjunct2]
  have "0 \<le> dval (plain_sum xs)" using N(2) small S by linarith
  then have "0 \<le> dval (plain_sum xs) + dval x" using x by simp
  from plain_step [OF _ _ S x _ small N dadd_range [OF this]] show ?case by (simp add: add.commute)
qed simp

lemma plain_sum_range:
  assumes "length xs \<le> 2 ^ 20" "\<forall>x\<in>set xs. 0 \<le> dval x"
  shows "dval (plain_sum xs) \<le> exact_sum xs + exact_sum xs / 2 ^ 32" "exact_sum xs - exact_sum xs / 2 ^ 32 \<le> dval (plain_sum xs)"
    "0 \<le> dval (plain_sum xs)" "dval (plain_sum xs) \<le> 2 * exact_sum xs"
proof -
  have S: "0 \<le> exact_sum xs" using assms exact_sum_nonneg by auto
  show a: "dval (plain_sum xs) \<le> exact_sum xs + exact_sum xs / 2 ^ 32" and b: "exact_sum xs - exact_sum xs / 2 ^ 32 \<le> dval (plain_sum xs)"
    using plain_sum_error [OF assms] small_product [OF assms(1) S] by simp_all
  show "0 \<le> dval (plain_sum xs)" using b S by simp
  show "dval (plain_sum xs) \<le> 2 * exact_sum xs" using a S by simp
qed

text \<open>The error of one addition, as the compensation sees it.\<close>

lemma abs_near: "\<bar>y - v\<bar> \<le> \<bar>v\<bar> * u \<Longrightarrow> \<bar>v\<bar> \<le> w \<Longrightarrow> 0 \<le> u \<Longrightarrow> \<bar>y\<bar> \<le> w * (1 + u) \<and> \<bar>y - v\<bar> \<le> w * u" for u v w y :: rat
  using mult_right_mono [of "\<bar>v\<bar>" w u] abs_triangle_ineq [of v "y - v"] by (simp add: algebra_simps)

lemma residue_bound:
  assumes "0 \<le> dval x" "0 \<le> dval y"
  shows "\<bar>dval (dadd (dsub x (dadd x y)) y)\<bar> \<le> 3 * ulp * (dval x + dval y)"
proof -
  let ?t = "dadd x y" let ?r = "dsub x ?t" let ?s = "dval x + dval y"
  have s: "0 \<le> ?s" using assms by simp
  have t: "\<bar>dval ?t - ?s\<bar> \<le> ?s * ulp" using dadd_error [of x y] s by simp
  have "\<bar>dval x - dval ?t\<bar> \<le> \<bar>dval ?t - ?s\<bar> + \<bar>dval y\<bar>" by linarith
  then have d: "\<bar>dval x - dval ?t\<bar> \<le> ?s * ulp + ?s" using t assms by linarith
  have r: "\<bar>dval ?r - (dval x - dval ?t)\<bar> \<le> (?s * ulp + ?s) * ulp" using abs_near [OF dsub_error d] by simp
  have "\<bar>dval ?r + dval y\<bar> \<le> \<bar>dval ?r - (dval x - dval ?t)\<bar> + \<bar>dval ?t - ?s\<bar>" by linarith
  then have "\<bar>dval ?r + dval y\<bar> \<le> (?s * ulp + ?s) * ulp + ?s * ulp" using r t by linarith
  from abs_near [OF dadd_error this] have "\<bar>dval (dadd ?r y)\<bar> \<le> ((?s * ulp + ?s) * ulp + ?s * ulp) * (1 + ulp)" by simp
  also have "\<dots> = ?s * ((ulp + 1) * ulp + ulp) * (1 + ulp)" by (simp only: distrib_left distrib_right mult.assoc mult_1 mult_1_right)
  also have "\<dots> \<le> ?s * (3 * ulp)" unfolding mult.assoc by (intro mult_left_mono s) simp
  finally show ?thesis by (simp only: mult.commute)
qed

lemma dadd_commute: "dadd x y = dadd y x"
  by (simp add: dadd_def min.commute add.commute Let_def)

lemma sum_step_bound:
  assumes "0 \<le> dval f" "0 \<le> dval x"
  shows "\<bar>dval (snd (sum_step (f, c) x))\<bar> \<le> (\<bar>dval c\<bar> + 3 * ulp * (dval f + dval x)) * (1 + ulp)"
proof -
  define z where "z = (if dle (dabs x) (dabs f) then dadd (dsub f (dadd f x)) x else dadd (dsub x (dadd f x)) f)"
  have "\<bar>dval z\<bar> \<le> 3 * ulp * (dval f + dval x)"
    using residue_bound [of f x] residue_bound [of x f] assms by (simp add: z_def dadd_commute [of f x] add.commute)
  then have "\<bar>dval c + dval z\<bar> \<le> \<bar>dval c\<bar> + 3 * ulp * (dval f + dval x)" using abs_triangle_ineq [of "dval c" "dval z"] by linarith
  from abs_near [OF dadd_error this] show ?thesis by (simp add: sum_step_def Let_def z_def)
qed

lemma fst_sum_fold: "fst (foldl sum_step (dint 0, dint 0) xs) = plain_sum xs"
  by (induction xs rule: rev_induct) (simp_all add: sum_step_def split_def Let_def)

lemma comp_step:
  fixes u :: rat
  assumes u: "0 < u" "u \<le> 1 / 8" and pos: "0 \<le> S" "0 \<le> x" "0 \<le> n" and small: "u * (n * S) \<le> S / 8"
    and c: "c \<le> 8 * (u * (n * S))"
  shows "(c + 3 * u * (2 * S + x)) * (1 + u) \<le> 8 * (u * ((n + 1) * (S + x)))"
proof -
  have p: "0 \<le> u * S" "0 \<le> u * x" "0 \<le> u * (n * x)" using u pos by simp_all
  have "c + 3 * u * (2 * S + x) \<le> 8 * (u * (n * S)) + 6 * (u * S) + 3 * (u * x)" using c by (simp add: algebra_simps)
  then have "(c + 3 * u * (2 * S + x)) * (1 + u) \<le> (8 * (u * (n * S)) + 6 * (u * S) + 3 * (u * x)) * (1 + u)"
    using u by (intro mult_right_mono) simp_all
  also have "\<dots> = 8 * (u * (n * S)) + 6 * (u * S) + 3 * (u * x) + 8 * (u * (u * (n * S))) + u * (6 * (u * S) + 3 * (u * x))"
    by (simp add: algebra_simps)
  also have "\<dots> \<le> 8 * (u * (n * S)) + 6 * (u * S) + 3 * (u * x) + u * S + 1 / 8 * (6 * (u * S) + 3 * (u * x))"
  proof -
    have "u * (u * (n * S)) \<le> u * (S / 8)" using small u by (intro mult_left_mono) simp_all
    moreover have "u * (6 * (u * S) + 3 * (u * x)) \<le> 1 / 8 * (6 * (u * S) + 3 * (u * x))" using u p by (intro mult_right_mono) simp_all
    ultimately show ?thesis by linarith
  qed
  also have "\<dots> \<le> 8 * (u * ((n + 1) * (S + x)))" using p by (simp add: algebra_simps)
  finally show ?thesis .
qed

lemma compensation_bound:
  "length xs \<le> 2 ^ 20 \<Longrightarrow> \<forall>x\<in>set xs. 0 \<le> dval x \<Longrightarrow>
     \<bar>dval (snd (foldl sum_step (dint 0, dint 0) xs))\<bar> \<le> 8 * (ulp * (of_nat (length xs) * exact_sum xs))"
proof (induction xs rule: rev_induct)
  case (snoc x xs)
  let ?c = "snd (foldl sum_step (dint 0, dint 0) xs)"
  have xs: "length xs \<le> 2 ^ 20" "\<forall>x\<in>set xs. 0 \<le> dval x" and x: "0 \<le> dval x" using snoc.prems by simp_all
  have S: "0 \<le> exact_sum xs" by (rule exact_sum_nonneg [OF xs(2)])
  have small: "ulp * (of_nat (length xs) * exact_sum xs) \<le> exact_sum xs / 8" using small_product [OF xs(1) S] S by simp
  have "foldl sum_step (dint 0, dint 0) (xs @ [x]) = sum_step (plain_sum xs, ?c) x" by (simp flip: fst_sum_fold)
  then have "\<bar>dval (snd (foldl sum_step (dint 0, dint 0) (xs @ [x])))\<bar> \<le> (\<bar>dval ?c\<bar> + 3 * ulp * (dval (plain_sum xs) + dval x)) * (1 + ulp)"
    using sum_step_bound [OF plain_sum_range(3) [OF xs] x] by simp
  also have "\<dots> \<le> (\<bar>dval ?c\<bar> + 3 * ulp * (2 * exact_sum xs + dval x)) * (1 + ulp)"
    using plain_sum_range(4) [OF xs] by (intro mult_right_mono add_left_mono mult_left_mono add_right_mono) simp_all
  also have "\<dots> \<le> 8 * (ulp * ((of_nat (length xs) + 1) * (exact_sum xs + dval x)))"
    by (rule comp_step [OF _ _ S x _ small snoc.IH [OF xs]]) simp_all
  finally show ?case by (simp add: add.commute)
qed simp

lemma two_halves:
  fixes y a w s :: rat
  shows "y \<le> a + w \<Longrightarrow> a \<le> s + s / 2 ^ 29 \<Longrightarrow> w \<le> s / 2 ^ 29 \<Longrightarrow> y \<le> s + s / 2 ^ 28"
    "a - w \<le> y \<Longrightarrow> s - s / 2 ^ 29 \<le> a \<Longrightarrow> w \<le> s / 2 ^ 29 \<Longrightarrow> s - s / 2 ^ 28 \<le> y"
  by simp_all

lemma py_sum_range:
  assumes "length xs \<le> 2 ^ 20" "\<forall>x\<in>set xs. 0 \<le> dval x"
  shows "dval (py_sum xs) \<le> exact_sum xs + exact_sum xs / 2 ^ 28" "exact_sum xs - exact_sum xs / 2 ^ 28 \<le> dval (py_sum xs)"
proof -
  have S: "0 \<le> exact_sum xs" using assms exact_sum_nonneg by auto
  let ?c = "snd (foldl sum_step (dint 0, dint 0) xs)" and ?f = "dval (plain_sum xs)"
  have c: "\<bar>dval ?c\<bar> \<le> exact_sum xs / 2 ^ 30" using compensation_bound [OF assms] small_product [OF assms(1) S] by simp
  note f = plain_sum_range [OF assms]
  have p: "py_sum xs = (if mant ?c = 0 then plain_sum xs else dadd (plain_sum xs) ?c)" by (simp add: py_sum_def split_def Let_def flip: fst_sum_fold)
  have lo: "exact_sum xs - exact_sum xs / 2 ^ 29 \<le> ?f + dval ?c" and hi: "?f + dval ?c \<le> exact_sum xs + exact_sum xs / 2 ^ 29"
    using f(1,2) c S unfolding abs_le_iff by simp_all
  have pos: "0 \<le> ?f + dval ?c" using lo S by simp
  have "ulp * (?f + dval ?c) \<le> exact_sum xs / 2 ^ 29" using hi S by simp
  then have "dval (dadd (plain_sum xs) ?c) \<le> exact_sum xs + exact_sum xs / 2 ^ 28 \<and> exact_sum xs - exact_sum xs / 2 ^ 28 \<le> dval (dadd (plain_sum xs) ?c)"
    by (intro conjI two_halves(1) [OF dadd_range(1) [OF pos] hi] two_halves(2) [OF dadd_range(2) [OF pos] lo])
  then show "dval (py_sum xs) \<le> exact_sum xs + exact_sum xs / 2 ^ 28" "exact_sum xs - exact_sum xs / 2 ^ 28 \<le> dval (py_sum xs)"
    using f(1,2) S unfolding p by simp_all
qed

section \<open>Weighted shares\<close>

text \<open>A share of a total of weights, as the scores compute it.\<close>

definition share :: "double list \<Rightarrow> double list \<Rightarrow> double" where
  "share part all_ws = ddiv (plain_sum part) (py_sum all_ws)"

lemma quotient_range:
  fixes M S N T :: rat
  assumes "0 < S" "0 \<le> M" "N \<le> M + M / 2 ^ 32" "M - M / 2 ^ 32 \<le> N" "T \<le> S + S / 2 ^ 28" "S - S / 2 ^ 28 \<le> T"
  shows "N / T \<le> M / S * (1 + 1 / 2 ^ 27)" "M / S * (1 - 1 / 2 ^ 27) \<le> N / T"
proof -
  have T: "0 < T" using assms(1,6) by simp
  have N: "0 \<le> N" using assms(2,4) by simp
  have "N / T \<le> (M * (1 + 1 / 2 ^ 32)) / (S * (1 - 1 / 2 ^ 28))"
    using assms N T by (intro frac_le) (simp_all add: algebra_simps)
  also have "\<dots> = M / S * ((1 + 1 / 2 ^ 32) / (1 - 1 / 2 ^ 28))" by simp
  also have "\<dots> \<le> M / S * (1 + 1 / 2 ^ 27)" using assms(1,2) by (intro mult_left_mono) simp_all
  finally show "N / T \<le> M / S * (1 + 1 / 2 ^ 27)" .
  have "M / S * (1 - 1 / 2 ^ 27) \<le> M / S * ((1 - 1 / 2 ^ 32) / (1 + 1 / 2 ^ 28))"
    using assms(1,2) by (intro mult_left_mono) simp_all
  also have "\<dots> = (M * (1 - 1 / 2 ^ 32)) / (S * (1 + 1 / 2 ^ 28))" by simp
  also have "\<dots> \<le> N / T" using assms N T by (intro frac_le) (simp_all add: algebra_simps)
  finally show "M / S * (1 - 1 / 2 ^ 27) \<le> N / T" .
qed

lemma share_range:
  assumes "length part \<le> 2 ^ 20" "length ws \<le> 2 ^ 20" "\<forall>x\<in>set part. 0 \<le> dval x" "\<forall>x\<in>set ws. 0 \<le> dval x" "0 < exact_sum ws"
  defines "r \<equiv> exact_sum part / exact_sum ws"
  shows "dval (share part ws) \<le> r + r / 2 ^ 26" "r - r / 2 ^ 26 \<le> dval (share part ws)"
proof -
  have M: "0 \<le> exact_sum part" by (rule exact_sum_nonneg [OF assms(3)])
  have r: "0 \<le> r" using M assms(5) by (simp add: r_def)
  let ?q = "dval (plain_sum part) / dval (py_sum ws)"
  note t = py_sum_range [OF assms(2,4)] and n = plain_sum_range(1,2) [OF assms(1,3)]
  note q = quotient_range [OF assms(5) M n t, folded r_def]
  have "dval (py_sum ws) \<noteq> 0" using t(2) assms(5) by auto
  from ddiv_error [OF this] have e: "\<bar>dval (share part ws) - ?q\<bar> \<le> \<bar>?q\<bar> * ulp" by (simp add: share_def)
  have "0 \<le> r * (1 - 1 / 2 ^ 27)" using r by simp
  then have "0 \<le> ?q" using q(2) by linarith
  moreover have "r * (1 + 1 / 2 ^ 27) * ulp \<le> r / 2 ^ 28" using r by simp
  ultimately have "\<bar>?q\<bar> * ulp \<le> r / 2 ^ 28" using mult_right_mono [OF q(1), of ulp] by simp
  with e have "\<bar>dval (share part ws) - ?q\<bar> \<le> r / 2 ^ 28" by simp
  from abs_range [OF this] q r show "dval (share part ws) \<le> r + r / 2 ^ 26" "r - r / 2 ^ 26 \<le> dval (share part ws)" by simp_all
qed

section \<open>Rounding to six decimals\<close>

lemma nearest_one: "dval (nearest 1000000 1000000) = 1"
  by (simp add: double_defs dval_def power_int_def power_one_over)

lemma decimals_range:
  assumes "0 \<le> dval x" "dval x \<le> 1 + 1 / 2 ^ 26"
  shows "0 \<le> to_decimals 6 x" "to_decimals 6 x \<le> 1000000"
proof -
  have e: "\<bar>of_int (to_decimals 6 x) - dval x * 10 ^ 6\<bar> \<le> 1 / 2" by (rule to_decimals_error)
  have "(- 1 :: rat) < of_int (to_decimals 6 x)" "(of_int (to_decimals 6 x) :: rat) < 1000001"
    using abs_range [OF e] assms by simp_all
  then show "0 \<le> to_decimals 6 x" "to_decimals 6 x \<le> 1000000" by linarith+
qed

lemma six_decimals:
  assumes "0 \<le> m" "m \<le> 1000000"
  shows "0 \<le> dval (nearest m 1000000)" "dval (nearest m 1000000) \<le> 1" "\<bar>dval (nearest m 1000000) - of_int m / 1000000\<bar> \<le> ulp"
    "dval (nearest m 1000000) = 1 \<longleftrightarrow> m = 1000000"
proof -
  have e: "\<bar>dval (nearest m 1000000) - of_int m / 1000000\<bar> \<le> of_int m / 1000000 * ulp"
    using nearest_error [of 1000000 m] assms(1) by simp
  have "(of_int m :: rat) \<le> of_int 1000000" unfolding of_int_le_iff by (rule assms(2))
  then have m: "0 \<le> (of_int m :: rat)" "(of_int m :: rat) \<le> 1000000" using assms(1) by simp_all
  show "\<bar>dval (nearest m 1000000) - of_int m / 1000000\<bar> \<le> ulp" using e m by simp
  show "0 \<le> dval (nearest m 1000000)" using abs_range [OF e] m by simp
  have below: "dval (nearest m 1000000) < 1" if "m \<noteq> 1000000"
  proof -
    have "m \<le> 999999" using that assms(2) by simp
    then have "(of_int m :: rat) \<le> of_int 999999" unfolding of_int_le_iff .
    then show ?thesis using abs_range [OF e] by simp
  qed
  show "dval (nearest m 1000000) \<le> 1" using below nearest_one by (cases "m = 1000000") auto
  show "dval (nearest m 1000000) = 1 \<longleftrightarrow> m = 1000000" using below nearest_one by (cases "m = 1000000") auto
qed

lemma py_round_range:
  assumes "0 \<le> dval x" "dval x \<le> 1 + 1 / 2 ^ 26"
  shows "0 \<le> dval (py_round 6 x)" "dval (py_round 6 x) \<le> 1" "\<bar>dval (py_round 6 x) - dval x\<bar> \<le> 1 / 1900000"
    "dval x \<le> 1 - 1 / 1500000 \<Longrightarrow> dval (py_round 6 x) < 1" "1 - 1 / 2500000 \<le> dval x \<Longrightarrow> dval (py_round 6 x) = 1"
proof -
  note m = decimals_range [OF assms]
  note s = six_decimals [OF m]
  have p: "py_round 6 x = nearest (to_decimals 6 x) 1000000" by (simp add: py_round_def)
  have e: "\<bar>of_int (to_decimals 6 x) - dval x * 1000000\<bar> \<le> 1 / 2" using to_decimals_error [of 6 x] by simp
  show "0 \<le> dval (py_round 6 x)" "dval (py_round 6 x) \<le> 1" unfolding p by (rule s)+
  show "\<bar>dval (py_round 6 x) - dval x\<bar> \<le> 1 / 1900000" using s(3) e unfolding p abs_le_iff by simp
  show "dval (py_round 6 x) < 1" if "dval x \<le> 1 - 1 / 1500000"
  proof -
    have "(of_int (to_decimals 6 x) :: rat) < 1000000" using abs_range [OF e] that by simp
    then have "to_decimals 6 x \<noteq> 1000000" by auto
    then show ?thesis using s(2,4) unfolding p by (simp add: less_le)
  qed
  show "dval (py_round 6 x) = 1" if "1 - 1 / 2500000 \<le> dval x"
  proof -
    have "(999999 :: rat) < of_int (to_decimals 6 x)" using abs_range [OF e] that by simp
    then have "to_decimals 6 x = 1000000" using m by linarith
    then show ?thesis using s(4) unfolding p by simp
  qed
qed

end
