(* ===== verification/Fingerprint.thy ===== *)
theory Fingerprint
  imports Floats Compliance
begin

text \<open>
  \<open>domains/fingerprint\<close>: the fingerprints of the groups with their markers (\<open>entities.py\<close>, \<open>repository.py\<close>,
  \<open>service.py\<close>), and the routes that apply and dismiss proposals (\<open>router.py\<close>). The identifier of the
  \<open>n\<close>-th marker that an operation creates is \<open>ids n\<close>.
\<close>

section \<open>Entities\<close>

datatype marker_source = Manual_Marker | Statistical | Seed | Library

record marker =
  mk_id :: string
  mk_pattern :: string
  mk_display :: string
  mk_category :: string
  mk_weight :: double
  mk_source :: marker_source
  mk_confidence :: double
  mk_added_at :: instant
  mk_added_by :: string

record fingerprint =
  fp_id :: string
  fp_group_id :: string
  fp_group_name :: string
  fp_site_name :: string
  fp_account_name :: string
  fp_markers :: "marker list"
  fp_created_at :: instant
  fp_updated_at :: instant
  fp_created_by :: string

datatype suggestion_status = Pending | Accepted | Rejected

record suggestion =
  sg_id :: string
  sg_group_id :: string
  sg_name :: string
  sg_display :: string
  sg_score :: double
  sg_group_coverage :: double
  sg_outside_coverage :: double
  sg_in_group :: nat
  sg_outside :: nat
  sg_status :: suggestion_status
  sg_computed_at :: instant
  sg_generation :: string

record proposed_marker =
  pm_name :: string
  pm_display :: string
  pm_lift :: double
  pm_group_coverage :: double
  pm_outside_coverage :: double
  pm_in_group :: nat
  pm_outside :: nat
  pm_shared_with :: "string list"

datatype proposal_status = Proposed | Applied | Dismissed

record proposal =
  pr_group_id :: string
  pr_group_name :: string
  pr_group_size :: nat
  pr_markers :: "proposed_marker list"
  pr_quality :: double
  pr_total_groups :: nat
  pr_coverage_min :: double
  pr_outside_max :: double
  pr_lift_min :: double
  pr_top_k :: nat
  pr_status :: proposal_status
  pr_computed_at :: instant

text \<open>The group and site documents, and the agents with their group.\<close>

record group_doc =
  gr_source_id :: string
  gr_name :: "string option"
  gr_site_id :: string
  gr_site_name :: "string option"

record site_doc =
  si_source_id :: string
  si_account_name :: "string option"

record grouped_agent = agent +
  ag_group_id :: "string option"

record app_doc = installed_app +
  ap_active :: "bool option"
  ap_display :: "string option"

record fp_state =
  fs_fps :: "fingerprint list"
  fs_suggestions :: "suggestion list"
  fs_proposals :: "proposal list"
  fs_groups :: "group_doc list"
  fs_sites :: "site_doc list"
  fs_agents :: "grouped_agent list"
  fs_apps :: "app_doc list"

datatype fp_error = FingerprintNotFound string | FingerprintExists string | MarkerNotFound string | SuggestionNotFound string | ProposalNotFound

section \<open>repository.py\<close>

definition get_by_group_id :: "string \<Rightarrow> fp_state \<Rightarrow> fingerprint option" where
  "get_by_group_id g st = find (\<lambda>f. fp_group_id f = g) (fs_fps st)"

text \<open>The group identifier is unique: a second fingerprint is refused.\<close>

definition fp_create :: "fingerprint \<Rightarrow> fp_state \<Rightarrow> fp_state option" where
  "fp_create f st = (if list_ex (\<lambda>x. fp_group_id x = fp_group_id f) (fs_fps st) then None else Some (st\<lparr>fs_fps := fs_fps st @ [f]\<rparr>))"

definition list_fingerprints :: "nat \<Rightarrow> nat \<Rightarrow> fp_state \<Rightarrow> fingerprint list" where
  "list_fingerprints skip limit st =
     (let fs = drop skip (sort_key fp_group_id (fs_fps st)) in if 0 < limit then take limit fs else fs)"

text \<open>An update of the fingerprint of a group, and whether it changed a document.\<close>

definition fp_update :: "string \<Rightarrow> (fingerprint \<Rightarrow> fingerprint) \<Rightarrow> fp_state \<Rightarrow> bool \<times> fp_state" where
  "fp_update g f st = ((case get_by_group_id g st of Some x \<Rightarrow> f x \<noteq> x | None \<Rightarrow> False),
     st\<lparr>fs_fps := update_first (\<lambda>x. fp_group_id x = g) f (fs_fps st)\<rparr>)"

definition push_marker :: "instant \<Rightarrow> string \<Rightarrow> marker \<Rightarrow> fp_state \<Rightarrow> bool \<times> fp_state" where
  "push_marker now g m = fp_update g (\<lambda>x. x\<lparr>fp_markers := fp_markers x @ [m], fp_updated_at := now\<rparr>)"

definition set_marker :: "instant \<Rightarrow> string \<Rightarrow> string \<Rightarrow> (marker \<Rightarrow> marker) \<Rightarrow> fp_state \<Rightarrow> bool \<times> fp_state" where
  "set_marker now g mid f = fp_update g (\<lambda>x. x\<lparr>fp_markers := update_many (\<lambda>m. mk_id m = mid) f (fp_markers x), fp_updated_at := now\<rparr>)"

definition remove_marker :: "instant \<Rightarrow> string \<Rightarrow> string \<Rightarrow> fp_state \<Rightarrow> bool \<times> fp_state" where
  "remove_marker now g mid = fp_update g (\<lambda>x. x\<lparr>fp_markers := delete_many (\<lambda>m. mk_id m = mid) (fp_markers x), fp_updated_at := now\<rparr>)"

text \<open>\<open>{m.id: m for m in markers}\<close>, and the markers taken out of it in the order asked for.\<close>

definition marker_map :: "marker list \<Rightarrow> (string \<times> marker) list" where
  "marker_map ms = foldl (\<lambda>t m. AList.update (mk_id m) m t) [] ms"

fun pick_markers :: "string list \<Rightarrow> (string \<times> marker) list \<Rightarrow> marker list" where
  "pick_markers [] t = map snd t"
| "pick_markers (i # is) t = (case map_of t i of Some m \<Rightarrow> m # pick_markers is (AList.delete i t) | None \<Rightarrow> pick_markers is t)"

text \<open>Between the reading and the writing other workers run; the update asks that the number of markers is the same.\<close>

definition reorder_markers :: "(fp_state \<Rightarrow> fp_state) \<Rightarrow> instant \<Rightarrow> string \<Rightarrow> string list \<Rightarrow> fp_state \<Rightarrow> bool \<times> fp_state" where
  "reorder_markers others now g ordered st =
     (case get_by_group_id g st of
        None \<Rightarrow> (False, st)
      | Some f \<Rightarrow>
          if fp_markers f = [] then (False, st)
          else (let n = length (fp_markers f); ms = pick_markers ordered (marker_map (fp_markers f)); st1 = others st;
                    hit = (\<lambda>x. fp_group_id x = g \<and> length (fp_markers x) = n);
                    f1 = (\<lambda>x. x\<lparr>fp_markers := ms, fp_updated_at := now\<rparr>)
                in ((case find hit (fs_fps st1) of Some x \<Rightarrow> f1 x \<noteq> x | None \<Rightarrow> False),
                    st1\<lparr>fs_fps := update_first hit f1 (fs_fps st1)\<rparr>)))"

definition update_updated_at :: "instant \<Rightarrow> string \<Rightarrow> fp_state \<Rightarrow> fp_state" where
  "update_updated_at now g st = snd (fp_update g (\<lambda>x. x\<lparr>fp_updated_at := now\<rparr>) st)"

definition save_suggestions :: "string \<Rightarrow> string \<Rightarrow> suggestion list \<Rightarrow> fp_state \<Rightarrow> fp_state" where
  "save_suggestions generation g ss st =
     (if ss = [] then st\<lparr>fs_suggestions := delete_many (\<lambda>s. sg_group_id s = g \<and> sg_status s = Pending) (fs_suggestions st)\<rparr>
      else st\<lparr>fs_suggestions := delete_many (\<lambda>s. sg_group_id s = g \<and> sg_status s = Pending \<and> sg_generation s \<noteq> generation)
        (fs_suggestions st @ map (\<lambda>s. s\<lparr>sg_generation := generation\<rparr>) ss)\<rparr>)"

definition get_suggestions :: "string \<Rightarrow> fp_state \<Rightarrow> suggestion list" where
  "get_suggestions g st = take 500 (sort_key (\<lambda>s. - dval (sg_score s))
     (filter (\<lambda>s. sg_group_id s = g \<and> sg_status s \<noteq> Rejected) (fs_suggestions st)))"

definition get_suggestion_by_id :: "string \<Rightarrow> string \<Rightarrow> fp_state \<Rightarrow> suggestion option" where
  "get_suggestion_by_id g sid st = find (\<lambda>s. sg_id s = sid \<and> sg_group_id s = g) (fs_suggestions st)"

definition update_suggestion_status :: "string \<Rightarrow> string \<Rightarrow> suggestion_status \<Rightarrow> fp_state \<Rightarrow> fp_state" where
  "update_suggestion_status g sid status st =
     st\<lparr>fs_suggestions := update_first (\<lambda>s. sg_id s = sid \<and> sg_group_id s = g) (\<lambda>s. s\<lparr>sg_status := status\<rparr>) (fs_suggestions st)\<rparr>"

definition replace_proposal :: "proposal \<Rightarrow> proposal list \<Rightarrow> proposal list" where
  "replace_proposal p ps = (if list_ex (\<lambda>x. pr_group_id x = pr_group_id p) ps
     then update_first (\<lambda>x. pr_group_id x = pr_group_id p) (\<lambda>_. p) ps else ps @ [p])"

definition save_proposals :: "proposal list \<Rightarrow> fp_state \<Rightarrow> fp_state" where
  "save_proposals ps st = st\<lparr>fs_proposals := foldl (\<lambda>acc p. replace_proposal p acc) (fs_proposals st) ps\<rparr>"

definition list_proposals :: "bool \<Rightarrow> fp_state \<Rightarrow> proposal list" where
  "list_proposals show_dismissed st = take 1000 (sort_key (\<lambda>p. - dval (pr_quality p))
     (filter (\<lambda>p. show_dismissed \<or> pr_status p \<noteq> Dismissed) (fs_proposals st)))"

definition get_proposal :: "string \<Rightarrow> fp_state \<Rightarrow> proposal option" where
  "get_proposal g st = find (\<lambda>p. pr_group_id p = g) (fs_proposals st)"

definition update_proposal_status :: "string \<Rightarrow> proposal_status \<Rightarrow> fp_state \<Rightarrow> fp_state" where
  "update_proposal_status g status st =
     st\<lparr>fs_proposals := update_first (\<lambda>p. pr_group_id p = g) (\<lambda>p. p\<lparr>pr_status := status\<rparr>) (fs_proposals st)\<rparr>"

section \<open>service.py\<close>

definition text_or_empty :: "string option \<Rightarrow> string" where
  "text_or_empty v = (case v of Some s \<Rightarrow> s | None \<Rightarrow> [])"

definition resolve_group_meta :: "string \<Rightarrow> fp_state \<Rightarrow> string \<times> string \<times> string" where
  "resolve_group_meta g st =
     (case find (\<lambda>d. gr_source_id d = g) (fs_groups st) of
        None \<Rightarrow> ([], [], [])
      | Some d \<Rightarrow> (text_or_empty (gr_name d), text_or_empty (gr_site_name d),
          if gr_site_id d = [] then []
          else (case find (\<lambda>s. si_source_id s = gr_site_id d) (fs_sites st) of Some s \<Rightarrow> text_or_empty (si_account_name s) | None \<Rightarrow> [])))"

definition get_fingerprint :: "string \<Rightarrow> fp_state \<Rightarrow> fp_error + fingerprint \<times> fp_state" where
  "get_fingerprint g st =
     (case get_by_group_id g st of
        None \<Rightarrow> Inl (FingerprintNotFound g)
      | Some f \<Rightarrow>
          if fp_group_name f \<noteq> [] then Inr (f, st)
          else (let (name, site, account) = resolve_group_meta g st;
                    named = (\<lambda>x. x\<lparr>fp_group_name := name, fp_site_name := site, fp_account_name := account\<rparr>)
                in Inr (named f, if name = [] then st else snd (fp_update g named st))))"

definition new_fingerprint :: "instant \<Rightarrow> string \<Rightarrow> string \<Rightarrow> string \<Rightarrow> marker list \<Rightarrow> fp_state \<Rightarrow> fingerprint" where
  "new_fingerprint now fid g by_whom ms st =
     (let (name, site, account) = resolve_group_meta g st
      in \<lparr>fp_id = fid, fp_group_id = g, fp_group_name = name, fp_site_name = site, fp_account_name = account, fp_markers = ms,
          fp_created_at = now, fp_updated_at = now, fp_created_by = by_whom\<rparr>)"

text \<open>Other workers run between the check and the insertion; the unique index has the last word.\<close>

definition create_fingerprint :: "(fp_state \<Rightarrow> fp_state) \<Rightarrow> instant \<Rightarrow> string \<Rightarrow> string \<Rightarrow> fp_state \<Rightarrow> (fp_error + fingerprint) \<times> fp_state" where
  "create_fingerprint others now fid g st =
     (if get_by_group_id g st \<noteq> None then (Inl (FingerprintExists g), st)
      else (let st1 = others st; f = new_fingerprint now fid g ''system'' [] st
            in case fp_create f st1 of None \<Rightarrow> (Inl (FingerprintExists g), st1) | Some st2 \<Rightarrow> (Inr f, st2)))"

record marker_request =
  mr_pattern :: string
  mr_display :: string
  mr_category :: string
  mr_weight :: double
  mr_source :: marker_source

definition request_ok :: "marker_request \<Rightarrow> bool" where
  "request_ok r = (mr_pattern r \<noteq> [] \<and> length (mr_pattern r) \<le> 500 \<and> mr_display r \<noteq> [] \<and> length (mr_display r) \<le> 200 \<and>
     dle (nearest 1 10) (mr_weight r) \<and> dle (mr_weight r) (dint 2))"

definition add_marker :: "instant \<Rightarrow> string \<Rightarrow> string \<Rightarrow> marker_request \<Rightarrow> fp_state \<Rightarrow> fp_error + marker \<times> fp_state" where
  "add_marker now mid g r st =
     (case get_by_group_id g st of
        None \<Rightarrow> Inl (FingerprintNotFound g)
      | Some _ \<Rightarrow>
          (let m = \<lparr>mk_id = mid, mk_pattern = mr_pattern r, mk_display = mr_display r, mk_category = mr_category r, mk_weight = mr_weight r,
                mk_source = mr_source r, mk_confidence = dint 1, mk_added_at = now, mk_added_by = ''user''\<rparr>
           in Inr (m, snd (push_marker now g m st))))"

record marker_update =
  mu_weight :: "double option"
  mu_pattern :: "string option"
  mu_display :: "string option"

definition apply_update :: "marker_update \<Rightarrow> marker \<Rightarrow> marker" where
  "apply_update u m = m\<lparr>mk_weight := (case mu_weight u of Some w \<Rightarrow> w | None \<Rightarrow> mk_weight m),
     mk_pattern := (case mu_pattern u of Some p \<Rightarrow> p | None \<Rightarrow> mk_pattern m),
     mk_display := (case mu_display u of Some d \<Rightarrow> d | None \<Rightarrow> mk_display m)\<rparr>"

definition update_marker :: "instant \<Rightarrow> string \<Rightarrow> string \<Rightarrow> marker_update \<Rightarrow> fp_state \<Rightarrow> (fp_error + marker) \<times> fp_state" where
  "update_marker now g mid u st =
     (case get_by_group_id g st of
        None \<Rightarrow> (Inl (FingerprintNotFound g), st)
      | Some f \<Rightarrow>
          if find (\<lambda>m. mk_id m = mid) (fp_markers f) = None then (Inl (MarkerNotFound mid), st)
          else (let changes = (mu_weight u \<noteq> None \<or> mu_pattern u \<noteq> None \<or> mu_display u \<noteq> None);
                    (modified, st1) = (if changes then set_marker now g mid (apply_update u) st else (True, st))
                in if \<not> modified then (Inl (MarkerNotFound mid), st1)
                   else case get_by_group_id g st1 of
                       None \<Rightarrow> (Inl (FingerprintNotFound g), st1)
                     | Some f1 \<Rightarrow> (case find (\<lambda>m. mk_id m = mid) (fp_markers f1) of
                         None \<Rightarrow> (Inl (MarkerNotFound mid), st1) | Some m \<Rightarrow> (Inr m, st1))))"

definition delete_marker :: "instant \<Rightarrow> string \<Rightarrow> string \<Rightarrow> fp_state \<Rightarrow> fp_error + fp_state" where
  "delete_marker now g mid st =
     (case get_by_group_id g st of
        None \<Rightarrow> Inl (FingerprintNotFound g)
      | Some f \<Rightarrow> if list_ex (\<lambda>m. mk_id m = mid) (fp_markers f) then Inr (snd (remove_marker now g mid st)) else Inl (MarkerNotFound mid))"

definition reorder :: "(fp_state \<Rightarrow> fp_state) \<Rightarrow> instant \<Rightarrow> string \<Rightarrow> string list \<Rightarrow> fp_state \<Rightarrow> fp_error + fp_state" where
  "reorder others now g ordered st =
     (case get_by_group_id g st of None \<Rightarrow> Inl (FingerprintNotFound g) | Some _ \<Rightarrow> Inr (snd (reorder_markers others now g ordered st)))"

section \<open>Export and import\<close>

record export_marker =
  xm_pattern :: string
  xm_display :: string
  xm_category :: string
  xm_weight :: double
  xm_source :: marker_source
  xm_confidence :: double

type_synonym export_item = "string \<times> export_marker list"

definition export_of :: "marker \<Rightarrow> export_marker" where
  "export_of m = \<lparr>xm_pattern = mk_pattern m, xm_display = mk_display m, xm_category = mk_category m, xm_weight = mk_weight m,
     xm_source = mk_source m, xm_confidence = mk_confidence m\<rparr>"

definition export_all_fingerprints :: "fp_state \<Rightarrow> export_item list" where
  "export_all_fingerprints st = map (\<lambda>f. (fp_group_id f, map export_of (fp_markers f))) (list_fingerprints 0 10000 st)"

definition imported_marker :: "instant \<Rightarrow> string \<Rightarrow> export_marker \<Rightarrow> marker" where
  "imported_marker now mid x = \<lparr>mk_id = mid, mk_pattern = xm_pattern x, mk_display = xm_display x, mk_category = xm_category x,
     mk_weight = xm_weight x, mk_source = xm_source x, mk_confidence = xm_confidence x, mk_added_at = now, mk_added_by = ''import''\<rparr>"

definition import_markers :: "instant \<Rightarrow> (nat \<Rightarrow> string) \<Rightarrow> export_marker list \<Rightarrow> marker list" where
  "import_markers now ids xs = map (\<lambda>(i, x). imported_marker now (ids i) x) (enumerate 0 xs)"

text \<open>One marker of a merge: the weight of a marker with this pattern is set, a new pattern is added.\<close>

definition merge_marker ::
  "instant \<Rightarrow> string \<Rightarrow> (string \<times> marker) list \<Rightarrow> fp_state \<times> bool \<Rightarrow> string \<times> export_marker \<Rightarrow> fp_state \<times> bool" where
  "merge_marker now g existing sc ix =
     (let (st, changed) = sc; (mid, x) = ix
      in case map_of existing (xm_pattern x) of
           Some m \<Rightarrow> if \<not> deq (mk_weight m) (xm_weight x)
             then (snd (set_marker now g (mk_id m) (\<lambda>y. y\<lparr>mk_weight := xm_weight x\<rparr>) st), True) else (st, changed)
         | None \<Rightarrow> (snd (push_marker now g (imported_marker now mid x) st), True))"

definition by_pattern :: "marker list \<Rightarrow> (string \<times> marker) list" where
  "by_pattern ms = foldl (\<lambda>t m. AList.update (mk_pattern m) m t) [] ms"

record import_result =
  im_imported :: nat
  im_skipped :: nat
  im_errors :: nat

definition import_item ::
  "instant \<Rightarrow> bool \<Rightarrow> (nat \<Rightarrow> string) \<Rightarrow> export_item \<Rightarrow> fp_state \<times> import_result \<Rightarrow> fp_state \<times> import_result" where
  "import_item now replacing ids item acc =
     (let (g, xs) = item; (st, r) = acc; done1 = r\<lparr>im_imported := Suc (im_imported r)\<rparr>
      in if \<not> list_ex (\<lambda>d. gr_source_id d = g) (fs_groups st) then (st, r\<lparr>im_skipped := Suc (im_skipped r)\<rparr>)
         else case get_by_group_id g st of
             None \<Rightarrow> (case fp_create (new_fingerprint now (ids (length xs)) g ''import'' (import_markers now ids xs) st) st of
                 None \<Rightarrow> (st, r\<lparr>im_errors := Suc (im_errors r)\<rparr>) | Some st1 \<Rightarrow> (st1, done1))
           | Some f \<Rightarrow>
               if replacing then (snd (fp_update g (\<lambda>x. x\<lparr>fp_markers := import_markers now ids xs, fp_updated_at := now\<rparr>) st), done1)
               else (let (st1, changed) = foldl (merge_marker now g (by_pattern (fp_markers f))) (st, False)
                          (map (\<lambda>(i, x). (ids i, x)) (enumerate 0 xs))
                     in (if changed then update_updated_at now g st1 else st1, done1)))"

definition import_fingerprints ::
  "instant \<Rightarrow> bool \<Rightarrow> (nat \<Rightarrow> nat \<Rightarrow> string) \<Rightarrow> export_item list \<Rightarrow> fp_state \<Rightarrow> fp_state \<times> import_result" where
  "import_fingerprints now replacing ids items st =
     foldl (\<lambda>acc (i, item). import_item now replacing (ids i) item acc)
       (st, \<lparr>im_imported = 0, im_skipped = 0, im_errors = 0\<rparr>) (enumerate 0 items)"

section \<open>Suggestions and proposals\<close>

definition statistical_marker :: "instant \<Rightarrow> string \<Rightarrow> string \<Rightarrow> string \<Rightarrow> double \<Rightarrow> marker" where
  "statistical_marker now mid name display lift = \<lparr>mk_id = mid, mk_pattern = name, mk_display = display, mk_category = ''name_pattern'',
     mk_weight = dint 1, mk_source = Statistical, mk_confidence = dmin (dint 1) (ddiv lift (dint 20)), mk_added_at = now,
     mk_added_by = ''system''\<rparr>"

definition accept_suggestion :: "instant \<Rightarrow> string \<Rightarrow> string \<Rightarrow> string \<Rightarrow> fp_state \<Rightarrow> fp_error + fp_state" where
  "accept_suggestion now mid g sid st =
     (if get_by_group_id g st = None then Inl (FingerprintNotFound g)
      else case get_suggestion_by_id g sid st of
          None \<Rightarrow> Inl (SuggestionNotFound sid)
        | Some s \<Rightarrow> Inr (snd (push_marker now g (statistical_marker now mid (sg_name s) (sg_display s) (sg_score s))
            (update_suggestion_status g sid Accepted st))))"

definition reject_suggestion :: "string \<Rightarrow> string \<Rightarrow> fp_state \<Rightarrow> fp_error + fp_state" where
  "reject_suggestion g sid st =
     (if get_suggestion_by_id g sid st = None then Inl (SuggestionNotFound sid) else Inr (update_suggestion_status g sid Rejected st))"

text \<open>The proposed markers whose pattern is new, and the number of the others.\<close>

fun new_markers :: "instant \<Rightarrow> (nat \<Rightarrow> string) \<Rightarrow> string list \<Rightarrow> proposed_marker list \<Rightarrow> marker list \<times> nat" where
  "new_markers now ids known [] = ([], 0)"
| "new_markers now ids known (p # ps) =
     (if pm_name p \<in> set known then (let (ms, n) = new_markers now ids known ps in (ms, Suc n))
      else (let (ms, n) = new_markers now (\<lambda>i. ids (Suc i)) (pm_name p # known) ps
            in (statistical_marker now (ids 0) (pm_name p) (pm_display p) (pm_lift p) # ms, n)))"

definition apply_proposal :: "instant \<Rightarrow> (nat \<Rightarrow> string) \<Rightarrow> string \<Rightarrow> fp_state \<Rightarrow> fp_error + (nat \<times> nat) \<times> fp_state" where
  "apply_proposal now ids g st =
     (case get_proposal g st of
        None \<Rightarrow> Inl ProposalNotFound
      | Some p \<Rightarrow> (case get_by_group_id g st of
          None \<Rightarrow> Inl (FingerprintNotFound g)
        | Some f \<Rightarrow>
            (let (ms, skipped) = new_markers now ids (map mk_pattern (fp_markers f)) (pr_markers p);
                 st1 = (if ms = [] then st else snd (fp_update g (\<lambda>x. x\<lparr>fp_markers := fp_markers x @ ms\<rparr>) st))
             in Inr ((length ms, skipped), update_proposal_status g Applied st1))))"

definition dismiss_proposal :: "string \<Rightarrow> fp_state \<Rightarrow> fp_error + fp_state" where
  "dismiss_proposal g st = (if get_proposal g st = None then Inl ProposalNotFound else Inr (update_proposal_status g Dismissed st))"

end
