(* ===== verification/Suggestions.thy ===== *)
theory Suggestions
  imports Fingerprint ComplianceChecks
begin

text \<open>
  The suggestions for one group (\<open>compute_suggestions\<close> of \<open>domains/fingerprint/matcher.py\<close>) and the proposals for
  all groups (\<open>auto_proposer.py\<close>): applications that are more frequent in a group than in the fleet. Groups of an
  aggregation come in the order of their first document. Identifiers of new suggestions are \<open>ids n\<close>.
\<close>

section \<open>matcher.py\<close>

definition TOP_N :: nat where
  "TOP_N = 200"

text \<open>\<open>active_match_stage\<close> of \<open>domains/sync/app_filters.py\<close>.\<close>

definition active_app :: "app_doc \<Rightarrow> bool" where
  "active_app a = (ap_active a \<noteq> Some False)"

text \<open>The number of agents among those given (all, if none are) that have an application.\<close>

definition agents_with :: "string list option \<Rightarrow> string \<Rightarrow> app_doc list \<Rightarrow> nat" where
  "agents_with ids name apps = length (remdups (map ia_agent_id (filter (\<lambda>a. active_app a \<and> ia_name a = name \<and>
     (case ids of Some is \<Rightarrow> ia_agent_id a \<in> set is | None \<Rightarrow> True)) apps)))"

definition group_apps :: "string list \<Rightarrow> app_doc list \<Rightarrow> app_doc list" where
  "group_apps ids apps = filter (\<lambda>a. active_app a \<and> ia_agent_id a \<in> set ids) apps"

definition lift_score :: "nat \<Rightarrow> nat \<Rightarrow> nat \<Rightarrow> nat \<Rightarrow> double" where
  "lift_score in_group group_n df fleet_n =
     (let base = (if 0 < fleet_n then nearest (int df) (int fleet_n) else dint 0)
      in if dlt (dint 0) base then dmin (ddiv (nearest (int in_group) (int group_n)) base) (dint 99) else dint 0)"

definition share_of :: "nat \<Rightarrow> nat \<Rightarrow> double" where
  "share_of n d = (if 0 < d then nearest (int n) (int d) else dint 0)"

definition suggestion_for ::
  "instant \<Rightarrow> string \<Rightarrow> string list \<Rightarrow> nat \<Rightarrow> string list \<Rightarrow> app_doc list \<Rightarrow> nat \<times> string \<Rightarrow> suggestion option" where
  "suggestion_for now g ids fleet_n patterns apps row =
     (let (n, name) = row; in_n = agents_with (Some ids) name apps; df = agents_with None name apps; out_n = df - in_n;
          group_n = length ids; score = lift_score in_n group_n df fleet_n;
          display = (case find (\<lambda>a. ia_name a = name) (group_apps ids apps) of Some a \<Rightarrow> text_or_empty (ap_display a) | None \<Rightarrow> [])
      in if list_ex (\<lambda>p. matches_pattern p name) patterns \<or> dle score (dint 0) then None
         else Some \<lparr>sg_id = [], sg_group_id = g, sg_name = name, sg_display = (if display = [] then name else display),
           sg_score = py_round 6 score, sg_group_coverage = py_round 4 (nearest (int in_n) (int group_n)),
           sg_outside_coverage = py_round 4 (share_of out_n (fleet_n - group_n)), sg_in_group = in_n, sg_outside = out_n,
           sg_status = Pending, sg_computed_at = now, sg_generation = []\<rparr>)"

definition existing_patterns :: "string \<Rightarrow> fp_state \<Rightarrow> string list" where
  "existing_patterns g st = (case get_by_group_id g st of Some f \<Rightarrow> map (\<lambda>m. lower (mk_pattern m)) (fp_markers f) | None \<Rightarrow> [])"

definition compute_suggestions :: "instant \<Rightarrow> string \<Rightarrow> fp_state \<Rightarrow> suggestion list" where
  "compute_suggestions now g st =
     (let docs = take 50000 (filter (\<lambda>a. ag_group_id a = Some g) (fs_agents st));
          ids = List.map_filter ag_source_id docs;
          names = take 50000 (group_keys (map ia_name (group_apps ids (fs_apps st))))
      in if ids = [] then []
         else take TOP_N (sort_key (\<lambda>s. - dval (sg_score s))
           (List.map_filter (suggestion_for now g ids (length (fs_agents st)) (existing_patterns g st) (fs_apps st)) (enumerate 0 names))))"

text \<open>The service numbers and stores them.\<close>

definition with_ids :: "(nat \<Rightarrow> string) \<Rightarrow> suggestion list \<Rightarrow> suggestion list" where
  "with_ids ids ss = map (\<lambda>(i, s). s\<lparr>sg_id := ids i\<rparr>) (enumerate 0 ss)"

definition compute_and_save :: "instant \<Rightarrow> (nat \<Rightarrow> string) \<Rightarrow> string \<Rightarrow> string \<Rightarrow> fp_state \<Rightarrow> suggestion list \<times> fp_state" where
  "compute_and_save now ids generation g st =
     (let ss = with_ids ids (compute_suggestions now g st) in (ss, save_suggestions generation g ss st))"

section \<open>auto_proposer.py\<close>

text \<open>The expression \<open>\s+(?:-\s*)?\d+\.\d+\.\d[\d.]*\s*$\<close> on the rest of a name.\<close>

definition version_suffix :: "string \<Rightarrow> bool" where
  "version_suffix s =
     (let t = dropWhile blank s;
          u = (case t of c # r \<Rightarrow> if c = CHR ''-'' then dropWhile blank r else t | [] \<Rightarrow> t);
          v = dropWhile is_digit u;
          w = (case v of c # r \<Rightarrow> dropWhile is_digit r | [] \<Rightarrow> []);
          rest = (case w of c # d # r \<Rightarrow> dropWhile (\<lambda>x. is_digit x \<or> x = CHR ''.'') r | _ \<Rightarrow> [])
      in s \<noteq> t \<and> takeWhile is_digit u \<noteq> [] \<and> (case v of c # r \<Rightarrow> c = CHR ''.'' \<and> takeWhile is_digit r \<noteq> [] | [] \<Rightarrow> False) \<and>
         (case w of c # d # r \<Rightarrow> c = CHR ''.'' \<and> is_digit d | _ \<Rightarrow> False) \<and> list_all blank rest)"

fun strip_version :: "string \<Rightarrow> string" where
  "strip_version [] = []"
| "strip_version (c # s) = (if version_suffix (c # s) then [] else c # strip_version s)"

definition normalize_app_name :: "string \<Rightarrow> string" where
  "normalize_app_name name = trim (strip_version name)"

text \<open>\<open>str.title\<close> on Latin-1: the first letter of a run of letters in upper case, the others in lower case.\<close>

definition is_letter :: "char \<Rightarrow> bool" where
  "is_letter c = (let n = (of_char c :: nat) in (65 \<le> n \<and> n \<le> 90) \<or> (97 \<le> n \<and> n \<le> 122) \<or> n = 170 \<or> n = 181 \<or> n = 186 \<or>
     (192 \<le> n \<and> n \<noteq> 215 \<and> n \<noteq> 247))"

definition upper_char :: "char \<Rightarrow> char" where
  "upper_char c = (let n = (of_char c :: nat)
     in if (97 \<le> n \<and> n \<le> 122) \<or> (224 \<le> n \<and> n \<le> 254 \<and> n \<noteq> 247) then char_of (n - 32) else c)"

fun title_from :: "bool \<Rightarrow> string \<Rightarrow> string" where
  "title_from inside [] = []"
| "title_from inside (c # s) = (if inside then lower_char c else upper_char c) # title_from (is_letter c) s"

definition to_display_name :: "string \<Rightarrow> string" where
  "to_display_name name = title_from False (replace_char (CHR ''_'') (CHR '' '') (replace_char (CHR ''-'') (CHR '' '') name))"

record thresholds =
  th_coverage_min :: double
  th_outside_max :: double
  th_lift_min :: double
  th_top_k :: nat

text \<open>The groups with their sizes and names.\<close>

definition fleet_groups :: "grouped_agent list \<Rightarrow> (string \<times> nat \<times> string) list" where
  "fleet_groups ags = map (\<lambda>g. (g, length (filter (\<lambda>a. ag_group_id a = Some g) ags),
       case find (\<lambda>a. ag_group_id a = Some g) ags of
         Some a \<Rightarrow> (case ag_group_name a of Some n \<Rightarrow> if n = [] then g else n | None \<Rightarrow> g) | None \<Rightarrow> g))
     (filter (\<lambda>g. g \<noteq> []) (group_keys (List.map_filter ag_group_id ags)))"

text \<open>The normalised names of the installed applications, one for each entry.\<close>

definition app_names :: "grouped_agent list \<Rightarrow> string list" where
  "app_names ags = filter (\<lambda>n. n \<noteq> []) (map normalize_app_name (concat (map installed_apps (filter (\<lambda>a. ag_group_id a \<noteq> None) ags))))"

definition group_names :: "string \<Rightarrow> grouped_agent list \<Rightarrow> string list" where
  "group_names g ags = app_names (filter (\<lambda>a. ag_group_id a = Some g) ags)"

definition LIFT_CAP :: double where
  "LIFT_CAP = dint 99"

definition candidate :: "thresholds \<Rightarrow> nat \<Rightarrow> nat \<Rightarrow> grouped_agent list \<Rightarrow> string \<Rightarrow> string \<Rightarrow> proposed_marker option" where
  "candidate th fleet_n group_n ags g app =
     (let in_n = occurrences (group_names g ags) app; df = occurrences (app_names ags) app;
          coverage = nearest (int in_n) (int group_n); base = nearest (int df) (int fleet_n);
          lift = (if dlt (dint 0) base then dmin (ddiv coverage base) LIFT_CAP else dint 0);
          outside = share_of (df - in_n) (fleet_n - group_n)
      in if dlt coverage (th_coverage_min th) \<or> dlt (th_outside_max th) outside \<or> dlt lift (th_lift_min th) then None
         else Some \<lparr>pm_name = app, pm_display = [], pm_lift = lift, pm_group_coverage = coverage, pm_outside_coverage = outside,
           pm_in_group = in_n, pm_outside = df - in_n, pm_shared_with = []\<rparr>)"

definition group_candidates :: "thresholds \<Rightarrow> nat \<Rightarrow> grouped_agent list \<Rightarrow> string \<times> nat \<times> string \<Rightarrow> proposed_marker list" where
  "group_candidates th fleet_n ags info = (let (g, n, _) = info
     in take (th_top_k th) (sort_key (\<lambda>c. - dval (pm_lift c))
       (List.map_filter (candidate th fleet_n n ags g) (group_keys (group_names g ags)))))"

definition finish_marker :: "(string \<times> proposed_marker list) list \<Rightarrow> string \<Rightarrow> proposed_marker \<Rightarrow> proposed_marker" where
  "finish_marker all_candidates g c = c\<lparr>pm_display := to_display_name (pm_name c), pm_lift := py_round 2 (pm_lift c),
     pm_group_coverage := py_round 4 (pm_group_coverage c), pm_outside_coverage := py_round 4 (pm_outside_coverage c),
     pm_shared_with := map fst (filter (\<lambda>(h, cs). h \<noteq> g \<and> list_ex (\<lambda>d. pm_name d = pm_name c) cs) all_candidates)\<rparr>"

definition quality :: "proposed_marker list \<Rightarrow> double" where
  "quality ms = (if ms = [] then dint 0 else py_round 2 (ddiv (py_sum (map pm_lift ms)) (dint (int (length ms)))))"

definition generate_proposals :: "instant \<Rightarrow> thresholds \<Rightarrow> grouped_agent list \<Rightarrow> proposal list" where
  "generate_proposals now th ags =
     (let groups = fleet_groups ags; fleet_n = sum_list (map (\<lambda>(_, n, _). n) groups);
          all_candidates = map (\<lambda>info. (fst info, group_candidates th fleet_n ags info)) groups
      in if fleet_n = 0 then []
         else sort_key (\<lambda>p. - dval (pr_quality p)) (map (\<lambda>((g, n, name), (_, cs)).
           (let ms = map (finish_marker all_candidates g) cs
            in \<lparr>pr_group_id = g, pr_group_name = name, pr_group_size = n, pr_markers = ms, pr_quality = quality ms,
                pr_total_groups = length groups, pr_coverage_min = th_coverage_min th, pr_outside_max = th_outside_max th,
                pr_lift_min = th_lift_min th, pr_top_k = th_top_k th, pr_status = Proposed, pr_computed_at = now\<rparr>))
           (zip groups all_candidates)))"

text \<open>The background task of the route: what it computes is stored.\<close>

definition run_proposal_generation :: "instant \<Rightarrow> thresholds \<Rightarrow> fp_state \<Rightarrow> fp_state" where
  "run_proposal_generation now th st = save_proposals (generate_proposals now th (fs_agents st)) st"

end
