(* ===== verification/Classification.thy ===== *)
theory Classification
  imports Suggestions Lease
begin

text \<open>
  \<open>domains/classification\<close>: scoring an agent against the fingerprints and the verdict (\<open>classify_single_agent\<close>), the
  run over all agents in batches (\<open>ClassificationManager\<close>), and the stored results. What the database does is an
  argument of a run: the agents that the \<open>n\<close>-th query sees, and which writes of the \<open>n\<close>-th batch fail.
\<close>

section \<open>Agents as they are stored\<close>

datatype doc_text = Absent | Null | Text string

record fleet_agent =
  oa_id :: string
  oa_source_id :: doc_text
  oa_hostname :: doc_text
  oa_group_id :: doc_text
  oa_group_name :: doc_text
  oa_installed :: "string list"

text \<open>\<open>doc.get(field, "")\<close>; a null does not pass the validation of the result.\<close>

definition valid_text :: "doc_text \<Rightarrow> string option" where
  "valid_text t = (case t of Absent \<Rightarrow> Some [] | Null \<Rightarrow> None | Text s \<Rightarrow> Some s)"

section \<open>Scores\<close>

record group_score =
  gs_group_id :: string
  gs_group_name :: string
  gs_score :: double
  gs_matched :: "string list"
  gs_missing :: "string list"

definition has_wildcard :: "string \<Rightarrow> bool" where
  "has_wildcard p = (CHR ''*'' \<in> set p \<or> CHR ''?'' \<in> set p)"

definition marker_matched :: "string list \<Rightarrow> marker \<Rightarrow> bool" where
  "marker_matched apps m = (if has_wildcard (mk_pattern m) then list_ex (matches_pattern (mk_pattern m)) apps
     else lower (mk_pattern m) \<in> set (map lower apps))"

definition score_fingerprint :: "string list \<Rightarrow> fingerprint \<Rightarrow> group_score" where
  "score_fingerprint apps f =
     (let ms = fp_markers f; all_ws = map mk_weight ms; hits = filter (marker_matched apps) ms;
          misses = filter (\<lambda>m. \<not> marker_matched apps m) ms;
          mk = (\<lambda>s yes no. \<lparr>gs_group_id = fp_group_id f, gs_group_name = fp_group_name f, gs_score = py_round 6 s,
            gs_matched = map mk_display yes, gs_missing = map mk_display no\<rparr>)
      in if ms = [] then mk (dint 0) [] []
         else if deq (py_sum all_ws) (dint 0) then mk (dint 0) [] ms
         else mk (share (map mk_weight hits) all_ws) hits misses)"

definition TOP_N_SCORES :: nat where
  "TOP_N_SCORES = 5"

definition top_scores :: "string list \<Rightarrow> fingerprint list \<Rightarrow> group_score list" where
  "top_scores apps fps = take TOP_N_SCORES (sort_key (\<lambda>s. - dval (gs_score s)) (map (score_fingerprint apps) fps))"

section \<open>The verdict\<close>

datatype verdict = Correct | Misclassified | Ambiguous | Unclassifiable

record class_config =
  classification_threshold :: double
  partial_threshold :: double
  ambiguity_gap :: double

text \<open>\<open>_SCORE_CLEAR\<close>, \<open>_SCORE_PARTIAL\<close>, \<open>_GAP_CLEAR\<close>.\<close>

definition default_thresholds :: class_config where
  "default_thresholds = \<lparr>classification_threshold = nearest 7 10, partial_threshold = nearest 4 10, ambiguity_gap = nearest 15 100\<rparr>"

definition score_gap :: "group_score list \<Rightarrow> double" where
  "score_gap top5 = (case top5 of [] \<Rightarrow> dint 0 | [b] \<Rightarrow> gs_score b | b # c # _ \<Rightarrow> dsub (gs_score b) (gs_score c))"

definition decide ::
  "class_config \<Rightarrow> string \<Rightarrow> string \<Rightarrow> group_score list \<Rightarrow> verdict \<times> (string \<times> string) option \<times> string list" where
  "decide cfg cur_id cur_name top5 =
     (case top5 of
        [] \<Rightarrow> (Unclassifiable, None, [''No fingerprints have been defined yet.''])
      | best # others \<Rightarrow>
          if dlt (gs_score best) (partial_threshold cfg)
          then (Unclassifiable, None, [''Best match score '' @ fixed2 (gs_score best) @ '' is below the minimum threshold of '' @
            fixed2 (partial_threshold cfg) @ ''.''])
          else (let gap = score_gap top5
                in if dle (classification_threshold cfg) (gs_score best) \<and> dle (ambiguity_gap cfg) gap
                   then (if gs_group_id best = cur_id then (Correct, None, [])
                         else (Misclassified, Some (gs_group_id best, gs_group_name best),
                           [''Agent is in group '' @ sq cur_name @ '' but best fingerprint match is '' @ sq (gs_group_name best) @
                            '' (score '' @ fixed2 (gs_score best) @ '').'']))
                   else (Ambiguous, None,
                     (if dlt (gs_score best) (classification_threshold cfg)
                      then [''Best match score '' @ fixed2 (gs_score best) @ '' is below the confident threshold of '' @
                        fixed2 (classification_threshold cfg) @ ''.''] else []) @
                     (if dlt gap (ambiguity_gap cfg) \<and> others \<noteq> []
                      then [''Gap between top two scores is '' @ fixed2 gap @ '', below the minimum gap of '' @
                        fixed2 (ambiguity_gap cfg) @ '' required for a confident verdict.''] else []))))"

record class_result =
  cr_run_id :: string
  cr_agent_id :: string
  cr_hostname :: string
  cr_group_id :: string
  cr_group_name :: string
  cr_scores :: "group_score list"
  cr_verdict :: verdict
  cr_suggested :: "(string \<times> string) option"
  cr_reasons :: "string list"
  cr_computed_at :: instant
  cr_acknowledged :: bool

text \<open>The installed applications: the list kept with the agent, or else the active application documents.\<close>

definition agent_apps :: "app_doc list \<Rightarrow> fleet_agent \<Rightarrow> string list" where
  "agent_apps apps a = (if oa_installed a \<noteq> [] then oa_installed a
     else (case valid_text (oa_source_id a) of
         Some i \<Rightarrow> filter (\<lambda>n. n \<noteq> []) (group_keys (map ia_name (filter (\<lambda>x. active_app x \<and> ia_agent_id x = i) apps)))
       | None \<Rightarrow> []))"

definition classify_single_agent ::
  "app_doc list \<Rightarrow> instant \<Rightarrow> string \<Rightarrow> fingerprint list \<Rightarrow> class_config \<Rightarrow> fleet_agent \<Rightarrow> class_result option" where
  "classify_single_agent apps now run_id fps cfg a =
     (case (valid_text (oa_source_id a), valid_text (oa_hostname a), valid_text (oa_group_id a), valid_text (oa_group_name a)) of
        (Some i, Some h, Some g, Some n) \<Rightarrow>
          (let top5 = top_scores (agent_apps apps a) fps; (v, sug, why) = decide cfg g n top5
           in Some \<lparr>cr_run_id = run_id, cr_agent_id = i, cr_hostname = h, cr_group_id = g, cr_group_name = n, cr_scores = top5,
                cr_verdict = v, cr_suggested = sug, cr_reasons = why, cr_computed_at = now, cr_acknowledged = False\<rparr>)
      | _ \<Rightarrow> None)"

section \<open>Stored results and runs\<close>

definition upsert_result :: "class_result \<Rightarrow> class_result list \<Rightarrow> class_result list" where
  "upsert_result r rs = (if list_ex (\<lambda>x. cr_agent_id x = cr_agent_id r) rs
     then update_first (\<lambda>x. cr_agent_id x = cr_agent_id r) (\<lambda>_. r) rs else rs @ [r])"

text \<open>The bulk write without order: the documents that fail are left out, the others are counted.\<close>

definition bulk_upsert_results :: "(class_result \<Rightarrow> bool) \<Rightarrow> class_result list \<Rightarrow> class_result list \<Rightarrow> nat \<times> class_result list" where
  "bulk_upsert_results failing rs stored =
     (let ok = filter (\<lambda>r. \<not> failing r) rs in (length ok, foldl (\<lambda>acc r. upsert_result r acc) stored ok))"

datatype class_run_status = RunRunning | RunCompleted | RunFailing

datatype log_line = FetchFailed "string option" | AgentFailed string | SomeFailed nat nat | BatchFailed | Crashed

record class_run =
  cn_id :: string
  cn_started_at :: instant
  cn_completed_at :: "instant option"
  cn_status :: class_run_status
  cn_trigger :: string
  cn_classified :: int
  cn_errors :: int
  cn_log :: "log_line list"

record class_state =
  ct_results :: "class_result list"
  ct_runs :: "class_run list"
  ct_locks :: lock_table
  ct_running :: bool \<comment> \<open>\<open>_running\<close> of this worker\<close>
  ct_current :: "string option"
  ct_lock :: "lock_obj option" \<comment> \<open>the lock this worker holds\<close>

definition get_result :: "string \<Rightarrow> class_state \<Rightarrow> class_result option" where
  "get_result i st = find (\<lambda>r. cr_agent_id r = i) (ct_results st)"

definition acknowledge :: "string \<Rightarrow> class_state \<Rightarrow> bool \<times> class_state" where
  "acknowledge i st = (list_ex (\<lambda>r. cr_agent_id r = i) (ct_results st),
     st\<lparr>ct_results := update_first (\<lambda>r. cr_agent_id r = i) (\<lambda>r. r\<lparr>cr_acknowledged := True\<rparr>) (ct_results st)\<rparr>)"

record result_filter =
  rf_page :: nat
  rf_limit :: nat
  rf_verdict :: "verdict option"
  rf_group :: "string option"
  rf_search :: "string option"
  rf_acknowledged :: "bool option"

definition accepts :: "result_filter \<Rightarrow> class_result \<Rightarrow> bool" where
  "accepts f r = ((case rf_verdict f of Some v \<Rightarrow> cr_verdict r = v | None \<Rightarrow> True) \<and>
     (case rf_group f of Some g \<Rightarrow> cr_group_id r = g | None \<Rightarrow> True) \<and>
     (case rf_search f of Some s \<Rightarrow> text_search s (cr_hostname r) | None \<Rightarrow> True) \<and>
     (case rf_acknowledged f of Some b \<Rightarrow> cr_acknowledged r = b | None \<Rightarrow> True))"

definition list_results :: "result_filter \<Rightarrow> class_state \<Rightarrow> class_result list \<times> nat" where
  "list_results f st = (let rs = filter (accepts f) (ct_results st)
     in (take (rf_limit f) (drop ((rf_page f - 1) * rf_limit f) (sort_key (\<lambda>r. - cr_computed_at r) rs)), length rs))"

definition verdict_count :: "verdict \<Rightarrow> class_state \<Rightarrow> nat" where
  "verdict_count v st = length (filter (\<lambda>r. cr_verdict r = v) (ct_results st))"

record overview =
  ov_all :: nat
  ov_correct :: nat
  ov_misclassified :: nat
  ov_ambiguous :: nat
  ov_unclassifiable :: nat
  ov_groups :: nat
  ov_last :: "instant option"

definition get_overview :: "group_doc list \<Rightarrow> class_state \<Rightarrow> overview" where
  "get_overview groups st = \<lparr>ov_all = verdict_count Correct st + verdict_count Misclassified st + verdict_count Ambiguous st +
       verdict_count Unclassifiable st, ov_correct = verdict_count Correct st, ov_misclassified = verdict_count Misclassified st,
     ov_ambiguous = verdict_count Ambiguous st, ov_unclassifiable = verdict_count Unclassifiable st, ov_groups = length groups,
     ov_last = (case sort_key uminus (map cr_computed_at (ct_results st)) of t # _ \<Rightarrow> Some t | [] \<Rightarrow> None)\<rparr>"

section \<open>The manager\<close>

definition acquire_dist_lock :: "bool \<Rightarrow> instant \<Rightarrow> string \<Rightarrow> class_state \<Rightarrow> bool \<times> class_state" where
  "acquire_dist_lock enabled now owner st =
     (if \<not> enabled then (True, st)
      else case lock_acquire now (new_lock ''classification_pipeline'' 3600 owner) (ct_locks st) of
          (True, lk, t) \<Rightarrow> (True, st\<lparr>ct_locks := t, ct_lock := Some lk\<rparr>)
        | (False, _, t) \<Rightarrow> (False, st\<lparr>ct_locks := t\<rparr>))"

definition release_dist_lock :: "class_state \<Rightarrow> class_state" where
  "release_dist_lock st = (case ct_lock st of None \<Rightarrow> st
     | Some lk \<Rightarrow> st\<lparr>ct_locks := snd (lock_release lk (ct_locks st)), ct_lock := None\<rparr>)"

definition save_run :: "class_run \<Rightarrow> class_state \<Rightarrow> class_state" where
  "save_run r st = st\<lparr>ct_runs := ct_runs st @ [r]\<rparr>"

definition update_run :: "string \<Rightarrow> (class_run \<Rightarrow> class_run) \<Rightarrow> class_state \<Rightarrow> class_state" where
  "update_run rid f st = st\<lparr>ct_runs := update_first (\<lambda>r. cn_id r = rid) f (ct_runs st)\<rparr>"

text \<open>\<open>trigger\<close>: refused (\<open>None\<close>) while a run is going on here or elsewhere. \<open>saved\<close> says whether the insertion of the run
  succeeds; its exception leaves the method.\<close>

definition trigger ::
  "bool \<Rightarrow> instant \<Rightarrow> string \<Rightarrow> string \<Rightarrow> string \<Rightarrow> bool \<Rightarrow> class_state \<Rightarrow> (unit + class_run option) \<times> class_state" where
  "trigger locks_enabled now owner run_id label saved st =
     (if ct_running st then (Inr None, st)
      else case acquire_dist_lock locks_enabled now owner st of
          (False, st1) \<Rightarrow> (Inr None, st1)
        | (True, st1) \<Rightarrow>
            (let run = \<lparr>cn_id = run_id, cn_started_at = now, cn_completed_at = None, cn_status = RunRunning, cn_trigger = label,
                   cn_classified = 0, cn_errors = 0, cn_log = []\<rparr>;
                 st2 = st1\<lparr>ct_running := True, ct_current := Some run_id\<rparr>
             in if saved then (Inr (Some run), save_run run st2) else (Inl (), st2)))"

section \<open>The run\<close>

record run_env =
  re_config :: "class_config option" \<comment> \<open>the stored configuration, if it could be loaded\<close>
  re_fingerprints :: "fingerprint list option"
  re_total :: "nat option"
  re_agents :: "nat \<Rightarrow> fleet_agent list option" \<comment> \<open>what the \<open>n\<close>-th query sees, if it succeeds\<close>
  re_failing :: "nat \<Rightarrow> (class_result \<Rightarrow> bool) option" \<comment> \<open>which writes of the \<open>n\<close>-th batch fail; \<open>None\<close> if the bulk write raises\<close>
  re_now :: "nat \<Rightarrow> instant"
  re_apps :: "app_doc list"

definition BATCH_SIZE :: nat where
  "BATCH_SIZE = 500"

definition agent_batch :: "string option \<Rightarrow> fleet_agent list \<Rightarrow> fleet_agent list" where
  "agent_batch last_seen ags =
     take BATCH_SIZE (sort_key oa_id (filter (\<lambda>a. case last_seen of Some i \<Rightarrow> i < oa_id a | None \<Rightarrow> True) ags))"

record run_acc =
  ra_results :: "class_result list"
  ra_processed :: "fleet_agent list"
  ra_classified :: int
  ra_errors :: int
  ra_log :: "log_line list"

definition agent_label :: "fleet_agent \<Rightarrow> string" where
  "agent_label a = (case oa_source_id a of Text s \<Rightarrow> s | Null \<Rightarrow> ''None'' | Absent \<Rightarrow> ''unknown'')"

definition classify_batch :: "(fleet_agent \<Rightarrow> class_result option) \<Rightarrow> fleet_agent list \<Rightarrow> run_acc \<Rightarrow> class_result list \<times> run_acc" where
  "classify_batch classify docs acc =
     (let rs = List.map_filter classify docs; bad = filter (\<lambda>a. classify a = None) docs
      in (rs, acc\<lparr>ra_processed := ra_processed acc @ docs, ra_classified := ra_classified acc + int (length rs),
            ra_errors := ra_errors acc + int (length bad), ra_log := ra_log acc @ map (\<lambda>a. AgentFailed (agent_label a)) bad\<rparr>))"

definition write_batch :: "(class_result \<Rightarrow> bool) option \<Rightarrow> class_result list \<Rightarrow> run_acc \<Rightarrow> run_acc" where
  "write_batch outcome rs acc =
     (if rs = [] then acc
      else case outcome of
          None \<Rightarrow> acc\<lparr>ra_errors := ra_errors acc + int (length rs), ra_classified := ra_classified acc - int (length rs),
            ra_log := ra_log acc @ [BatchFailed]\<rparr>
        | Some failing \<Rightarrow>
            (let (written, stored) = bulk_upsert_results failing rs (ra_results acc); lost = length rs - written
             in if 0 < lost
                then acc\<lparr>ra_results := stored, ra_errors := ra_errors acc + int lost, ra_classified := ra_classified acc - int lost,
                  ra_log := ra_log acc @ [SomeFailed lost (length rs)]\<rparr>
                else acc\<lparr>ra_results := stored\<rparr>))"

definition run_classify :: "run_env \<Rightarrow> string \<Rightarrow> nat \<Rightarrow> fleet_agent \<Rightarrow> class_result option" where
  "run_classify env run_id n = classify_single_agent (re_apps env) (re_now env n) run_id
     (case re_fingerprints env of Some fs \<Rightarrow> sort_key fp_group_id fs | None \<Rightarrow> [])
     (case re_config env of Some c \<Rightarrow> c | None \<Rightarrow> default_thresholds)"

text \<open>The loop over the batches; it need not end when agents keep being added.\<close>

partial_function (option) batch_loop :: "run_env \<Rightarrow> string \<Rightarrow> nat \<Rightarrow> string option \<Rightarrow> run_acc \<Rightarrow> run_acc option" where
  "batch_loop env run_id n last_seen acc =
     (case re_agents env n of
        None \<Rightarrow> Some (acc\<lparr>ra_errors := ra_errors acc + 1, ra_log := ra_log acc @ [FetchFailed last_seen]\<rparr>)
      | Some ags \<Rightarrow>
          (let docs = agent_batch last_seen ags
           in if docs = [] then Some acc
              else (let (rs, acc1) = classify_batch (run_classify env run_id n) docs acc; acc2 = write_batch (re_failing env n) rs acc1
                    in if length docs < BATCH_SIZE then Some acc2
                       else batch_loop env run_id (Suc n) (Some (oa_id (last docs))) acc2)))"

definition finish_run :: "string \<Rightarrow> instant \<Rightarrow> class_run_status \<Rightarrow> run_acc \<Rightarrow> class_state \<Rightarrow> class_state" where
  "finish_run run_id now status acc st =
     (let st1 = update_run run_id (\<lambda>r. r\<lparr>cn_status := status, cn_completed_at := Some now, cn_classified := ra_classified acc,
            cn_errors := ra_errors acc, cn_log := ra_log acc\<rparr>) (st\<lparr>ct_results := ra_results acc\<rparr>)
      in release_dist_lock (st1\<lparr>ct_running := False, ct_current := None\<rparr>))"

definition run_classification :: "run_env \<Rightarrow> instant \<Rightarrow> string \<Rightarrow> class_state \<Rightarrow> class_state option" where
  "run_classification env now run_id st =
     (let acc0 = \<lparr>ra_results = ct_results st, ra_processed = [], ra_classified = 0, ra_errors = 0, ra_log = []\<rparr>
      in case re_total env of
           None \<Rightarrow> Some (finish_run run_id now RunFailing (acc0\<lparr>ra_errors := 1, ra_log := [Crashed]\<rparr>) st)
         | Some n \<Rightarrow> if n = 0 then Some (finish_run run_id now RunCompleted acc0 st)
             else (case batch_loop env run_id 0 None acc0 of
                 None \<Rightarrow> None | Some acc \<Rightarrow> Some (finish_run run_id now RunCompleted acc st)))"

end
