(* ===== verification/ClassificationTheorems.thy ===== *)
theory ClassificationTheorems
  imports Classification
begin

text \<open>
  What a classification guarantees: the score of a fingerprint is the weight of the markers that are present, the
  verdict follows from the scores, a run classifies every agent that is there all the time exactly once, and its
  figures add up; and what it loses.
\<close>

section \<open>The score\<close>

text \<open>The declarative score: a marker is present if its pattern means one of the installed names.\<close>

definition present :: "string list \<Rightarrow> marker \<Rightarrow> bool" where
  "present apps m = (\<exists>a\<in>set apps. globs (mk_pattern m) a)"

definition weight_share :: "string list \<Rightarrow> marker list \<Rightarrow> rat" where
  "weight_share apps ms = (\<Sum>m\<leftarrow>filter (present apps) ms. dval (mk_weight m)) / (\<Sum>m\<leftarrow>ms. dval (mk_weight m))"

definition plain_names :: "string list \<Rightarrow> bool" where
  "plain_names apps = (\<forall>a\<in>set apps. newline \<notin> set a)"

lemma marker_matched_present: "plain_names apps \<Longrightarrow> marker_matched apps m \<longleftrightarrow> present apps m"
proof -
  assume p: "plain_names apps"
  have "matches_pattern (mk_pattern m) a \<longleftrightarrow> globs (mk_pattern m) a" if "a \<in> set apps" for a
    using p that by (intro matches_pattern_globs) (simp add: plain_names_def)
  then have "present apps m \<longleftrightarrow> (\<exists>a\<in>set apps. matches_pattern (mk_pattern m) a)" by (auto simp: present_def)
  then show ?thesis by (auto simp: marker_matched_def has_wildcard_def matches_pattern_def list_ex_iff)
qed

lemma filter_matched_present: "plain_names apps \<Longrightarrow> filter (marker_matched apps) ms = filter (present apps) ms"
  by (simp add: marker_matched_present cong: filter_cong)

lemma sum_filter_le: "\<forall>x\<in>set xs. 0 \<le> f x \<Longrightarrow> sum_list (map f (filter P xs)) \<le> sum_list (map f xs)" for f :: "'a \<Rightarrow> rat"
  by (induction xs) auto

lemma sum_filter_lt:
  fixes f :: "'a \<Rightarrow> rat"
  shows "\<forall>x\<in>set xs. 0 \<le> f x \<Longrightarrow> x \<in> set xs \<Longrightarrow> \<not> P x \<Longrightarrow> sum_list (map f (filter P xs)) + f x \<le> sum_list (map f xs)"
  using sum_filter_le [of xs f P] by (induction xs) (auto dest: sum_filter_le [of _ f P])

lemma score_of_markers:
  assumes "plain_names apps" "fp_markers f \<noteq> []" "length (fp_markers f) \<le> 2 ^ 20" "\<forall>m\<in>set (fp_markers f). 0 < dval (mk_weight m)"
  obtains s where "gs_score (score_fingerprint apps f) = py_round 6 s" "0 \<le> weight_share apps (fp_markers f)"
    "weight_share apps (fp_markers f) \<le> 1"
    "dval s \<le> weight_share apps (fp_markers f) + weight_share apps (fp_markers f) / 2 ^ 26"
    "weight_share apps (fp_markers f) - weight_share apps (fp_markers f) / 2 ^ 26 \<le> dval s"
proof -
  let ?ms = "fp_markers f" let ?hits = "filter (marker_matched apps) ?ms"
  let ?ws = "map mk_weight ?ms" and ?part = "map mk_weight ?hits"
  have ws: "length ?ws \<le> 2 ^ 20" "\<forall>x\<in>set ?ws. 0 \<le> dval x" using assms(3,4) by (auto simp: less_imp_le)
  have part: "length ?part \<le> 2 ^ 20" "\<forall>x\<in>set ?part. 0 \<le> dval x"
    using assms(3,4) order_trans [OF length_filter_le assms(3)] by (auto simp: less_imp_le)
  have pos: "0 < exact_sum ?ws"
  proof -
    obtain m ms where "?ms = m # ms" using assms(2) by (cases ?ms) auto
    moreover have "0 \<le> (\<Sum>m\<leftarrow>ms. dval (mk_weight m))" using assms(4) calculation by (intro sum_list_nonneg) (auto simp: less_imp_le)
    ultimately show ?thesis using assms(4) by (simp add: comp_def add_pos_nonneg)
  qed
  have r: "exact_sum ?part / exact_sum ?ws = weight_share apps ?ms"
    by (simp add: weight_share_def comp_def filter_matched_present [OF assms(1)])
  have "exact_sum ?part \<le> exact_sum ?ws"
    using sum_filter_le [of ?ms "\<lambda>m. dval (mk_weight m)" "marker_matched apps"] assms(4) by (simp add: comp_def less_imp_le)
  then have le1: "weight_share apps ?ms \<le> 1" unfolding r [symmetric] using pos by simp
  have ge0: "0 \<le> weight_share apps ?ms" unfolding r [symmetric] using exact_sum_nonneg [OF part(2)] pos by simp
  have "exact_sum ?ws / 2 ^ 28 < exact_sum ?ws" using pos by simp
  then have "0 < dval (py_sum ?ws)" using py_sum_range(2) [OF ws] by linarith
  then have "\<not> deq (py_sum ?ws) (dint 0)" by (simp add: deq_iff)
  then have "gs_score (score_fingerprint apps f) = py_round 6 (share ?part ?ws)"
    using assms(2) by (simp add: score_fingerprint_def Let_def)
  then show thesis using that share_range [OF part(1) ws(1) part(2) ws(2) pos] ge0 le1 unfolding r by blast
qed

text \<open>C26. The score of a fingerprint, computed in floating point over the markers whose patterns match, is between 0 and 1 and within
  a millionth of the weight of the markers that are present divided by the weight of all markers; it is 1 exactly when all markers
  are present. (For up to 50,000 markers with the weights that the API accepts, 0.1 to 2.)\<close>

theorem score_is_weight_share:
  "plain_names apps \<Longrightarrow> fp_markers f \<noteq> [] \<Longrightarrow> length (fp_markers f) \<le> 50000 \<Longrightarrow>
     (\<forall>m\<in>set (fp_markers f). 1 / 10 \<le> dval (mk_weight m) \<and> dval (mk_weight m) \<le> 2) \<Longrightarrow>
     0 \<le> dval (gs_score (score_fingerprint apps f)) \<and> dval (gs_score (score_fingerprint apps f)) \<le> 1 \<and>
     \<bar>dval (gs_score (score_fingerprint apps f)) - weight_share apps (fp_markers f)\<bar> \<le> 1 / 1000000 \<and>
     (dval (gs_score (score_fingerprint apps f)) = 1 \<longleftrightarrow> (\<forall>m\<in>set (fp_markers f). present apps m))"
proof -
  assume p: "plain_names apps" and ne: "fp_markers f \<noteq> []" and len: "length (fp_markers f) \<le> 50000"
    and ws: "\<forall>m\<in>set (fp_markers f). 1 / 10 \<le> dval (mk_weight m) \<and> dval (mk_weight m) \<le> 2"
  let ?ms = "fp_markers f" let ?r = "weight_share apps ?ms"
  have pos: "\<forall>m\<in>set ?ms. 0 < dval (mk_weight m)" using ws by fastforce
  obtain s where s: "gs_score (score_fingerprint apps f) = py_round 6 s" and r: "0 \<le> ?r" "?r \<le> 1"
    and close: "dval s \<le> ?r + ?r / 2 ^ 26" "?r - ?r / 2 ^ 26 \<le> dval s"
    using score_of_markers [OF p ne _ pos] len by auto
  have range: "0 \<le> dval s" "dval s \<le> 1 + 1 / 2 ^ 26" using close r by simp_all
  note rd = py_round_range [OF range]
  have "\<bar>dval s - ?r\<bar> \<le> 1 / 67108864" using close r unfolding abs_le_iff by simp
  then have near: "\<bar>dval (py_round 6 s) - ?r\<bar> \<le> 1 / 1000000" using rd(3) by linarith
  have full: "dval (py_round 6 s) = 1" if "\<forall>m\<in>set ?ms. present apps m"
  proof -
    have "filter (present apps) ?ms = ?ms" using that by (simp add: filter_id_conv)
    moreover have "0 < (\<Sum>m\<leftarrow>?ms. dval (mk_weight m))"
      using ne pos by (cases ?ms) (auto intro!: add_pos_nonneg sum_list_nonneg simp: less_imp_le)
    ultimately have "?r = 1" by (simp add: weight_share_def)
    then show ?thesis using rd(5) close by simp
  qed
  have part: "dval (py_round 6 s) \<noteq> 1" if "m \<in> set ?ms" "\<not> present apps m" for m
  proof -
    let ?S = "\<Sum>m\<leftarrow>?ms. dval (mk_weight m)"
    have S: "0 < ?S" using ne pos by (cases ?ms) (auto intro!: add_pos_nonneg sum_list_nonneg simp: less_imp_le)
    have "?S \<le> (\<Sum>m\<leftarrow>?ms. 2)" by (intro sum_list_mono) (use ws in auto)
    also have "\<dots> \<le> 100000" using len by (simp add: sum_list_triv)
    finally have big: "?S \<le> 100000" .
    have "(\<Sum>m\<leftarrow>filter (present apps) ?ms. dval (mk_weight m)) + dval (mk_weight m) \<le> ?S"
      using sum_filter_lt [of ?ms "\<lambda>m. dval (mk_weight m)" m "present apps"] pos that by (simp add: less_imp_le)
    then have "(\<Sum>m\<leftarrow>filter (present apps) ?ms. dval (mk_weight m)) \<le> ?S - 1 / 10" using ws that(1) by fastforce
    also have "\<dots> \<le> (1 - 1 / 1000000) * ?S" using big by simp
    finally have "?r \<le> 1 - 1 / 1000000" using S by (simp add: weight_share_def pos_divide_le_eq)
    then have "dval s \<le> 1 - 1 / 1500000" using close(1) by simp
    then show ?thesis using rd(4) by simp
  qed
  show ?thesis using rd(1,2) near full part unfolding s by blast
qed

lemma score_is_weight_share_witness:
  "\<exists>f :: fingerprint. dval (gs_score (score_fingerprint [''WinCC Runtime'', ''Notes''] f)) < 1 \<and> length (fp_markers f) = 2"
proof -
  let ?m = "\<lambda>p. \<lparr>mk_id = p, mk_pattern = p, mk_display = p, mk_category = [], mk_weight = dint 1, mk_source = Seed, mk_confidence = dint 1,
    mk_added_at = 0, mk_added_by = []\<rparr>"
  let ?f = "\<lparr>fp_id = [], fp_group_id = ''g'', fp_group_name = [], fp_site_name = [], fp_account_name = [],
    fp_markers = [?m ''wincc*'', ?m ''step7''], fp_created_at = 0, fp_updated_at = 0, fp_created_by = []\<rparr>"
  have "\<not> globs ''step7'' ''WinCC Runtime''" "\<not> globs ''step7'' ''Notes''"
    by (simp_all add: globs_literal lower_def lower_char_def)
  then have "\<not> present [''WinCC Runtime'', ''Notes''] (?m ''step7'')" by (simp add: present_def)
  moreover have "plain_names [''WinCC Runtime'', ''Notes'']" by (simp add: plain_names_def)
  ultimately have "dval (gs_score (score_fingerprint [''WinCC Runtime'', ''Notes''] ?f)) < 1"
    using score_is_weight_share [of "[''WinCC Runtime'', ''Notes'']" ?f] by (auto simp: less_le)
  then show ?thesis by (intro exI [of _ ?f]) simp
qed

section \<open>The verdict\<close>

lemma top_scores_sorted: "sorted (map (\<lambda>s. - dval (gs_score s)) (top_scores apps fps))"
  by (simp add: top_scores_def sorted_wrt_take flip: take_map)

lemma best_of_all:
  assumes "top_scores apps fps = b # rest"
  shows "\<exists>f\<in>set fps. b = score_fingerprint apps f" "f \<in> set fps \<Longrightarrow> dval (gs_score (score_fingerprint apps f)) \<le> dval (gs_score b)"
proof -
  let ?ss = "sort_key (\<lambda>s. - dval (gs_score s)) (map (score_fingerprint apps) fps)"
  obtain rest' where ss: "?ss = b # rest'" using assms by (cases ?ss) (auto simp: top_scores_def TOP_N_SCORES_def)
  have "set ?ss = score_fingerprint apps ` set fps" by simp
  with ss show "\<exists>f\<in>set fps. b = score_fingerprint apps f" by (metis image_iff list.set_intros(1))
  have "sorted (map (\<lambda>s. - dval (gs_score s)) (b # rest'))" by (simp flip: ss)
  moreover assume "f \<in> set fps"
  then have "score_fingerprint apps f \<in> set (b # rest')" by (simp flip: ss)
  ultimately show "dval (gs_score (score_fingerprint apps f)) \<le> dval (gs_score b)" by auto
qed

lemma top_scores_Nil: "top_scores apps fps = [] \<longleftrightarrow> fps = []"
proof -
  have "length (top_scores apps fps) = min TOP_N_SCORES (length fps)" by (simp add: top_scores_def)
  then show ?thesis by (metis TOP_N_SCORES_def length_0_conv min_0R min_def numeral_eq_Suc nat.distinct(1))
qed



section \<open>Batches\<close>

definition after :: "string option \<Rightarrow> string \<Rightarrow> bool" where
  "after l i = (case l of Some j \<Rightarrow> j < i | None \<Rightarrow> True)"

lemma agent_batch_after: "agent_batch l ags = take BATCH_SIZE (sort_key oa_id (filter (\<lambda>a. after l (oa_id a)) ags))"
  by (simp add: agent_batch_def after_def)

lemma agent_batch_subset: "set (agent_batch l ags) \<subseteq> {a \<in> set ags. after l (oa_id a)}"
  using set_take_subset by (fastforce simp: agent_batch_after)

lemma agent_batch_sorted: "sorted (map oa_id (agent_batch l ags))"
  by (simp add: agent_batch_after sorted_wrt_take flip: take_map)

lemma agent_batch_distinct: "distinct (map oa_id ags) \<Longrightarrow> distinct (map oa_id (agent_batch l ags))"
  by (auto simp: agent_batch_after distinct_map intro!: distinct_take inj_on_subset [OF _ set_take_subset])
    (auto simp: inj_on_def)

lemma agent_batch_short: "length (agent_batch l ags) < BATCH_SIZE \<Longrightarrow> set (agent_batch l ags) = {a \<in> set ags. after l (oa_id a)}"
  by (auto simp: agent_batch_after)

lemma agent_batch_last: "agent_batch l ags \<noteq> [] \<Longrightarrow> a \<in> set (agent_batch l ags) \<Longrightarrow> oa_id a \<le> oa_id (last (agent_batch l ags))"
  using agent_batch_sorted [of l ags] by (cases "agent_batch l ags" rule: rev_cases) (auto simp: sorted_append)

lemma agent_batch_rest:
  "a \<in> set ags \<Longrightarrow> after l (oa_id a) \<Longrightarrow> oa_id a \<notin> oa_id ` set (agent_batch l ags) \<Longrightarrow> agent_batch l ags \<noteq> [] \<Longrightarrow>
     after (Some (oa_id (last (agent_batch l ags)))) (oa_id a)"
proof -
  assume a: "a \<in> set ags" "after l (oa_id a)" "oa_id a \<notin> oa_id ` set (agent_batch l ags)" and ne: "agent_batch l ags \<noteq> []"
  let ?xs = "sort_key oa_id (filter (\<lambda>a. after l (oa_id a)) ags)"
  have "a \<in> set ?xs" using a by simp
  then have "a \<in> set (drop BATCH_SIZE ?xs)" using a(3) by (metis UnE agent_batch_after append_take_drop_id imageI set_append)
  moreover have "last (agent_batch l ags) \<in> set (take BATCH_SIZE ?xs)" using ne by (simp add: agent_batch_after)
  moreover have "sorted (map oa_id (take BATCH_SIZE ?xs @ drop BATCH_SIZE ?xs))" by simp
  ultimately have "oa_id (last (agent_batch l ags)) \<le> oa_id a" by (simp only: map_append sorted_append) auto
  moreover have "oa_id (last (agent_batch l ags)) \<noteq> oa_id a" using a(3) ne by (metis imageI last_in_set)
  ultimately show ?thesis by (simp add: after_def)
qed

lemma after_mono: "after l j \<Longrightarrow> after (Some j) i \<Longrightarrow> after l i"
  by (auto simp: after_def split: option.splits)

text \<open>One round of the loop.\<close>

definition batch_step :: "run_env \<Rightarrow> string \<Rightarrow> nat \<Rightarrow> fleet_agent list \<Rightarrow> run_acc \<Rightarrow> run_acc" where
  "batch_step env run_id n docs acc = (let (rs, acc1) = classify_batch (run_classify env run_id n) docs acc in write_batch (re_failing env n) rs acc1)"

lemma batch_loop_step:
  "batch_loop env run_id n l acc =
     (case re_agents env n of
        None \<Rightarrow> Some (acc\<lparr>ra_errors := ra_errors acc + 1, ra_log := ra_log acc @ [FetchFailed l]\<rparr>)
      | Some ags \<Rightarrow>
          (let docs = agent_batch l ags
           in if docs = [] then Some acc
              else if length docs < BATCH_SIZE then Some (batch_step env run_id n docs acc)
              else batch_loop env run_id (Suc n) (Some (oa_id (last docs))) (batch_step env run_id n docs acc)))"
  by (subst batch_loop.simps) (simp add: batch_step_def Let_def split_def split: option.splits)

lemma batch_step_processed [simp]: "ra_processed (batch_step env run_id n docs acc) = ra_processed acc @ docs"
  by (simp add: batch_step_def classify_batch_def write_batch_def Let_def split_def split: option.splits)

text \<open>A relation between what goes in and what comes out that every round respects holds of the loop.\<close>

lemma batch_loop_rule:
  assumes "batch_loop env run_id n l acc = Some res"
    "\<And>n l acc. re_agents env n = None \<Longrightarrow> P n l acc (acc\<lparr>ra_errors := ra_errors acc + 1, ra_log := ra_log acc @ [FetchFailed l]\<rparr>)"
    "\<And>n l acc ags. re_agents env n = Some ags \<Longrightarrow> agent_batch l ags = [] \<Longrightarrow> P n l acc acc"
    "\<And>n l acc ags. re_agents env n = Some ags \<Longrightarrow> agent_batch l ags \<noteq> [] \<Longrightarrow> length (agent_batch l ags) < BATCH_SIZE \<Longrightarrow>
       P n l acc (batch_step env run_id n (agent_batch l ags) acc)"
    "\<And>n l acc ags res. re_agents env n = Some ags \<Longrightarrow> agent_batch l ags \<noteq> [] \<Longrightarrow>
       P (Suc n) (Some (oa_id (last (agent_batch l ags)))) (batch_step env run_id n (agent_batch l ags) acc) res \<Longrightarrow> P n l acc res"
  shows "P n l acc res"
proof -
  have "env' = env \<longrightarrow> rid = run_id \<longrightarrow> P n l acc res" if "batch_loop env' rid n l acc = Some res" for env' rid
  proof (rule batch_loop.raw_induct [OF _ that], goal_cases)
    case (1 f env' rid n l acc res)
    show ?case
    proof (intro impI)
      assume e: "env' = env" "rid = run_id"
      show "P n l acc res"
      proof (cases "re_agents env n")
        case None
        then show ?thesis using 1(2) assms(2) e by auto
      next
        case (Some ags)
        let ?d = "agent_batch l ags"
        have "(if ?d = [] then Some acc else if length ?d < BATCH_SIZE then Some (batch_step env run_id n ?d acc)
            else f env run_id (Suc n) (Some (oa_id (last ?d))) (batch_step env run_id n ?d acc)) = Some res"
          using 1(2) Some unfolding e by (simp add: batch_step_def Let_def split_def cong: if_cong)
        then show ?thesis using assms(3) [OF Some] assms(4) [OF Some] assms(5) [OF Some] 1(1) by (auto split: if_splits)
      qed
    qed
  qed
  then show ?thesis using assms(1) by simp
qed

text \<open>The number of results of a batch that are stored.\<close>

definition written :: "(class_result \<Rightarrow> bool) option \<Rightarrow> class_result list \<Rightarrow> nat" where
  "written outcome rs = (case outcome of None \<Rightarrow> 0 | Some failing \<Rightarrow> length (filter (\<lambda>r. \<not> failing r) rs))"

lemma written_le: "written outcome rs \<le> length rs"
  by (simp add: written_def split: option.split)

lemma map_filter_length: "length (List.map_filter f xs) + length (filter (\<lambda>x. f x = None) xs) = length xs"
  by (induction xs) (auto simp: map_filter_simps split: option.split)

definition fetch_failures :: "run_acc \<Rightarrow> nat" where
  "fetch_failures acc = length (filter (\<lambda>l. \<exists>i. l = FetchFailed i) (ra_log acc))"

lemma write_batch_accounts:
  "ra_classified (write_batch outcome rs acc) = ra_classified acc - int (length rs) + int (written outcome rs)"
  "ra_errors (write_batch outcome rs acc) = ra_errors acc + int (length rs) - int (written outcome rs)"
  "fetch_failures (write_batch outcome rs acc) = fetch_failures acc"
  by (auto simp: write_batch_def bulk_upsert_results_def written_def fetch_failures_def Let_def split: option.splits)
    (metis le_neq_implies_less length_filter_le)+

lemma batch_step_accounts:
  "ra_classified (batch_step env run_id n docs acc) + ra_errors (batch_step env run_id n docs acc) =
     ra_classified acc + ra_errors acc + int (length docs)"
  "fetch_failures (batch_step env run_id n docs acc) = fetch_failures acc"
  "ra_classified acc \<le> ra_classified (batch_step env run_id n docs acc)"
proof -
  let ?c = "run_classify env run_id n"
  have "fetch_failures (snd (classify_batch ?c docs acc)) = fetch_failures acc"
    by (simp add: classify_batch_def fetch_failures_def Let_def filter_empty_conv)
  then show "fetch_failures (batch_step env run_id n docs acc) = fetch_failures acc"
    by (simp add: batch_step_def write_batch_accounts split_def Let_def)
  show "ra_classified (batch_step env run_id n docs acc) + ra_errors (batch_step env run_id n docs acc) =
      ra_classified acc + ra_errors acc + int (length docs)"
    using map_filter_length [of ?c docs] by (simp add: batch_step_def write_batch_accounts split_def classify_batch_def Let_def)
  show "ra_classified acc \<le> ra_classified (batch_step env run_id n docs acc)"
    by (simp add: batch_step_def write_batch_accounts split_def classify_batch_def Let_def)
qed

lemma batch_loop_accounts:
  assumes "batch_loop env run_id n l acc = Some res"
  shows "ra_classified res + ra_errors res - int (length (ra_processed res)) - int (fetch_failures res) =
    ra_classified acc + ra_errors acc - int (length (ra_processed acc)) - int (fetch_failures acc) \<and> ra_classified acc \<le> ra_classified res"
  using assms
proof (rule batch_loop_rule, goal_cases)
  case (1 n l acc)
  then show ?case by (simp add: fetch_failures_def)
next
  case (3 n l acc ags)
  then show ?case using batch_step_accounts [where env = env and run_id = run_id and n = n and docs = "agent_batch l ags" and acc = acc] by simp
next
  case (4 n l acc ags res)
  then show ?case using batch_step_accounts [where env = env and run_id = run_id and n = n and docs = "agent_batch l ags" and acc = acc] by simp
qed simp

lemma batch_loop_distinct:
  assumes "batch_loop env run_id n l acc = Some res" and fleet: "\<forall>n ags. re_agents env n = Some ags \<longrightarrow> distinct (map oa_id ags)"
  shows "distinct (map oa_id (ra_processed acc)) \<longrightarrow> (\<forall>a\<in>set (ra_processed acc). \<forall>i. after l i \<longrightarrow> oa_id a < i) \<longrightarrow>
    distinct (map oa_id (ra_processed res))"
  using assms(1)
proof (rule batch_loop_rule, goal_cases)
  case (3 n l acc ags)
  then have "distinct (map oa_id (agent_batch l ags))" "\<forall>b\<in>set (agent_batch l ags). after l (oa_id b)"
    using agent_batch_distinct [of ags l] fleet agent_batch_subset [of l ags] by auto
  then show ?case by fastforce
next
  case (4 n l acc ags res)
  let ?d = "agent_batch l ags"
  show ?case
  proof (intro impI)
    assume d: "distinct (map oa_id (ra_processed acc))" and b: "\<forall>a\<in>set (ra_processed acc). \<forall>i. after l i \<longrightarrow> oa_id a < i"
    have sub: "\<And>a. a \<in> set ?d \<Longrightarrow> after l (oa_id a)" using agent_batch_subset [of l ags] by auto
    have "distinct (map oa_id (ra_processed acc @ ?d))"
      using d b sub agent_batch_distinct [of ags l] fleet 4(1) by fastforce
    moreover have "oa_id a < i" if "a \<in> set (ra_processed acc @ ?d)" "after (Some (oa_id (last ?d))) i" for a i
      using that b sub [OF last_in_set [OF 4(2)]] agent_batch_last [OF 4(2)]
      by (auto simp: after_def split: option.splits) (meson le_less_trans less_trans)+
    ultimately show "distinct (map oa_id (ra_processed res))" using 4(3) by simp
  qed
qed auto

lemma batch_loop_covers:
  assumes "batch_loop env run_id n l acc = Some res" and up: "\<forall>n. \<exists>ags. re_agents env n = Some ags \<and> i \<in> oa_id ` set ags"
  shows "set (ra_processed acc) \<subseteq> set (ra_processed res) \<and> (after l i \<longrightarrow> i \<in> oa_id ` set (ra_processed res))"
  using assms(1)
proof (rule batch_loop_rule, goal_cases)
  case (1 n l acc)
  then show ?case using up by (metis option.distinct(1))
next
  case (2 n l acc ags)
  moreover have "i \<in> oa_id ` set ags" using up 2(1) by (metis option.inject)
  ultimately show ?case using agent_batch_short [of l ags] by (fastforce simp: BATCH_SIZE_def)
next
  case (3 n l acc ags)
  moreover have "i \<in> oa_id ` set ags" using up 3(1) by (metis option.inject)
  ultimately show ?case using agent_batch_short [of l ags] by auto
next
  case (4 n l acc ags res)
  have "i \<in> oa_id ` set ags" using up 4(1) by (metis option.inject)
  then show ?case using 4 agent_batch_rest [of _ ags l] by (fastforce simp: image_iff)
qed

text \<open>C28. Whatever is added, removed or written between the batches of a run: no agent is classified twice; an agent that is there all
  the time is not left out, unless a query fails; and the figures add up: every agent processed counts as classified or as an
  error, and so does a failing query.\<close>

theorem each_agent_once:
  "batch_loop env run_id 0 None \<lparr>ra_results = rs, ra_processed = [], ra_classified = 0, ra_errors = 0, ra_log = []\<rparr> = Some res \<Longrightarrow>
     (\<forall>n ags. re_agents env n = Some ags \<longrightarrow> distinct (map oa_id ags)) \<Longrightarrow>
     distinct (map oa_id (ra_processed res)) \<and>
     (\<forall>i. (\<forall>n. \<exists>ags. re_agents env n = Some ags \<and> i \<in> oa_id ` set ags) \<longrightarrow> i \<in> oa_id ` set (ra_processed res)) \<and>
     0 \<le> ra_classified res \<and>
     ra_classified res + ra_errors res = int (length (ra_processed res)) + int (fetch_failures res)"
proof -
  assume loop: "batch_loop env run_id 0 None \<lparr>ra_results = rs, ra_processed = [], ra_classified = 0, ra_errors = 0, ra_log = []\<rparr> = Some res"
    and fleet: "\<forall>n ags. re_agents env n = Some ags \<longrightarrow> distinct (map oa_id ags)"
  show ?thesis
    using batch_loop_accounts [OF loop] batch_loop_distinct [OF loop fleet] batch_loop_covers [OF loop]
    by (auto simp: fetch_failures_def after_def)
qed

lemma each_agent_once_witness:
  "\<exists>env res. \<exists>a :: fleet_agent. batch_loop env ''r'' 0 None \<lparr>ra_results = [], ra_processed = [], ra_classified = 0, ra_errors = 0, ra_log = []\<rparr> = Some res \<and>
     oa_id a \<in> oa_id ` set (ra_processed res) \<and> ra_classified res + ra_errors res = int (length (ra_processed res))"
proof -
  let ?a = "\<lparr>oa_id = ''1'', oa_source_id = Text ''a'', oa_hostname = Text ''h'', oa_group_id = Text ''g'', oa_group_name = Null, oa_installed = []\<rparr>"
  let ?env = "\<lparr>re_config = None, re_fingerprints = None, re_total = Some 1, re_agents = \<lambda>_. Some [?a], re_failing = \<lambda>_. None, re_now = \<lambda>_. 0, re_apps = []\<rparr>"
  let ?acc = "\<lparr>ra_results = [], ra_processed = [], ra_classified = 0, ra_errors = 0, ra_log = []\<rparr>"
  have b: "agent_batch None [?a] = [?a]" by (simp add: agent_batch_def BATCH_SIZE_def)
  have "batch_loop ?env ''r'' 0 None ?acc = Some (batch_step ?env ''r'' 0 [?a] ?acc)"
    by (subst batch_loop_step) (simp add: b BATCH_SIZE_def Let_def)
  note loop = this
  let ?res = "batch_step ?env ''r'' 0 [?a] ?acc"
  have "oa_id ?a \<in> oa_id ` set (ra_processed ?res)" by simp
  moreover have "fetch_failures ?res = 0" using batch_step_accounts(2) by (simp add: fetch_failures_def)
  then have "ra_classified ?res + ra_errors ?res = int (length (ra_processed ?res))" using each_agent_once [OF loop] by simp
  ultimately show ?thesis using loop by (intro exI [of _ ?env] exI [of _ ?res] exI [of _ ?a] conjI)
qed

lemma batch_loop_returns:
  assumes "finite S" and "\<forall>n ags. re_agents env n = Some ags \<longrightarrow> oa_id ` set ags \<subseteq> S"
  shows "\<exists>res. batch_loop env run_id n l acc = Some res"
proof (induction "card {i \<in> S. after l i}" arbitrary: n l acc rule: less_induct)
  case less
  show ?case
  proof (cases "re_agents env n")
    case None
    then show ?thesis by (subst batch_loop_step) simp
  next
    case (Some ags)
    let ?d = "agent_batch l ags"
    show ?thesis
    proof (cases "?d = [] \<or> length ?d < BATCH_SIZE")
      case True
      then show ?thesis by (subst batch_loop_step) (auto simp: Some Let_def)
    next
      case False
      let ?i = "oa_id (last ?d)"
      have "last ?d \<in> set ?d" using False by simp
      then have "last ?d \<in> set ags" "after l ?i" using agent_batch_subset [of l ags] by auto
      then have i: "?i \<in> S" "after l ?i" using assms(2) Some by blast+
      then have "{j \<in> S. after (Some ?i) j} \<subset> {j \<in> S. after l j}" using after_mono [OF i(2)] by (auto simp: after_def)
      then have "card {j \<in> S. after (Some ?i) j} < card {j \<in> S. after l j}" by (intro psubset_card_mono) (use assms(1) in auto)
      from less.hyps [OF this] obtain res where "batch_loop env run_id (Suc n) (Some ?i) (batch_step env run_id n ?d acc) = Some res" by blast
      then show ?thesis using False by (subst batch_loop_step) (simp add: Some Let_def)
    qed
  qed
qed

section \<open>A run over a fleet that does not change\<close>

lemma find_upsert: "find (\<lambda>x. cr_agent_id x = i) (upsert_result r rs) = (if cr_agent_id r = i then Some r else find (\<lambda>x. cr_agent_id x = i) rs)"
proof (cases "list_ex (\<lambda>x. cr_agent_id x = cr_agent_id r) rs")
  case True
  then have "find (\<lambda>x. cr_agent_id x = i) (update_first (\<lambda>x. cr_agent_id x = cr_agent_id r) (\<lambda>_. r) rs) =
      (if cr_agent_id r = i then Some r else find (\<lambda>x. cr_agent_id x = i) rs)"
    by (induction rs) auto
  then show ?thesis using True by (simp add: upsert_result_def)
next
  case False
  then show ?thesis by (induction rs) (auto simp: upsert_result_def)
qed

lemma find_upserts:
  "find (\<lambda>x. cr_agent_id x = i) (foldl (\<lambda>acc r. upsert_result r acc) stored rs) =
     (case find (\<lambda>x. cr_agent_id x = i) (rev rs) of Some r \<Rightarrow> Some r | None \<Rightarrow> find (\<lambda>x. cr_agent_id x = i) stored)"
  by (induction rs rule: rev_induct) (simp_all add: find_upsert)

definition source_of :: "fleet_agent \<Rightarrow> string" where
  "source_of a = (case valid_text (oa_source_id a) of Some s \<Rightarrow> s | None \<Rightarrow> [])"

lemma run_classify_fields:
  "run_classify env run_id n a = Some r \<Longrightarrow> cr_agent_id r = source_of a \<and> cr_run_id r = run_id \<and> \<not> cr_acknowledged r"
  by (auto simp: run_classify_def classify_single_agent_def source_of_def Let_def split_def split: option.splits)

text \<open>Every query sees the same agents, each can be classified, and no write fails.\<close>

definition steady :: "run_env \<Rightarrow> fleet_agent list \<Rightarrow> bool" where
  "steady env fleet = (re_total env = Some (length fleet) \<and> re_agents env = (\<lambda>_. Some fleet) \<and> re_failing env = (\<lambda>_. Some (\<lambda>_. False)) \<and>
     distinct (map oa_id fleet) \<and> distinct (map source_of fleet) \<and> (\<forall>a\<in>set fleet. \<forall>run_id n. run_classify env run_id n a \<noteq> None))"

lemma steady_inj:
  assumes "steady env fleet"
  shows "a \<in> set fleet \<Longrightarrow> b \<in> set fleet \<Longrightarrow> source_of a = source_of b \<Longrightarrow> a = b"
    "a \<in> set fleet \<Longrightarrow> b \<in> set fleet \<Longrightarrow> oa_id a = oa_id b \<Longrightarrow> a = b"
  using assms by (auto simp: steady_def distinct_map inj_on_def)

lemma steady_find:
  assumes "steady env fleet" "set docs \<subseteq> set fleet" "a \<in> set docs"
  shows "find (\<lambda>b. source_of b = source_of a) docs = Some a"
  by (rule find_only) (use assms steady_inj(1) [OF assms(1)] in blast)+

lemma steady_step:
  assumes "steady env fleet" "set docs \<subseteq> set fleet"
  shows "find (\<lambda>x. cr_agent_id x = i) (ra_results (batch_step env run_id n docs acc)) =
      (case find (\<lambda>a. source_of a = i) docs of Some a \<Rightarrow> run_classify env run_id n a | None \<Rightarrow> find (\<lambda>x. cr_agent_id x = i) (ra_results acc))"
    "ra_errors (batch_step env run_id n docs acc) = ra_errors acc" "ra_log (batch_step env run_id n docs acc) = ra_log acc"
proof -
  let ?c = "run_classify env run_id n" let ?rs = "List.map_filter ?c docs"
  have no: "filter (\<lambda>a. ?c a = None) docs = []" using assms by (auto simp: steady_def filter_empty_conv)
  have "batch_step env run_id n docs acc = write_batch (Some (\<lambda>_. False)) ?rs (snd (classify_batch ?c docs acc))"
    using assms(1) by (simp add: batch_step_def classify_batch_def Let_def steady_def)
  note step = this
  have results: "ra_results (batch_step env run_id n docs acc) = foldl (\<lambda>acc r. upsert_result r acc) (ra_results acc) ?rs"
    unfolding step by (simp add: write_batch_def bulk_upsert_results_def classify_batch_def Let_def)
  show "ra_errors (batch_step env run_id n docs acc) = ra_errors acc" "ra_log (batch_step env run_id n docs acc) = ra_log acc"
    unfolding step by (simp_all add: write_batch_def bulk_upsert_results_def classify_batch_def Let_def no)
  have set_rs: "r \<in> set ?rs \<longleftrightarrow> (\<exists>a\<in>set docs. ?c a = Some r)" for r by (induction docs) (auto simp: map_filter_simps split: option.split)
  show "find (\<lambda>x. cr_agent_id x = i) (ra_results (batch_step env run_id n docs acc)) =
      (case find (\<lambda>a. source_of a = i) docs of Some a \<Rightarrow> ?c a | None \<Rightarrow> find (\<lambda>x. cr_agent_id x = i) (ra_results acc))"
  proof (cases "find (\<lambda>a. source_of a = i) docs")
    case None
    then have "find (\<lambda>x. cr_agent_id x = i) (rev ?rs) = None" by (fastforce simp: find_None_iff set_rs dest: run_classify_fields)
    then show ?thesis by (simp add: results find_upserts None)
  next
    case (Some a)
    then have a: "a \<in> set docs" "source_of a = i" by (auto simp: find_Some_iff)
    then have "?c a \<noteq> None" using assms by (simp add: steady_def subset_iff)
    then obtain r where r: "?c a = Some r" by blast
    have "find (\<lambda>x. cr_agent_id x = i) (rev ?rs) = Some r"
    proof (rule find_only)
      fix x assume "x \<in> set (rev ?rs)" "cr_agent_id x = i"
      then obtain b where b: "b \<in> set docs" "?c b = Some x" by (auto simp: set_rs)
      then have "source_of b = source_of a" using \<open>cr_agent_id x = i\<close> a(2) by (auto dest: run_classify_fields)
      then have "b = a" using assms(2) a(1) b(1) by (intro steady_inj(1) [OF assms(1)]) auto
      then show "x = r" using b(2) r by simp
    qed (use a r run_classify_fields [OF r] in \<open>auto simp: set_rs\<close>)
    then show ?thesis by (simp add: results find_upserts Some r)
  qed
qed

lemma steady_loop:
  assumes "batch_loop env run_id n l acc = Some res" and steady: "steady env fleet"
  shows "ra_errors res = ra_errors acc \<and> ra_log res = ra_log acc \<and> set (ra_processed res) \<subseteq> set (ra_processed acc) \<union> set fleet \<and>
    (\<forall>a\<in>set fleet. after l (oa_id a) \<longrightarrow> (\<exists>k. find (\<lambda>x. cr_agent_id x = source_of a) (ra_results res) = run_classify env run_id k a)) \<and>
    (\<forall>i. (\<forall>a\<in>set fleet. after l (oa_id a) \<longrightarrow> source_of a \<noteq> i) \<longrightarrow>
      find (\<lambda>x. cr_agent_id x = i) (ra_results res) = find (\<lambda>x. cr_agent_id x = i) (ra_results acc))"
  using assms(1)
proof (rule batch_loop_rule, goal_cases)
  case (1 n l acc)
  then show ?case using steady by (simp add: steady_def)
next
  case (2 n l acc ags)
  then show ?case using steady agent_batch_short [of l ags] by (auto simp: steady_def BATCH_SIZE_def)
next
  case (3 n l acc ags)
  let ?d = "agent_batch l ags"
  have ags: "ags = fleet" using 3(1) steady by (simp add: steady_def)
  have d: "set ?d = {a \<in> set fleet. after l (oa_id a)}" using agent_batch_short [OF 3(3)] ags by simp
  have "set ?d \<subseteq> set fleet" using d by auto
  note step = steady_step [OF steady this, where run_id = run_id and n = n and acc = acc]
  have "find (\<lambda>b. source_of b = source_of a) ?d = Some a" if "a \<in> set ?d" for a
    by (rule steady_find [OF steady _ that]) (use d in auto)
  moreover have "find (\<lambda>b. source_of b = i) ?d = None" if "\<forall>a\<in>set ?d. source_of a \<noteq> i" for i
    using that by (simp add: find_None_iff)
  ultimately show ?case using step d by auto
next
  case (4 n l acc ags res)
  let ?d = "agent_batch l ags" and ?l = "Some (oa_id (last (agent_batch l ags)))"
  have ags: "ags = fleet" using 4(1) steady by (simp add: steady_def)
  have d: "set ?d \<subseteq> {a \<in> set fleet. after l (oa_id a)}" using agent_batch_subset [of l ags] ags by simp
  then have sub: "set ?d \<subseteq> set fleet" by auto
  note step = steady_step [OF steady sub, where run_id = run_id and n = n and acc = acc]
  have later: "after ?l (oa_id a) \<longleftrightarrow> a \<notin> set ?d" if "a \<in> set fleet" "after l (oa_id a)" for a
  proof
    assume "after ?l (oa_id a)" then show "a \<notin> set ?d" using agent_batch_last [OF 4(2), of a] by (auto simp: after_def not_le [symmetric])
  next
    assume "a \<notin> set ?d"
    then have "oa_id a \<notin> oa_id ` set ?d" using that(1) sub steady_inj(2) [OF steady] by (metis imageE subsetD)
    then show "after ?l (oa_id a)" using agent_batch_rest [of a ags l] that 4(2) ags by simp
  qed
  have earlier: "after l (oa_id a)" if "after ?l (oa_id a)" for a
    using that d last_in_set [OF 4(2)] after_mono by blast
  have one: "find (\<lambda>b. source_of b = source_of a) ?d = Some a" if "a \<in> set ?d" for a
    by (rule steady_find [OF steady sub that])
  have keep: "source_of b \<noteq> source_of a" if "a \<in> set ?d" "b \<in> set fleet" "after ?l (oa_id b)" for a b
    using that later [OF that(2) earlier [OF that(3)]] sub steady_inj(1) [OF steady] by (metis subsetD)
  have "\<exists>k. find (\<lambda>x. cr_agent_id x = source_of a) (ra_results res) = run_classify env run_id k a"
    if a: "a \<in> set fleet" "after l (oa_id a)" for a
  proof (cases "a \<in> set ?d")
    case True
    then have "find (\<lambda>x. cr_agent_id x = source_of a) (ra_results res) =
        find (\<lambda>x. cr_agent_id x = source_of a) (ra_results (batch_step env run_id n ?d acc))" using 4(3) keep by blast
    then show ?thesis using step(1) one [OF True] by auto
  next
    case False
    then show ?thesis using 4(3) later [OF a] a by blast
  qed
  moreover have "find (\<lambda>x. cr_agent_id x = i) (ra_results res) = find (\<lambda>x. cr_agent_id x = i) (ra_results acc)"
    if i: "\<forall>a\<in>set fleet. after l (oa_id a) \<longrightarrow> source_of a \<noteq> i" for i
  proof -
    have "find (\<lambda>x. cr_agent_id x = i) (ra_results res) = find (\<lambda>x. cr_agent_id x = i) (ra_results (batch_step env run_id n ?d acc))"
      using 4(3) i earlier by blast
    moreover have "find (\<lambda>b. source_of b = i) ?d = None" using i d by (auto simp: find_None_iff)
    ultimately show ?thesis using step(1) by simp
  qed
  moreover have "set (ra_processed res) \<subseteq> set (ra_processed acc) \<union> set fleet" using 4(3) sub by auto
  ultimately show ?case using 4(3) step(2,3) by simp
qed



section \<open>The manager as a state machine\<close>

text \<open>The state of a worker with the identifiers of the runs whose task has been created and is not finished.\<close>

type_synonym manager = "class_state \<times> string set"

inductive manager_step :: "manager \<Rightarrow> manager \<Rightarrow> bool" where
  Started: "trigger en now owner i label saved st = (Inr (Some r), st') \<Longrightarrow> manager_step (st, ts) (st', insert (cn_id r) ts)"
| Refused: "trigger en now owner i label saved st = (Inr None, st') \<Longrightarrow> manager_step (st, ts) (st', ts)"
| Unsaved: "trigger en now owner i label saved st = (Inl (), st') \<Longrightarrow> manager_step (st, ts) (st', ts)"
| Ran: "i \<in> ts \<Longrightarrow> run_classification env now i st = Some st' \<Longrightarrow> manager_step (st, ts) (st', ts - {i})"
| Acknowledged: "manager_step (st, ts) (snd (acknowledge i st), ts)"

inductive_cases manager_stepE: "manager_step m m'"

lemma trigger_cases:
  assumes "trigger en now owner i label saved st = (res, st')"
  shows "(res = Inr None \<and> ct_running st' = ct_running st \<and> ct_current st' = ct_current st) \<or>
    (\<not> ct_running st \<and> ct_running st' \<and> ct_current st' = Some i \<and> (if saved then \<exists>r. res = Inr (Some r) \<and> cn_id r = i else res = Inl ()))"
  using assms by (auto simp: trigger_def acquire_dist_lock_def save_run_def Let_def split: if_splits prod.splits bool.splits)

lemma run_resets: "run_classification env now i st = Some st' \<Longrightarrow> \<not> ct_running st' \<and> ct_current st' = None"
  by (auto simp: run_classification_def finish_run_def release_dist_lock_def update_run_def Let_def split: option.splits if_splits)

lemma acknowledge_running [simp]: "ct_running (snd (acknowledge i st)) = ct_running st" "ct_current (snd (acknowledge i st)) = ct_current st"
  by (simp_all add: acknowledge_def)

text \<open>A worker never has two classification runs under way: a run is started only when none is, and the run that is under way is
  the one the manager names as current.\<close>

theorem class_runs_serial:
  "manager_step\<^sup>*\<^sup>* (st0, {}) (st, ts) \<Longrightarrow> ts = {} \<or> (ct_running st \<and> (\<exists>i. ts = {i} \<and> ct_current st = Some i))"
proof (induction "(st, ts)" arbitrary: st ts rule: rtranclp_induct)
  case (step m)
  obtain st1 ts1 where m: "m = (st1, ts1)" by (cases m)
  then have inv: "ts1 = {} \<or> (ct_running st1 \<and> (\<exists>i. ts1 = {i} \<and> ct_current st1 = Some i))" using step by blast
  from step(2) show ?case unfolding m
    by (cases rule: manager_step.cases) (use inv in \<open>auto dest!: trigger_cases split: if_splits\<close>)
qed simp

lemma class_runs_serial_witness:
  "\<exists>(st0 :: class_state) st. manager_step\<^sup>*\<^sup>* (st0, {}) (st, {''r''}) \<and> ct_current st = Some ''r''"
proof -
  let ?st = "\<lparr>ct_results = [], ct_runs = [], ct_locks = empty_locks, ct_running = False, ct_current = None, ct_lock = None\<rparr>"
  obtain r st where t: "trigger False 0 ''w'' ''r'' ''manual'' True ?st = (Inr (Some r), st)" "cn_id r = ''r''"
    by (simp add: trigger_def acquire_dist_lock_def Let_def)
  have steps: "manager_step\<^sup>*\<^sup>* (?st, {}) (st, {''r''})" using Started [OF t(1), of "{}"] t(2) by auto
  show ?thesis using class_runs_serial [OF steps] steps by auto
qed

text \<open>C29. When the record of a run cannot be inserted, the manager keeps its mark of a running classification without a task that would
  clear it: from then on this worker refuses every request to classify, whatever happens afterwards.\<close>

theorem failed_save_blocks_classification:
  "trigger en now owner i label False st = (Inl (), st1) \<Longrightarrow> manager_step\<^sup>*\<^sup>* (st1, {}) (st2, ts) \<Longrightarrow>
     ts = {} \<and> trigger en' now' owner' i' label' saved st2 = (Inr None, st2)"
proof -
  assume t: "trigger en now owner i label False st = (Inl (), st1)" and steps: "manager_step\<^sup>*\<^sup>* (st1, {}) (st2, ts)"
  have "ct_running st2 \<and> ts = {}" using steps
  proof (induction "(st2, ts)" arbitrary: st2 ts rule: rtranclp_induct)
    case base
    then show ?case using trigger_cases [OF t] by auto
  next
    case (step m)
    obtain st3 ts3 where m: "m = (st3, ts3)" by (cases m)
    then have inv: "ct_running st3 \<and> ts3 = {}" using step by blast
    from step(2) show ?case unfolding m
      by (cases rule: manager_step.cases) (use inv in \<open>auto dest!: trigger_cases split: if_splits\<close>)
  qed
  then show ?thesis by (simp add: trigger_def)
qed

lemma failed_save_blocks_classification_witness:
  "\<exists>(st :: class_state) st1. \<not> ct_running st \<and> trigger False 0 ''w'' ''r'' ''manual'' False st = (Inl (), st1) \<and>
     trigger False 9 ''w'' ''s'' ''manual'' True st1 = (Inr None, st1)"
proof -
  let ?st = "\<lparr>ct_results = [], ct_runs = [], ct_locks = empty_locks, ct_running = False, ct_current = None, ct_lock = None\<rparr>"
  obtain st1 where t: "trigger False 0 ''w'' ''r'' ''manual'' False ?st = (Inl (), st1)"
    by (simp add: trigger_def acquire_dist_lock_def Let_def)
  then show ?thesis using failed_save_blocks_classification [OF t rtranclp.rtrancl_refl]
    by (intro exI [of _ ?st] exI [of _ st1]) simp
qed

end
