(* ===== verification/FingerprintTheorems.thy ===== *)
theory FingerprintTheorems
  imports Suggestions
begin

text \<open>
  What the fingerprint editor guarantees: reordering keeps the markers that were read, an import restores what was
  exported, proposals are only ever added, suggestions are new; and what it forgets.
\<close>

section \<open>One fingerprint per group\<close>

definition unique_groups :: "fp_state \<Rightarrow> bool" where
  "unique_groups st = distinct (map fp_group_id (fs_fps st))"

lemma get_after_update:
  "(\<And>x. fp_group_id (f x) = fp_group_id x) \<Longrightarrow>
     get_by_group_id h (snd (fp_update g f st)) = (if h = g then map_option f (get_by_group_id h st) else get_by_group_id h st)"
proof -
  assume keep: "\<And>x. fp_group_id (f x) = fp_group_id x"
  have "find (\<lambda>x. fp_group_id x = h) (update_first (\<lambda>x. fp_group_id x = g) f xs) =
      (if h = g then map_option f (find (\<lambda>x. fp_group_id x = h) xs) else find (\<lambda>x. fp_group_id x = h) xs)" for xs
    by (induction xs) (auto simp: keep)
  then show ?thesis by (simp add: get_by_group_id_def fp_update_def)
qed

lemma fp_update_fields [simp]:
  "fs_groups (snd (fp_update g f st)) = fs_groups st" "fs_proposals (snd (fp_update g f st)) = fs_proposals st"
  "fs_suggestions (snd (fp_update g f st)) = fs_suggestions st" "fs_sites (snd (fp_update g f st)) = fs_sites st"
  by (simp_all add: fp_update_def)

section \<open>Reordering\<close>

lemma update_fresh: "k \<notin> fst ` set t \<Longrightarrow> AList.update k v t = t @ [(k, v)]"
  by (induction t) auto

lemma fold_update_fresh:
  "distinct (map f xs) \<Longrightarrow> fst ` set t \<inter> f ` set xs = {} \<Longrightarrow> foldl (\<lambda>t x. AList.update (f x) x t) t xs = t @ map (\<lambda>x. (f x, x)) xs"
proof (induction xs arbitrary: t)
  case (Cons x xs)
  then have "AList.update (f x) x t = t @ [(f x, x)]" by (intro update_fresh) auto
  moreover have "fst ` set (t @ [(f x, x)]) \<inter> f ` set xs = {}" using Cons.prems by auto
  ultimately show ?case using Cons.IH [of "t @ [(f x, x)]"] Cons.prems(1) by simp
qed simp

lemma marker_map_distinct: "distinct (map mk_id ms) \<Longrightarrow> marker_map ms = map (\<lambda>m. (mk_id m, m)) ms"
  by (simp add: marker_map_def fold_update_fresh)

lemma delete_found: "map_of t i = Some m \<Longrightarrow> distinct (map fst t) \<Longrightarrow> mset t = add_mset (i, m) (mset (AList.delete i t))"
proof (induction t)
  case (Cons p t)
  have "AList.delete (fst p) t = t" if "fst p \<notin> fst ` set t" using that by (induction t) auto
  then show ?case using Cons by (cases p) (auto split: if_splits)
qed simp

lemma pick_markers_mset: "distinct (map fst t) \<Longrightarrow> mset (pick_markers is t) = mset (map snd t)"
proof (induction "is" t rule: pick_markers.induct)
  case (2 i "is" t)
  show ?case
  proof (cases "map_of t i")
    case (Some m)
    have "distinct (map fst (AList.delete i t))" using 2(3) by (rule distinct_delete)
    then show ?thesis using 2 Some delete_found [OF Some 2(3)] by simp
  qed (use 2 in simp)
qed simp

lemma pick_markers_ids:
  "distinct (map fst t) \<Longrightarrow> \<forall>(i, m)\<in>set t. mk_id m = i \<Longrightarrow> distinct is \<Longrightarrow>
     map mk_id (pick_markers is t) = filter (\<lambda>i. i \<in> fst ` set t) is @ filter (\<lambda>i. i \<notin> set is) (map fst t)"
proof (induction "is" t rule: pick_markers.induct)
  case (1 t)
  then show ?case by (induction t) auto
next
  case (2 i "is" t)
  show ?case
  proof (cases "map_of t i")
    case None
    then have "i \<notin> fst ` set t" by (simp add: map_of_eq_None_iff)
    then have "filter (\<lambda>j. j \<notin> set is) (map fst t) = filter (\<lambda>j. j \<notin> set (i # is)) (map fst t)" by (intro filter_cong) auto
    then show ?thesis using 2 None \<open>i \<notin> fst ` set t\<close> by simp
  next
    case (Some m)
    let ?t = "AList.delete i t"
    have t: "distinct (map fst ?t)" "\<forall>(i, m)\<in>set ?t. mk_id m = i" "fst ` set ?t = fst ` set t - {i}"
      using 2(3,4) by (auto simp: AList.delete_eq distinct_map_filter)
    have "mk_id m = i" using 2(4) map_of_SomeD [OF Some] by auto
    moreover have "filter (\<lambda>j. j \<in> fst ` set ?t) is = filter (\<lambda>j. j \<in> fst ` set t) is" using 2(5) t(3) by (intro filter_cong) auto
    moreover have "filter (\<lambda>j. j \<notin> set is) (map fst ?t) = filter (\<lambda>j. j \<notin> set (i # is)) (map fst t)"
      by (auto simp: AList.delete_eq filter_map comp_def split_def intro!: arg_cong [where f = "map fst"] filter_cong)
    moreover have "i \<in> fst ` set t" using map_of_SomeD [OF Some] by force
    ultimately show ?thesis using 2(2) [OF Some t(1,2)] 2(5) Some by simp
  qed
qed

lemma find_hit:
  "distinct (map fp_group_id xs) \<Longrightarrow> find (\<lambda>x. fp_group_id x = g) xs = Some f \<Longrightarrow>
     find (\<lambda>x. fp_group_id x = g) (update_first (\<lambda>x. fp_group_id x = g \<and> P x) (\<lambda>x. x\<lparr>fp_markers := ms, fp_updated_at := now\<rparr>) xs) =
     Some (if P f then f\<lparr>fp_markers := ms, fp_updated_at := now\<rparr> else f)"
  by (induction xs) (auto simp: update_first_none)

text \<open>C31. Reordering keeps the markers: those named come first, in the order asked for, the others after them in their old order. If other
  workers changed the number of markers in between, the request does nothing. If they left it the same, all that they changed is
  overwritten by the markers as they were read.\<close>

theorem reorder_markers_permutes:
  "get_by_group_id g st = Some f \<Longrightarrow> distinct (map mk_id (fp_markers f)) \<Longrightarrow> distinct ordered \<Longrightarrow> fp_markers f \<noteq> [] \<Longrightarrow>
     unique_groups (others st) \<Longrightarrow> get_by_group_id g (others st) = Some f1 \<Longrightarrow>
     \<exists>f2. get_by_group_id g (snd (reorder_markers others now g ordered st)) = Some f2 \<and>
       (if length (fp_markers f1) = length (fp_markers f)
        then mset (fp_markers f2) = mset (fp_markers f) \<and>
          map mk_id (fp_markers f2) = filter (\<lambda>i. i \<in> mk_id ` set (fp_markers f)) ordered @ filter (\<lambda>i. i \<notin> set ordered) (map mk_id (fp_markers f))
        else f2 = f1)"
proof -
  assume f: "get_by_group_id g st = Some f" and d: "distinct (map mk_id (fp_markers f))" "distinct ordered" "fp_markers f \<noteq> []"
    and u: "unique_groups (others st)" and f1: "get_by_group_id g (others st) = Some f1"
  let ?t = "map (\<lambda>m. (mk_id m, m)) (fp_markers f)" let ?ms = "pick_markers ordered ?t"
  have "snd (reorder_markers others now g ordered st) = (others st)\<lparr>fs_fps := update_first
      (\<lambda>x. fp_group_id x = g \<and> length (fp_markers x) = length (fp_markers f)) (\<lambda>x. x\<lparr>fp_markers := ?ms, fp_updated_at := now\<rparr>) (fs_fps (others st))\<rparr>"
    by (simp add: reorder_markers_def f d(3) marker_map_distinct [OF d(1)] Let_def)
  then have "get_by_group_id g (snd (reorder_markers others now g ordered st)) =
      Some (if length (fp_markers f1) = length (fp_markers f) then f1\<lparr>fp_markers := ?ms, fp_updated_at := now\<rparr> else f1)"
    using u f1 by (simp add: unique_groups_def get_by_group_id_def find_hit)
  moreover have t: "distinct (map fst ?t)" "\<forall>(i, m)\<in>set ?t. mk_id m = i" using d(1) by (auto simp: comp_def)
  moreover have "mset ?ms = mset (fp_markers f)" by (simp add: pick_markers_mset [OF t(1)] comp_def)
  moreover have "map mk_id ?ms = filter (\<lambda>i. i \<in> mk_id ` set (fp_markers f)) ordered @ filter (\<lambda>i. i \<notin> set ordered) (map mk_id (fp_markers f))"
    using pick_markers_ids [OF t d(2)] by (simp add: comp_def image_image)
  ultimately show ?thesis by simp
qed

text \<open>Plain values for the witnesses.\<close>

definition plain_marker :: "string \<Rightarrow> string \<Rightarrow> marker" where
  "plain_marker i p = \<lparr>mk_id = i, mk_pattern = p, mk_display = p, mk_category = ''name_pattern'', mk_weight = dint 1, mk_source = Manual_Marker,
     mk_confidence = dint 1, mk_added_at = 0, mk_added_by = ''user''\<rparr>"

definition plain_fingerprint :: "string \<Rightarrow> marker list \<Rightarrow> fingerprint" where
  "plain_fingerprint g ms = \<lparr>fp_id = g, fp_group_id = g, fp_group_name = g, fp_site_name = [], fp_account_name = [], fp_markers = ms,
     fp_created_at = 0, fp_updated_at = 0, fp_created_by = ''system''\<rparr>"

definition plain_state :: "fingerprint list \<Rightarrow> proposal list \<Rightarrow> fp_state" where
  "plain_state fps ps = \<lparr>fs_fps = fps, fs_suggestions = [], fs_proposals = ps,
     fs_groups = [\<lparr>gr_source_id = ''g'', gr_name = None, gr_site_id = [], gr_site_name = None\<rparr>], fs_sites = [], fs_agents = [], fs_apps = []\<rparr>"

lemmas plain_defs = plain_marker_def plain_fingerprint_def plain_state_def

lemma reorder_markers_permutes_witness:
  "\<exists>f2. get_by_group_id ''g'' (snd (reorder_markers (\<lambda>st. st) 5 ''g'' [''2'']
     (plain_state [plain_fingerprint ''g'' [plain_marker ''1'' ''a'', plain_marker ''2'' ''b'']] []))) = Some f2 \<and>
     map mk_id (fp_markers f2) = [''2'', ''1'']"
proof -
  let ?st = "plain_state [plain_fingerprint ''g'' [plain_marker ''1'' ''a'', plain_marker ''2'' ''b'']] []"
  let ?f = "plain_fingerprint ''g'' [plain_marker ''1'' ''a'', plain_marker ''2'' ''b'']"
  have g: "get_by_group_id ''g'' ?st = Some ?f" by (simp add: get_by_group_id_def plain_defs)
  show ?thesis
    using reorder_markers_permutes [OF g, of "[''2'']" "\<lambda>st. st" ?f 5] g
    by (simp add: unique_groups_def) (auto simp: plain_defs)
qed

section \<open>Export and import\<close>

lemma export_of_imported [simp]: "export_of (imported_marker now i x) = x"
  by (simp add: export_of_def imported_marker_def)

lemma export_of_import: "map export_of (import_markers now ids xs) = xs"
  by (simp add: import_markers_def comp_def split_def)

lemma import_item_groups [simp]: "fs_groups (fst (import_item now True ids item (st, r))) = fs_groups st"
  by (auto simp: import_item_def fp_create_def Let_def split: prod.splits option.splits if_splits)

lemma get_after_create: "fp_create f st = Some st1 \<Longrightarrow> h \<noteq> fp_group_id f \<Longrightarrow> get_by_group_id h st1 = get_by_group_id h st"
  by (auto simp: fp_create_def get_by_group_id_def find_append split: if_splits option.split)

lemma import_item_other:
  "g \<noteq> fst item \<Longrightarrow> get_by_group_id g (fst (import_item now True ids item (st, r))) = get_by_group_id g st"
  by (auto simp: import_item_def get_after_update get_after_create new_fingerprint_def Let_def split_def split: option.splits if_splits)

lemma import_item_self:
  assumes "list_ex (\<lambda>d. gr_source_id d = g) (fs_groups st)"
  shows "\<exists>f. get_by_group_id g (fst (import_item now True ids (g, xs) (st, r))) = Some f \<and> map export_of (fp_markers f) = xs"
proof (cases "get_by_group_id g st")
  case None
  then have "\<not> list_ex (\<lambda>x. fp_group_id x = g) (fs_fps st)" by (simp add: get_by_group_id_def find_None_iff list_ex_iff)
  then show ?thesis using None assms
    by (simp add: import_item_def fp_create_def new_fingerprint_def get_by_group_id_def find_append export_of_import Let_def split_def)
next
  case (Some f)
  then show ?thesis using assms by (simp add: import_item_def get_after_update export_of_import Let_def)
qed

lemma import_restores:
  "distinct (map fst items) \<Longrightarrow> (g, xs) \<in> set items \<Longrightarrow> list_ex (\<lambda>d. gr_source_id d = g) (fs_groups st) \<Longrightarrow>
     \<exists>f. get_by_group_id g (fst (foldl (\<lambda>acc (i, item). import_item now True (ids i) item acc) (st, r) (enumerate n items))) = Some f \<and>
       map export_of (fp_markers f) = xs"
proof (induction items arbitrary: st r n)
  case (Cons item items)
  obtain st1 r1 where one: "import_item now True (ids n) item (st, r) = (st1, r1)" by fastforce
  have groups: "fs_groups st1 = fs_groups st" using import_item_groups [of now "ids n" item st r] one by simp
  show ?case
  proof (cases "(g, xs) \<in> set items")
    case True
    then show ?thesis using Cons groups one by simp
  next
    case False
    then have item: "item = (g, xs)" using Cons.prems by simp
    have later: "get_by_group_id g (fst (foldl (\<lambda>acc (i, item). import_item now True (ids i) item acc) (s, r) (enumerate m its))) = get_by_group_id g s"
      if "g \<notin> fst ` set its" for s r m its
      using that
    proof (induction its arbitrary: s r m)
      case (Cons it its)
      obtain s1 r1 where "import_item now True (ids m) it (s, r) = (s1, r1)" by fastforce
      then show ?case using Cons import_item_other [of g it now "ids m" s r] by simp
    qed simp
    have "g \<notin> fst ` set items" using Cons.prems(1) item by simp
    then show ?thesis using later import_item_self [OF Cons.prems(3), of now "ids n" xs r] one item by simp
  qed
qed simp

lemma export_items:
  "unique_groups st \<Longrightarrow> length (fs_fps st) \<le> 10000 \<Longrightarrow> distinct (map fst (export_all_fingerprints st)) \<and>
     set (export_all_fingerprints st) = (\<lambda>f. (fp_group_id f, map export_of (fp_markers f))) ` set (fs_fps st)"
  by (simp add: export_all_fingerprints_def list_fingerprints_def comp_def unique_groups_def distinct_map)



text \<open>A merge into the system that the export came from.\<close>

lemma by_pattern_distinct: "distinct (map mk_pattern ms) \<Longrightarrow> by_pattern ms = map (\<lambda>m. (mk_pattern m, m)) ms"
  by (simp add: by_pattern_def fold_update_fresh)

lemma merge_same:
  "\<forall>x\<in>set xs. \<exists>m. map_of existing (xm_pattern (snd x)) = Some m \<and> mk_weight m = xm_weight (snd x) \<Longrightarrow>
     foldl (merge_marker now g existing) (st, False) xs = (st, False)"
  by (induction xs) (auto simp: merge_marker_def deq_iff)

lemma merge_item_same:
  assumes "get_by_group_id g st = Some f" "distinct (map mk_pattern (fp_markers f))"
  shows "fst (import_item now False ids (g, map export_of (fp_markers f)) (st, r)) = st"
proof -
  let ?t = "map (\<lambda>m. (mk_pattern m, m)) (fp_markers f)"
  have "map_of ?t (mk_pattern m) = Some m" if "m \<in> set (fp_markers f)" for m
    using that assms(2) by (intro map_of_is_SomeI) (auto simp: comp_def)
  then have "foldl (merge_marker now g (by_pattern (fp_markers f))) (st, False)
      (map (\<lambda>(i, x). (ids i, x)) (enumerate 0 (map export_of (fp_markers f)))) = (st, False)"
    by (intro merge_same) (auto simp: by_pattern_distinct [OF assms(2)] export_of_def in_set_enumerate_eq)
  then show ?thesis using assms by (simp add: import_item_def Let_def)
qed

text \<open>Merging an export into the system it was taken from changes nothing, provided that no fingerprint has two markers with the same
  pattern.\<close>

theorem merge_of_own_export_is_neutral:
  "unique_groups st \<Longrightarrow> length (fs_fps st) \<le> 10000 \<Longrightarrow> (\<forall>f\<in>set (fs_fps st). distinct (map mk_pattern (fp_markers f))) \<Longrightarrow>
     fst (import_fingerprints now False ids (export_all_fingerprints st) st) = st"
proof -
  assume st: "unique_groups st" "length (fs_fps st) \<le> 10000" and d: "\<forall>f\<in>set (fs_fps st). distinct (map mk_pattern (fp_markers f))"
  have "fst (foldl (\<lambda>acc (i, item). import_item now False (ids i) item acc) (st, r) (enumerate n items)) = st"
    if "set items \<subseteq> set (export_all_fingerprints st)" for items r n
    using that
  proof (induction items arbitrary: r n)
    case (Cons item items)
    then obtain f where f: "f \<in> set (fs_fps st)" "item = (fp_group_id f, map export_of (fp_markers f))"
      using conjunct2 [OF export_items [OF st]] by auto
    have "get_by_group_id (fp_group_id f) st = Some f"
      using st(1) f(1) unfolding get_by_group_id_def unique_groups_def
      by (induction "fs_fps st") (auto simp: find_Some_iff in_set_conv_nth distinct_conv_nth)
    then have "fst (import_item now False (ids n) item (st, r)) = st" using merge_item_same d f by simp
    then obtain r1 where "import_item now False (ids n) item (st, r) = (st, r1)" by (metis prod.collapse)
    then show ?case using Cons by simp
  qed simp
  then show ?thesis unfolding import_fingerprints_def by blast
qed

lemma merge_of_own_export_is_neutral_witness:
  "fst (import_fingerprints 9 False (\<lambda>i j. []) (export_all_fingerprints (plain_state [plain_fingerprint ''g'' [plain_marker ''1'' ''a'']] []))
     (plain_state [plain_fingerprint ''g'' [plain_marker ''1'' ''a'']] [])) = plain_state [plain_fingerprint ''g'' [plain_marker ''1'' ''a'']] []"
  by (rule merge_of_own_export_is_neutral) (simp_all add: unique_groups_def plain_defs)

text \<open>Two markers with the same pattern, which nothing prevents: the merge changes the weight of the second to that of the first.\<close>

theorem merge_of_own_export_changes_duplicates:
  "map mk_weight (fp_markers (hd (fs_fps (fst (import_fingerprints 9 False (\<lambda>i j. [])
     (export_all_fingerprints (plain_state [plain_fingerprint ''g'' [plain_marker ''1'' ''a'', (plain_marker ''2'' ''a'')\<lparr>mk_weight := dint 2\<rparr>]] []))
     (plain_state [plain_fingerprint ''g'' [plain_marker ''1'' ''a'', (plain_marker ''2'' ''a'')\<lparr>mk_weight := dint 2\<rparr>]] [])))))) = [dint 1, dint 1]"
  by (simp add: plain_defs import_fingerprints_def export_all_fingerprints_def list_fingerprints_def import_item_def by_pattern_def
      get_by_group_id_def export_of_def merge_marker_def set_marker_def fp_update_def update_many_def update_updated_at_def deq_iff Let_def)

section \<open>Proposals\<close>

lemma new_markers_facts:
  "new_markers now ids known ps = (ms, n) \<Longrightarrow>
     length ms + n = length ps \<and> distinct (map mk_pattern ms) \<and> set (map mk_pattern ms) \<inter> set known = {} \<and>
     set (map pm_name ps) \<subseteq> set known \<union> set (map mk_pattern ms) \<and> set (map mk_pattern ms) \<subseteq> set (map pm_name ps)"
proof (induction now ids known ps arbitrary: ms n rule: new_markers.induct)
  case (2 now ids known p ps)
  show ?case
  proof (cases "pm_name p \<in> set known")
    case True
    then obtain n' where "new_markers now ids known ps = (ms, n')" "n = Suc n'" using 2(3) by (auto split: prod.splits)
    then show ?thesis using 2(1) [OF True] True by auto
  next
    case False
    then obtain ms' where m: "new_markers now (\<lambda>i. ids (Suc i)) (pm_name p # known) ps = (ms', n)"
      "ms = statistical_marker now (ids 0) (pm_name p) (pm_display p) (pm_lift p) # ms'" using 2(3) by (auto split: prod.splits)
    have "mk_pattern (statistical_marker now (ids 0) (pm_name p) (pm_display p) (pm_lift p)) = pm_name p" by (simp add: statistical_marker_def)
    then show ?thesis using 2(2) [OF False m(1)] False m(2) by auto
  qed
qed simp

lemma new_markers_known: "set (map pm_name ps) \<subseteq> set known \<Longrightarrow> new_markers now ids known ps = ([], length ps)"
  by (induction now ids known ps rule: new_markers.induct) auto

text \<open>C32. Applying a proposal only adds: the markers of the fingerprint stay as they are, the new ones follow, one for every proposed name
  that was no pattern yet, and afterwards every proposed name is a pattern. Every proposed name is counted as added or as skipped, and
  applying the same proposal again adds nothing.\<close>

theorem apply_proposal_adds_only:
  "apply_proposal now ids g st = Inr ((added, skipped), st') \<Longrightarrow> get_proposal g st = Some p \<Longrightarrow> get_by_group_id g st = Some f \<Longrightarrow>
     \<exists>f' ms. get_by_group_id g st' = Some f' \<and> fp_markers f' = fp_markers f @ ms \<and> length ms = added \<and>
       added + skipped = length (pr_markers p) \<and> distinct (map mk_pattern ms) \<and>
       set (map mk_pattern ms) = set (map pm_name (pr_markers p)) - set (map mk_pattern (fp_markers f)) \<and>
       (\<exists>st''. apply_proposal now' ids' g st' = Inr ((0, length (pr_markers p)), st''))"
proof -
  assume a: "apply_proposal now ids g st = Inr ((added, skipped), st')" and p: "get_proposal g st = Some p" and f: "get_by_group_id g st = Some f"
  obtain ms n where m: "new_markers now ids (map mk_pattern (fp_markers f)) (pr_markers p) = (ms, n)" by fastforce
  let ?st1 = "if ms = [] then st else snd (fp_update g (\<lambda>x. x\<lparr>fp_markers := fp_markers x @ ms\<rparr>) st)"
  have r: "added = length ms" "skipped = n" "st' = update_proposal_status g Applied ?st1"
    using a by (auto simp: apply_proposal_def p f m Let_def)
  have "get_by_group_id g ?st1 = Some (f\<lparr>fp_markers := fp_markers f @ ms\<rparr>)" using f by (simp add: get_after_update)
  then have f': "get_by_group_id g st' = Some (f\<lparr>fp_markers := fp_markers f @ ms\<rparr>)"
    by (simp add: r update_proposal_status_def get_by_group_id_def)
  have "fs_proposals ?st1 = fs_proposals st" by simp
  then have p': "get_proposal g st' = Some (p\<lparr>pr_status := Applied\<rparr>)"
    using p unfolding r(3) update_proposal_status_def get_proposal_def by (simp add: find_update_first)
  note facts = new_markers_facts [OF m]
  have "new_markers now' ids' (map mk_pattern (fp_markers f @ ms)) (pr_markers p) = ([], length (pr_markers p))"
    by (rule new_markers_known) (use facts in auto)
  then have "\<exists>st''. apply_proposal now' ids' g st' = Inr ((0, length (pr_markers p)), st'')"
    by (simp add: apply_proposal_def p' f' Let_def)
  then show ?thesis using f' facts r by auto
qed

definition plain_proposal :: "string \<Rightarrow> string list \<Rightarrow> proposal" where
  "plain_proposal g names = \<lparr>pr_group_id = g, pr_group_name = g, pr_group_size = 1, pr_markers = map (\<lambda>n. \<lparr>pm_name = n, pm_display = n,
     pm_lift = dint 2, pm_group_coverage = dint 1, pm_outside_coverage = dint 0, pm_in_group = 1, pm_outside = 0, pm_shared_with = []\<rparr>) names,
     pr_quality = dint 2, pr_total_groups = 2, pr_coverage_min = dint 0, pr_outside_max = dint 1, pr_lift_min = dint 0, pr_top_k = 10,
     pr_status = Proposed, pr_computed_at = 0\<rparr>"

lemma apply_proposal_adds_only_witness:
  "\<exists>st' f'. apply_proposal 5 (\<lambda>n. replicate n (CHR ''x'')) ''g''
     (plain_state [plain_fingerprint ''g'' [plain_marker ''1'' ''a'']] [plain_proposal ''g'' [''a'', ''b'']]) = Inr ((1, 1), st') \<and>
     get_by_group_id ''g'' st' = Some f' \<and> map mk_pattern (fp_markers f') = [''a'', ''b'']"
proof -
  let ?st = "plain_state [plain_fingerprint ''g'' [plain_marker ''1'' ''a'']] [plain_proposal ''g'' [''a'', ''b'']]"
  have f: "get_by_group_id ''g'' ?st = Some (plain_fingerprint ''g'' [plain_marker ''1'' ''a''])"
    and p: "get_proposal ''g'' ?st = Some (plain_proposal ''g'' [''a'', ''b''])"
    by (simp_all add: get_by_group_id_def get_proposal_def plain_defs plain_proposal_def)
  obtain st' where a: "apply_proposal 5 (\<lambda>n. replicate n (CHR ''x'')) ''g'' ?st = Inr ((1, 1), st')"
    by (simp add: apply_proposal_def f p Let_def) (simp add: plain_defs plain_proposal_def)
  obtain f' ms where f': "get_by_group_id ''g'' st' = Some f'"
    "fp_markers f' = fp_markers (plain_fingerprint ''g'' [plain_marker ''1'' ''a'']) @ ms" "length ms = 1"
    "set (map mk_pattern ms) = set (map pm_name (pr_markers (plain_proposal ''g'' [''a'', ''b'']))) -
      set (map mk_pattern (fp_markers (plain_fingerprint ''g'' [plain_marker ''1'' ''a''])))"
    using apply_proposal_adds_only [OF a p f, of 0 "\<lambda>_. []"] by blast
  have "set (map mk_pattern ms) = {''b''}" unfolding f'(4) by (simp add: plain_defs plain_proposal_def)
  moreover obtain m where "ms = [m]" using f'(3) by (auto simp: length_Suc_conv)
  ultimately have "map mk_pattern (fp_markers f') = [''a'', ''b'']" unfolding f'(2) by (simp add: plain_defs)
  then show ?thesis using a f'(1) by (intro exI [of _ st'] exI [of _ f'] conjI)
qed

lemma find_replace_proposals:
  "find (\<lambda>p. pr_group_id p = g) (foldl (\<lambda>acc p. replace_proposal p acc) stored ps) =
     (case find (\<lambda>p. pr_group_id p = g) (rev ps) of Some p \<Rightarrow> Some p | None \<Rightarrow> find (\<lambda>p. pr_group_id p = g) stored)"
proof (induction ps rule: rev_induct)
  case (snoc p ps)
  have "find (\<lambda>p. pr_group_id p = g) (replace_proposal p xs) = (if pr_group_id p = g then Some p else find (\<lambda>p. pr_group_id p = g) xs)" for xs
  proof (cases "list_ex (\<lambda>x. pr_group_id x = pr_group_id p) xs")
    case True
    then have "find (\<lambda>p. pr_group_id p = g) (update_first (\<lambda>x. pr_group_id x = pr_group_id p) (\<lambda>_. p) xs) =
        (if pr_group_id p = g then Some p else find (\<lambda>p. pr_group_id p = g) xs)" by (induction xs) auto
    then show ?thesis using True by (simp add: replace_proposal_def)
  next
    case False
    then show ?thesis by (induction xs) (auto simp: replace_proposal_def)
  qed
  then show ?case using snoc by simp
qed simp

lemma generated_proposals:
  assumes "a \<in> set ags" "ag_group_id a = Some g" "g \<noteq> []"
  shows "\<exists>p\<in>set (generate_proposals now th ags). pr_group_id p = g" "p \<in> set (generate_proposals now th ags) \<Longrightarrow> pr_status p = Proposed"
proof -
  let ?groups = "fleet_groups ags" and ?n = "sum_list (map (\<lambda>(_, n, _). n) (fleet_groups ags))"
  have "g \<in> set (group_keys (List.map_filter ag_group_id ags))"
    using assms by (induction ags) (auto simp: group_keys_def map_filter_simps split: option.splits)
  then obtain i where i: "i \<in> set ?groups" "fst i = g" "fst (snd i) = length (filter (\<lambda>a. ag_group_id a = Some g) ags)"
    using assms(3) by (fastforce simp: fleet_groups_def)
  have "0 < length (filter (\<lambda>a. ag_group_id a = Some g) ags)" using assms by (auto simp: filter_empty_conv)
  moreover have "fst (snd i) \<in> set (map (\<lambda>(_, n, _). n) ?groups)" using i(1) by (force simp: split_def)
  ultimately have n: "?n \<noteq> 0" using i(3) member_le_sum_list [of "fst (snd i)" "map (\<lambda>(_, n, _). n) ?groups"] by linarith
  show "\<exists>p\<in>set (generate_proposals now th ags). pr_group_id p = g"
    using n i(1,2) by (auto simp: generate_proposals_def Let_def zip_map2 zip_same_conv_map split_def image_image intro!: bexI [of _ i])
  show "p \<in> set (generate_proposals now th ags) \<Longrightarrow> pr_status p = Proposed"
    by (auto simp: generate_proposals_def Let_def split_def split: if_splits)
qed

text \<open>Dismissing a proposal does not last: the next generation replaces it, and as long as the group has an agent its proposal is open
  again.\<close>

theorem dismissed_proposal_returns:
  "dismiss_proposal g st = Inr st1 \<Longrightarrow> a \<in> set (fs_agents st) \<Longrightarrow> ag_group_id a = Some g \<Longrightarrow> g \<noteq> [] \<Longrightarrow>
     (\<exists>p. get_proposal g st1 = Some p \<and> pr_status p = Dismissed) \<and>
     (\<exists>p. get_proposal g (run_proposal_generation now th st1) = Some p \<and> pr_status p = Proposed)"
proof -
  assume d: "dismiss_proposal g st = Inr st1" and a: "a \<in> set (fs_agents st)" "ag_group_id a = Some g" "g \<noteq> []"
  from d obtain p where p: "get_proposal g st = Some p" "st1 = update_proposal_status g Dismissed st"
    by (auto simp: dismiss_proposal_def split: if_splits)
  have "get_proposal g st1 = Some (p\<lparr>pr_status := Dismissed\<rparr>)"
    using p unfolding update_proposal_status_def get_proposal_def by (simp add: find_update_first)
  moreover have "fs_agents st1 = fs_agents st" using p by (simp add: update_proposal_status_def)
  moreover obtain q where q: "find (\<lambda>p. pr_group_id p = g) (rev (generate_proposals now th (fs_agents st))) = Some q"
    using generated_proposals(1) [OF a] by (cases "find (\<lambda>p. pr_group_id p = g) (rev (generate_proposals now th (fs_agents st)))") (auto simp: find_None_iff)
  moreover have "pr_status q = Proposed" using find_Some_in_set [OF q] generated_proposals(2) [OF a] by auto
  ultimately show ?thesis by (simp add: run_proposal_generation_def save_proposals_def get_proposal_def find_replace_proposals)
qed

lemma dismissed_proposal_returns_witness:
  "\<exists>(st :: fp_state) st1. dismiss_proposal ''g'' st = Inr st1 \<and>
     (\<exists>p. get_proposal ''g'' (run_proposal_generation 0 \<lparr>th_coverage_min = dint 1, th_outside_max = dint 0, th_lift_min = dint 2, th_top_k = 10\<rparr> st1) =
       Some p \<and> pr_status p = Proposed)"
proof -
  let ?a = "\<lparr>ag_source_id = Some ''a'', ag_hostname = None, ag_installed = None, ag_group_name = None, ag_tags = None, ag_group_id = Some ''g''\<rparr>"
  let ?st = "(plain_state [] [plain_proposal ''g'' [''a'']])\<lparr>fs_agents := [?a]\<rparr>"
  obtain st1 where d: "dismiss_proposal ''g'' ?st = Inr st1"
    by (simp add: dismiss_proposal_def get_proposal_def plain_defs plain_proposal_def)
  then show ?thesis using dismissed_proposal_returns [OF d, of ?a] by (intro exI [of _ ?st] exI [of _ st1]) simp
qed

section \<open>Suggestions\<close>

lemma globs_self: "globs (lower s) s"
proof (induction s)
  case (Cons c s)
  consider "lower_char c = CHR ''*''" | "lower_char c = CHR ''?''" | "lower_char c \<noteq> CHR ''*''" "lower_char c \<noteq> CHR ''?''" by blast
  then show ?case
  proof cases
    case 1
    then show ?thesis using g_star [OF Cons, of "[c]"] by (simp add: lower_def)
  next
    case 2
    then show ?thesis using g_one [OF Cons, of c] by (simp add: lower_def)
  next
    case 3
    then show ?thesis using g_lit [OF Cons, of "lower_char c" c] by (simp add: lower_def)
  qed
qed (simp add: lower_def g_empty)

lemma suggested_not_covered:
  assumes "s \<in> set (compute_suggestions now g st)"
  shows "\<not> list_ex (\<lambda>p. matches_pattern p (sg_name s)) (existing_patterns g st)" "sg_status s = Pending" "sg_group_id s = g"
proof -
  obtain ids fleet_n apps row where "suggestion_for now g ids fleet_n (existing_patterns g st) apps row = Some s"
    using assms by (auto simp: compute_suggestions_def Let_def List.map_filter_def split: if_splits dest!: in_set_takeD)
  then show "\<not> list_ex (\<lambda>p. matches_pattern p (sg_name s)) (existing_patterns g st)" "sg_status s = Pending" "sg_group_id s = g"
    by (auto simp: suggestion_for_def Let_def split: prod.splits if_splits)
qed

lemma update_suggestion_status_keeps [simp]:
  "fs_agents (update_suggestion_status g sid v st) = fs_agents st" "fs_apps (update_suggestion_status g sid v st) = fs_apps st"
  "get_by_group_id h (update_suggestion_status g sid v st) = get_by_group_id h st"
  by (simp_all add: update_suggestion_status_def get_by_group_id_def)

text \<open>A suggestion that was accepted is not made again: its name is a pattern then, and what a pattern covers is not suggested. A
  rejection decides nothing: the next computation makes the same suggestions as if nothing had been rejected, and stores them as
  pending.\<close>

theorem decisions_on_suggestions:
  "get_suggestion_by_id g sid st = Some s \<Longrightarrow> newline \<notin> set (sg_name s) \<Longrightarrow> get_by_group_id g st = Some f \<Longrightarrow>
     \<exists>st1 st2. accept_suggestion now mid g sid st = Inr st1 \<and> sg_name s \<notin> sg_name ` set (compute_suggestions now' g st1) \<and>
       reject_suggestion g sid st = Inr st2 \<and> compute_suggestions now' g st2 = compute_suggestions now' g st \<and>
       (\<forall>t\<in>set (compute_suggestions now' g st). \<exists>t'\<in>set (fs_suggestions (snd (compute_and_save now' ids generation g st2))).
         sg_name t' = sg_name t \<and> sg_status t' = Pending)"
proof -
  assume s: "get_suggestion_by_id g sid st = Some s" "newline \<notin> set (sg_name s)" and f: "get_by_group_id g st = Some f"
  let ?m = "statistical_marker now mid (sg_name s) (sg_display s) (sg_score s)"
  let ?st1 = "snd (push_marker now g ?m (update_suggestion_status g sid Accepted st))" and ?st2 = "update_suggestion_status g sid Rejected st"
  have a: "accept_suggestion now mid g sid st = Inr ?st1" and r: "reject_suggestion g sid st = Inr ?st2"
    by (simp_all add: accept_suggestion_def reject_suggestion_def s f)
  have "get_by_group_id g (update_suggestion_status g sid Accepted st) = Some f"
    using f by simp
  then have "get_by_group_id g ?st1 = Some (f\<lparr>fp_markers := fp_markers f @ [?m], fp_updated_at := now\<rparr>)"
    by (simp add: push_marker_def get_after_update)
  then have "lower (sg_name s) \<in> set (existing_patterns g ?st1)" by (simp add: existing_patterns_def statistical_marker_def)
  moreover have "matches_pattern (lower (sg_name s)) (sg_name s)" using matches_pattern_globs [OF s(2)] globs_self by blast
  ultimately have new: "sg_name s \<notin> sg_name ` set (compute_suggestions now' g ?st1)"
    using suggested_not_covered(1) by (force simp: list_ex_iff)
  have same: "compute_suggestions now' g ?st2 = compute_suggestions now' g st"
    by (simp add: compute_suggestions_def existing_patterns_def Let_def)
  have "\<exists>t'\<in>set (fs_suggestions (snd (compute_and_save now' ids generation g ?st2))). sg_name t' = sg_name t \<and> sg_status t' = Pending"
    if t: "t \<in> set (compute_suggestions now' g st)" for t
  proof -
    let ?ss = "with_ids ids (compute_suggestions now' g ?st2)"
    obtain i where "(i, t) \<in> set (enumerate 0 (compute_suggestions now' g st))" using t by (metis imageE map_snd_enumerate list.set_map prod.collapse)
    then have "t\<lparr>sg_id := ids i\<rparr> \<in> set ?ss" unfolding with_ids_def same by force
    then have "t\<lparr>sg_id := ids i, sg_generation := generation\<rparr> \<in> set (fs_suggestions (save_suggestions generation g ?ss ?st2))"
      by (auto simp: save_suggestions_def image_iff intro!: bexI [of _ "t\<lparr>sg_id := ids i\<rparr>"])
    then show ?thesis using suggested_not_covered(2) [OF t]
      by (intro bexI [of _ "t\<lparr>sg_id := ids i, sg_generation := generation\<rparr>"]) (simp_all add: compute_and_save_def Let_def)
  qed
  then show ?thesis using a r new same by blast
qed

lemma decisions_on_suggestions_witness:
  "\<exists>(st :: fp_state) st1. accept_suggestion 5 ''m'' ''g'' ''s'' st = Inr st1 \<and> ''notes'' \<notin> sg_name ` set (compute_suggestions 6 ''g'' st1)"
proof -
  let ?s = "\<lparr>sg_id = ''s'', sg_group_id = ''g'', sg_name = ''notes'', sg_display = ''Notes'', sg_score = dint 2, sg_group_coverage = dint 1,
    sg_outside_coverage = dint 0, sg_in_group = 1, sg_outside = 0, sg_status = Pending, sg_computed_at = 0, sg_generation = []\<rparr>"
  let ?st = "(plain_state [plain_fingerprint ''g'' []] [])\<lparr>fs_suggestions := [?s]\<rparr>"
  have s: "get_suggestion_by_id ''g'' ''s'' ?st = Some ?s" and f: "get_by_group_id ''g'' ?st = Some (plain_fingerprint ''g'' [])"
    by (simp_all add: get_suggestion_by_id_def get_by_group_id_def plain_defs)
  obtain st1 where "accept_suggestion 5 ''m'' ''g'' ''s'' ?st = Inr st1" "''notes'' \<notin> sg_name ` set (compute_suggestions 6 ''g'' st1)"
    using decisions_on_suggestions [OF s _ f, of 5 "''m''" 6 "\<lambda>_. []" "[]"] by auto
  then show ?thesis by (intro exI [of _ ?st] exI [of _ st1] conjI)
qed

end
