(* ===== verification/Taxonomy.thy ===== *)
theory Taxonomy
  imports Suggestions Enforcement "HOL-Library.Option_ord"
begin

text \<open>
  \<open>domains/taxonomy\<close>: the catalogue of known software, its categories (\<open>repository.py\<close>, \<open>service.py\<close>), the seed
  (\<open>seed.py\<close>, over the parsed file) and the preview of patterns. An entry is kept as it is stored: a field that an
  update has set to null is \<open>None\<close>, and such an entry does not pass the validation on reading.
\<close>

section \<open>Entries\<close>

record soft_doc =
  sw_id :: string
  sw_name :: "string option"
  sw_patterns :: "string list option"
  sw_publisher :: "string option"
  sw_category :: "string option"
  sw_category_display :: "string option"
  sw_subcategory :: "string option"
  sw_industry :: "string list option"
  sw_description :: "string option"
  sw_universal :: "bool option"
  sw_user_added :: bool
  sw_created_at :: instant
  sw_updated_at :: instant

record software_entry =
  so_id :: string
  so_name :: string
  so_patterns :: "string list"
  so_publisher :: "string option"
  so_category :: string
  so_category_display :: string
  so_subcategory :: "string option"
  so_industry :: "string list"
  so_description :: "string option"
  so_universal :: bool
  so_user_added :: bool
  so_created_at :: instant
  so_updated_at :: instant

definition doc_to_entity :: "soft_doc \<Rightarrow> software_entry option" where
  "doc_to_entity d =
     (case (sw_name d, sw_patterns d, sw_category d, sw_category_display d, sw_industry d, sw_universal d) of
        (Some n, Some ps, Some c, Some cd, Some ind, Some u) \<Rightarrow>
          Some \<lparr>so_id = sw_id d, so_name = n, so_patterns = ps, so_publisher = sw_publisher d, so_category = c, so_category_display = cd,
            so_subcategory = sw_subcategory d, so_industry = ind, so_description = sw_description d, so_universal = u,
            so_user_added = sw_user_added d, so_created_at = sw_created_at d, so_updated_at = sw_updated_at d\<rparr>
      | _ \<Rightarrow> None)"

definition entity_to_doc :: "software_entry \<Rightarrow> soft_doc" where
  "entity_to_doc e = \<lparr>sw_id = so_id e, sw_name = Some (so_name e), sw_patterns = Some (so_patterns e), sw_publisher = so_publisher e,
     sw_category = Some (so_category e), sw_category_display = Some (so_category_display e), sw_subcategory = so_subcategory e,
     sw_industry = Some (so_industry e), sw_description = so_description e, sw_universal = Some (so_universal e),
     sw_user_added = so_user_added e, sw_created_at = so_created_at e, sw_updated_at = so_updated_at e\<rparr>"

record category_doc =
  ca_key :: string
  ca_display :: "string option"
  ca_created_at :: instant
  ca_updated_at :: instant

text \<open>A document of \<open>app_summaries\<close>; the breakdowns are lists of labels with counts.\<close>

record summary_doc = app_summary +
  sd_publisher :: "string option"
  sd_agent_count :: nat
  sd_category_display :: "string option"
  sd_risk_level :: "string option"
  sd_versions :: "(string \<times> nat) list"
  sd_risks :: "(string \<times> nat) list"
  sd_groups :: "(string \<times> nat) list"
  sd_sites :: "(string \<times> nat) list"

text \<open>\<open>tx_matcher\<close> is the matcher cached for the database: the entries that it was built from.\<close>

record tax_state =
  tx_entries :: "soft_doc list"
  tx_categories :: "category_doc list"
  tx_summaries :: "summary_doc list"
  tx_agents :: "agent list"
  tx_matcher :: "soft_doc list option"
  tx_detail :: "soft_doc list option"

datatype tax_error = CategoryExists string | CategoryNotFound string | NothingToUpdate | EntryNotFound string | InvalidDocument | DuplicateKey

section \<open>repository.py\<close>

definition entity_of :: "soft_doc option \<Rightarrow> tax_error + software_entry option" where
  "entity_of d = (case d of None \<Rightarrow> Inr None | Some x \<Rightarrow> (case doc_to_entity x of None \<Rightarrow> Inl InvalidDocument | Some e \<Rightarrow> Inr (Some e)))"

definition get_by_id :: "string \<Rightarrow> tax_state \<Rightarrow> tax_error + software_entry option" where
  "get_by_id i st = entity_of (find (\<lambda>d. sw_id d = i) (tx_entries st))"

text \<open>Reading a list of entries fails if one of them is invalid.\<close>

definition entities_of :: "soft_doc list \<Rightarrow> tax_error + software_entry list" where
  "entities_of ds = (if list_ex (\<lambda>d. doc_to_entity d = None) ds then Inl InvalidDocument else Inr (List.map_filter doc_to_entity ds))"

definition list_by_category :: "string \<Rightarrow> nat \<Rightarrow> tax_state \<Rightarrow> tax_error + software_entry list" where
  "list_by_category c limit st = entities_of (take limit (sort_key sw_name (filter (\<lambda>d. sw_category d = Some c) (tx_entries st))))"

definition list_all_entries :: "nat \<Rightarrow> nat \<Rightarrow> tax_state \<Rightarrow> tax_error + software_entry list" where
  "list_all_entries skip limit st = entities_of (take limit (drop skip (sort_key sw_category (sort_key sw_name (tx_entries st)))))"

definition search_entries :: "string \<Rightarrow> nat \<Rightarrow> tax_state \<Rightarrow> tax_error + software_entry list" where
  "search_entries q limit st =
     entities_of (take limit (filter (\<lambda>d. case sw_name d of Some n \<Rightarrow> text_search q n | None \<Rightarrow> False) (tx_entries st)))"

definition list_categories_raw :: "tax_state \<Rightarrow> (category_doc \<times> nat) list" where
  "list_categories_raw st = sort_key (\<lambda>(c, _). ca_display c)
     (map (\<lambda>c. (c, length (filter (\<lambda>d. sw_category d = Some (ca_key c)) (tx_entries st)))) (tx_categories st))"

definition get_category :: "string \<Rightarrow> tax_state \<Rightarrow> category_doc option" where
  "get_category k st = find (\<lambda>c. ca_key c = k) (tx_categories st)"

text \<open>The key is unique.\<close>

definition insert_category :: "instant \<Rightarrow> string \<Rightarrow> string \<Rightarrow> tax_state \<Rightarrow> tax_state option" where
  "insert_category now k display st =
     (if list_ex (\<lambda>c. ca_key c = k) (tx_categories st) then None
      else Some (st\<lparr>tx_categories := tx_categories st @ [\<lparr>ca_key = k, ca_display = Some display, ca_created_at = now, ca_updated_at = now\<rparr>]\<rparr>))"

definition patch_category :: "instant \<Rightarrow> string option \<Rightarrow> string option \<Rightarrow> category_doc \<Rightarrow> category_doc" where
  "patch_category now new_key new_display c = c\<lparr>ca_key := (case new_key of Some k \<Rightarrow> k | None \<Rightarrow> ca_key c),
     ca_display := (case new_display of Some d \<Rightarrow> Some d | None \<Rightarrow> ca_display c), ca_updated_at := now\<rparr>"

definition update_category_doc :: "instant \<Rightarrow> string \<Rightarrow> string option \<Rightarrow> string option \<Rightarrow> tax_state \<Rightarrow> tax_state option" where
  "update_category_doc now old new_key new_display st =
     (if get_category old st \<noteq> None \<and> (case new_key of Some k \<Rightarrow> k \<noteq> old \<and> get_category k st \<noteq> None | None \<Rightarrow> False) then None
      else Some (st\<lparr>tx_categories := update_first (\<lambda>c. ca_key c = old) (patch_category now new_key new_display) (tx_categories st)\<rparr>))"

definition delete_category_doc :: "string \<Rightarrow> tax_state \<Rightarrow> tax_state" where
  "delete_category_doc k st = st\<lparr>tx_categories := delete_first (\<lambda>c. ca_key c = k) (tx_categories st)\<rparr>"

text \<open>Inserts without order: a document whose key is taken is left out, the others are inserted.\<close>

definition bulk_insert_categories :: "category_doc list \<Rightarrow> tax_state \<Rightarrow> tax_state" where
  "bulk_insert_categories cs st = st\<lparr>tx_categories := foldl (\<lambda>acc c. if list_ex (\<lambda>x. ca_key x = ca_key c) acc then acc else acc @ [c])
     (tx_categories st) cs\<rparr>"

definition insert_entry :: "software_entry \<Rightarrow> tax_state \<Rightarrow> tax_state" where
  "insert_entry e st = st\<lparr>tx_entries := tx_entries st @ [entity_to_doc e]\<rparr>"

definition bulk_insert :: "software_entry list \<Rightarrow> tax_state \<Rightarrow> tax_state" where
  "bulk_insert es st = st\<lparr>tx_entries := tx_entries st @ map entity_to_doc es\<rparr>"

text \<open>An update, and whether it changed a document; it always sets the time.\<close>

definition update_entry :: "instant \<Rightarrow> string \<Rightarrow> (soft_doc \<Rightarrow> soft_doc) \<Rightarrow> tax_state \<Rightarrow> bool \<times> tax_state" where
  "update_entry now i f st =
     (let g = (\<lambda>d. (f d)\<lparr>sw_updated_at := now\<rparr>)
      in ((case find (\<lambda>d. sw_id d = i) (tx_entries st) of Some d \<Rightarrow> g d \<noteq> d | None \<Rightarrow> False),
          st\<lparr>tx_entries := update_first (\<lambda>d. sw_id d = i) g (tx_entries st)\<rparr>))"

definition remove_entry :: "string \<Rightarrow> tax_state \<Rightarrow> bool \<times> tax_state" where
  "remove_entry i st = (list_ex (\<lambda>d. sw_id d = i) (tx_entries st), st\<lparr>tx_entries := delete_first (\<lambda>d. sw_id d = i) (tx_entries st)\<rparr>)"

definition patch_entry :: "instant \<Rightarrow> string option \<Rightarrow> string option \<Rightarrow> soft_doc \<Rightarrow> soft_doc" where
  "patch_entry now new_key new_display d = d\<lparr>sw_category := (case new_key of Some k \<Rightarrow> Some k | None \<Rightarrow> sw_category d),
     sw_category_display := (case new_display of Some x \<Rightarrow> Some x | None \<Rightarrow> sw_category_display d), sw_updated_at := now\<rparr>"

definition update_entries :: "instant \<Rightarrow> string \<Rightarrow> string option \<Rightarrow> string option \<Rightarrow> tax_state \<Rightarrow> nat \<times> tax_state" where
  "update_entries now old new_key new_display st =
     (length (filter (\<lambda>d. sw_category d = Some old \<and> patch_entry now new_key new_display d \<noteq> d) (tx_entries st)),
      st\<lparr>tx_entries := update_many (\<lambda>d. sw_category d = Some old) (patch_entry now new_key new_display) (tx_entries st)\<rparr>)"

definition delete_entries :: "string \<Rightarrow> tax_state \<Rightarrow> nat \<times> tax_state" where
  "delete_entries k st = (length (filter (\<lambda>d. sw_category d = Some k) (tx_entries st)),
     st\<lparr>tx_entries := delete_many (\<lambda>d. sw_category d = Some k) (tx_entries st)\<rparr>)"

section \<open>service.py\<close>

definition invalidate_taxonomy_cache :: "tax_state \<Rightarrow> tax_state" where
  "invalidate_taxonomy_cache st = st\<lparr>tx_matcher := None, tx_detail := None\<rparr>"

definition list_categories :: "tax_state \<Rightarrow> (string \<times> string \<times> nat) list" where
  "list_categories st = map (\<lambda>(c, n). (ca_key c, case ca_display c of Some d \<Rightarrow> if d = [] then ca_key c else d | None \<Rightarrow> ca_key c, n))
     (list_categories_raw st)"

text \<open>Other workers run between the check and the insertion.\<close>

definition create_category :: "(tax_state \<Rightarrow> tax_state) \<Rightarrow> instant \<Rightarrow> string \<Rightarrow> string \<Rightarrow> tax_state \<Rightarrow> (tax_error + unit) \<times> tax_state" where
  "create_category others now k display st =
     (if get_category k st \<noteq> None then (Inl (CategoryExists k), st)
      else (let st1 = others st in case insert_category now k display st1 of None \<Rightarrow> (Inl DuplicateKey, st1) | Some st2 \<Rightarrow> (Inr (), st2)))"

record category_update =
  cu_key :: "string option"
  cu_display :: "string option"

definition display_or_key :: "string \<Rightarrow> category_doc \<Rightarrow> string" where
  "display_or_key k c = (case ca_display c of Some d \<Rightarrow> if d = [] then k else d | None \<Rightarrow> k)"

text \<open>The entries first, then the category document; if that fails the entries are renamed back.\<close>

definition update_category ::
  "instant \<Rightarrow> string \<Rightarrow> category_update \<Rightarrow> tax_state \<Rightarrow> (tax_error + string \<times> string \<times> nat) \<times> tax_state" where
  "update_category now k r st =
     (if cu_key r = None \<and> cu_display r = None then (Inl NothingToUpdate, st)
      else case get_category k st of
          None \<Rightarrow> (Inl (CategoryNotFound k), st)
        | Some c \<Rightarrow>
            (let (modified, st1) = update_entries now k (cu_key r) (cu_display r) st
             in case update_category_doc now k (cu_key r) (cu_display r) st1 of
                 None \<Rightarrow>
                   (let back_key = (if cu_key r \<noteq> None then Some k else None);
                        back_display = (if cu_display r \<noteq> None then Some (display_or_key k c) else None);
                        from = (case cu_key r of Some x \<Rightarrow> x | None \<Rightarrow> k)
                    in (Inl DuplicateKey, snd (update_entries now from back_key back_display st1)))
               | Some st2 \<Rightarrow>
                   (Inr ((case cu_key r of Some x \<Rightarrow> x | None \<Rightarrow> k), (case cu_display r of Some d \<Rightarrow> d | None \<Rightarrow> display_or_key k c), modified),
                    invalidate_taxonomy_cache st2)))"

definition delete_category :: "string \<Rightarrow> tax_state \<Rightarrow> (tax_error + nat) \<times> tax_state" where
  "delete_category k st =
     (if get_category k st = None then (Inl (CategoryNotFound k), st)
      else (let (n, st1) = delete_entries k st in (Inr n, invalidate_taxonomy_cache (delete_category_doc k st1))))"

definition get_entry :: "string \<Rightarrow> tax_state \<Rightarrow> tax_error + software_entry" where
  "get_entry i st = (case get_by_id i st of Inl e \<Rightarrow> Inl e | Inr None \<Rightarrow> Inl (EntryNotFound i) | Inr (Some e) \<Rightarrow> Inr e)"

record entry_request =
  er_name :: string
  er_patterns :: "string list"
  er_publisher :: "string option"
  er_category :: string
  er_category_display :: string
  er_subcategory :: "string option"
  er_industry :: "string list"
  er_description :: "string option"
  er_universal :: bool

definition add_entry :: "instant \<Rightarrow> string \<Rightarrow> entry_request \<Rightarrow> tax_state \<Rightarrow> (tax_error + software_entry) \<times> tax_state" where
  "add_entry now new_id r st =
     (let st1 = (if get_category (er_category r) st \<noteq> None then Some st
            else insert_category now (er_category r) (if er_category_display r \<noteq> [] then er_category_display r else er_category r) st);
          e = \<lparr>so_id = new_id, so_name = er_name r, so_patterns = er_patterns r, so_publisher = er_publisher r, so_category = er_category r,
            so_category_display = er_category_display r, so_subcategory = er_subcategory r, so_industry = er_industry r,
            so_description = er_description r, so_universal = er_universal r, so_user_added = True, so_created_at = now, so_updated_at = now\<rparr>
      in case st1 of None \<Rightarrow> (Inl DuplicateKey, st) | Some st2 \<Rightarrow> (Inr e, invalidate_taxonomy_cache (insert_entry e st2)))"

text \<open>A field of an update: not given, or given with a value or a null.\<close>

type_synonym 'a patch = "'a option option"

record entry_update =
  eu_name :: "string patch"
  eu_patterns :: "string list patch"
  eu_publisher :: "string patch"
  eu_category :: "string patch"
  eu_category_display :: "string patch"
  eu_subcategory :: "string patch"
  eu_industry :: "string list patch"
  eu_description :: "string patch"
  eu_universal :: "bool patch"

definition patched :: "'a patch \<Rightarrow> 'a option \<Rightarrow> 'a option" where
  "patched p old = (case p of None \<Rightarrow> old | Some v \<Rightarrow> v)"

text \<open>What the request model accepts.\<close>

definition valid_update :: "entry_update \<Rightarrow> bool" where
  "valid_update u =
     ((case eu_name u of Some (Some n) \<Rightarrow> n \<noteq> [] \<and> length n \<le> 200 | _ \<Rightarrow> True) \<and> eu_patterns u \<noteq> Some (Some []) \<and>
      (case eu_category u of Some (Some c) \<Rightarrow> c \<noteq> [] \<and> length c \<le> 100 | _ \<Rightarrow> True))"

definition empty_update :: "entry_update \<Rightarrow> bool" where
  "empty_update u = (eu_name u = None \<and> eu_patterns u = None \<and> eu_publisher u = None \<and> eu_category u = None \<and> eu_category_display u = None \<and>
     eu_subcategory u = None \<and> eu_industry u = None \<and> eu_description u = None \<and> eu_universal u = None)"

definition set_entry_fields :: "entry_update \<Rightarrow> soft_doc \<Rightarrow> soft_doc" where
  "set_entry_fields u d = d\<lparr>sw_name := patched (eu_name u) (sw_name d), sw_patterns := patched (eu_patterns u) (sw_patterns d),
     sw_publisher := patched (eu_publisher u) (sw_publisher d), sw_category := patched (eu_category u) (sw_category d),
     sw_category_display := patched (eu_category_display u) (sw_category_display d), sw_subcategory := patched (eu_subcategory u) (sw_subcategory d),
     sw_industry := patched (eu_industry u) (sw_industry d), sw_description := patched (eu_description u) (sw_description d),
     sw_universal := patched (eu_universal u) (sw_universal d)\<rparr>"

definition edit_entry :: "instant \<Rightarrow> string \<Rightarrow> entry_update \<Rightarrow> tax_state \<Rightarrow> (tax_error + software_entry) \<times> tax_state" where
  "edit_entry now i u st =
     (if empty_update u then (get_entry i st, st)
      else (let (modified, st1) = update_entry now i (set_entry_fields u) st
            in if \<not> modified then (Inl (EntryNotFound i), st1)
               else case get_entry i st1 of Inl e \<Rightarrow> (Inl e, st1) | Inr e \<Rightarrow> (Inr e, invalidate_taxonomy_cache st1)))"

definition delete_entry :: "string \<Rightarrow> tax_state \<Rightarrow> (tax_error + unit) \<times> tax_state" where
  "delete_entry i st =
     (let (found, st1) = remove_entry i st in if found then (Inr (), invalidate_taxonomy_cache st1) else (Inl (EntryNotFound i), st1))"

definition toggle_universal :: "instant \<Rightarrow> string \<Rightarrow> tax_state \<Rightarrow> (tax_error + software_entry) \<times> tax_state" where
  "toggle_universal now i st =
     (case get_entry i st of
        Inl e \<Rightarrow> (Inl e, st)
      | Inr e \<Rightarrow> (let st1 = snd (update_entry now i (\<lambda>d. d\<lparr>sw_universal := Some (\<not> so_universal e)\<rparr>) st) in (get_entry i st1, st1)))"

section \<open>Preview\<close>

text \<open>A pattern of \<open>fnmatch.translate\<close> without the flag that ignores case.\<close>

function ematch :: "fatom list \<Rightarrow> string \<Rightarrow> bool" where
  "ematch [] s = (s = [])"
| "ematch (fatom.FLit c # rs) s = (case s of [] \<Rightarrow> False | d # t \<Rightarrow> c = d \<and> ematch rs t)"
| "ematch (fatom.FAny # rs) s = (case s of [] \<Rightarrow> False | d # t \<Rightarrow> ematch rs t)"
| "ematch (fatom.FSet neg m # rs) s =
     (case s of [] \<Rightarrow> False | d # t \<Rightarrow> list_ex (\<lambda>(lo, hi). (of_char lo :: nat) \<le> of_char d \<and> (of_char d :: nat) \<le> of_char hi) m \<noteq> neg \<and> ematch rs t)"
| "ematch (fatom.FStar # rs) s = (ematch rs s \<or> (case s of [] \<Rightarrow> False | d # t \<Rightarrow> ematch (fatom.FStar # rs) t))"
  by pat_completeness auto
termination by (relation "measures [\<lambda>(rs, s). length rs + length s]") auto

definition patterns_to_matcher :: "string list \<Rightarrow> string \<Rightarrow> bool" where
  "patterns_to_matcher ps s = list_ex (\<lambda>p. ematch (fn_translate (lower p)) s) ps"

record preview_request =
  pq_pattern :: "string option"
  pq_patterns :: "string list option"

record preview =
  pv_patterns :: "string list"
  pv_agents :: nat
  pv_matches :: "summary_doc list"
  pv_groups :: "(string \<times> nat) list"

text \<open>How often each key occurs, in the order of the first occurrences, the most frequent first.\<close>

definition ranked :: "'k list \<Rightarrow> ('k \<times> nat) list" where
  "ranked ks = sort_key (\<lambda>(_, n). - int n) (map (\<lambda>k. (k, occurrences ks k)) (group_keys ks))"

definition preview_pattern :: "preview_request \<Rightarrow> tax_state \<Rightarrow> preview" where
  "preview_pattern r st =
     (let ps = (case pq_patterns r of Some (p # ps) \<Rightarrow> p # ps
            | _ \<Rightarrow> (case pq_pattern r of Some p \<Rightarrow> if p = [] then [] else [p] | None \<Rightarrow> []));
          wild = list_ex (\<lambda>p. CHR ''*'' \<in> set p \<or> CHR ''?'' \<in> set p \<or> CHR ''['' \<in> set p) ps;
          found = (if wild then filter (\<lambda>s. patterns_to_matcher ps (su_name s)) (take 10000 (tx_summaries st))
            else filter (\<lambda>s. su_name s \<in> set (map lower ps)) (tx_summaries st));
          names = map su_name found;
          ags = filter (\<lambda>a. list_ex (\<lambda>n. n \<in> set names) (installed_apps a)) (tx_agents st)
      in if ps = [] then \<lparr>pv_patterns = [], pv_agents = 0, pv_matches = [], pv_groups = []\<rparr>
         else \<lparr>pv_patterns = ps, pv_agents = (if names = [] then 0 else length ags),
           pv_matches = take 50 (sort_key (\<lambda>s. - int (sd_agent_count s)) found),
           pv_groups = (if names = [] then []
             else map (\<lambda>(g, n). (case g of Some x \<Rightarrow> if x = [] then ''Unknown'' else x | None \<Rightarrow> ''Unknown'', n)) (take 20 (ranked (map ag_group_name ags))))\<rparr>)"

section \<open>seed.py\<close>

definition UNIVERSAL_NAMES :: "string list" where
  "UNIVERSAL_NAMES = [''microsoft edge'', ''google chrome'', ''mozilla firefox'', ''microsoft .net'', ''microsoft visual c++ runtime'', ''windows sdk'',
     ''microsoft office'', ''microsoft 365'', ''microsoft teams'', ''adobe acrobat'', ''adobe reader'', ''7-zip'', ''notepad++'',
     ''vlc media player'', ''sentinelone'']"

record raw_entry =
  re_name :: string
  re_patterns :: "string list"
  re_publisher :: "string option"
  re_subcategory :: "string option"
  re_industry :: "string list"
  re_description :: "string option"

text \<open>The parsed file: categories in their order with label and entries.\<close>

type_synonym seed_file = "(string \<times> string option \<times> raw_entry list) list"

definition seed_entry :: "instant \<Rightarrow> string \<Rightarrow> string \<Rightarrow> string \<Rightarrow> raw_entry \<Rightarrow> software_entry" where
  "seed_entry now i k display r = \<lparr>so_id = i, so_name = re_name r, so_patterns = re_patterns r, so_publisher = re_publisher r, so_category = k,
     so_category_display = display, so_subcategory = re_subcategory r, so_industry = re_industry r, so_description = re_description r,
     so_universal = list_ex (\<lambda>u. lower (re_name r) = u \<or> starts_with (u @ '' '') (lower (re_name r))) UNIVERSAL_NAMES,
     so_user_added = False, so_created_at = now, so_updated_at = now\<rparr>"

definition load_seed_entries :: "instant \<Rightarrow> (nat \<Rightarrow> string) \<Rightarrow> seed_file \<Rightarrow> software_entry list \<times> category_doc list" where
  "load_seed_entries now ids file =
     (let label = (\<lambda>(k, d, _). case d of Some x \<Rightarrow> x | None \<Rightarrow> k)
      in (map (\<lambda>(n, mk). mk (ids n)) (enumerate 0 (concat (map (\<lambda>c. map (\<lambda>r i. seed_entry now i (fst c) (label c) r) (snd (snd c))) file))),
          map (\<lambda>c. \<lparr>ca_key = fst c, ca_display = Some (label c), ca_created_at = now, ca_updated_at = now\<rparr>) file))"

text \<open>The categories of the entries that are there, when there are no categories. (For an entry whose category is null
  the code adds a category without a key, which no operation finds; it is left out.)\<close>

definition ensure_categories_seeded :: "instant \<Rightarrow> tax_state \<Rightarrow> tax_state" where
  "ensure_categories_seeded now st =
     (if tx_categories st \<noteq> [] then st
      else bulk_insert_categories (map (\<lambda>k. \<lparr>ca_key = k, ca_display = Some (case find (\<lambda>d. sw_category d = Some k) (tx_entries st) of
            Some d \<Rightarrow> (case sw_category_display d of Some x \<Rightarrow> if x = [] then k else x | None \<Rightarrow> k) | None \<Rightarrow> k),
          ca_created_at = now, ca_updated_at = now\<rparr>) (group_keys (List.map_filter sw_category (tx_entries st)))) st)"

definition seed_taxonomy_if_empty :: "instant \<Rightarrow> (nat \<Rightarrow> string) \<Rightarrow> seed_file \<Rightarrow> tax_state \<Rightarrow> tax_state" where
  "seed_taxonomy_if_empty now ids file st =
     (if tx_entries st \<noteq> [] then ensure_categories_seeded now st
      else (let (es, cs) = load_seed_entries now ids file; st1 = bulk_insert es st
            in if cs = [] then st1 else bulk_insert_categories cs st1))"

end
