(* ===== verification/AppCache.thy ===== *)
theory AppCache
  imports Taxonomy
begin

text \<open>
  \<open>domains/agents/app_cache.py\<close>: the matchers that assign a category to an application, their cache, and the
  materialised collection \<open>app_summaries\<close> with its rebuild. A matcher is the list of entries that it was built from.
\<close>

section \<open>Matchers\<close>

definition GLOB_CHARS :: "char set" where
  "GLOB_CHARS = {CHR ''*'', CHR ''?'', CHR ''[''}"

definition is_glob :: "string \<Rightarrow> bool" where
  "is_glob p = list_ex (\<lambda>c. c \<in> GLOB_CHARS) p"

text \<open>The patterns of the entries, in lower case, each with its entry.\<close>

definition keyed_patterns :: "soft_doc list \<Rightarrow> (string \<times> soft_doc) list" where
  "keyed_patterns ds = concat (map (\<lambda>d. map (\<lambda>p. (lower p, d)) (case sw_patterns d of Some ps \<Rightarrow> ps | None \<Rightarrow> [])) ds)"

definition exact_table :: "soft_doc list \<Rightarrow> (string \<times> soft_doc) list" where
  "exact_table ds = foldl (\<lambda>t (k, d). if is_glob k then t else AList.update k d t) [] (keyed_patterns ds)"

definition glob_table :: "soft_doc list \<Rightarrow> (fatom list \<times> soft_doc) list" where
  "glob_table ds = map (\<lambda>(k, d). (fn_translate k, d)) (filter (\<lambda>(k, _). is_glob k) (keyed_patterns ds))"

definition matcher_match :: "soft_doc list \<Rightarrow> string \<Rightarrow> soft_doc option" where
  "matcher_match ds name =
     (case map_of (exact_table ds) name of Some d \<Rightarrow> Some d
      | None \<Rightarrow> map_option snd (find (\<lambda>(r, _). ematch r name) (glob_table ds)))"

text \<open>The category and its label; a missing label is the category.\<close>

definition category_of :: "soft_doc list \<Rightarrow> string \<Rightarrow> string option \<times> string option" where
  "category_of ds name = (case matcher_match ds name of None \<Rightarrow> (None, None) | Some d \<Rightarrow> (sw_category d, sw_category_display d))"

text \<open>The entries with patterns. A null passes the query, and building a matcher from it fails.\<close>

definition load_taxonomy_entries :: "tax_state \<Rightarrow> soft_doc list" where
  "load_taxonomy_entries st = filter (\<lambda>d. sw_patterns d \<noteq> Some []) (tx_entries st)"

definition buildable :: "soft_doc list \<Rightarrow> bool" where
  "buildable ds = list_all (\<lambda>d. sw_patterns d \<noteq> None) ds"

definition get_taxonomy_matcher :: "tax_state \<Rightarrow> soft_doc list option \<times> tax_state" where
  "get_taxonomy_matcher st =
     (case tx_matcher st of
        Some m \<Rightarrow> (Some m, st)
      | None \<Rightarrow> (let ds = load_taxonomy_entries st
          in if buildable ds then (Some ds, st\<lparr>tx_matcher := Some ds\<rparr>) else (None, st)))"

definition get_detail_matcher :: "tax_state \<Rightarrow> soft_doc list option \<times> tax_state" where
  "get_detail_matcher st =
     (case tx_detail st of
        Some m \<Rightarrow> (Some m, st)
      | None \<Rightarrow> (let ds = load_taxonomy_entries st
          in if buildable ds then (Some ds, st\<lparr>tx_detail := Some ds\<rparr>) else (None, st)))"

section \<open>The rebuild\<close>

record cached_app = app_doc +
  ap_publisher :: "string option"

record placed_agent = grouped_agent +
  ag_site_id :: "string option"
  ag_site_name :: "string option"

text \<open>One entry for every application on an agent, and what is collected for an application.\<close>

definition agent_entries :: "cached_app list \<Rightarrow> cached_app list" where
  "agent_entries apps =
     (let as = filter (\<lambda>a. ap_active a \<noteq> Some False) apps
      in List.map_filter (\<lambda>k. find (\<lambda>a. (ia_name a, ia_agent_id a) = k) as) (group_keys (map (\<lambda>a. (ia_name a, ia_agent_id a)) as)))"

definition or_unknown :: "string option \<Rightarrow> string" where
  "or_unknown v = (case v of Some s \<Rightarrow> if s = [] then ''unknown'' else s | None \<Rightarrow> ''unknown'')"

text \<open>How often each key occurs, in the order of the first occurrences.\<close>

definition tally :: "'k list \<Rightarrow> ('k \<times> nat) list" where
  "tally ks = map (\<lambda>k. (k, occurrences ks k)) (group_keys ks)"

definition top_key :: "('k \<times> nat) list \<Rightarrow> 'k option" where
  "top_key t = (case sort_key (\<lambda>(_, n). - int n) t of [] \<Rightarrow> None | (k, _) # _ \<Rightarrow> Some k)"

text \<open>The groups (or sites) of the agents: the label is that of the first agent seen, and the largest come first.\<close>

definition breakdown :: "('a \<Rightarrow> string option) \<Rightarrow> ('a \<Rightarrow> string option) \<Rightarrow> 'a list \<Rightarrow> (string \<times> nat) list" where
  "breakdown key label ags =
     (let ags1 = filter (\<lambda>a. key a \<noteq> None \<and> key a \<noteq> Some []) ags
      in sort_key (\<lambda>(_, n). - int n) (map (\<lambda>(k, n). (case find (\<lambda>a. key a = Some k) ags1 of
            Some a \<Rightarrow> (case label a of Some l \<Rightarrow> if l = [] then k else l | None \<Rightarrow> k) | None \<Rightarrow> k, n))
          (tally (List.map_filter key ags1))))"

definition agent_lookup :: "placed_agent list \<Rightarrow> string \<Rightarrow> placed_agent option" where
  "agent_lookup ags i = find (\<lambda>a. ag_source_id a = Some i) (rev ags)"

definition summary_of :: "soft_doc list \<Rightarrow> placed_agent list \<Rightarrow> cached_app list \<Rightarrow> string \<Rightarrow> summary_doc" where
  "summary_of ds ags entries name =
     (let es = filter (\<lambda>a. ia_name a = name) entries;
          on = List.map_filter (\<lambda>a. agent_lookup ags (ia_agent_id a)) es;
          risks = tally (map (\<lambda>a. or_unknown (ia_risk_level a)) es); display = ap_display (hd es);
          (cat, cat_display) = category_of ds name
      in \<lparr>su_name = name, su_display_name = Some (case display of Some d \<Rightarrow> if d = [] then name else d | None \<Rightarrow> name),
          su_category = cat, su_eol_match = None, sd_publisher = ap_publisher (hd es), sd_agent_count = length es,
          sd_category_display = cat_display, sd_risk_level = top_key risks,
          sd_versions = take 50 (sort_key (\<lambda>(_, n). - int n) (tally (map (\<lambda>a. or_unknown (ia_version a)) es))),
          sd_risks = risks, sd_groups = breakdown ag_group_id ag_group_name on, sd_sites = breakdown ag_site_id ag_site_name on\<rparr>)"

record cache_state =
  cs_tax :: tax_state
  cs_apps :: "cached_app list"
  cs_agents :: "placed_agent list"

text \<open>The rebuild: the number of documents written, or \<open>None\<close> for its exception. Other requests may change and invalidate between the
  reading of the entries and the end of the rebuild (\<open>others\<close>).\<close>

definition rebuild_app_summaries :: "(tax_state \<Rightarrow> tax_state) \<Rightarrow> cache_state \<Rightarrow> nat option \<times> cache_state" where
  "rebuild_app_summaries others st =
     (let entries = agent_entries (cs_apps st); names = group_keys (map ia_name entries); ds = load_taxonomy_entries (cs_tax st);
          t1 = others (cs_tax st)
      in if names = [] then (Some 0, st)
         else if \<not> buildable ds then (None, st\<lparr>cs_tax := t1\<rparr>)
         else (Some (length names), st\<lparr>cs_tax := t1\<lparr>tx_matcher := Some ds, tx_detail := None,
           tx_summaries := map (summary_of ds (cs_agents st) entries) names\<rparr>\<rparr>))"

definition ensure_app_summaries_exist :: "cache_state \<Rightarrow> cache_state" where
  "ensure_app_summaries_exist st =
     (if tx_summaries (cs_tax st) = [] \<and> cs_apps st \<noteq> [] then snd (rebuild_app_summaries (\<lambda>t. t) st) else st)"

end
