(* ===== verification/TaxonomyTheorems.thy ===== *)
theory TaxonomyTheorems
  imports AppCache EnforcementTheorems
begin

text \<open>
  What the catalogue guarantees: category keys stay unique, a rename moves exactly the entries of its category, the
  matchers decide what the patterns mean and agree with the preview and with enforcement; and what goes wrong: a failed
  rename merges two categories, a rename disables rules, a null breaks a category, a rebuild forgets.
\<close>

section \<open>Keys and entries\<close>

definition unique_keys :: "tax_state \<Rightarrow> bool" where
  "unique_keys st = distinct (map ca_key (tx_categories st))"

definition entries_in :: "string \<Rightarrow> tax_state \<Rightarrow> soft_doc list" where
  "entries_in k st = filter (\<lambda>d. sw_category d = Some k) (tx_entries st)"

lemma get_category_None: "get_category k st = None \<longleftrightarrow> k \<notin> ca_key ` set (tx_categories st)"
  by (auto simp: get_category_def find_None_iff)

lemma update_entries_in:
  "entries_in k (snd (update_entries now old nk nd st)) =
     (case nk of
        None \<Rightarrow> if k = old then map (patch_entry now nk nd) (entries_in k st) else entries_in k st
      | Some new \<Rightarrow> if k = new
          then map (\<lambda>d. if sw_category d = Some old then patch_entry now nk nd d else d)
            (filter (\<lambda>d. sw_category d = Some old \<or> sw_category d = Some new) (tx_entries st))
          else if k = old then [] else entries_in k st)"
proof -
  have "filter (\<lambda>d. sw_category d = Some k) (update_many (\<lambda>d. sw_category d = Some old) (patch_entry now nk nd) xs) =
    (case nk of
        None \<Rightarrow> if k = old then map (patch_entry now nk nd) (filter (\<lambda>d. sw_category d = Some k) xs) else filter (\<lambda>d. sw_category d = Some k) xs
      | Some new \<Rightarrow> if k = new
          then map (\<lambda>d. if sw_category d = Some old then patch_entry now nk nd d else d)
            (filter (\<lambda>d. sw_category d = Some old \<or> sw_category d = Some new) xs)
          else if k = old then [] else filter (\<lambda>d. sw_category d = Some k) xs)" for xs
    by (induction xs) (auto simp: update_many_def patch_entry_def split: option.splits)
  moreover have e: "tx_entries (snd (update_entries now old nk nd st)) = update_many (\<lambda>d. sw_category d = Some old) (patch_entry now nk nd) (tx_entries st)"
    by (simp add: update_entries_def)
  ultimately show ?thesis unfolding entries_in_def e by blast
qed

lemma update_entries_fields [simp]:
  "tx_categories (snd (update_entries now old nk nd st)) = tx_categories st"
  "tx_summaries (snd (update_entries now old nk nd st)) = tx_summaries st"
  "tx_matcher (snd (update_entries now old nk nd st)) = tx_matcher st"
  by (simp_all add: update_entries_def)

lemma update_category_Inr:
  assumes "update_category now k r st = (Inr res, st')"
  obtains c st2 where "get_category k st = Some c" "st' = invalidate_taxonomy_cache st2"
    "update_category_doc now k (cu_key r) (cu_display r) (snd (update_entries now k (cu_key r) (cu_display r) st)) = Some st2"
    "snd (snd res) = fst (update_entries now k (cu_key r) (cu_display r) st)"
  using assms by (auto simp: update_category_def Let_def split_def split: if_splits option.splits)

lemma update_category_doc_entries:
  "update_category_doc now old nk nd st = Some st' \<Longrightarrow> tx_entries st' = tx_entries st \<and>
     tx_categories st' = update_first (\<lambda>c. ca_key c = old) (patch_category now nk nd) (tx_categories st)"
  by (auto simp: update_category_doc_def split: if_splits option.splits)

lemma renamed_entries:
  assumes "update_category now k \<lparr>cu_key = Some new, cu_display = display\<rparr> st = (Inr res, st')"
  shows "entries_in k' st' = entries_in k' (snd (update_entries now k (Some new) display st))"
proof -
  from assms obtain st2 where "st' = invalidate_taxonomy_cache st2"
    "update_category_doc now k (Some new) display (snd (update_entries now k (Some new) display st)) = Some st2"
    by (rule update_category_Inr) simp
  then show ?thesis using update_category_doc_entries by (fastforce simp: invalidate_taxonomy_cache_def entries_in_def)
qed

text \<open>A rename that succeeds moves the entries of the category under the new key, all of them, and touches no other entry.\<close>

theorem rename_moves_category:
  "update_category now k \<lparr>cu_key = Some new, cu_display = display\<rparr> st = (Inr res, st') \<Longrightarrow> new \<noteq> k \<Longrightarrow>
     entries_in k st' = [] \<and>
     map sw_id (filter (\<lambda>d. sw_category d = Some new) (tx_entries st')) =
       map sw_id (filter (\<lambda>d. sw_category d = Some k \<or> sw_category d = Some new) (tx_entries st)) \<and>
     (\<forall>k'. k' \<notin> {k, new} \<longrightarrow> entries_in k' st' = entries_in k' st) \<and>
     get_category new st = None \<and> get_category new st' \<noteq> None"
proof -
  assume u: "update_category now k \<lparr>cu_key = Some new, cu_display = display\<rparr> st = (Inr res, st')" and ne: "new \<noteq> k"
  let ?st1 = "snd (update_entries now k (Some new) display st)"
  from u obtain c st2 where c: "get_category k st = Some c" and st': "st' = invalidate_taxonomy_cache st2"
    and d: "update_category_doc now k (Some new) display ?st1 = Some st2" by (rule update_category_Inr) simp
  note f = update_category_doc_entries [OF d]
  note same = renamed_entries [OF u]
  have id: "sw_id (if P then patch_entry now x y d else d) = sw_id d" for P x y d by (simp add: patch_entry_def)
  have c1: "get_category k ?st1 \<noteq> None" using c by (simp add: get_category_def)
  then have new: "get_category new st = None" using d ne by (auto simp: update_category_doc_def get_category_def split: if_splits)
  have "find (\<lambda>c. ca_key c = new) (update_first (\<lambda>c. ca_key c = k) (patch_category now (Some new) display) xs) \<noteq> None"
    if "k \<in> ca_key ` set xs" for xs using that by (induction xs) (auto simp: patch_category_def)
  moreover have "k \<in> ca_key ` set (tx_categories st)" using c get_category_None [of k st] by auto
  ultimately have "get_category new st' \<noteq> None" using f by (simp add: st' invalidate_taxonomy_cache_def get_category_def)
  moreover have "map sw_id (entries_in new st') = map sw_id (filter (\<lambda>d. sw_category d = Some k \<or> sw_category d = Some new) (tx_entries st))"
    using ne by (simp add: same update_entries_in id comp_def)
  moreover have "entries_in k st' = []" "\<forall>k'. k' \<notin> {k, new} \<longrightarrow> entries_in k' st' = entries_in k' st"
    using ne by (auto simp: same update_entries_in)
  ultimately show ?thesis using new by (simp add: entries_in_def)
qed

text \<open>Plain values for the witnesses.\<close>

definition plain_doc :: "string \<Rightarrow> string \<Rightarrow> string list \<Rightarrow> soft_doc" where
  "plain_doc i k ps = \<lparr>sw_id = i, sw_name = Some i, sw_patterns = Some ps, sw_publisher = None, sw_category = Some k,
     sw_category_display = Some k, sw_subcategory = None, sw_industry = Some [], sw_description = None, sw_universal = Some False,
     sw_user_added = True, sw_created_at = 0, sw_updated_at = 0\<rparr>"

definition plain_category :: "string \<Rightarrow> category_doc" where
  "plain_category k = \<lparr>ca_key = k, ca_display = Some k, ca_created_at = 0, ca_updated_at = 0\<rparr>"

definition plain_tax :: "soft_doc list \<Rightarrow> string list \<Rightarrow> tax_state" where
  "plain_tax ds ks = \<lparr>tx_entries = ds, tx_categories = map plain_category ks, tx_summaries = [], tx_agents = [], tx_matcher = None, tx_detail = None\<rparr>"

lemmas plain_tax_defs = plain_doc_def plain_category_def plain_tax_def

lemmas rename_defs = update_category_def get_category_def update_entries_def update_category_doc_def update_many_def patch_entry_def
  patch_category_def Let_def

lemma rename_moves_category_witness:
  "\<exists>st'. update_category 5 ''p2p'' \<lparr>cu_key = Some ''peer'', cu_display = None\<rparr> (plain_tax [plain_doc ''1'' ''p2p'' [''torrent*'']] [''p2p'']) =
       (Inr (''peer'', ''p2p'', 1), st') \<and> entries_in ''p2p'' st' = []"
proof -
  let ?st = "plain_tax [plain_doc ''1'' ''p2p'' [''torrent*'']] [''p2p'']"
  obtain st' where u: "update_category 5 ''p2p'' \<lparr>cu_key = Some ''peer'', cu_display = None\<rparr> ?st = (Inr (''peer'', ''p2p'', 1), st')"
    by (simp add: rename_defs plain_tax_defs display_or_key_def)
  then show ?thesis using rename_moves_category [OF u] by auto
qed

text \<open>C33. A rename onto the key of another category fails, because the key is unique; but the entries were renamed first, and renaming
  them back moves everything under that key: afterwards the other category is empty and its entries belong to the renamed one.\<close>

theorem failed_rename_merges_categories:
  "get_category k st \<noteq> None \<Longrightarrow> get_category other st \<noteq> None \<Longrightarrow> other \<noteq> k \<Longrightarrow>
     \<exists>st'. update_category now k \<lparr>cu_key = Some other, cu_display = display\<rparr> st = (Inl DuplicateKey, st') \<and>
       entries_in other st' = [] \<and>
       map sw_id (entries_in k st') = map sw_id (filter (\<lambda>d. sw_category d = Some k \<or> sw_category d = Some other) (tx_entries st)) \<and>
       tx_categories st' = tx_categories st"
proof -
  assume k: "get_category k st \<noteq> None" and o: "get_category other st \<noteq> None" and ne: "other \<noteq> k"
  obtain c where c: "get_category k st = Some c" using k by blast
  let ?st1 = "snd (update_entries now k (Some other) display st)"
  let ?d = "if display \<noteq> None then Some (display_or_key k c) else None"
  let ?st2 = "snd (update_entries now other (Some k) ?d ?st1)"
  have "get_category x ?st1 = get_category x st" for x by (simp add: get_category_def)
  then have u: "update_category now k \<lparr>cu_key = Some other, cu_display = display\<rparr> st = (Inl DuplicateKey, ?st2)"
    using k o ne by (simp add: update_category_def update_category_doc_def c Let_def split_def)
  have id: "sw_id (if P then patch_entry now x y d else d) = sw_id d" for P x y d by (simp add: patch_entry_def)
  have "tx_entries ?st1 = update_many (\<lambda>d. sw_category d = Some k) (patch_entry now (Some other) display) (tx_entries st)"
    by (simp add: update_entries_def)
  moreover have "map sw_id (filter (\<lambda>d. sw_category d = Some k \<or> sw_category d = Some other)
      (update_many (\<lambda>d. sw_category d = Some k) (patch_entry now (Some other) display) xs)) =
      map sw_id (filter (\<lambda>d. sw_category d = Some k \<or> sw_category d = Some other) xs)" for xs
    by (induction xs) (auto simp: update_many_def patch_entry_def)
  ultimately have "map sw_id (entries_in k ?st2) = map sw_id (filter (\<lambda>d. sw_category d = Some k \<or> sw_category d = Some other) (tx_entries st))"
    using ne by (simp add: update_entries_in id comp_def disj_commute)
  moreover have "entries_in other ?st2 = []" using ne by (simp add: update_entries_in)
  ultimately show ?thesis using u by auto
qed

lemma failed_rename_merges_categories_witness:
  "\<exists>st'. update_category 5 ''a'' \<lparr>cu_key = Some ''b'', cu_display = None\<rparr> (plain_tax [plain_doc ''1'' ''a'' [], plain_doc ''2'' ''b'' []] [''a'', ''b'']) =
     (Inl DuplicateKey, st') \<and> map sw_id (entries_in ''a'' st') = [''1'', ''2'']"
proof -
  let ?st = "plain_tax [plain_doc ''1'' ''a'' [], plain_doc ''2'' ''b'' []] [''a'', ''b'']"
  have "get_category ''a'' ?st \<noteq> None" "get_category ''b'' ?st \<noteq> None" by (simp_all add: get_category_def plain_tax_defs)
  from failed_rename_merges_categories [OF this, of 5 None] show ?thesis by (auto simp: plain_tax_defs)
qed

text \<open>What enforcement sees of the catalogue.\<close>

definition entry_view :: "soft_doc \<Rightarrow> taxonomy_entry option" where
  "entry_view d = (case sw_category d of Some k \<Rightarrow> Some \<lparr>te_category = k, te_patterns = sw_patterns d\<rparr> | None \<Rightarrow> None)"

definition enforcement_view :: "tax_state \<Rightarrow> enf_db \<Rightarrow> enf_db" where
  "enforcement_view st db = db\<lparr>taxonomy_entries := List.map_filter entry_view (tx_entries st), taxonomy_categories := map ca_key (tx_categories st)\<rparr>"

lemma get_taxonomy_patterns_view:
  "get_taxonomy_patterns (enforcement_view st db) k = concat (map (\<lambda>d. case sw_patterns d of Some ps \<Rightarrow> ps | None \<Rightarrow> []) (entries_in k st))"
proof -
  have "concat (map (\<lambda>e. case te_patterns e of Some ps \<Rightarrow> ps | None \<Rightarrow> []) (filter (\<lambda>e. te_category e = k) (List.map_filter entry_view xs))) =
     concat (map (\<lambda>d. case sw_patterns d of Some ps \<Rightarrow> ps | None \<Rightarrow> []) (filter (\<lambda>d. sw_category d = Some k) xs))" for xs
    by (induction xs) (auto simp: map_filter_simps entry_view_def split: option.splits)
  then show ?thesis by (simp add: get_taxonomy_patterns_def enforcement_view_def entries_in_def)
qed

text \<open>Renaming or deleting a category does not reach the enforcement rules that name it: from then on such a rule passes with no agent
  counted, whatever is installed, until somebody edits the rule.\<close>

theorem rename_disables_rules:
  "update_category now k \<lparr>cu_key = Some new, cu_display = display\<rparr> st = (Inr res, st') \<or> delete_category k st = (Inr n, st') \<Longrightarrow> new \<noteq> k \<Longrightarrow>
     r_taxonomy_category_id rule = k \<Longrightarrow>
     \<exists>r v. evaluate_rule now' (enforcement_view st' db) rule = Inr r \<and> er_status r = Passed \<and> er_total_agents r = 0 \<and>
       er_violations r = [v] \<and> ev_agent_id v = ''system''"
proof -
  assume u: "update_category now k \<lparr>cu_key = Some new, cu_display = display\<rparr> st = (Inr res, st') \<or> delete_category k st = (Inr n, st')"
    and ne: "new \<noteq> k" and rule: "r_taxonomy_category_id rule = k"
  have "entries_in k st' = []" if "delete_category k st = (Inr n, st')"
    using that by (auto simp: delete_category_def delete_entries_def delete_category_doc_def invalidate_taxonomy_cache_def entries_in_def
        delete_many_def Let_def filter_empty_conv split: if_splits)
  then have "entries_in k st' = []" using u ne by (auto simp: renamed_entries update_entries_in)
  then have "get_taxonomy_patterns (enforcement_view st' db) (r_taxonomy_category_id rule) = []"
    unfolding get_taxonomy_patterns_view rule by simp
  then show ?thesis by (simp add: evaluate_rule_def compile_patterns_def mk_enf_result_def Enforcement.system_violation_def)
qed

lemma rename_disables_rules_witness:
  "\<exists>st' r. update_category 5 ''p2p'' \<lparr>cu_key = Some ''peer'', cu_display = None\<rparr> (plain_tax [plain_doc ''1'' ''p2p'' [''torrent*'']] [''p2p'']) =
       (Inr (''peer'', ''p2p'', 1), st') \<and>
     evaluate_rule 6 (enforcement_view st' demo_enf) ((demo_rule ''a'' Forbidden)\<lparr>r_taxonomy_category_id := ''p2p''\<rparr>) = Inr r \<and> er_status r = Passed"
proof -
  let ?st = "plain_tax [plain_doc ''1'' ''p2p'' [''torrent*'']] [''p2p'']" and ?rule = "(demo_rule ''a'' Forbidden)\<lparr>r_taxonomy_category_id := ''p2p''\<rparr>"
  obtain st' where u: "update_category 5 ''p2p'' \<lparr>cu_key = Some ''peer'', cu_display = None\<rparr> ?st = (Inr (''peer'', ''p2p'', 1), st')"
    by (simp add: rename_defs plain_tax_defs display_or_key_def)
  then show ?thesis
    using rename_disables_rules [of 5 "''p2p''" "''peer''" None ?st "(''peer'', ''p2p'', 1)" st' 0 ?rule 6 demo_enf] by auto
qed

section \<open>Entries that cannot be read\<close>

lemma sorted_head: "sorted (map f (x # xs)) \<Longrightarrow> y \<in> set (x # xs) \<Longrightarrow> f x \<le> f y"
  by auto

lemma null_name_listed:
  assumes "d \<in> set (tx_entries st)" "sw_category d = Some c" "sw_name d = None"
  shows "list_by_category c (Suc n) st = Inl InvalidDocument"
proof -
  let ?xs = "sort_key sw_name (filter (\<lambda>d. sw_category d = Some c) (tx_entries st))"
  have d: "d \<in> set ?xs" using assms by simp
  then obtain x xs where xs: "?xs = x # xs" by (cases ?xs) auto
  have "sorted (map sw_name ?xs)" by simp
  then have "sw_name x \<le> sw_name d" using d unfolding xs by (rule sorted_head)
  then have "sw_name x = None" using assms(3) by (cases "sw_name x") simp_all
  then have "doc_to_entity x = None" by (simp add: doc_to_entity_def)
  then show ?thesis by (simp add: list_by_category_def entities_of_def xs)
qed

text \<open>The update of an entry accepts a null for its name. The null is stored, the request fails when the entry is read back (without
  invalidating the matchers), and from then on the whole category cannot be listed.\<close>

theorem null_name_breaks_category:
  "find (\<lambda>x. sw_id x = i) (tx_entries st) = Some d \<Longrightarrow> sw_category d = Some c \<Longrightarrow> sw_name d \<noteq> None \<Longrightarrow> eu_name u = Some None \<Longrightarrow>
     eu_category u = None \<Longrightarrow>
     \<exists>st'. edit_entry now i u st = (Inl InvalidDocument, st') \<and> tx_matcher st' = tx_matcher st \<and>
       list_by_category c 500 st' = Inl InvalidDocument"
proof -
  assume d: "find (\<lambda>x. sw_id x = i) (tx_entries st) = Some d" "sw_category d = Some c" "sw_name d \<noteq> None"
    and u: "eu_name u = Some None" "eu_category u = None"
  let ?g = "\<lambda>d. (set_entry_fields u d)\<lparr>sw_updated_at := now\<rparr>"
  let ?st1 = "st\<lparr>tx_entries := update_first (\<lambda>d. sw_id d = i) ?g (tx_entries st)\<rparr>"
  have g: "sw_name (?g d) = None" "sw_category (?g d) = Some c" "sw_id (?g x) = sw_id x" for x
    using u d(2) by (simp_all add: set_entry_fields_def patched_def)
  have "?g d \<noteq> d" using g(1) d(3) by metis
  then have up: "update_entry now i (set_entry_fields u) st = (True, ?st1)" by (simp add: update_entry_def d(1) Let_def)
  have "find (\<lambda>x. sw_id x = i) (tx_entries ?st1) = Some (?g d)" using d(1) g(3) by (simp add: find_update_first)
  moreover have "doc_to_entity (?g d) = None" using g(1) by (simp add: doc_to_entity_def)
  ultimately have "get_entry i ?st1 = Inl InvalidDocument" by (simp add: get_entry_def get_by_id_def entity_of_def)
  then have "edit_entry now i u st = (Inl InvalidDocument, ?st1)" using u up by (simp add: edit_entry_def empty_update_def)
  moreover have "?g d \<in> set (tx_entries ?st1)" using found_in_update [OF d(1)] by simp
  then have "list_by_category c 500 ?st1 = Inl InvalidDocument" using null_name_listed [of "?g d" ?st1 c 499] g by simp
  ultimately show ?thesis by auto
qed

definition no_update :: entry_update where
  "no_update = \<lparr>eu_name = None, eu_patterns = None, eu_publisher = None, eu_category = None, eu_category_display = None, eu_subcategory = None,
     eu_industry = None, eu_description = None, eu_universal = None\<rparr>"

lemma null_name_breaks_category_witness:
  "\<exists>st'. edit_entry 5 ''1'' (no_update\<lparr>eu_name := Some None\<rparr>) (plain_tax [plain_doc ''1'' ''a'' [], plain_doc ''2'' ''a'' []] [''a'']) =
     (Inl InvalidDocument, st') \<and> list_by_category ''a'' 500 st' = Inl InvalidDocument"
  using null_name_breaks_category [of "''1''" "plain_tax [plain_doc ''1'' ''a'' [], plain_doc ''2'' ''a'' []] [''a'']" "plain_doc ''1'' ''a'' []" "''a''"
      "no_update\<lparr>eu_name := Some None\<rparr>" 5]
  by (auto simp: plain_tax_defs no_update_def)

section \<open>The keys stay unique\<close>

text \<open>What the requests do to the catalogue, also at the same time: others may run inside the creation of a category.\<close>

inductive tax_step :: "tax_state \<Rightarrow> tax_state \<Rightarrow> bool" where
  Create: "tax_step\<^sup>*\<^sup>* st (others st) \<Longrightarrow> tax_step st (snd (create_category others now k display st))"
| Rename: "tax_step st (snd (update_category now k r st))"
| Delete: "tax_step st (snd (delete_category k st))"
| Add: "tax_step st (snd (add_entry now i q st))"
| Edit: "tax_step st (snd (edit_entry now i u st))"
| Remove: "tax_step st (snd (delete_entry i st))"
| Toggle: "tax_step st (snd (toggle_universal now i st))"
| Seeded: "tax_step st (seed_taxonomy_if_empty now ids catalogue st)"
| Loaded: "tax_step st (snd (get_taxonomy_matcher st))"

lemma insert_category_keys: "insert_category now k display st = Some st' \<Longrightarrow> unique_keys st \<Longrightarrow> unique_keys st'"
  by (auto simp: insert_category_def unique_keys_def list_ex_iff split: if_splits)

lemma delete_first_subset: "set (delete_first P xs) \<subseteq> set xs"
  by (induction xs) auto

lemma distinct_delete_first: "distinct (map f xs) \<Longrightarrow> distinct (map f (delete_first P xs))"
proof (induction xs)
  case (Cons x xs)
  then show ?case using delete_first_subset [of P xs] by auto
qed simp

lemma bulk_insert_keys: "unique_keys st \<Longrightarrow> unique_keys (bulk_insert_categories cs st)"
proof -
  have "distinct (map ca_key acc) \<Longrightarrow> distinct (map ca_key (foldl (\<lambda>acc c. if list_ex (\<lambda>x. ca_key x = ca_key c) acc then acc else acc @ [c]) acc cs))" for acc
  proof (induction cs arbitrary: acc)
    case (Cons c cs)
    have "distinct (map ca_key (if list_ex (\<lambda>x. ca_key x = ca_key c) acc then acc else acc @ [c]))"
      using Cons.prems by (auto simp: list_ex_iff)
    then show ?case using Cons.IH by simp
  qed simp
  then show "unique_keys st \<Longrightarrow> ?thesis" by (simp add: unique_keys_def bulk_insert_categories_def)
qed

lemma distinct_replace:
  "distinct ks \<Longrightarrow> k = old \<or> k \<notin> set ks \<or> old \<notin> set ks \<Longrightarrow> distinct (update_first (\<lambda>x. x = old) (\<lambda>_. k) ks)"
proof (induction ks)
  case (Cons x ks)
  have "y \<in> set ks \<or> y = k \<and> old \<in> set ks" if "y \<in> set (update_first (\<lambda>x. x = old) (\<lambda>_. k) ks)" for y
    using in_update_first [OF that] by auto
  then show ?case using Cons by (cases "x = old") auto
qed simp

lemma keys_of_rename:
  "map ca_key (update_first (\<lambda>c. ca_key c = old) (patch_category now nk nd) cs) =
     (case nk of None \<Rightarrow> map ca_key cs | Some k \<Rightarrow> update_first (\<lambda>x. x = old) (\<lambda>_. k) (map ca_key cs))"
  by (induction cs) (auto simp: patch_category_def split: option.split)

lemma rename_keys:
  assumes "update_category_doc now old nk nd st = Some st'" "unique_keys st"
  shows "unique_keys st'"
proof -
  have "k = old \<or> k \<notin> ca_key ` set (tx_categories st) \<or> old \<notin> ca_key ` set (tx_categories st)" if "nk = Some k" for k
    using assms(1) that by (auto simp: update_category_doc_def get_category_None split: if_splits)
  then show ?thesis using assms(2) update_category_doc_entries [OF assms(1)]
    by (auto simp: unique_keys_def keys_of_rename intro: distinct_replace split: option.split)
qed

lemmas tax_ops = update_category_def delete_category_def delete_category_doc_def delete_entries_def add_entry_def insert_entry_def edit_entry_def
  update_entry_def delete_entry_def remove_entry_def toggle_universal_def invalidate_taxonomy_cache_def

text \<open>Whatever requests run, in any order and while categories are being created: no two categories ever have the same key.\<close>

theorem category_keys_unique:
  "tax_step\<^sup>*\<^sup>* st st' \<Longrightarrow> unique_keys st \<Longrightarrow> unique_keys st'"
proof -
  have step: "unique_keys st \<longrightarrow> unique_keys st'" if "tax_step st st'" for st st'
    using that
  proof (induction rule: tax_step.induct)
    case (Create st others now k display)
    have "unique_keys st \<Longrightarrow> unique_keys (others st)"
      using Create by (induction rule: rtranclp_induct) auto
    then show ?case by (auto simp: create_category_def Let_def dest: insert_category_keys split: option.split)
  next
    case (Rename st now k r)
    have "unique_keys (snd (update_entries now k x y s)) = unique_keys s" for k x y s by (simp add: unique_keys_def)
    then show ?case using rename_keys
      by (fastforce simp: update_category_def Let_def split_def invalidate_taxonomy_cache_def unique_keys_def split: option.split)
  next
    case (Delete st k)
    then show ?case by (auto simp: tax_ops unique_keys_def distinct_delete_first Let_def)
  next
    case (Add st now i q)
    have "unique_keys (invalidate_taxonomy_cache (insert_entry e s)) = unique_keys s" for e s by (simp add: tax_ops unique_keys_def)
    then show ?case by (auto simp: add_entry_def Let_def dest: insert_category_keys split: option.split)
  next
    case (Seeded st now ids catalogue)
    have "unique_keys (bulk_insert es s) = unique_keys s" for es s by (simp add: bulk_insert_def unique_keys_def)
    then show ?case by (auto simp: seed_taxonomy_if_empty_def ensure_categories_seeded_def Let_def split_def intro: bulk_insert_keys)
  next
    case (Loaded st)
    then show ?case by (auto simp: get_taxonomy_matcher_def unique_keys_def Let_def split: option.split)
  qed (auto simp: tax_ops unique_keys_def Let_def split: option.split sum.split)
  assume "tax_step\<^sup>*\<^sup>* st st'" "unique_keys st"
  then show "unique_keys st'" by (induction rule: rtranclp_induct) (use step in auto)
qed

lemma category_keys_unique_witness:
  "unique_keys (snd (update_category 5 ''a'' \<lparr>cu_key = Some ''c'', cu_display = None\<rparr> (plain_tax [] [''a'', ''b''])))"
  by (rule category_keys_unique [OF r_into_rtranclp [of tax_step, OF Rename]]) (simp add: unique_keys_def plain_tax_defs)

end
