(* ===== verification/AppCacheTheorems.thy ===== *)
theory AppCacheTheorems
  imports TaxonomyTheorems
begin

text \<open>
  What the matchers and the rebuild guarantee: the matcher finds a category exactly when a pattern means the name, as
  the preview and enforcement do; the summaries count the agents of every application; and what a rebuild forgets or
  brings back.
\<close>

section \<open>Matching in lower case\<close>

lemma lower_char_special: "lower_char c = x \<longleftrightarrow> c = x" if "x \<in> {CHR ''*'', CHR ''?'', CHR ''[''}"
proof -
  have "lower_char c \<noteq> c \<Longrightarrow> (of_char (lower_char c) :: nat) \<ge> 97"
    by (auto simp: lower_char_def Let_def of_char_of take_bit_eq_mod split: if_splits)
  moreover have "(of_char x :: nat) < 97" "lower_char x = x" using that by (auto simp: lower_char_def)
  ultimately show ?thesis by (metis not_le)
qed

lemma ematch_star_iff: "ematch (fatom.FStar # rs) s \<longleftrightarrow> (\<exists>u v. s = u @ v \<and> ematch rs v)"
proof (induction s)
  case (Cons d t)
  have "(\<exists>u v. d # t = u @ v \<and> ematch rs v) \<longleftrightarrow> ematch rs (d # t) \<or> (\<exists>u v. t = u @ v \<and> ematch rs v)"
    by (metis (no_types, opaque_lifting) append_Cons append_Nil append_eq_Cons_conv)
  with Cons show ?case by simp
qed simp

lemma lower_Cons_iff: "lower (d # t) = d # t \<longleftrightarrow> lower_char d = d \<and> lower t = t"
  by (simp add: lower_def)

lemma lower_of_append: "lower (u @ v) = u @ v \<Longrightarrow> lower v = v"
  by (simp add: lower_def)

lemma ematch_globs: "CHR ''['' \<notin> set p \<Longrightarrow> lower s = s \<Longrightarrow> ematch (fn_translate (lower p)) s \<longleftrightarrow> globs p s"
proof (induction p arbitrary: s)
  case Nil
  then show ?case by (simp add: globs_simps lower_def)
next
  case (Cons x p)
  have IH: "ematch (fn_translate (lower p)) t \<longleftrightarrow> globs p t" if "lower t = t" for t using Cons that by simp
  have low: "lower (x # p) = lower_char x # lower p" by (simp add: lower_def)
  show ?case
  proof (cases "x = CHR ''*''")
    case True
    then have "ematch (fn_translate (lower (x # p))) s \<longleftrightarrow> (\<exists>u v. s = u @ v \<and> ematch (fn_translate (lower p)) v)"
      unfolding low by (simp add: ematch_star_iff lower_char_special del: ematch.simps(5))
    also have "\<dots> \<longleftrightarrow> (\<exists>u v. s = u @ v \<and> globs p v)" using IH Cons.prems(2) lower_of_append by metis
    also have "\<dots> \<longleftrightarrow> globs (x # p) s" using True by (auto simp: globs_simps)
    finally show ?thesis .
  next
    case False
    have "x \<noteq> CHR ''[''" using Cons.prems by auto
    then show ?thesis using False Cons.prems(2) IH unfolding low
      by (cases s; cases "x = CHR ''?''") (auto simp: globs_simps lower_char_special lower_Cons_iff)
  qed
qed

lemma ematch_literal: "\<not> is_glob k \<Longrightarrow> ematch (fn_translate k) s \<longleftrightarrow> s = k"
proof (induction k arbitrary: s)
  case (Cons c k)
  then show ?case by (cases s) (auto simp: is_glob_def GLOB_CHARS_def)
qed simp

section \<open>The matcher\<close>

lemma exact_table_map:
  "map_of (foldl (\<lambda>t (k, d). if is_glob k then t else AList.update k d t) t kds) name =
     (case find (\<lambda>(k, _). \<not> is_glob k \<and> k = name) (rev kds) of Some (_, d) \<Rightarrow> Some d | None \<Rightarrow> map_of t name)"
proof (induction kds rule: rev_induct)
  case (snoc kd kds)
  then show ?case by (cases kd) (auto simp: update_conv')
qed simp

lemma matcher_match_iff:
  "matcher_match ds name = None \<longleftrightarrow> (\<forall>(k, d)\<in>set (keyed_patterns ds). \<not> ematch (fn_translate k) name)"
  "matcher_match ds name = Some d \<Longrightarrow> \<exists>k. (k, d) \<in> set (keyed_patterns ds) \<and> ematch (fn_translate k) name"
proof -
  let ?exact = "find (\<lambda>(k, _). \<not> is_glob k \<and> k = name) (rev (keyed_patterns ds))"
  have table: "map_of (exact_table ds) name = (case ?exact of Some (_, d) \<Rightarrow> Some d | None \<Rightarrow> None)"
    by (auto simp: exact_table_def exact_table_map split: option.split)
  show "matcher_match ds name = None \<longleftrightarrow> (\<forall>(k, d)\<in>set (keyed_patterns ds). \<not> ematch (fn_translate k) name)"
  proof (cases ?exact)
    case None
    then have m: "matcher_match ds name = map_option snd (find (\<lambda>(r, _). ematch r name) (glob_table ds))"
      by (simp only: matcher_match_def table) simp
    have "\<forall>(k, d)\<in>set (keyed_patterns ds). \<not> is_glob k \<longrightarrow> \<not> ematch (fn_translate k) name"
      using None by (auto simp: find_None_iff ematch_literal)
    then show ?thesis by (auto simp: m find_None_iff glob_table_def)
  next
    case (Some kd)
    then have "kd \<in> set (keyed_patterns ds)" "\<not> is_glob (fst kd)" "fst kd = name" by (auto dest!: find_Some_in_set)
    then show ?thesis using Some ematch_literal [of name name] by (auto simp: matcher_match_def table split_def)
  qed
  assume m: "matcher_match ds name = Some d"
  show "\<exists>k. (k, d) \<in> set (keyed_patterns ds) \<and> ematch (fn_translate k) name"
  proof (cases ?exact)
    case None
    then have "matcher_match ds name = map_option snd (find (\<lambda>(r, _). ematch r name) (glob_table ds))"
      by (simp only: matcher_match_def table) simp
    then show ?thesis using m
      by (cases "find (\<lambda>(r, _). ematch r name) (glob_table ds)") (auto simp: glob_table_def dest!: find_Some_in_set)
  next
    case (Some kd)
    then have "kd \<in> set (keyed_patterns ds)" "\<not> is_glob (fst kd)" "fst kd = name" by (auto dest!: find_Some_in_set)
    then show ?thesis using m Some ematch_literal [of name name]
      by (auto simp: matcher_match_def table split_def intro!: exI [of _ "fst kd"])
  qed
qed

definition all_patterns :: "soft_doc list \<Rightarrow> string list" where
  "all_patterns ds = concat (map (\<lambda>d. case sw_patterns d of Some ps \<Rightarrow> ps | None \<Rightarrow> []) ds)"

lemma keyed_patterns_keys: "fst ` set (keyed_patterns ds) = lower ` set (all_patterns ds)"
  by (auto simp: keyed_patterns_def all_patterns_def split: option.splits) force+



section \<open>The rebuild\<close>

lemma set_group_keys [simp]: "set (group_keys ks) = set ks" "distinct (group_keys ks)" "group_keys ks = [] \<longleftrightarrow> ks = []"
  by (simp_all add: group_keys_def)

abbreviation active_apps :: "cached_app list \<Rightarrow> cached_app list" where
  "active_apps apps \<equiv> filter (\<lambda>a. ap_active a \<noteq> Some False) apps"

lemma agent_entries_keys:
  "map (\<lambda>a. (ia_name a, ia_agent_id a)) (agent_entries apps) = group_keys (map (\<lambda>a. (ia_name a, ia_agent_id a)) (active_apps apps))"
proof -
  let ?k = "\<lambda>a :: cached_app. (ia_name a, ia_agent_id a)" and ?as = "active_apps apps"
  have "map ?k (List.map_filter (\<lambda>k. find (\<lambda>a. ?k a = k) ?as) ks) = ks" if "set ks \<subseteq> ?k ` set ?as" for ks
    using that
  proof (induction ks)
    case (Cons k ks)
    then obtain a where a: "find (\<lambda>a. ?k a = k) ?as = Some a" by (cases "find (\<lambda>a. ?k a = k) ?as") (auto simp: find_None_iff)
    then show ?case using Cons find_Some_in_set [OF a] by (simp add: map_filter_simps)
  qed (simp add: map_filter_simps)
  then show ?thesis by (simp add: agent_entries_def Let_def)
qed

lemma agent_entries_count:
  "length (filter (\<lambda>a. ia_name a = n) (agent_entries apps)) = card (ia_agent_id ` {a \<in> set (active_apps apps). ia_name a = n})"
proof -
  let ?k = "\<lambda>a :: cached_app. (ia_name a, ia_agent_id a)" let ?ks = "group_keys (map ?k (active_apps apps))"
  have "length (filter (\<lambda>a. ia_name a = n) (agent_entries apps)) = length (filter (\<lambda>k. fst k = n) (map ?k (agent_entries apps)))"
    by (simp add: filter_map comp_def)
  also have "\<dots> = card (set (filter (\<lambda>k. fst k = n) ?ks))" unfolding agent_entries_keys by (intro distinct_card [symmetric] distinct_filter) simp
  also have "set (filter (\<lambda>k. fst k = n) ?ks) = (\<lambda>i. (n, i)) ` ia_agent_id ` {a \<in> set (active_apps apps). ia_name a = n}" by auto
  also have "card \<dots> = card (ia_agent_id ` {a \<in> set (active_apps apps). ia_name a = n})" by (intro card_image) (simp add: inj_on_def)
  finally show ?thesis .
qed

lemma tally_sum: "sum_list (map snd (tally ks)) = length ks"
proof -
  have "sum_list (map (occurrences ks) us) = length (filter (\<lambda>k. k \<in> set us) ks)" if "distinct us" for us
    using that
  proof (induction us)
    case (Cons u us)
    have "length (filter (\<lambda>k. k \<in> set (u # us)) ks) = length (filter (\<lambda>k. k = u) ks) + length (filter (\<lambda>k. k \<in> set us) ks)" for ks
      using Cons.prems by (induction ks) auto
    then show ?case using Cons by (simp add: occurrences_def)
  qed simp
  from this [of "group_keys ks"] show ?thesis by (simp add: tally_def comp_def filter_id_conv [THEN iffD2])
qed

lemma rebuild_Some:
  assumes "rebuild_app_summaries others st = (Some n, st')" "0 < n"
  shows "tx_summaries (cs_tax st') = map (summary_of (load_taxonomy_entries (cs_tax st)) (cs_agents st) (agent_entries (cs_apps st)))
      (group_keys (map ia_name (agent_entries (cs_apps st))))"
    "n = length (group_keys (map ia_name (agent_entries (cs_apps st))))"
    "tx_matcher (cs_tax st') = Some (load_taxonomy_entries (cs_tax st))"
  using assms by (auto simp: rebuild_app_summaries_def Let_def split: if_splits)


definition plain_app :: "string \<Rightarrow> string \<Rightarrow> cached_app" where
  "plain_app i n = \<lparr>ia_agent_id = i, ia_name = n, ia_version = None, ia_risk_level = None, ia_last_synced_at = None, ap_active = None,
     ap_display = Some n, ap_publisher = None\<rparr>"

definition plain_cache :: "tax_state \<Rightarrow> cached_app list \<Rightarrow> cache_state" where
  "plain_cache t apps = \<lparr>cs_tax = t, cs_apps = apps, cs_agents = []\<rparr>"

lemma plain_rebuild:
  "\<exists>st'. rebuild_app_summaries others (plain_cache (plain_tax [plain_doc ''1'' ''p2p'' [''torrent'']] [''p2p'']) [plain_app ''a'' ''torrent'']) = (Some 1, st')"
  by (simp add: rebuild_app_summaries_def plain_cache_def agent_entries_def plain_app_def load_taxonomy_entries_def plain_tax_def plain_doc_def
      buildable_def group_keys_def map_filter_simps Let_def)


text \<open>A rebuild caches the matcher it has built without asking whether the catalogue was changed meanwhile: a change that other requests
  made after the entries were read (and the invalidation that follows it) is undone in the cache, so that applications keep their old
  categories until the next change.\<close>

theorem rebuild_reinstalls_stale_matcher:
  "rebuild_app_summaries others st = (Some n, st') \<Longrightarrow> 0 < n \<Longrightarrow>
     fst (get_taxonomy_matcher (cs_tax st')) = Some (load_taxonomy_entries (cs_tax st)) \<and> tx_entries (cs_tax st') = tx_entries (others (cs_tax st))"
proof -
  assume r: "rebuild_app_summaries others st = (Some n, st')" and n: "0 < n"
  have "tx_entries (cs_tax st') = tx_entries (others (cs_tax st))" using r n by (auto simp: rebuild_app_summaries_def Let_def split: if_splits)
  then show ?thesis using rebuild_Some(3) [OF r n] by (simp add: get_taxonomy_matcher_def)
qed

lemma rebuild_reinstalls_stale_matcher_witness:
  "\<exists>st' m. rebuild_app_summaries (\<lambda>t. snd (delete_category ''p2p'' t))
       (plain_cache (plain_tax [plain_doc ''1'' ''p2p'' [''torrent'']] [''p2p'']) [plain_app ''a'' ''torrent'']) = (Some 1, st') \<and>
     fst (get_taxonomy_matcher (cs_tax st')) = Some m \<and> fst (category_of m ''torrent'') = Some ''p2p'' \<and> tx_entries (cs_tax st') = []"
proof -
  let ?t = "plain_tax [plain_doc ''1'' ''p2p'' [''torrent'']] [''p2p'']" let ?others = "\<lambda>t. snd (delete_category ''p2p'' t)"
  obtain st' where r: "rebuild_app_summaries ?others (plain_cache ?t [plain_app ''a'' ''torrent'']) = (Some 1, st')" using plain_rebuild by blast
  have "fst (category_of (load_taxonomy_entries ?t) ''torrent'') = Some ''p2p''"
    by (simp add: category_of_def matcher_match_def exact_table_def keyed_patterns_def load_taxonomy_entries_def plain_tax_def plain_doc_def
        is_glob_def GLOB_CHARS_def lower_def lower_char_def)
  moreover have "tx_entries (?others ?t) = []"
    by (simp add: delete_category_def get_category_def delete_entries_def delete_many_def delete_category_doc_def invalidate_taxonomy_cache_def
        plain_tax_defs Let_def)
  ultimately show ?thesis using rebuild_reinstalls_stale_matcher [OF r] r by (auto simp: plain_cache_def)
qed

text \<open>A rebuild writes the summaries anew without the end-of-life matches that matching had stored in them: until matching runs again, the
  compliance check for end-of-life software reports no violation, whatever is installed.\<close>

theorem rebuild_hides_eol_software:
  "rebuild_app_summaries others st = (Some n, st') \<Longrightarrow> 0 < n \<Longrightarrow>
     cd_summaries db = map app_summary.truncate (tx_summaries (cs_tax st')) \<Longrightarrow> eol_software_check db now m ps q = Inr r \<Longrightarrow>
     c_violations r = [] \<and> c_status r \<in> {CPass, CNotApplicable}"
proof -
  assume r: "rebuild_app_summaries others st = (Some n, st')" "0 < n"
    and db: "cd_summaries db = map app_summary.truncate (tx_summaries (cs_tax st'))" and c: "eol_software_check db now m ps q = Inr r"
  have "\<forall>s\<in>set (cd_summaries db). su_eol_match s = None"
    unfolding db rebuild_Some(1) [OF r] by (auto simp: summary_of_def app_summary.truncate_def Let_def split: prod.split)
  then have none: "mapped_apps conf excl cycles (cd_summaries db) = []" for conf excl cycles
  proof -
    have "\<forall>s\<in>set ss. su_eol_match s = None \<Longrightarrow> mapped_apps conf excl cycles ss = []" for ss :: "app_summary list"
      by (induction ss rule: rev_induct) (auto simp: mapped_apps_def)
    then show "\<forall>s\<in>set (cd_summaries db). su_eol_match s = None \<Longrightarrow> ?thesis" by blast
  qed
  show ?thesis using c
    by (auto simp: eol_software_check_def none on_ok_Inr not_applicable_result_def mk_result_def Let_def split: if_splits)
qed

definition one_endpoint :: "summary_doc list \<Rightarrow> comp_db" where
  "one_endpoint ss = \<lparr>cd_agents = [\<lparr>ag_source_id = Some ''a'', ag_hostname = None, ag_installed = None, ag_group_name = None, ag_tags = None,
       ag_version = None, ag_last_active = None\<rparr>], cd_apps = [], cd_summaries = map app_summary.truncate ss, cd_sync_runs = [],
     cd_classified = [], cd_eol_products = [], cd_today = (2025, 1, 1)\<rparr>"

lemma rebuild_hides_eol_software_witness:
  "\<exists>st' r. rebuild_app_summaries (\<lambda>t. t) (plain_cache (plain_tax [plain_doc ''1'' ''p2p'' [''torrent'']] [''p2p'']) [plain_app ''a'' ''torrent'']) =
       (Some 1, st') \<and>
     eol_software_check (one_endpoint (tx_summaries (cs_tax st'))) 0 m [(''min_match_confidence'', PInt 0)] QAll = Inr r \<and> c_violations r = []"
proof -
  obtain st' where r: "rebuild_app_summaries (\<lambda>t. t) (plain_cache (plain_tax [plain_doc ''1'' ''p2p'' [''torrent'']] [''p2p''])
      [plain_app ''a'' ''torrent'']) = (Some 1, st')" using plain_rebuild by blast
  let ?db = "one_endpoint (tx_summaries (cs_tax st'))"
  have "\<exists>res. eol_software_check ?db 0 m [(''min_match_confidence'', PInt 0)] QAll = Inr res"
    by (auto simp: eol_software_check_def in_scope_def one_endpoint_def get_number_def get_param_def strings_param_def source_ids_def
        source_id_def py_truthy_def on_ok_Inr Let_def split: if_split)
  then obtain res where res: "eol_software_check ?db 0 m [(''min_match_confidence'', PInt 0)] QAll = Inr res" by blast
  have "c_violations res = []"
    using rebuild_hides_eol_software [OF r _ _ res] by (simp add: one_endpoint_def)
  then show ?thesis using r res by blast
qed

text \<open>When no application is left active the rebuild leaves the collection as it is: the summaries of applications that are gone stay.\<close>

theorem summaries_outlive_applications:
  "\<forall>a\<in>set (cs_apps st). ap_active a = Some False \<Longrightarrow> rebuild_app_summaries others st = (Some 0, st)"
  by (simp add: rebuild_app_summaries_def agent_entries_def group_keys_def map_filter_simps Let_def filter_False)

end
