(* ===== verification/Spec2Isabelle.thy ===== *)
theory Spec2Isabelle
  imports Verifier AuditLog EnforcementTheorems AccountTheorems RateLimit ApiKeyTheorems EolTheorems ComplianceEngineTheorems ClassificationTheorems
    FingerprintTheorems AppCacheTheorems
begin

text \<open>
  \<^bold>\<open>Sentora: the audit chain, enforcement, authentication and access control.\<close>

  Sentora is a FastAPI server over MongoDB (\<open>src/backend\<close>) that imports the software of a fleet of
  endpoints, checks it against rules, and records what its users do in a hash-chained audit log; a separate
  program (\<open>src/tools/sentora_verify\<close>) checks exported parts of that log offline. The development models the
  parts whose correctness the product rests on. Every definition is a translation of the code that it names
  and evaluates in the kernel on concrete inputs.

  \<^bold>\<open>The parts and how they meet.\<close>

  A request passes the rate-limiting middleware (\<open>RateLimit\<close>), then the dependency that checks its JWT
  (\<open>AuthRoutes\<close>) or its API key (\<open>ApiKeys\<close>, which asks two limiters of \<open>RateLimit\<close> per key), then a handler.
  The handlers of local accounts (\<open>AuthRoutes\<close>) work on users, sessions and refresh tokens (\<open>AuthStore\<close>,
  \<open>AuthTokens\<close>). Enforcement runs (\<open>EnforcementService\<close>) evaluate rules (\<open>Enforcement\<close>) on the endpoints
  (\<open>Fleet\<close>) with the patterns of \<open>Glob\<close>. Handlers call the audit entry point (\<open>AuditLog\<close>), which appends to the
  chain (\<open>ChainCommands\<close>) under the distributed lock (\<open>Lease\<close>); the chain is verified by the server
  (\<open>ChainQueries\<close>) and, after an export, by the offline verifier (\<open>Verifier\<close>).

  \<^bold>\<open>Theories, in the order they build on each other.\<close>

  \<^item> \<open>Prelude\<close>: instants (integers, microseconds), decimal printing, \<open>str.lower\<close>, collections as lists of
    documents with \<open>update_first\<close> (\<open>update_one\<close>), \<open>update_many\<close>, \<open>delete_many\<close>, and the locale \<open>lasting\<close>
    (facts that every step keeps).
  \<^item> \<open>Pyjson\<close>, \<open>Sha256\<close>, \<open>Hasher\<close>: Python values and \<open>json.dumps(sort_keys=True)\<close> with its injectivity, the
    digest, and \<open>audit/chain/hasher.py\<close> with the timestamp normalisation.
  \<^item> \<open>HashChain\<close>: the locale of a digest chain; what a digest chain proves is proved once there, and both
    verifiers rest on its interpretation in \<open>ChainSpec\<close>.
  \<^item> \<open>Lease\<close>: \<open>utils/distributed_lock.py\<close> and \<open>utils/leader_election.py\<close>, both interpretations of one locale of
    expiring claims.
  \<^item> \<open>ChainStore\<close>, \<open>ChainCommands\<close>, \<open>ChainQueries\<close>: \<open>audit/chain/repository.py\<close>, \<open>commands.py\<close>, \<open>queries.py\<close>.
    \<open>ChainSpec\<close> says what a correct chain is, \<open>ChainTheorems\<close> that the commands keep it and that the queries
    decide it.
  \<^item> \<open>Verifier\<close>: \<open>tools/sentora_verify/verifier.py\<close> and \<open>__main__.py\<close>, against the same specification.
  \<^item> \<open>AuditLog\<close>: \<open>audit/log.py\<close>, the fallback to plain entries and the bounded retry queues.
  \<^item> \<open>Glob\<close>, \<open>Fleet\<close>, \<open>Enforcement\<close>, \<open>EnforcementService\<close>, \<open>EnforcementTheorems\<close>: \<open>fingerprint/matcher.py\<close>
    (patterns), \<open>utils/scope.py\<close>, \<open>domains/enforcement\<close>.
  \<^item> \<open>AuthStore\<close>: the documents of \<open>domains/auth\<close>, \<open>session_service.py\<close>, \<open>session_revocation.py\<close>,
    \<open>utils/user_revocation.py\<close>. \<open>AuthTokens\<close>: \<open>service.py\<close>, \<open>first_user.py\<close>. \<open>AuthRoutes\<close>: \<open>middleware/auth.py\<close>
    and the handlers of \<open>router.py\<close>. \<open>AuthSteps\<close>: the domain as a step relation, one database call a step.
    \<open>AuthTheorems\<close>, \<open>AccountTheorems\<close>: tokens and sessions; accounts and privileges.
  \<^item> \<open>RateLimit\<close>: \<open>utils/rate_limit.py\<close>, \<open>middleware/rate_limit.py\<close>, \<open>utils/http.py\<close>, with the log that the
    limiter refines.
  \<^item> \<open>ApiKeys\<close>, \<open>ApiKeyTheorems\<close>: \<open>domains/api_keys\<close>.

  \<^bold>\<open>Conventions.\<close>

  A collection is the list of its documents in natural order; a unique index is a refusal of the insertion. A
  random identifier or salt is an argument. An operation reads the clock once, unless two readings
  matter, and then takes both. Where an operation makes several database calls, the other workers are
  arguments: functions on the state that run between the calls (the identity when nobody else is active). Whether
  a write succeeds, fails, or succeeds without being acknowledged is an argument, too. Raised exceptions are the
  left summand of the result; the HTTP handlers carry their status code and detail.

  Libraries are parameters with their documented behaviour as a hypothesis where a property needs it:
  PyJWT (\<open>jwt_ok\<close>), bcrypt, pyotp, Fernet and the breach service (fields of \<open>auth_lib\<close>), and the membership
  test of the proxy networks. SHA-256, \<open>json\<close>, \<open>strptime\<close>, \<open>fnmatch\<close> and \<open>re.escape\<close> on the patterns in use are written
  out.

  \<^bold>\<open>Loops and fuel.\<close>

  The verification loop is a \<open>partial_function\<close> in the option monad, and \<open>verify_full_chain_returns\<close> says when it
  returns. The lock acquisition loop has the ten attempts of the code as its fuel. The retry loop of the audit
  log is one pass over the queues per call, as its timer runs it; the refresh loops of the caches are their body,
  repeated. All other recursion is structural.

  \<^bold>\<open>What the lemmas show.\<close>

  Audit chain: appends keep a valid, gap-free, linked chain, failed writes included; verification accepts exactly
  such chains, reports the first break, terminates, and detects every change of a covered entry short of a SHA-256
  collision, but not the removal of the newest entries; the offline verifier agrees with it, and rejects
  genuine exports because of the export hash. Leases: two live owners never coexist. Enforcement: the
  verdict of a rule is its declarative meaning. Authentication: a refresh token works once, a revoked session and
  a user who lost rights are cut off at once on this worker, privileges are respected by every sequence of
  administrative calls, the lockout counts exactly; and the races and gaps that break what the code means to do. Limits: the
  limiter behaves like a log that forgets nothing, the middleware and the keys stay within their limits.

  \<^bold>\<open>Not modelled.\<close>

  Single sign-on (OIDC, SAML), imports from external services, floating point scores (fingerprint matching,
  classification), compliance catalogues, taxonomy and library management, dashboards, webhook
  delivery, backups, metrics and WebSocket broadcasts: they are input and output around external services, or
  read-only listings, or still to come. Collisions of random identifiers are not modelled except where a unique index
  catches them (API keys). The retry of one queued audit entry is one step: other workers do not run between the
  removal from the queue and the outcome of the write. Characters are Latin-1 code points.
\<close>

end
